(* ===== verification/Prelude.thy ===== *)
theory Prelude
  imports Complex_Main "HOL-Library.Sublist" "HOL-Library.AList"
begin

text \<open>
  Vocabulary shared by every component of the development: the JavaScript string operations
  the sources use (over ASCII text, a string being a list of characters), JavaScript's
  insertion-ordered \<open>Map\<close> as an association list, the decimal rendering and reading of a
  \<open>bigint\<close>, and two interfaces that several components implement: a case-insensitive
  memory of addresses and the replay of recorded history into a state.
\<close>

section \<open>Collections of facts\<close>

named_theorems op_defs \<open>definitions of the modelled operations, for unfolding\<close>
named_theorems inv_intros \<open>introduction rules of the component invariants\<close>

section \<open>JavaScript strings\<close>

text \<open>\<open>String.prototype.toLowerCase\<close> on ASCII.\<close>

definition lower_char :: "char \<Rightarrow> char" where
  "lower_char c = (let n = (of_char c :: nat) in if 65 \<le> n \<and> n \<le> 90 then char_of (n + 32) else c)"

definition lower :: "string \<Rightarrow> string" where
  "lower s = map lower_char s"

text \<open>The characters \<open>String.prototype.trim\<close> removes (below 256).\<close>

definition is_space :: "char \<Rightarrow> bool" where
  "is_space c = (let n = (of_char c :: nat) in n \<in> {9, 10, 11, 12, 13, 32, 160})"

definition trim :: "string \<Rightarrow> string" where
  "trim s = rev (dropWhile is_space (rev (dropWhile is_space s)))"

definition starts_with :: "string \<Rightarrow> string \<Rightarrow> bool" where
  "starts_with s p = (take (length p) s = p)"

definition ends_with :: "string \<Rightarrow> string \<Rightarrow> bool" where
  "ends_with s p = starts_with (rev s) (rev p)"

text \<open>\<open>split sep s\<close>: the pieces of \<open>s\<close> between the separators, as \<open>s.split(sep)\<close> gives them.\<close>

fun split_on :: "char \<Rightarrow> string \<Rightarrow> string list" where
  "split_on c [] = [[]]"
| "split_on c (x # xs) =
     (if x = c then [] # split_on c xs
      else (case split_on c xs of [] \<Rightarrow> [[x]] | w # ws \<Rightarrow> (x # w) # ws))"

section \<open>Decimal rendering and reading of integers\<close>

definition digit_char :: "nat \<Rightarrow> char" where
  "digit_char d = char_of (48 + d)"

fun nat_to_string :: "nat \<Rightarrow> string" where
  "nat_to_string n =
     (if n < 10 then [digit_char n] else nat_to_string (n div 10) @ [digit_char (n mod 10)])"

declare nat_to_string.simps [simp del]

text \<open>\<open>BigInt.prototype.toString()\<close>.\<close>

definition bigint_to_string :: "int \<Rightarrow> string" where
  "bigint_to_string n =
     (if n < 0 then CHR ''-'' # nat_to_string (nat (- n)) else nat_to_string (nat n))"

definition digit_value :: "char \<Rightarrow> nat option" where
  "digit_value c = (let n = (of_char c :: nat) in if 48 \<le> n \<and> n \<le> 57 then Some (n - 48) else None)"

fun digits_value :: "nat \<Rightarrow> string \<Rightarrow> nat option" where
  "digits_value acc [] = Some acc"
| "digits_value acc (c # cs) =
     (case digit_value c of None \<Rightarrow> None | Some d \<Rightarrow> digits_value (10 * acc + d) cs)"

text \<open>
  \<open>BigInt(s)\<close> on a string: white space around it is ignored, the empty string is \<open>0\<close>, digits
  after the prefix of a base are read in that base, a sign is allowed before decimal digits only,
  and anything else throws (\<open>None\<close>).
\<close>

definition radix_digit :: "nat \<Rightarrow> char \<Rightarrow> nat option" where
  "radix_digit b c =
     (let n = (of_char (lower_char c) :: nat);
          d = (if 48 \<le> n \<and> n \<le> 57 then n - 48 else if 97 \<le> n \<and> n \<le> 102 then n - 87 else b)
      in if d < b then Some d else None)"

fun radix_value :: "nat \<Rightarrow> nat \<Rightarrow> string \<Rightarrow> nat option" where
  "radix_value b acc [] = Some acc"
| "radix_value b acc (c # cs) =
     (case radix_digit b c of None \<Rightarrow> None | Some d \<Rightarrow> radix_value b (b * acc + d) cs)"

definition radix_of :: "char \<Rightarrow> nat option" where
  "radix_of c =
     (let l = lower_char c
      in if l = CHR ''x'' then Some 16 else if l = CHR ''o'' then Some 8 else if l = CHR ''b'' then Some 2 else None)"

definition bigint_of_string :: "string \<Rightarrow> int option" where
  "bigint_of_string s =
     (case trim s of
        [] \<Rightarrow> Some 0
      | c # cs \<Rightarrow>
          if c = CHR ''-'' then (if cs = [] then None else map_option (\<lambda>n. - int n) (digits_value 0 cs))
          else if c = CHR ''+'' then (if cs = [] then None else map_option int (digits_value 0 cs))
          else (case (if c = CHR ''0'' \<and> cs \<noteq> [] then radix_of (hd cs) else None) of
                  Some b \<Rightarrow> if tl cs = [] then None else map_option int (radix_value b 0 (tl cs))
                | None \<Rightarrow> map_option int (digits_value 0 (c # cs))))"

section \<open>Facts about strings\<close>

lemma of_char_nat_bound: "(of_char c :: nat) < 256"
proof -
  have "of_char c \<in> range (of_char :: char \<Rightarrow> nat)" by (rule rangeI)
  then show ?thesis by (simp only: range_nat_of_char) simp
qed

lemma of_char_lower_char:
  "(of_char (lower_char c) :: nat) =
     (let n = of_char c :: nat in if 65 \<le> n \<and> n \<le> 90 then n + 32 else n)"
  by (simp add: lower_char_def Let_def)

lemma lower_char_idem [simp]: "lower_char (lower_char c) = lower_char c"
proof -
  have "(of_char (lower_char (lower_char c)) :: nat) = of_char (lower_char c)"
    by (simp add: of_char_lower_char Let_def)
  then show ?thesis by simp
qed

lemma lower_idem [simp]: "lower (lower s) = lower s"
  by (simp add: lower_def)

lemma lower_Nil [simp]: "lower [] = []"
  by (simp add: lower_def)

lemma lower_append: "lower (s @ t) = lower s @ lower t"
  by (simp add: lower_def)

lemma length_lower [simp]: "length (lower s) = length s"
  by (simp add: lower_def)

lemma starts_with_iff_prefix: "starts_with s p \<longleftrightarrow> prefix p s"
  by (metis append_eq_conv_conj prefix_def starts_with_def take_is_prefix)

lemma ends_with_iff_suffix: "ends_with s p \<longleftrightarrow> suffix p s"
  by (simp add: ends_with_def starts_with_iff_prefix suffix_to_prefix)

lemma split_on_nonempty [simp]: "split_on c s \<noteq> []"
  by (induction s) (auto split: list.splits)

lemma split_on_append_sep: "split_on c (s @ c # t) = split_on c s @ split_on c t"
  by (induction s) (auto split: list.splits)

lemma split_on_inj: "split_on c s = split_on c t \<Longrightarrow> s = t"
proof (induction s arbitrary: t)
  case Nil
  then show ?case by (cases t) (auto split: list.splits if_splits)
next
  case (Cons x xs)
  then show ?case by (cases t) (auto split: list.splits if_splits)
qed

lemma split_on_no_sep: "c \<notin> set s \<Longrightarrow> split_on c s = [s]"
  by (induction s) auto

section \<open>Decimal strings read back\<close>

lemma digit_value_digit_char: "d < 10 \<Longrightarrow> digit_value (digit_char d) = Some d"
  by (simp add: digit_value_def digit_char_def Let_def)

lemma digits_value_snoc:
  "digits_value acc (s @ [c]) =
     (case digits_value acc s of None \<Rightarrow> None
      | Some v \<Rightarrow> (case digit_value c of None \<Rightarrow> None | Some d \<Rightarrow> Some (10 * v + d)))"
  by (induction s arbitrary: acc) (auto split: option.splits)

lemma digits_value_nat_to_string: "digits_value 0 (nat_to_string n) = Some n"
proof (induction n rule: nat_to_string.induct)
  case (1 n)
  then show ?case
    by (subst nat_to_string.simps)
       (auto simp: digits_value_snoc digit_value_digit_char split: option.splits)
qed

lemma nat_to_string_digits: "c \<in> set (nat_to_string n) \<Longrightarrow> \<exists>d < 10. c = digit_char d"
proof (induction n rule: nat_to_string.induct)
  case (1 n)
  show ?case
  proof (cases "n < 10")
    case True
    then show ?thesis using "1.prems" nat_to_string.simps [of n] by auto
  next
    case False
    then consider "c \<in> set (nat_to_string (n div 10))" | "c = digit_char (n mod 10)"
      using "1.prems" nat_to_string.simps [of n] by auto
    then show ?thesis
    proof cases
      case 1
      then show ?thesis using "1.IH" False by blast
    next
      case 2
      have "n mod 10 < 10" by simp
      then show ?thesis using 2 by blast
    qed
  qed
qed

lemma nat_to_string_nonempty [simp]: "nat_to_string n \<noteq> []"
  by (subst nat_to_string.simps) simp

lemma digit_char_plain:
  "d < 10 \<Longrightarrow> \<not> is_space (digit_char d) \<and> digit_char d \<noteq> CHR ''-'' \<and> digit_char d \<noteq> CHR ''+''"
proof -
  assume "d < 10"
  then have "(of_char (digit_char d) :: nat) = 48 + d" by (simp add: digit_char_def)
  then show ?thesis using \<open>d < 10\<close> by (auto simp: is_space_def Let_def)
qed

lemma radix_of_digit: "d < 10 \<Longrightarrow> radix_of (digit_char d) = None"
proof -
  assume "d < 10"
  then have "(of_char (lower_char (digit_char d)) :: nat) = 48 + d"
    by (simp add: of_char_lower_char digit_char_def Let_def)
  then show ?thesis using \<open>d < 10\<close> by (auto simp: radix_of_def Let_def)
qed

lemma trim_plain: "(\<And>c. c \<in> set s \<Longrightarrow> \<not> is_space c) \<Longrightarrow> trim s = s"
proof -
  assume "\<And>c. c \<in> set s \<Longrightarrow> \<not> is_space c"
  then have "dropWhile is_space t = t" if "set t \<subseteq> set s" for t
    using that by (cases t) auto
  then show ?thesis by (simp add: trim_def)
qed

lemma bigint_of_string_to_string: "bigint_of_string (bigint_to_string n) = Some n"
proof -
  have plain: "\<not> is_space c \<and> c \<noteq> CHR ''-'' \<and> c \<noteq> CHR ''+''" if c: "c \<in> set (nat_to_string k)" for c k
  proof -
    obtain d where "d < 10" "c = digit_char d" using nat_to_string_digits [OF c] by auto
    then show ?thesis using digit_char_plain [of d] by simp
  qed
  have "\<not> is_space (CHR ''-'')" by (simp add: is_space_def Let_def)
  then have digits: "trim (nat_to_string k) = nat_to_string k"
    "trim (CHR ''-'' # nat_to_string k) = CHR ''-'' # nat_to_string k" for k
    by (rule_tac trim_plain; use plain [of _ k] in auto)+
  have head: "\<exists>c cs. nat_to_string k = c # cs \<and> c \<noteq> CHR ''-'' \<and> c \<noteq> CHR ''+''" for k
    using plain [of _ k] by (cases "nat_to_string k") auto
  show ?thesis
  proof (cases "n < 0")
    case True
    then show ?thesis
      by (simp add: bigint_of_string_def bigint_to_string_def digits digits_value_nat_to_string)
  next
    case False
    obtain c cs where c: "nat_to_string (nat n) = c # cs" "c \<noteq> CHR ''-''" "c \<noteq> CHR ''+''"
      using head by blast
    then have "cs \<noteq> [] \<Longrightarrow> radix_of (hd cs) = None"
      using nat_to_string_digits [of "hd cs" "nat n"] radix_of_digit by auto
    then have "(if c = CHR ''0'' \<and> cs \<noteq> [] then radix_of (hd cs) else None) = None" by simp
    then show ?thesis
      using False c digits(1) [of "nat n"] digits_value_nat_to_string [of "nat n"]
      by (simp add: bigint_of_string_def bigint_to_string_def del: digits_value.simps)
  qed
qed

lemma bigint_to_string_inj [simp]: "bigint_to_string m = bigint_to_string n \<longleftrightarrow> m = n"
  by (metis bigint_of_string_to_string option.inject)

section \<open>Case-insensitive memories\<close>

text \<open>
  Several components remember addresses and ask later whether they have seen one, always up to
  letter case: the counterparties of the policy evaluator and of the behavioral baseline, the
  nonces in flight. The contract is one law; what the clients need follows from it.
\<close>

locale ci_memory =
  fixes remember :: "string \<Rightarrow> 's \<Rightarrow> 's"
    and recalls :: "'s \<Rightarrow> string \<Rightarrow> bool"
  assumes recalls_remember: "recalls (remember a s) b \<longleftrightarrow> lower b = lower a \<or> recalls s b"
    and recalls_lower: "recalls s (lower a) \<longleftrightarrow> recalls s a"
begin

lemma recalls_self: "recalls (remember a s) a"
  by (simp add: recalls_remember)

lemma recalls_grows: "recalls s b \<Longrightarrow> recalls (remember a s) b"
  by (simp add: recalls_remember)

lemma recalls_case: "lower a = lower b \<Longrightarrow> recalls s a \<longleftrightarrow> recalls s b"
  by (metis recalls_lower)

lemma recalls_fold:
  "recalls (fold remember as s) b \<longleftrightarrow> (\<exists>a \<in> set as. lower b = lower a) \<or> recalls s b"
  by (induction as arbitrary: s) (auto simp: recalls_remember)

end

section \<open>Replay of recorded history\<close>

text \<open>
  On startup the guard rebuilds the state of its components from the audit log. A component
  selects and orders the entries it wants and replays each of them through the operation it
  uses live. Whatever every replayed step keeps, the whole replay keeps.
\<close>

locale replay =
  fixes step :: "'e \<Rightarrow> 's \<Rightarrow> 's"
    and select :: "'e list \<Rightarrow> 'e list"
    and hydrate :: "'e list \<Rightarrow> 's \<Rightarrow> 's"
  assumes hydrate_eq: "hydrate es s = fold step (select es) s"
    and select_subset: "set (select es) \<subseteq> set es"
begin

lemma hydrate_empty: "hydrate [] s = s"
  using select_subset [of "[]"] by (simp add: hydrate_eq)

lemma hydrate_keeps:
  assumes "\<And>e t. e \<in> set es \<Longrightarrow> P t \<Longrightarrow> P (step e t)" and "P s"
  shows "P (hydrate es s)"
proof -
  have "P (fold step xs s)" if "set xs \<subseteq> set es" for xs
    using that \<open>P s\<close> by (induction xs arbitrary: s) (auto intro: assms(1))
  then show ?thesis
    using select_subset [of es] by (simp add: hydrate_eq)
qed

lemma hydrate_frame:
  assumes "\<And>e t. e \<in> set es \<Longrightarrow> f (step e t) = f t"
  shows "f (hydrate es s) = f s"
  by (rule hydrate_keeps [of es "\<lambda>t. f t = f s"]) (simp_all add: assms)

end

end
