(* ===== verification/Types.thy ===== *)
theory Types
  imports Prelude
begin

text \<open>
  The data of \<open>packages/core/src/types.ts\<close>: payment requests, decisions, policies, audit
  entries. A TypeScript interface is a record with the source's fields (each under a short
  prefix, since record fields are global names), a string union is a datatype, an optional
  field is an \<open>option\<close>, a \<open>bigint\<close> and an integral number (milliseconds, counts) is an
  \<open>int\<close>, a fractional number (risk scores, thresholds) a \<open>real\<close>, so that floating-point
  rounding and NaN are outside the model.

  A human-readable message is a value of \<open>message\<close>: one constructor per template literal of
  the sources, carrying the values it interpolates (before \<open>formatUnits\<close> and \<open>toFixed\<close>
  render them); \<open>M_text\<close> and \<open>R_text\<close> are texts read back from the store. No decision of the
  code reads a message's text.
\<close>

type_synonym address = string
type_synonym hex = string

record payment_request =
  r_intent :: string
  r_amount :: int
  r_token :: address
  r_recipient :: address
  r_chain :: string
  r_agentId :: string
  r_resourceUrl :: "string option"

datatype verdict = Allow | Block | Escalate

datatype severity = Info | Warning | Critical

datatype spend_window = Transaction | Session | Hour | Day

datatype allowlist_mode = Recipients | Resources

datatype rule_action = RBlock | REscalate | RWarn

datatype anomaly_action = ABlock | AEscalate

datatype message =
    M_spend_exceeds spend_window int int
  | M_over_escalation int int
  | M_within_cap spend_window int int
  | M_allowlisted allowlist_mode
  | M_not_allowlisted allowlist_mode string
  | M_not_allowlisted_warn allowlist_mode string
  | M_rate_exceeded int int int
  | M_rate_within int int int
  | M_known_counterparty
  | M_first_payment_to string
  | M_hour_within int int int
  | M_hour_outside int int int
  | M_no_cap_coverage address
  | M_amount_spike real
  | M_frequency_spike real
  | M_multivariate real
  | M_no_resource_url
  | M_first_for_resource string string
  | M_previously_paid string string
  | M_payee_mismatch string "string list" string
  | M_intent_no_llm
  | M_intent_below int
  | M_intent_unavailable string
  | M_intent_consistent
  | M_intent_mismatch string
  | M_breaker_open
  | M_amount_not_positive int
  | M_bad_address string string
  | M_bad_checksum string string
  | M_bad_chain string
  | M_text string

record policy_check =
  c_id :: string
  c_passed :: bool
  c_severity :: severity
  c_message :: message

record escalation_target =
  et_method :: string
  et_destination :: string
  et_timeoutSeconds :: int

datatype reason =
    R_breaker_open
  | R_invalid message
  | R_allowed real
  | R_failed verdict real "message list"
  | R_text string

record policy_decision =
  d_verdict :: verdict
  d_riskScore :: real
  d_checks :: "policy_check list"
  d_reason :: reason
  d_escalation :: "escalation_target option"

record spend_cap_rule =
  sc_window :: spend_window
  sc_maxAmount :: int
  sc_token :: address
  sc_escalateAbove :: "int option"

record allowlist_rule =
  al_mode :: allowlist_mode
  al_entries :: "string list"
  al_enforce :: bool

record rate_limit_rule =
  rl_maxPayments :: int
  rl_windowSeconds :: int

record counterparty_rule =
  cp_flagNewRecipients :: bool
  cp_action :: rule_action

record time_window_rule =
  tw_allowedHours :: "int \<times> int"
  tw_action :: rule_action

datatype policy_rule =
    SpendCap spend_cap_rule
  | Allowlist allowlist_rule
  | RateLimit rate_limit_rule
  | Counterparty counterparty_rule
  | TimeWindow time_window_rule

record policy =
  p_agentId :: string
  p_rules :: "policy_rule list"
  p_anomalyThreshold :: real
  p_anomalyAction :: anomaly_action
  p_sourceText :: "string option"

record settlement =
  s_txHash :: "hex option"
  s_nonce :: "hex option"
  s_facilitator :: "string option"
  s_success :: bool

record audit_entry =
  e_id :: string
  e_timestamp :: int
  e_agentId :: string
  e_request :: payment_request
  e_decision :: policy_decision
  e_settlement :: "settlement option"
  e_entryHash :: hex

text \<open>\<open>e.settlement?.success\<close>, read as a condition.\<close>

definition settled :: "audit_entry \<Rightarrow> bool" where
  "settled e = (case e_settlement e of None \<Rightarrow> False | Some s \<Rightarrow> s_success s)"

text \<open>
  The predicate \<open>(c) => !c.passed && c.id.startsWith("behavioral-")\<close> that the guard, the
  circuit breaker and the analytics share.
\<close>

definition behavioral_id :: "string \<Rightarrow> bool" where
  "behavioral_id i = starts_with i ''behavioral-''"

definition anomaly_fired :: "policy_check list \<Rightarrow> bool" where
  "anomaly_fired cs = list_ex (\<lambda>c. \<not> c_passed c \<and> behavioral_id (c_id c)) cs"

section \<open>Verdicts and severities are ordered by strictness\<close>

text \<open>\<open>{ allow: 0, escalate: 1, block: 2 }[v]\<close>, which the Merkle leaf also uses.\<close>

fun verdict_to_num :: "verdict \<Rightarrow> nat" where
  "verdict_to_num Allow = 0"
| "verdict_to_num Escalate = 1"
| "verdict_to_num Block = 2"

lemma verdict_to_num_inj [simp]: "verdict_to_num v = verdict_to_num w \<longleftrightarrow> v = w"
  by (cases v; cases w) simp_all

instantiation verdict :: linorder
begin

definition less_eq_verdict :: "verdict \<Rightarrow> verdict \<Rightarrow> bool" where
  "less_eq_verdict v w = (verdict_to_num v \<le> verdict_to_num w)"

definition less_verdict :: "verdict \<Rightarrow> verdict \<Rightarrow> bool" where
  "less_verdict v w = (verdict_to_num v < verdict_to_num w)"

instance
  by standard (auto simp: less_eq_verdict_def less_verdict_def)

end

lemma Allow_least [simp]: "Allow \<le> v"
  by (cases v) (simp_all add: less_eq_verdict_def)

lemma Block_greatest [simp]: "v \<le> Block"
  by (cases v) (simp_all add: less_eq_verdict_def)

lemma anomaly_fired_append [simp]:
  "anomaly_fired (cs @ ds) \<longleftrightarrow> anomaly_fired cs \<or> anomaly_fired ds"
  by (simp add: anomaly_fired_def)

end
