(* ===== verification/Rules.thy ===== *)
theory Rules
  imports Types
begin

text \<open>
  The deterministic policy rules of \<open>packages/core/src/policy/rules.ts\<close>. Each rule is a pure
  function of the rule, the request and a snapshot of the agent's state (\<open>rule_context\<close>) and
  returns at most one check plus the wish to escalate.

  The URL parser (\<open>new URL\<close>) is the argument \<open>parse_url\<close> of the definitions that use it:
  \<open>None\<close> where the constructor throws. Every theorem here holds for any parser.
\<close>

record url =
  u_host :: string
  u_pathname :: string

record rule_context =
  ctx_req :: payment_request
  ctx_now :: int
  ctx_windowedSpend :: "spend_window \<Rightarrow> string \<Rightarrow> int"
  ctx_recentPaymentCount :: "int \<Rightarrow> int"
  ctx_isNewCounterparty :: "string \<Rightarrow> bool"

record rule_result =
  rr_check :: "policy_check option"
  rr_escalate :: bool

definition no_result :: rule_result where
  "no_result = \<lparr>rr_check = None, rr_escalate = False\<rparr>"

definition pass :: "string \<Rightarrow> message \<Rightarrow> rule_result" where
  "pass i m =
     \<lparr>rr_check = Some \<lparr>c_id = i, c_passed = True, c_severity = Info, c_message = m\<rparr>,
      rr_escalate = False\<rparr>"

definition failing :: "string \<Rightarrow> severity \<Rightarrow> message \<Rightarrow> bool \<Rightarrow> rule_result" where
  "failing i sev m esc =
     \<lparr>rr_check = Some \<lparr>c_id = i, c_passed = False, c_severity = sev, c_message = m\<rparr>,
      rr_escalate = esc\<rparr>"

section \<open>Spend caps\<close>

fun window_name :: "spend_window \<Rightarrow> string" where
  "window_name Transaction = ''transaction''"
| "window_name Session = ''session''"
| "window_name Hour = ''hour''"
| "window_name Day = ''day''"

definition checkSpendCap :: "spend_cap_rule \<Rightarrow> rule_context \<Rightarrow> rule_result" where
  "checkSpendCap rule ctx =
     (if lower (sc_token rule) \<noteq> lower (r_token (ctx_req ctx)) then no_result
      else
        let i = ''spend-cap-'' @ window_name (sc_window rule);
            amount = r_amount (ctx_req ctx);
            prior = (if sc_window rule = Transaction then 0
                     else ctx_windowedSpend ctx (sc_window rule) (sc_token rule));
            total = prior + amount
        in if total > sc_maxAmount rule then
             failing i Critical (M_spend_exceeds (sc_window rule) total (sc_maxAmount rule)) False
           else (case sc_escalateAbove rule of
               Some limit \<Rightarrow>
                 if amount > limit then failing i Warning (M_over_escalation amount limit) True
                 else pass i (M_within_cap (sc_window rule) total (sc_maxAmount rule))
             | None \<Rightarrow> pass i (M_within_cap (sc_window rule) total (sc_maxAmount rule))))"

section \<open>Allowlists\<close>

text \<open>\<open>entryPath.replace(/\/+$/, "")\<close>.\<close>

definition strip_slashes :: "string \<Rightarrow> string" where
  "strip_slashes s = rev (dropWhile (\<lambda>c. c = CHR ''/'') (rev s))"

definition resourceMatches :: "url \<Rightarrow> string \<Rightarrow> bool" where
  "resourceMatches u entry =
     (let entryHost = takeWhile (\<lambda>c. c \<noteq> CHR ''/'') entry;
          entryPath = dropWhile (\<lambda>c. c \<noteq> CHR ''/'') entry
      in if entryHost = [] then False
         else
           let host = lower (u_host u);
               hostOk = (host = entryHost \<or> ends_with host (CHR ''.'' # entryHost))
           in if \<not> hostOk then False
              else if entryPath = [] then True
              else
                let path = lower (u_pathname u);
                    pfx = strip_slashes entryPath
                in path = pfx \<or> starts_with path (pfx @ ''/''))"

definition matchesResource :: "(string \<Rightarrow> url option) \<Rightarrow> string \<Rightarrow> string list \<Rightarrow> bool" where
  "matchesResource parse_url target entries =
     (if target = [] \<or> entries = [] then False
      else (case parse_url target of
          None \<Rightarrow> False
        | Some u \<Rightarrow> list_ex (\<lambda>e. resourceMatches u e) entries))"

fun mode_name :: "allowlist_mode \<Rightarrow> string" where
  "mode_name Recipients = ''recipients''"
| "mode_name Resources = ''resources''"

definition normalize_entries :: "string list \<Rightarrow> string list" where
  "normalize_entries es = filter (\<lambda>e. e \<noteq> []) (map (\<lambda>e. lower (trim e)) es)"

definition checkAllowlist ::
  "(string \<Rightarrow> url option) \<Rightarrow> allowlist_rule \<Rightarrow> rule_context \<Rightarrow> rule_result" where
  "checkAllowlist parse_url rule ctx =
     (let i = ''allowlist-'' @ mode_name (al_mode rule);
          target = (if al_mode rule = Recipients then lower (r_recipient (ctx_req ctx))
                    else (case r_resourceUrl (ctx_req ctx) of None \<Rightarrow> [] | Some s \<Rightarrow> s));
          entries = normalize_entries (al_entries rule);
          ok = (if al_mode rule = Recipients then target \<in> set entries
                else matchesResource parse_url target entries);
          shown = (if target = [] then ''(none)'' else target)
      in if ok then pass i (M_allowlisted (al_mode rule))
         else if al_enforce rule then
           failing i Critical (M_not_allowlisted (al_mode rule) shown) False
         else failing i Warning (M_not_allowlisted_warn (al_mode rule) shown) False)"

section \<open>Rate limits, counterparties, time windows\<close>

definition checkRateLimit :: "rate_limit_rule \<Rightarrow> rule_context \<Rightarrow> rule_result" where
  "checkRateLimit rule ctx =
     (let i = ''rate-limit'';
          n = ctx_recentPaymentCount ctx (rl_windowSeconds rule) + 1
      in if n > rl_maxPayments rule then
           failing i Critical (M_rate_exceeded n (rl_windowSeconds rule) (rl_maxPayments rule)) False
         else pass i (M_rate_within n (rl_maxPayments rule) (rl_windowSeconds rule)))"

definition checkCounterparty :: "counterparty_rule \<Rightarrow> rule_context \<Rightarrow> rule_result" where
  "checkCounterparty rule ctx =
     (let i = ''counterparty-new'' in
      if \<not> cp_flagNewRecipients rule then no_result
      else if \<not> ctx_isNewCounterparty ctx (r_recipient (ctx_req ctx)) then
        pass i M_known_counterparty
      else failing i (if cp_action rule = RBlock then Critical else Warning)
             (M_first_payment_to (take 10 (r_recipient (ctx_req ctx))))
             (cp_action rule = REscalate))"

text \<open>\<open>new Date(now).getUTCHours()\<close>.\<close>

definition utc_hours :: "int \<Rightarrow> int" where
  "utc_hours now = (now div 3600000) mod 24"

definition in_hours :: "int \<Rightarrow> int \<Rightarrow> int \<Rightarrow> bool" where
  "in_hours start stop hour =
     (if start = stop then True
      else if start < stop then hour \<ge> start \<and> hour < stop
      else hour \<ge> start \<or> hour < stop)"

definition checkTimeWindow :: "time_window_rule \<Rightarrow> rule_context \<Rightarrow> rule_result" where
  "checkTimeWindow rule ctx =
     (let i = ''time-window'';
          hour = utc_hours (ctx_now ctx);
          start = fst (tw_allowedHours rule);
          stop = snd (tw_allowedHours rule)
      in if in_hours start stop hour then pass i (M_hour_within hour start stop)
         else failing i (if tw_action rule = RBlock then Critical else Warning)
                (M_hour_outside hour start stop) (tw_action rule = REscalate))"

text \<open>\<open>dispatch\<close> of \<open>policy/evaluator.ts\<close>.\<close>

fun dispatch :: "(string \<Rightarrow> url option) \<Rightarrow> policy_rule \<Rightarrow> rule_context \<Rightarrow> rule_result" where
  "dispatch parse_url (SpendCap r) ctx = checkSpendCap r ctx"
| "dispatch parse_url (Allowlist r) ctx = checkAllowlist parse_url r ctx"
| "dispatch parse_url (RateLimit r) ctx = checkRateLimit r ctx"
| "dispatch parse_url (Counterparty r) ctx = checkCounterparty r ctx"
| "dispatch parse_url (TimeWindow r) ctx = checkTimeWindow r ctx"

section \<open>Facts about the rules\<close>

lemmas rule_defs [op_defs] =
  no_result_def pass_def failing_def checkSpendCap_def checkAllowlist_def checkRateLimit_def
  checkCounterparty_def checkTimeWindow_def

text \<open>A rule's check is critical only when it failed.\<close>

lemma dispatch_critical_failed:
  "rr_check (dispatch p r ctx) = Some c \<Longrightarrow> c_severity c = Critical \<Longrightarrow> \<not> c_passed c"
  by (cases r) (auto simp: rule_defs Let_def split: if_splits option.splits)

lemma dispatch_id_not_behavioral:
  "rr_check (dispatch p r ctx) = Some c \<Longrightarrow> \<not> behavioral_id (c_id c)"
  by (cases r; cases "case r of SpendCap x \<Rightarrow> sc_window x | _ \<Rightarrow> Day")
     (auto simp: rule_defs Let_def behavioral_id_def starts_with_def split: if_splits option.splits)

lemma dispatch_escalate_failed:
  "rr_escalate (dispatch p r ctx) \<Longrightarrow>
     \<exists>c. rr_check (dispatch p r ctx) = Some c \<and> \<not> c_passed c \<and> c_severity c = Warning"
  by (cases r) (auto simp: rule_defs Let_def split: if_splits option.splits)

lemma checkSpendCap_critical_iff:
  "(\<exists>c. rr_check (checkSpendCap rule ctx) = Some c \<and> \<not> c_passed c \<and> c_severity c = Critical) \<longleftrightarrow>
     lower (sc_token rule) = lower (r_token (ctx_req ctx)) \<and>
     (if sc_window rule = Transaction then 0
      else ctx_windowedSpend ctx (sc_window rule) (sc_token rule)) + r_amount (ctx_req ctx)
       > sc_maxAmount rule"
  by (auto simp: rule_defs Let_def split: option.splits)

subsection \<open>Hosts are compared by label, paths by segment\<close>

fun join_on :: "char \<Rightarrow> string list \<Rightarrow> string" where
  "join_on c [] = []"
| "join_on c [w] = w"
| "join_on c (w # ws) = w @ c # join_on c ws"

lemma join_on_append:
  "us \<noteq> [] \<Longrightarrow> vs \<noteq> [] \<Longrightarrow> join_on c (us @ vs) = join_on c us @ c # join_on c vs"
proof (induction c us rule: join_on.induct)
  case (2 c w)
  then show ?case by (cases vs) simp_all
qed simp_all

lemma join_on_head: "join_on c ((x # w) # ws) = x # join_on c (w # ws)"
  by (cases ws) simp_all

lemma join_split_on [simp]: "join_on c (split_on c s) = s"
proof (induction s)
  case (Cons x xs)
  obtain w ws where w: "split_on c xs = w # ws" by (cases "split_on c xs") simp_all
  show ?case
  proof (cases "x = c")
    case True
    with Cons w show ?thesis by simp
  next
    case False
    with Cons w show ?thesis by (simp add: join_on_head)
  qed
qed simp

lemma suffix_split_on:
  "suffix (split_on c a) (split_on c b) \<longleftrightarrow> b = a \<or> suffix (c # a) b"
proof
  assume "suffix (split_on c a) (split_on c b)"
  then obtain us where us: "split_on c b = us @ split_on c a" by (auto simp: suffix_def)
  show "b = a \<or> suffix (c # a) b"
  proof (cases "us = []")
    case True
    with us show ?thesis by (auto dest: split_on_inj)
  next
    case False
    have "b = join_on c (us @ split_on c a)" by (simp flip: us)
    with False have "b = join_on c us @ c # a" by (simp add: join_on_append)
    then show ?thesis by (simp add: suffix_def)
  qed
next
  assume "b = a \<or> suffix (c # a) b"
  then show "suffix (split_on c a) (split_on c b)"
    by (auto simp: suffix_def split_on_append_sep)
qed

lemma prefix_split_on:
  "prefix (split_on c a) (split_on c b) \<longleftrightarrow> b = a \<or> prefix (a @ [c]) b"
proof
  assume "prefix (split_on c a) (split_on c b)"
  then obtain us where us: "split_on c b = split_on c a @ us" by (auto simp: prefix_def)
  show "b = a \<or> prefix (a @ [c]) b"
  proof (cases "us = []")
    case True
    with us show ?thesis by (auto dest: split_on_inj)
  next
    case False
    have "b = join_on c (split_on c a @ us)" by (simp flip: us)
    with False have "b = a @ c # join_on c us" by (simp add: join_on_append)
    then show ?thesis by (simp add: prefix_def)
  qed
next
  assume "b = a \<or> prefix (a @ [c]) b"
  then show "prefix (split_on c a) (split_on c b)"
    by (auto simp: prefix_def split_on_append_sep)
qed

text \<open>C37 The resource allowlist compares structurally: an entry matches a URL exactly when the
  entry's host labels are the last labels of the URL's host and, if the entry has a path, its
  segments (without trailing slashes) are the first segments of the URL's path. No URL that
  merely contains the entry's text matches.\<close>

theorem resourceMatches_by_labels:
  "resourceMatches u entry \<longleftrightarrow>
     (let entryHost = takeWhile (\<lambda>c. c \<noteq> CHR ''/'') entry;
          entryPath = dropWhile (\<lambda>c. c \<noteq> CHR ''/'') entry
      in entryHost \<noteq> [] \<and>
         suffix (split_on CHR ''.'' entryHost) (split_on CHR ''.'' (lower (u_host u))) \<and>
         (entryPath = [] \<or>
          prefix (split_on CHR ''/'' (strip_slashes entryPath))
                 (split_on CHR ''/'' (lower (u_pathname u)))))"
  by (auto simp: resourceMatches_def Let_def suffix_split_on prefix_split_on
        ends_with_iff_suffix starts_with_iff_prefix)

lemma mod_if_24: "0 \<le> x \<Longrightarrow> x < 48 \<Longrightarrow> x mod 24 = (if x < 24 then x else x - (24::int))"
  by presburger

text \<open>A time window is a circular interval of hours: an hour of the day is inside exactly
  when the two bounds are equal (no restriction) or it is fewer steps after the start than the
  window is long, going round midnight when the start is later than the end.\<close>

theorem in_hours_circular:
  assumes "0 \<le> start" "start \<le> 24" "0 \<le> stop" "stop \<le> 24" "0 \<le> hour" "hour < 24"
  shows "in_hours start stop hour \<longleftrightarrow>
     start = stop \<or>
     (\<exists>k. 0 \<le> k \<and> k < (if start < stop then stop - start else 24 - start + stop) \<and>
          hour = (start + k) mod 24)"
proof (cases start stop rule: linorder_cases)
  case less
  have "(\<exists>k. 0 \<le> k \<and> k < stop - start \<and> hour = (start + k) mod 24) \<longleftrightarrow>
      start \<le> hour \<and> hour < stop"
  proof
    assume "\<exists>k. 0 \<le> k \<and> k < stop - start \<and> hour = (start + k) mod 24"
    then obtain k where "0 \<le> k" "k < stop - start" "hour = (start + k) mod 24" by blast
    with assms show "start \<le> hour \<and> hour < stop" by simp
  next
    assume "start \<le> hour \<and> hour < stop"
    with assms show "\<exists>k. 0 \<le> k \<and> k < stop - start \<and> hour = (start + k) mod 24"
      by (intro exI [of _ "hour - start"]) simp
  qed
  with less show ?thesis by (simp add: in_hours_def)
next
  case equal
  then show ?thesis by (simp add: in_hours_def)
next
  case greater
  have "(\<exists>k. 0 \<le> k \<and> k < 24 - start + stop \<and> hour = (start + k) mod 24) \<longleftrightarrow>
      start \<le> hour \<or> hour < stop"
  proof
    assume "\<exists>k. 0 \<le> k \<and> k < 24 - start + stop \<and> hour = (start + k) mod 24"
    then obtain k where k: "0 \<le> k" "k < 24 - start + stop" "hour = (start + k) mod 24" by blast
    have "(start + k) mod 24 = (if start + k < 24 then start + k else start + k - 24)"
      using k assms by (auto simp: mod_if_24)
    with k show "start \<le> hour \<or> hour < stop" by (simp split: if_splits)
  next
    assume "start \<le> hour \<or> hour < stop"
    with assms show "\<exists>k. 0 \<le> k \<and> k < 24 - start + stop \<and> hour = (start + k) mod 24"
      by (intro exI [of _ "if start \<le> hour then hour - start else 24 - start + hour"]) auto
  qed
  with greater show ?thesis by (simp add: in_hours_def)
qed

theorem in_hours_circular_witness:
  "in_hours 22 6 3 \<and> (\<exists>k. 0 \<le> k \<and> k < (8::int) \<and> 3 = (22 + k) mod 24)"
proof -
  have "in_hours 22 6 3 \<longleftrightarrow>
      (22::int) = 6 \<or>
      (\<exists>k::int. 0 \<le> k \<and> k < (if (22::int) < 6 then 6 - 22 else 24 - 22 + 6) \<and>
          3 = (22 + k) mod 24)"
    by (rule in_hours_circular) simp_all
  moreover have "in_hours 22 6 3" by (simp add: in_hours_def)
  ultimately show ?thesis by simp
qed

end
