(* ===== verification/Evaluator.thy ===== *)
theory Evaluator
  imports Rules
begin

text \<open>
  \<open>PolicyEvaluator\<close> of \<open>packages/core/src/policy/evaluator.ts\<close>: the rules run against a
  request, over the rolling spend records and the counterparty memory, which advance only when a
  settled payment is observed or history is hydrated. \<open>Date.now()\<close> is the argument \<open>now\<close>
  (or \<open>ts\<close>, the source's \<open>at\<close>) of each operation.
\<close>

record spend_record =
  sp_ts :: int
  sp_amount :: int
  sp_token :: string
  sp_hydrated :: bool

record evaluator =
  ev_policy :: policy
  ev_payments :: "spend_record list"
  ev_seen :: "string set"

record evaluation_result =
  er_checks :: "policy_check list"
  er_escalate :: bool

definition HOUR_MS :: int where "HOUR_MS = 3600000"

definition DAY_MS :: int where "DAY_MS = 86400000"

definition new_evaluator :: "policy \<Rightarrow> evaluator" where
  "new_evaluator p = \<lparr>ev_policy = p, ev_payments = [], ev_seen = {}\<rparr>"

definition windowedSpend :: "evaluator \<Rightarrow> spend_window \<Rightarrow> string \<Rightarrow> int \<Rightarrow> int" where
  "windowedSpend st window token now =
     (let cutoff = (if window = Hour then now - HOUR_MS
                    else if window = Day then now - DAY_MS else 0);
          t = lower token
      in sum_list (map sp_amount
           (filter (\<lambda>p. window \<noteq> Session \<or> \<not> sp_hydrated p)
             (filter (\<lambda>p. sp_token p = t \<and> sp_ts p > cutoff) (ev_payments st)))))"

definition recentPaymentCount :: "evaluator \<Rightarrow> int \<Rightarrow> int \<Rightarrow> int" where
  "recentPaymentCount st now windowSeconds =
     int (length (filter (\<lambda>p. sp_ts p > now - windowSeconds * 1000) (ev_payments st)))"

definition isNewCounterparty :: "evaluator \<Rightarrow> string \<Rightarrow> bool" where
  "isNewCounterparty st addr \<longleftrightarrow> lower addr \<notin> ev_seen st"

definition rule_context_of :: "evaluator \<Rightarrow> payment_request \<Rightarrow> int \<Rightarrow> rule_context" where
  "rule_context_of st req now =
     \<lparr>ctx_req = req, ctx_now = now,
      ctx_windowedSpend = (\<lambda>window token. windowedSpend st window token now),
      ctx_recentPaymentCount = recentPaymentCount st now,
      ctx_isNewCounterparty = isNewCounterparty st\<rparr>"

fun is_spend_cap :: "policy_rule \<Rightarrow> bool" where
  "is_spend_cap (SpendCap r) = True"
| "is_spend_cap _ = False"

text \<open>
  The loop of \<open>evaluate\<close>, with its four local variables: the checks so far, whether a rule
  wants to escalate, the spend-cap rules met and those that produced a check.
\<close>

fun eval_rules ::
  "(string \<Rightarrow> url option) \<Rightarrow> rule_context \<Rightarrow> policy_rule list \<Rightarrow>
     policy_check list \<Rightarrow> bool \<Rightarrow> nat \<Rightarrow> nat \<Rightarrow> policy_check list \<times> bool \<times> nat \<times> nat" where
  "eval_rules pu ctx [] checks esc caps applied = (checks, esc, caps, applied)"
| "eval_rules pu ctx (rule # rules) checks esc caps applied =
     (let caps' = (if is_spend_cap rule then caps + 1 else caps);
          res = dispatch pu rule ctx;
          checks' = (case rr_check res of None \<Rightarrow> checks | Some c \<Rightarrow> checks @ [c]);
          applied' = (case rr_check res of None \<Rightarrow> applied
                      | Some c \<Rightarrow> if is_spend_cap rule then applied + 1 else applied);
          esc' = (if rr_escalate res then True else esc)
      in eval_rules pu ctx rules checks' esc' caps' applied')"

definition coverage_check :: "payment_request \<Rightarrow> policy_check" where
  "coverage_check req =
     \<lparr>c_id = ''spend-cap-coverage'', c_passed = True, c_severity = Warning,
      c_message = M_no_cap_coverage (r_token req)\<rparr>"

definition PolicyEvaluator_evaluate ::
  "(string \<Rightarrow> url option) \<Rightarrow> evaluator \<Rightarrow> payment_request \<Rightarrow> int \<Rightarrow> evaluation_result" where
  "PolicyEvaluator_evaluate pu st req now =
     (case eval_rules pu (rule_context_of st req now) (p_rules (ev_policy st)) [] False 0 0 of
        (checks, esc, caps, applied) \<Rightarrow>
          \<lparr>er_checks = (if caps > 0 \<and> applied = 0 then checks @ [coverage_check req] else checks),
           er_escalate = esc\<rparr>)"

definition PolicyEvaluator_observe :: "payment_request \<Rightarrow> int \<Rightarrow> evaluator \<Rightarrow> evaluator" where
  "PolicyEvaluator_observe req ts st =
     st\<lparr>ev_payments := ev_payments st @
          [\<lparr>sp_ts = ts, sp_amount = r_amount req, sp_token = lower (r_token req),
            sp_hydrated = False\<rparr>],
        ev_seen := insert (lower (r_recipient req)) (ev_seen st)\<rparr>"

definition hydrate_entry :: "int \<Rightarrow> audit_entry \<Rightarrow> evaluator \<Rightarrow> evaluator" where
  "hydrate_entry cutoff e st =
     (let st' = st\<lparr>ev_seen := insert (lower (r_recipient (e_request e))) (ev_seen st)\<rparr>
      in if e_timestamp e > cutoff then
           st'\<lparr>ev_payments := ev_payments st' @
             [\<lparr>sp_ts = e_timestamp e, sp_amount = r_amount (e_request e),
               sp_token = lower (r_token (e_request e)), sp_hydrated = True\<rparr>]\<rparr>
         else st')"

definition PolicyEvaluator_hydrate :: "audit_entry list \<Rightarrow> int \<Rightarrow> evaluator \<Rightarrow> evaluator" where
  "PolicyEvaluator_hydrate entries now st =
     (let st' = fold (hydrate_entry (now - DAY_MS)) entries st
      in st'\<lparr>ev_payments := sort_key sp_ts (ev_payments st')\<rparr>)"

section \<open>Counterparty memory\<close>

definition remember_counterparty :: "string \<Rightarrow> evaluator \<Rightarrow> evaluator" where
  "remember_counterparty a st = st\<lparr>ev_seen := insert (lower a) (ev_seen st)\<rparr>"

interpretation seen: ci_memory remember_counterparty "\<lambda>st a. \<not> isNewCounterparty st a"
  by unfold_locales (auto simp: remember_counterparty_def isNewCounterparty_def)

lemma observe_seen: "ev_seen (PolicyEvaluator_observe req ts st) = ev_seen (remember_counterparty (r_recipient req) st)"
  by (simp add: PolicyEvaluator_observe_def remember_counterparty_def)

lemma hydrate_entries_seen:
  "ev_seen (fold (hydrate_entry c) es st) =
     (\<lambda>e. lower (r_recipient (e_request e))) ` set es \<union> ev_seen st"
  by (induction es arbitrary: st) (auto simp: hydrate_entry_def Let_def)

lemma hydrate_seen:
  "ev_seen (PolicyEvaluator_hydrate es now st) =
     (\<lambda>e. lower (r_recipient (e_request e))) ` set es \<union> ev_seen st"
  by (simp add: PolicyEvaluator_hydrate_def Let_def hydrate_entries_seen)

lemma observe_policy [simp]: "ev_policy (PolicyEvaluator_observe req ts st) = ev_policy st"
  by (simp add: PolicyEvaluator_observe_def)

lemma hydrate_policy [simp]: "ev_policy (PolicyEvaluator_hydrate es now st) = ev_policy st"
proof -
  have "ev_policy (fold (hydrate_entry c) es st) = ev_policy st" for c
    by (induction es arbitrary: st) (simp_all add: hydrate_entry_def Let_def)
  then show ?thesis by (simp add: PolicyEvaluator_hydrate_def Let_def)
qed

section \<open>The loop in closed form\<close>

lemma eval_rules_eq:
  "eval_rules pu ctx rules checks esc caps applied =
     (checks @ List.map_filter (\<lambda>r. rr_check (dispatch pu r ctx)) rules,
      esc \<or> list_ex (\<lambda>r. rr_escalate (dispatch pu r ctx)) rules,
      caps + length (filter is_spend_cap rules),
      applied + length (filter (\<lambda>r. is_spend_cap r \<and> rr_check (dispatch pu r ctx) \<noteq> None) rules))"
  by (induction rules arbitrary: checks esc caps applied)
     (auto simp: Let_def List.map_filter_simps split: option.splits)

lemma set_map_filter: "set (List.map_filter f xs) = {y. \<exists>x \<in> set xs. f x = Some y}"
  by (induction xs) (auto simp: List.map_filter_simps split: option.splits)

lemma evaluate_escalate:
  "er_escalate (PolicyEvaluator_evaluate pu st req now) \<longleftrightarrow>
     (\<exists>r \<in> set (p_rules (ev_policy st)). rr_escalate (dispatch pu r (rule_context_of st req now)))"
  by (simp add: PolicyEvaluator_evaluate_def eval_rules_eq list_ex_iff)

lemma evaluate_failed_iff:
  "c \<in> set (er_checks (PolicyEvaluator_evaluate pu st req now)) \<and> \<not> c_passed c \<longleftrightarrow>
     (\<exists>r \<in> set (p_rules (ev_policy st)).
        rr_check (dispatch pu r (rule_context_of st req now)) = Some c \<and> \<not> c_passed c)"
  by (auto simp: PolicyEvaluator_evaluate_def eval_rules_eq set_map_filter coverage_check_def)

lemma evaluate_checks_not_behavioral:
  "c \<in> set (er_checks (PolicyEvaluator_evaluate pu st req now)) \<Longrightarrow> \<not> behavioral_id (c_id c)"
  by (auto simp: PolicyEvaluator_evaluate_def eval_rules_eq set_map_filter coverage_check_def behavioral_id_def
      starts_with_def split: if_splits dest: dispatch_id_not_behavioral [unfolded behavioral_id_def starts_with_def])

text \<open>A failed critical check: the evaluation would block the payment.\<close>

definition blocks :: "evaluation_result \<Rightarrow> bool" where
  "blocks res = list_ex (\<lambda>c. \<not> c_passed c \<and> c_severity c = Critical) (er_checks res)"

lemma blocks_iff:
  "blocks (PolicyEvaluator_evaluate pu st req now) \<longleftrightarrow>
     (\<exists>r \<in> set (p_rules (ev_policy st)). \<exists>c.
        rr_check (dispatch pu r (rule_context_of st req now)) = Some c \<and>
        \<not> c_passed c \<and> c_severity c = Critical)"
  unfolding blocks_def list_ex_iff using evaluate_failed_iff by blast

end
