(* ===== verification/Simulate.thy ===== *)
theory Simulate
  imports Evaluator
begin

text \<open>
  \<open>simulatePolicy\<close> of \<open>packages/core/src/policy/simulate.ts\<close>: the backtest of a candidate
  policy against recorded history. The evaluator is called without a time, so each evaluation
  and each observation reads the clock: \<open>clk i\<close> and \<open>obs_clk i\<close> are the readings of the
  \<open>i\<close>-th round.
\<close>

record simulation_entry =
  se_request :: payment_request
  se_recordedVerdict :: verdict
  se_simulatedVerdict :: verdict
  se_changed :: bool

record simulation_result =
  sr_total :: nat
  sr_changed :: nat
  sr_newlyBlocked :: nat
  sr_newlyEscalated :: nat
  sr_newlyAllowed :: nat
  sr_entries :: "simulation_entry list"

definition ruleVerdict :: "policy_check list \<Rightarrow> bool \<Rightarrow> verdict" where
  "ruleVerdict checks esc =
     (if list_ex (\<lambda>c. \<not> c_passed c \<and> c_severity c = Critical) checks then Block
      else if esc then Escalate else Allow)"

text \<open>The three counters of the loop: newly blocked, newly escalated, newly allowed.\<close>

definition count_change ::
  "verdict \<Rightarrow> verdict \<Rightarrow> nat \<times> nat \<times> nat \<Rightarrow> nat \<times> nat \<times> nat" where
  "count_change simulated recorded counters =
     (case counters of (nb, ne, na) \<Rightarrow>
        if simulated \<noteq> recorded then
          if simulated = Block then (nb + 1, ne, na)
          else if simulated = Escalate \<and> recorded = Allow then (nb, ne + 1, na)
          else if simulated = Allow then (nb, ne, na + 1)
          else (nb, ne, na)
        else (nb, ne, na))"

fun simulate_loop ::
  "(string \<Rightarrow> url option) \<Rightarrow> (nat \<Rightarrow> int) \<Rightarrow> (nat \<Rightarrow> int) \<Rightarrow> nat \<Rightarrow> audit_entry list \<Rightarrow> evaluator \<Rightarrow>
     simulation_entry list \<Rightarrow> nat \<times> nat \<times> nat \<Rightarrow> simulation_entry list \<times> nat \<times> nat \<times> nat" where
  "simulate_loop pu clk obs_clk i [] ev out counters = (out, counters)"
| "simulate_loop pu clk obs_clk i (e # es) ev out counters =
     (let res = PolicyEvaluator_evaluate pu ev (e_request e) (clk i);
          simulated = ruleVerdict (er_checks res) (er_escalate res);
          recorded = d_verdict (e_decision e);
          counters' = count_change simulated recorded counters;
          out' = out @ [\<lparr>se_request = e_request e, se_recordedVerdict = recorded,
                         se_simulatedVerdict = simulated, se_changed = (simulated \<noteq> recorded)\<rparr>];
          ev' = (if settled e \<or> recorded = Allow
                 then PolicyEvaluator_observe (e_request e) (obs_clk i) ev else ev)
      in simulate_loop pu clk obs_clk (i + 1) es ev' out' counters')"

definition simulatePolicy ::
  "(string \<Rightarrow> url option) \<Rightarrow> (nat \<Rightarrow> int) \<Rightarrow> (nat \<Rightarrow> int) \<Rightarrow> audit_entry list \<Rightarrow> policy \<Rightarrow>
     simulation_result" where
  "simulatePolicy pu clk obs_clk history candidate =
     (let sorted_history = sort_key e_timestamp history in
      case simulate_loop pu clk obs_clk 0 sorted_history (new_evaluator candidate) [] (0, 0, 0) of
        (entries, nb, ne, na) \<Rightarrow>
          \<lparr>sr_total = length sorted_history,
           sr_changed = length (filter se_changed entries),
           sr_newlyBlocked = nb, sr_newlyEscalated = ne, sr_newlyAllowed = na,
           sr_entries = entries\<rparr>)"

section \<open>The counters\<close>

definition transitions :: "verdict \<Rightarrow> verdict \<Rightarrow> simulation_entry list \<Rightarrow> nat" where
  "transitions v w xs =
     length (filter (\<lambda>x. se_recordedVerdict x = v \<and> se_simulatedVerdict x = w) xs)"

lemma transitions_simps [simp]:
  "transitions v w [] = 0"
  "transitions v w (xs @ ys) = transitions v w xs + transitions v w ys"
  "transitions v w (x # xs) =
     (if se_recordedVerdict x = v \<and> se_simulatedVerdict x = w then 1 else 0) + transitions v w xs"
  by (simp_all add: transitions_def)

definition counters_agree :: "simulation_entry list \<Rightarrow> nat \<times> nat \<times> nat \<Rightarrow> bool" where
  "counters_agree out cs \<longleftrightarrow>
     cs = (transitions Allow Block out + transitions Escalate Block out,
           transitions Allow Escalate out,
           transitions Block Allow out + transitions Escalate Allow out) \<and>
     length (filter se_changed out) =
       transitions Allow Block out + transitions Escalate Block out + transitions Allow Escalate out +
       transitions Block Allow out + transitions Escalate Allow out + transitions Block Escalate out"

lemma counters_agree_step:
  "counters_agree out cs \<Longrightarrow>
     counters_agree
       (out @ [\<lparr>se_request = r, se_recordedVerdict = recorded, se_simulatedVerdict = simulated,
                se_changed = (simulated \<noteq> recorded)\<rparr>])
       (count_change simulated recorded cs)"
  by (cases simulated; cases recorded) (simp_all add: counters_agree_def count_change_def)

lemma simulate_loop_counters:
  "counters_agree out cs \<Longrightarrow>
     simulate_loop pu clk obs_clk i es ev out cs = (out', cs') \<Longrightarrow> counters_agree out' cs'"
proof (induction es arbitrary: i ev out cs)
  case (Cons e es)
  from Cons.prems show ?case
    by (simp only: simulate_loop.simps Let_def) (rule Cons.IH [OF counters_agree_step])
qed simp

lemma simulate_loop_entries:
  "simulate_loop pu clk obs_clk i es ev out cs = (out', cs') \<Longrightarrow>
     map se_request out' = map se_request out @ map e_request es \<and>
     map se_recordedVerdict out' = map se_recordedVerdict out @ map (\<lambda>e. d_verdict (e_decision e)) es"
  by (induction es arbitrary: i ev out cs) (auto simp: Let_def)

text \<open>The backtest reports one entry per recorded payment, in time order, with the verdict
  that was recorded; its counters count the transitions of those entries; and every change is
  counted once, except a block relaxed to an escalation, which no counter reports.\<close>

theorem simulatePolicy_counts:
  "let r = simulatePolicy pu clk obs_clk history candidate;
       moved = \<lambda>v w. transitions v w (sr_entries r)
   in map se_request (sr_entries r) = map e_request (sort_key e_timestamp history) \<and>
      map se_recordedVerdict (sr_entries r) =
        map (\<lambda>e. d_verdict (e_decision e)) (sort_key e_timestamp history) \<and>
      sr_newlyBlocked r = moved Allow Block + moved Escalate Block \<and>
      sr_newlyEscalated r = moved Allow Escalate \<and>
      sr_newlyAllowed r = moved Block Allow + moved Escalate Allow \<and>
      sr_changed r =
        sr_newlyBlocked r + sr_newlyEscalated r + sr_newlyAllowed r + moved Block Escalate"
proof -
  let ?es = "sort_key e_timestamp history"
  obtain out nb ne na where loop:
    "simulate_loop pu clk obs_clk 0 ?es (new_evaluator candidate) [] (0, 0, 0) = (out, nb, ne, na)"
    using prod_cases4 by blast
  have "counters_agree out (nb, ne, na)"
    by (rule simulate_loop_counters [OF _ loop]) (simp add: counters_agree_def)
  with simulate_loop_entries [OF loop] show ?thesis
    by (simp add: simulatePolicy_def Let_def loop counters_agree_def)
qed

section \<open>Recorded times are not replayed\<close>

lemma settled_timestamp [simp]: "settled (e\<lparr>e_timestamp := t\<rparr>) = settled e"
  by (simp add: settled_def)

lemma simulate_loop_timestamps:
  "length ts = length es \<Longrightarrow>
     simulate_loop pu clk obs_clk i (map2 (\<lambda>e t. e\<lparr>e_timestamp := t\<rparr>) es ts) ev out cs =
     simulate_loop pu clk obs_clk i es ev out cs"
proof (induction es arbitrary: ts i ev out cs)
  case (Cons e es)
  then obtain t ts' where "ts = t # ts'" by (cases ts) simp_all
  with Cons show ?case by (simp add: Let_def)
qed simp

lemma map_timestamps: "length ts = length es \<Longrightarrow> map e_timestamp (map2 (\<lambda>e t. e\<lparr>e_timestamp := t\<rparr>) es ts) = ts"
  by (induction es ts rule: list_induct2') simp_all

text \<open>The backtest ignores when the recorded payments happened: any other non-decreasing
  timestamps give the same result, so a history spread over a month is judged against an hour or
  day cap as if it had all happened during the simulation.\<close>

theorem simulatePolicy_ignores_times:
  assumes "sorted (map e_timestamp history)" "sorted ts" "length ts = length history"
  shows "simulatePolicy pu clk obs_clk (map2 (\<lambda>e t. e\<lparr>e_timestamp := t\<rparr>) history ts) candidate =
     simulatePolicy pu clk obs_clk history candidate"
proof -
  let ?h = "map2 (\<lambda>e t. e\<lparr>e_timestamp := t\<rparr>) history ts"
  have "sort_key e_timestamp ?h = ?h"
    by (rule sort_key_id_if_sorted) (simp only: map_timestamps [OF assms(3)] assms(2))
  moreover have "sort_key e_timestamp history = history"
    using assms(1) by (rule sort_key_id_if_sorted)
  ultimately show ?thesis
    using assms(3) by (simp add: simulatePolicy_def Let_def simulate_loop_timestamps)
qed

definition ex_history :: "audit_entry list" where
  "ex_history = map (\<lambda>t. \<lparr>e_id = ''e'', e_timestamp = t, e_agentId = ''a'',
     e_request = \<lparr>r_intent = [], r_amount = 10, r_token = ''t'', r_recipient = ''r'', r_chain = ''c'',
       r_agentId = ''a'', r_resourceUrl = None\<rparr>,
     e_decision = \<lparr>d_verdict = Allow, d_riskScore = 0, d_checks = [], d_reason = R_allowed 0,
       d_escalation = None\<rparr>,
     e_settlement = None, e_entryHash = []\<rparr>) [0, 1000000000]"

definition ex_candidate :: policy where
  "ex_candidate = \<lparr>p_agentId = ''a'', p_rules = [SpendCap \<lparr>sc_window = Day, sc_maxAmount = 15, sc_token = ''t'',
     sc_escalateAbove = None\<rparr>], p_anomalyThreshold = 8 / 10, p_anomalyAction = AEscalate, p_sourceText = None\<rparr>"

theorem simulatePolicy_ignores_times_witness:
  "simulatePolicy (\<lambda>s. None) (\<lambda>n. 100) (\<lambda>n. 100) (map2 (\<lambda>e t. e\<lparr>e_timestamp := t\<rparr>) ex_history [7, 8]) ex_candidate =
     simulatePolicy (\<lambda>s. None) (\<lambda>n. 100) (\<lambda>n. 100) ex_history ex_candidate"
  by (rule simulatePolicy_ignores_times) (simp_all add: ex_history_def)

end
