(* ===== verification/Spending.thy ===== *)
theory Spending
  imports Evaluator "HOL-Library.Multiset"
begin

text \<open>
  What the policy evaluator's rolling windows guarantee over time: the caps and the rate limit
  hold along every serial run of evaluations and settlements, and they stop holding for payments
  evaluated before an earlier one is observed, and after a restart for rate-limit windows longer
  than the day that hydration keeps. What a restart does to decisions is the subject of \<open>Restart\<close>.
\<close>

definition window_start :: "spend_window \<Rightarrow> int \<Rightarrow> int" where
  "window_start w now = (if w = Hour then now - HOUR_MS else if w = Day then now - DAY_MS else 0)"

definition counted :: "spend_window \<Rightarrow> string \<Rightarrow> int \<Rightarrow> spend_record \<Rightarrow> bool" where
  "counted w tok now p \<longleftrightarrow>
     sp_token p = lower tok \<and> sp_ts p > window_start w now \<and> (w = Session \<longrightarrow> \<not> sp_hydrated p)"

definition nonneg_payments :: "evaluator \<Rightarrow> bool" where
  "nonneg_payments st \<longleftrightarrow> list_all (\<lambda>p. 0 \<le> sp_amount p) (ev_payments st)"

text \<open>
  A serial run from state \<open>st0\<close> at time \<open>t0\<close>: the clock advances, and a payment that the
  evaluation at time \<open>t\<close> did not block settles at some \<open>t' \<ge> t\<close>, no other payment settling
  in between. The guard admits positive amounts only.
\<close>

inductive serial_run ::
  "(string \<Rightarrow> url option) \<Rightarrow> evaluator \<Rightarrow> int \<Rightarrow> evaluator \<Rightarrow> int \<Rightarrow> bool"
  for pu st0 t0 where
  start: "serial_run pu st0 t0 st0 t0"
| tick: "serial_run pu st0 t0 st t \<Longrightarrow> t \<le> t' \<Longrightarrow> serial_run pu st0 t0 st t'"
| pay: "serial_run pu st0 t0 st t \<Longrightarrow> 0 < r_amount req \<Longrightarrow>
     \<not> blocks (PolicyEvaluator_evaluate pu st req t) \<Longrightarrow> t \<le> t' \<Longrightarrow>
     serial_run pu st0 t0 (PolicyEvaluator_observe req t' st) t'"

text \<open>The audit entries \<open>es\<close> record exactly the payments the evaluator has observed.\<close>

definition mirrors :: "audit_entry list \<Rightarrow> evaluator \<Rightarrow> bool" where
  "mirrors es st \<longleftrightarrow>
     map (\<lambda>e. (e_timestamp e, r_amount (e_request e), lower (r_token (e_request e)))) es =
       map (\<lambda>p. (sp_ts p, sp_amount p, sp_token p)) (ev_payments st) \<and>
     (\<lambda>e. lower (r_recipient (e_request e))) ` set es = ev_seen st"

text \<open>The rules whose state a restart rebuilds.\<close>

fun restart_safe :: "policy_rule \<Rightarrow> bool" where
  "restart_safe (SpendCap r) = (sc_window r \<noteq> Session)"
| "restart_safe (RateLimit r) = (rl_windowSeconds r \<le> 86400)"
| "restart_safe _ = True"

section \<open>Sums over a window\<close>

lemma windowedSpend_eq:
  "windowedSpend st w tok now = sum_list (map sp_amount (filter (counted w tok now) (ev_payments st)))"
  by (auto simp: windowedSpend_def Let_def counted_def window_start_def filter_filter
      intro!: arg_cong [where f = sum_list] arg_cong2 [where f = map] filter_cong)

lemma windowedSpend_observe:
  "windowedSpend (PolicyEvaluator_observe req ts st) w tok now =
     windowedSpend st w tok now +
     (if lower (r_token req) = lower tok \<and> ts > window_start w now then r_amount req else 0)"
  by (simp add: windowedSpend_eq PolicyEvaluator_observe_def counted_def)

lemma sum_filter_mono:
  assumes "\<And>p. p \<in> set ps \<Longrightarrow> Q p \<Longrightarrow> P p" "\<And>p. p \<in> set ps \<Longrightarrow> (0::int) \<le> f p"
  shows "sum_list (map f (filter Q ps)) \<le> sum_list (map f (filter P ps))"
  using assms by (induction ps) (auto intro: add_mono add_increasing)

lemma windowedSpend_later:
  assumes "nonneg_payments st" "t \<le> t'"
  shows "windowedSpend st w tok t' \<le> windowedSpend st w tok t"
  unfolding windowedSpend_eq
  by (rule sum_filter_mono)
     (use assms in \<open>auto simp: counted_def window_start_def nonneg_payments_def list_all_iff\<close>)

lemma windowedSpend_nonneg: "nonneg_payments st \<Longrightarrow> 0 \<le> windowedSpend st w tok t"
  unfolding windowedSpend_eq
  by (rule sum_list_nonneg) (auto simp: nonneg_payments_def list_all_iff)

lemma recentPaymentCount_observe:
  "recentPaymentCount (PolicyEvaluator_observe req ts st) now secs =
     recentPaymentCount st now secs + (if ts > now - secs * 1000 then 1 else 0)"
  by (simp add: recentPaymentCount_def PolicyEvaluator_observe_def)

lemma recentPaymentCount_later:
  assumes "t \<le> t'" shows "recentPaymentCount st t' secs \<le> recentPaymentCount st t secs"
proof -
  have "length (filter (\<lambda>p. sp_ts p > t' - s) ps) \<le> length (filter (\<lambda>p. sp_ts p > t - s) ps)" for ps s
    using assms by (induction ps) auto
  then show ?thesis by (simp add: recentPaymentCount_def)
qed

section \<open>Caps and limits along serial runs\<close>

lemma serial_run_frame:
  "serial_run pu st0 t0 st t \<Longrightarrow> nonneg_payments st0 \<Longrightarrow>
     nonneg_payments st \<and> ev_policy st = ev_policy st0"
  by (induction rule: serial_run.induct)
     (auto simp: nonneg_payments_def PolicyEvaluator_observe_def)

lemma not_blocked_within_cap:
  assumes "\<not> blocks (PolicyEvaluator_evaluate pu st req t)"
    and "SpendCap r \<in> set (p_rules (ev_policy st))" "sc_window r \<noteq> Transaction"
    and "lower (sc_token r) = lower (r_token req)"
  shows "windowedSpend st (sc_window r) (sc_token r) t + r_amount req \<le> sc_maxAmount r"
proof (rule ccontr)
  assume "\<not> ?thesis"
  with assms(3,4) have
    "\<exists>c. rr_check (checkSpendCap r (rule_context_of st req t)) = Some c \<and> \<not> c_passed c \<and>
         c_severity c = Critical"
    by (simp add: checkSpendCap_critical_iff rule_context_of_def)
  with assms(1,2) show False by (force simp: blocks_iff)
qed

lemma not_blocked_within_rate:
  assumes "\<not> blocks (PolicyEvaluator_evaluate pu st req t)"
    and "RateLimit r \<in> set (p_rules (ev_policy st))"
  shows "recentPaymentCount st t (rl_windowSeconds r) + 1 \<le> rl_maxPayments r"
proof (rule ccontr)
  assume "\<not> ?thesis"
  then have "\<exists>c. rr_check (checkRateLimit r (rule_context_of st req t)) = Some c \<and>
      \<not> c_passed c \<and> c_severity c = Critical"
    by (simp add: checkRateLimit_def failing_def rule_context_of_def Let_def)
  with assms show False by (force simp: blocks_iff)
qed

text \<open>The rolling caps hold: along every serial run, the amount of the capped token
  settled in the rule's window (the last hour, the last day, the session) never exceeds the
  rule's maximum, nor, when the run started above it, what the window held at the start.\<close>

theorem spend_cap_respected:
  assumes "serial_run pu st0 t0 st t" "nonneg_payments st0"
    and "SpendCap r \<in> set (p_rules (ev_policy st0))" "sc_window r \<noteq> Transaction"
  shows "windowedSpend st (sc_window r) (sc_token r) t
           \<le> max (sc_maxAmount r) (windowedSpend st0 (sc_window r) (sc_token r) t0)"
  using assms
proof (induction rule: serial_run.induct)
  case (tick st t t')
  then have "nonneg_payments st" by (blast dest: serial_run_frame)
  with tick show ?case by (meson order_trans windowedSpend_later)
next
  case (pay st t req t')
  then have st: "nonneg_payments st" "ev_policy st = ev_policy st0"
    by (blast dest: serial_run_frame)+
  with pay have later: "windowedSpend st (sc_window r) (sc_token r) t'
      \<le> windowedSpend st (sc_window r) (sc_token r) t"
    by (intro windowedSpend_later) simp_all
  show ?case
  proof (cases "lower (sc_token r) = lower (r_token req)")
    case True
    with pay st have "windowedSpend st (sc_window r) (sc_token r) t + r_amount req \<le> sc_maxAmount r"
      by (intro not_blocked_within_cap) simp_all
    with later pay.hyps(2) show ?thesis by (auto simp: windowedSpend_observe le_max_iff_disj)
  next
    case False
    with later pay show ?thesis by (simp add: windowedSpend_observe)
  qed
qed simp

text \<open>The rate limit holds: along every serial run, the number of payments settled within
  the rule's window never exceeds the limit, nor, when the run started above it, the number the
  window held at the start.\<close>

theorem rate_limit_respected:
  assumes "serial_run pu st0 t0 st t" "nonneg_payments st0"
    and "RateLimit r \<in> set (p_rules (ev_policy st0))"
  shows "recentPaymentCount st t (rl_windowSeconds r)
           \<le> max (rl_maxPayments r) (recentPaymentCount st0 t0 (rl_windowSeconds r))"
  using assms
proof (induction rule: serial_run.induct)
  case (tick st t t')
  then show ?case by (meson order_trans recentPaymentCount_later)
next
  case (pay st t req t')
  then have "ev_policy st = ev_policy st0" by (blast dest: serial_run_frame)
  with pay have "recentPaymentCount st t (rl_windowSeconds r) + 1 \<le> rl_maxPayments r"
    by (intro not_blocked_within_rate) simp_all
  with recentPaymentCount_later [OF pay.hyps(4), of st "rl_windowSeconds r"] show ?case
    by (auto simp: recentPaymentCount_observe le_max_iff_disj)
qed simp

section \<open>Restart\<close>

lemma hydrate_entries_payments:
  "ev_payments (fold (hydrate_entry c) es st) =
     ev_payments st @
     map (\<lambda>e. \<lparr>sp_ts = e_timestamp e, sp_amount = r_amount (e_request e),
                 sp_token = lower (r_token (e_request e)), sp_hydrated = True\<rparr>)
       (filter (\<lambda>e. e_timestamp e > c) es)"
  by (induction es arbitrary: st) (simp_all add: hydrate_entry_def Let_def)

lemma sum_filter_cong_mset:
  assumes "mset ps = mset qs"
  shows "sum_list (map f (filter P ps)) = (sum_list (map f (filter P qs)) :: int)"
proof -
  have "sum_mset (image_mset f (filter_mset P (mset ps))) =
      sum_mset (image_mset f (filter_mset P (mset qs)))"
    by (simp add: assms)
  then show ?thesis by (simp flip: mset_filter mset_map add: sum_mset_sum_list)
qed

lemma length_filter_cong_mset: "mset ps = mset qs \<Longrightarrow> length (filter P ps) = length (filter P qs)"
  by (metis mset_filter size_mset)

lemma mset_hydrate:
  "mset (ev_payments (PolicyEvaluator_hydrate es now0 (new_evaluator p))) =
     mset (map (\<lambda>e. \<lparr>sp_ts = e_timestamp e, sp_amount = r_amount (e_request e),
                 sp_token = lower (r_token (e_request e)), sp_hydrated = True\<rparr>)
       (filter (\<lambda>e. e_timestamp e > now0 - DAY_MS) es))"
  by (simp add: PolicyEvaluator_hydrate_def Let_def hydrate_entries_payments new_evaluator_def)

lemma windowedSpend_hydrate:
  assumes "w = Hour \<or> w = Day" "now0 \<le> now"
  shows "windowedSpend (PolicyEvaluator_hydrate es now0 (new_evaluator p)) w tok now =
     sum_list (map (\<lambda>e. r_amount (e_request e))
       (filter (\<lambda>e. lower (r_token (e_request e)) = lower tok \<and> e_timestamp e > window_start w now) es))"
  unfolding windowedSpend_eq
  by (subst sum_filter_cong_mset [OF mset_hydrate])
     (use assms in \<open>auto simp: filter_map counted_def window_start_def o_def filter_filter HOUR_MS_def
        DAY_MS_def intro!: arg_cong [where f = sum_list] arg_cong2 [where f = map] filter_cong\<close>)

lemma recentPaymentCount_hydrate:
  assumes "secs \<le> 86400" "now0 \<le> now"
  shows "recentPaymentCount (PolicyEvaluator_hydrate es now0 (new_evaluator p)) now secs =
     int (length (filter (\<lambda>e. e_timestamp e > now - secs * 1000) es))"
  unfolding recentPaymentCount_def
  by (subst length_filter_cong_mset [OF mset_hydrate])
     (use assms in \<open>auto simp: filter_map o_def filter_filter DAY_MS_def
        intro!: arg_cong [where f = length] filter_cong\<close>)

lemma mirrors_new: "mirrors [] (new_evaluator p)"
  by (simp add: mirrors_def new_evaluator_def)

lemma mirrors_observe:
  "mirrors es st \<Longrightarrow>
     mirrors (es @ [e]) (PolicyEvaluator_observe (e_request e) (e_timestamp e) st)"
  by (auto simp: mirrors_def PolicyEvaluator_observe_def)

lemma mirrors_count:
  assumes "mirrors es st"
  shows "length (filter (\<lambda>e. P (e_timestamp e)) es) = length (filter (\<lambda>p. P (sp_ts p)) (ev_payments st))"
proof -
  have "length (filter (\<lambda>x. P (fst x))
          (map (\<lambda>e. (e_timestamp e, r_amount (e_request e), lower (r_token (e_request e)))) es)) =
        length (filter (\<lambda>x. P (fst x)) (map (\<lambda>p. (sp_ts p, sp_amount p, sp_token p)) (ev_payments st)))"
    using assms by (simp add: mirrors_def)
  then show ?thesis by (simp add: filter_map o_def)
qed

text \<open>A restart starts a new session: right after hydration nothing counts against a
  session cap, whatever the log holds.\<close>

theorem restart_resets_session:
  "windowedSpend (PolicyEvaluator_hydrate es now0 (new_evaluator p)) Session tok now = 0"
proof -
  have "windowedSpend (PolicyEvaluator_hydrate es now0 (new_evaluator p)) Session tok now =
      sum_list (map sp_amount (filter (counted Session tok now)
        (map (\<lambda>e. \<lparr>sp_ts = e_timestamp e, sp_amount = r_amount (e_request e),
                 sp_token = lower (r_token (e_request e)), sp_hydrated = True\<rparr>)
          (filter (\<lambda>e. e_timestamp e > now0 - DAY_MS) es))))"
    unfolding windowedSpend_eq by (rule sum_filter_cong_mset [OF mset_hydrate])
  then show ?thesis by (simp add: filter_map o_def counted_def)
qed

section \<open>Where the windows stop protecting\<close>

text \<open>The cap does not bound concurrent payments: two payments evaluated before the first
  one is observed are both admitted by a day cap that either alone respects, and together they
  spend more than the cap (\<open>runGuard\<close> evaluates, then awaits the settlement, and only then
  observes).\<close>

theorem concurrent_payments_overrun_cap:
  assumes "p_rules p = [SpendCap r]" "sc_window r = Day"
    and "lower (sc_token r) = lower (r_token req)"
    and "r_amount req \<le> sc_maxAmount r" "sc_maxAmount r < 2 * r_amount req"
    and "t1 \<le> t2" "t2 < t1 + DAY_MS"
  shows "\<not> blocks (PolicyEvaluator_evaluate pu (new_evaluator p) req t) \<and>
     windowedSpend (PolicyEvaluator_observe req t2 (PolicyEvaluator_observe req t1 (new_evaluator p)))
       Day (sc_token r) t2 > sc_maxAmount r"
proof (rule conjI)
  have zero: "windowedSpend (new_evaluator p) w tok u = 0" for w tok u
    by (simp add: windowedSpend_eq new_evaluator_def)
  show "\<not> blocks (PolicyEvaluator_evaluate pu (new_evaluator p) req t)"
  proof
    assume "blocks (PolicyEvaluator_evaluate pu (new_evaluator p) req t)"
    with assms(1) have "\<exists>c. rr_check (checkSpendCap r (rule_context_of (new_evaluator p) req t)) = Some c
        \<and> \<not> c_passed c \<and> c_severity c = Critical"
      by (auto simp: blocks_iff new_evaluator_def)
    with assms show False
      by (simp add: checkSpendCap_critical_iff rule_context_of_def zero)
  qed
  show "windowedSpend (PolicyEvaluator_observe req t2 (PolicyEvaluator_observe req t1 (new_evaluator p)))
      Day (sc_token r) t2 > sc_maxAmount r"
    using assms by (simp add: windowedSpend_observe zero window_start_def DAY_MS_def)
qed

text \<open>A rate limit over more than a day forgets on restart: hydration drops every entry
  older than a day, so payments inside the rule's window are no longer counted.\<close>

theorem restart_forgets_long_rate_limits:
  assumes "mirrors es st"
    and "\<And>e. e \<in> set es \<Longrightarrow> now - secs * 1000 < e_timestamp e \<and> e_timestamp e \<le> now - DAY_MS"
  shows "recentPaymentCount st now secs = int (length es) \<and>
     recentPaymentCount (PolicyEvaluator_hydrate es now (new_evaluator p)) now secs = 0"
proof (rule conjI)
  have "filter (\<lambda>e. now - secs * 1000 < e_timestamp e) es = es"
    using assms(2) by (simp add: filter_id_conv)
  with mirrors_count [OF assms(1), of "\<lambda>ts. ts > now - secs * 1000"]
  show "recentPaymentCount st now secs = int (length es)"
    by (simp add: recentPaymentCount_def)
  have "filter (\<lambda>e. now - DAY_MS < e_timestamp e) es = []"
    using assms(2) by (force simp: filter_empty_conv)
  then show "recentPaymentCount (PolicyEvaluator_hydrate es now (new_evaluator p)) now secs = 0"
    by (simp add: recentPaymentCount_def length_filter_cong_mset [OF mset_hydrate])
qed

section \<open>Concrete instances\<close>

definition ex_request :: "int \<Rightarrow> payment_request" where
  "ex_request n = \<lparr>r_intent = ''weather'', r_amount = n, r_token = ''0xAb'', r_recipient = ''0xCd'',
     r_chain = ''eip155:84532'', r_agentId = ''a'', r_resourceUrl = None\<rparr>"

definition ex_cap :: spend_cap_rule where
  "ex_cap = \<lparr>sc_window = Day, sc_maxAmount = 15, sc_token = ''0xab'', sc_escalateAbove = None\<rparr>"

definition ex_rate :: rate_limit_rule where
  "ex_rate = \<lparr>rl_maxPayments = 2, rl_windowSeconds = 60\<rparr>"

definition ex_policy :: "policy_rule list \<Rightarrow> policy" where
  "ex_policy rs = \<lparr>p_agentId = ''a'', p_rules = rs, p_anomalyThreshold = 8 / 10,
     p_anomalyAction = AEscalate, p_sourceText = None\<rparr>"

definition ex_entry :: "int \<Rightarrow> int \<Rightarrow> audit_entry" where
  "ex_entry t n = \<lparr>e_id = ''e1'', e_timestamp = t, e_agentId = ''a'', e_request = ex_request n,
     e_decision = \<lparr>d_verdict = Allow, d_riskScore = 0, d_checks = [], d_reason = R_allowed 0,
       d_escalation = None\<rparr>,
     e_settlement = Some \<lparr>s_txHash = Some ''0x1'', s_nonce = None, s_facilitator = None,
       s_success = True\<rparr>,
     e_entryHash = ''0x''\<rparr>"

lemma lower_ex: "lower ''0xAb'' = ''0xab''" "lower ''0xab'' = ''0xab''"
  by code_simp+

lemmas ex_defs = ex_request_def ex_cap_def ex_rate_def ex_policy_def ex_entry_def

lemma ex_serial_run:
  "serial_run pu (new_evaluator (ex_policy [SpendCap ex_cap, RateLimit ex_rate])) 0
     (PolicyEvaluator_observe (ex_request 10) 5 (new_evaluator (ex_policy [SpendCap ex_cap, RateLimit ex_rate]))) 5"
proof (rule serial_run.pay [OF serial_run.start])
  show "\<not> blocks (PolicyEvaluator_evaluate pu
      (new_evaluator (ex_policy [SpendCap ex_cap, RateLimit ex_rate])) (ex_request 10) 0)"
    by (simp add: blocks_iff ex_defs new_evaluator_def rule_context_of_def rule_defs
        windowedSpend_eq recentPaymentCount_def lower_ex Let_def)
qed (simp_all add: ex_defs)

lemma ex_nonneg: "nonneg_payments (new_evaluator p)"
  by (simp add: nonneg_payments_def new_evaluator_def)

theorem spend_cap_respected_witness:
  "windowedSpend (PolicyEvaluator_observe (ex_request 10) 5
      (new_evaluator (ex_policy [SpendCap ex_cap, RateLimit ex_rate]))) Day ''0xab'' 5 \<le> 15"
  using spend_cap_respected [OF ex_serial_run ex_nonneg, of ex_cap]
  by (simp add: ex_defs new_evaluator_def windowedSpend_eq)

theorem rate_limit_respected_witness:
  "recentPaymentCount (PolicyEvaluator_observe (ex_request 10) 5
      (new_evaluator (ex_policy [SpendCap ex_cap, RateLimit ex_rate]))) 5 60 \<le> 2"
  using rate_limit_respected [OF ex_serial_run ex_nonneg, of ex_rate]
  by (simp add: ex_defs new_evaluator_def recentPaymentCount_def)

lemma ex_mirrors:
  "mirrors [ex_entry t n] (PolicyEvaluator_observe (ex_request n) t (new_evaluator p))"
  using mirrors_observe [OF mirrors_new, of "ex_entry t n" p] by (simp add: ex_defs)

theorem concurrent_payments_overrun_cap_witness:
  "windowedSpend (PolicyEvaluator_observe (ex_request 10) 6 (PolicyEvaluator_observe (ex_request 10) 5
     (new_evaluator (ex_policy [SpendCap ex_cap])))) Day ''0xab'' 6 > 15"
proof -
  have "lower (sc_token ex_cap) = lower (r_token (ex_request 10))"
    by (simp add: ex_request_def ex_cap_def lower_ex)
  from concurrent_payments_overrun_cap [of "ex_policy [SpendCap ex_cap]" ex_cap, OF _ _ this, of 5 6]
  show ?thesis by (simp add: ex_policy_def DAY_MS_def) (simp add: ex_cap_def ex_request_def)
qed

theorem restart_forgets_long_rate_limits_witness:
  "recentPaymentCount (PolicyEvaluator_hydrate [ex_entry 0 10] 100000000 (new_evaluator (ex_policy [])))
     100000000 604800 = 0"
  by (rule restart_forgets_long_rate_limits
        [OF ex_mirrors [of 0 10 "ex_policy []"], THEN conjunct2])
     (simp_all add: ex_defs DAY_MS_def)

end
