(* ===== verification/Breaker.thy ===== *)
theory Breaker
  imports Types
begin

text \<open>
  \<open>CircuitBreaker\<close> of \<open>packages/core/src/circuit-breaker.ts\<close>: a sliding window of decisions
  that freezes the agent when too many are blocked, escalated or anomalous. The configuration is
  an argument; \<open>isOpen\<close> and \<open>counts\<close> change the state as the source's do and return it.
\<close>

record breaker_config =
  bc_windowSeconds :: int
  bc_maxBlocks :: "int option"
  bc_maxEscalations :: "int option"
  bc_maxAnomalies :: "int option"
  bc_cooldownSeconds :: "int option"

record breaker_event =
  be_ts :: int
  be_verdict :: verdict
  be_anomaly :: bool

record breaker =
  bk_events :: "breaker_event list"
  bk_openedAt :: "int option"

record breaker_counts =
  n_blocks :: int
  n_escalations :: int
  n_anomalies :: int

definition new_breaker :: breaker where
  "new_breaker = \<lparr>bk_events = [], bk_openedAt = None\<rparr>"

definition CircuitBreaker_reset :: "breaker \<Rightarrow> breaker" where
  "CircuitBreaker_reset b = b\<lparr>bk_openedAt := None, bk_events := []\<rparr>"

definition CircuitBreaker_isOpen :: "breaker_config \<Rightarrow> int \<Rightarrow> breaker \<Rightarrow> bool \<times> breaker" where
  "CircuitBreaker_isOpen cfg now b =
     (case bk_openedAt b of
        None \<Rightarrow> (False, b)
      | Some opened \<Rightarrow>
          (case bc_cooldownSeconds cfg of
             Some cooldown \<Rightarrow>
               if cooldown > 0 \<and> now - opened \<ge> cooldown * 1000
               then (False, CircuitBreaker_reset b) else (True, b)
           | None \<Rightarrow> (True, b)))"

text \<open>\<open>state(now)\<close>: \<open>True\<close> is \<open>"open"\<close>, \<open>False\<close> is \<open>"closed"\<close>.\<close>

definition CircuitBreaker_state :: "breaker_config \<Rightarrow> int \<Rightarrow> breaker \<Rightarrow> bool \<times> breaker" where
  "CircuitBreaker_state cfg now b = CircuitBreaker_isOpen cfg now b"

definition CircuitBreaker_prune :: "breaker_config \<Rightarrow> int \<Rightarrow> breaker \<Rightarrow> breaker" where
  "CircuitBreaker_prune cfg now b =
     b\<lparr>bk_events := filter (\<lambda>e. be_ts e > now - bc_windowSeconds cfg * 1000) (bk_events b)\<rparr>"

definition event_counts :: "breaker_event list \<Rightarrow> breaker_counts" where
  "event_counts es =
     \<lparr>n_blocks = int (length (filter (\<lambda>e. be_verdict e = Block) es)),
      n_escalations = int (length (filter (\<lambda>e. be_verdict e = Escalate) es)),
      n_anomalies = int (length (filter be_anomaly es))\<rparr>"

definition reaches :: "int \<Rightarrow> int option \<Rightarrow> bool" where
  "reaches n m = (case m of None \<Rightarrow> False | Some k \<Rightarrow> n \<ge> k)"

definition CircuitBreaker_shouldTrip :: "breaker_config \<Rightarrow> breaker \<Rightarrow> bool" where
  "CircuitBreaker_shouldTrip cfg b =
     (let c = event_counts (bk_events b)
      in reaches (n_blocks c) (bc_maxBlocks cfg) \<or>
         reaches (n_escalations c) (bc_maxEscalations cfg) \<or>
         reaches (n_anomalies c) (bc_maxAnomalies cfg))"

definition CircuitBreaker_record ::
  "breaker_config \<Rightarrow> verdict \<Rightarrow> bool \<Rightarrow> int \<Rightarrow> breaker \<Rightarrow> breaker" where
  "CircuitBreaker_record cfg v anomaly now b =
     (let b1 = b\<lparr>bk_events := bk_events b @ [\<lparr>be_ts = now, be_verdict = v, be_anomaly = anomaly\<rparr>]\<rparr>;
          b2 = CircuitBreaker_prune cfg now b1
      in if bk_openedAt b2 = None \<and> CircuitBreaker_shouldTrip cfg b2
         then b2\<lparr>bk_openedAt := Some now\<rparr> else b2)"

definition CircuitBreaker_counts ::
  "breaker_config \<Rightarrow> int \<Rightarrow> breaker \<Rightarrow> breaker_counts \<times> breaker" where
  "CircuitBreaker_counts cfg now b =
     (let b' = CircuitBreaker_prune cfg now b in (event_counts (bk_events b'), b'))"

definition breaker_replay_step :: "breaker_config \<Rightarrow> audit_entry \<Rightarrow> breaker \<Rightarrow> breaker" where
  "breaker_replay_step cfg e b =
     CircuitBreaker_record cfg (d_verdict (e_decision e)) (anomaly_fired (d_checks (e_decision e)))
       (e_timestamp e) b"

definition breaker_in_window :: "breaker_config \<Rightarrow> int \<Rightarrow> audit_entry list \<Rightarrow> audit_entry list" where
  "breaker_in_window cfg now es =
     sort_key e_timestamp (filter (\<lambda>e. e_timestamp e > now - bc_windowSeconds cfg * 1000) es)"

definition CircuitBreaker_hydrate ::
  "breaker_config \<Rightarrow> audit_entry list \<Rightarrow> int \<Rightarrow> breaker \<Rightarrow> breaker" where
  "CircuitBreaker_hydrate cfg es now b =
     fold (breaker_replay_step cfg) (breaker_in_window cfg now es) b"

text \<open>The operations as events, for runs of a breaker.\<close>

datatype breaker_op = OpRecord verdict bool int | OpIsOpen int | OpCounts int | OpReset

fun breaker_op_step :: "breaker_config \<Rightarrow> breaker_op \<Rightarrow> breaker \<Rightarrow> breaker" where
  "breaker_op_step cfg (OpRecord v a t) b = CircuitBreaker_record cfg v a t b"
| "breaker_op_step cfg (OpIsOpen t) b = snd (CircuitBreaker_isOpen cfg t b)"
| "breaker_op_step cfg (OpCounts t) b = snd (CircuitBreaker_counts cfg t b)"
| "breaker_op_step cfg OpReset b = CircuitBreaker_reset b"

section \<open>Hydration replays the log\<close>

interpretation breaker_log:
  replay "breaker_replay_step cfg" "breaker_in_window cfg now" "\<lambda>es. CircuitBreaker_hydrate cfg es now"
  for cfg now
  by unfold_locales (auto simp: CircuitBreaker_hydrate_def breaker_in_window_def)

lemmas breaker_defs [op_defs] =
  CircuitBreaker_reset_def CircuitBreaker_isOpen_def CircuitBreaker_state_def
  CircuitBreaker_prune_def CircuitBreaker_shouldTrip_def CircuitBreaker_record_def
  CircuitBreaker_counts_def

lemma record_events:
  "bk_events (CircuitBreaker_record cfg v a now b) =
     filter (\<lambda>e. be_ts e > now - bc_windowSeconds cfg * 1000)
       (bk_events b @ [\<lparr>be_ts = now, be_verdict = v, be_anomaly = a\<rparr>])"
  by (simp add: CircuitBreaker_record_def CircuitBreaker_prune_def Let_def)

lemma record_open_stays:
  "bk_openedAt b = Some t \<Longrightarrow> bk_openedAt (CircuitBreaker_record cfg v a now b) = Some t"
  by (simp add: breaker_defs Let_def)

text \<open>
  The decisions recorded since the last reset, with nothing pruned, and the test of the maxima on those
  of them that are inside the window at a given time.
\<close>

fun history_step :: "breaker_op \<Rightarrow> breaker_event list \<Rightarrow> breaker_event list" where
  "history_step (OpRecord v a t) h = h @ [\<lparr>be_ts = t, be_verdict = v, be_anomaly = a\<rparr>]"
| "history_step OpReset h = []"
| "history_step (OpIsOpen t) h = h"
| "history_step (OpCounts t) h = h"

definition history :: "breaker_op list \<Rightarrow> breaker_event list" where
  "history ops = fold history_step ops []"

fun op_times :: "breaker_op \<Rightarrow> int list" where
  "op_times (OpRecord v a t) = [t]"
| "op_times OpReset = []"
| "op_times (OpIsOpen t) = [t]"
| "op_times (OpCounts t) = [t]"

definition recent :: "breaker_config \<Rightarrow> int \<Rightarrow> breaker_event list \<Rightarrow> breaker_event list" where
  "recent cfg now h = filter (\<lambda>e. now - be_ts e < bc_windowSeconds cfg * 1000) h"

definition excess :: "breaker_config \<Rightarrow> int \<Rightarrow> breaker_event list \<Rightarrow> bool" where
  "excess cfg now h \<longleftrightarrow>
     (\<exists>m. bc_maxBlocks cfg = Some m \<and> m \<le> int (length (filter (\<lambda>e. be_verdict e = Block) (recent cfg now h)))) \<or>
     (\<exists>m. bc_maxEscalations cfg = Some m \<and> m \<le> int (length (filter (\<lambda>e. be_verdict e = Escalate) (recent cfg now h)))) \<or>
     (\<exists>m. bc_maxAnomalies cfg = Some m \<and> m \<le> int (length (filter be_anomaly (recent cfg now h))))"

definition first_excess :: "breaker_config \<Rightarrow> breaker_event list \<Rightarrow> nat \<Rightarrow> bool" where
  "first_excess cfg h i \<longleftrightarrow> i < length h \<and> excess cfg (be_ts (h ! i)) (take (Suc i) h) \<and>
     (\<forall>j < i. \<not> excess cfg (be_ts (h ! j)) (take (Suc j) h))"

lemma first_excess_ex: "(\<exists>i. first_excess cfg h i) \<longleftrightarrow> (\<exists>i < length h. excess cfg (be_ts (h ! i)) (take (Suc i) h))"
proof
  assume "\<exists>i < length h. excess cfg (be_ts (h ! i)) (take (Suc i) h)"
  then have "\<exists>i. i < length h \<and> excess cfg (be_ts (h ! i)) (take (Suc i) h)" by blast
  from exists_least_iff [THEN iffD1, OF this] show "\<exists>i. first_excess cfg h i"
    unfolding first_excess_def by (meson less_trans)
qed (auto simp: first_excess_def)

lemma first_excess_snoc:
  "first_excess cfg (h @ [e]) i \<longleftrightarrow>
     first_excess cfg h i \<or> i = length h \<and> excess cfg (be_ts e) (h @ [e]) \<and> (\<nexists>j. first_excess cfg h j)"
proof (cases "i = length h")
  case True
  then show ?thesis unfolding first_excess_ex by (auto simp: first_excess_def nth_append)
qed (auto simp: first_excess_def nth_append)

lemma recent_append: "recent cfg now (h @ h') = recent cfg now h @ recent cfg now h'"
  by (simp add: recent_def)

lemma prune_recent: "bk_events (CircuitBreaker_prune cfg now b) = recent cfg now (bk_events b)"
  by (auto simp: CircuitBreaker_prune_def recent_def intro!: filter_cong)

lemma recent_recent: "now \<le> now' \<Longrightarrow> recent cfg now' (recent cfg now h) = recent cfg now' h"
  by (auto simp: recent_def intro!: filter_cong)

lemma shouldTrip_excess:
  "recent cfg now (bk_events b) = bk_events b \<Longrightarrow> CircuitBreaker_shouldTrip cfg b = excess cfg now (bk_events b)"
  by (simp add: CircuitBreaker_shouldTrip_def excess_def event_counts_def reaches_def Let_def split: option.split)

text \<open>What the breaker holds after a run: of the history, all that any later window can still see.\<close>

definition tracks :: "breaker_config \<Rightarrow> breaker_op list \<Rightarrow> breaker \<Rightarrow> bool" where
  "tracks cfg ops b \<longleftrightarrow>
     (\<forall>now. (\<forall>t \<in> set (concat (map op_times ops)). t \<le> now) \<longrightarrow>
        recent cfg now (bk_events b) = recent cfg now (history ops)) \<and>
     (\<forall>t. bk_openedAt b = Some t \<longleftrightarrow> (\<exists>i. first_excess cfg (history ops) i \<and> t = be_ts (history ops ! i)))"

lemma tracks_record:
  assumes "tracks cfg ops b" "\<forall>s \<in> set (concat (map op_times ops)). s \<le> t"
  shows "tracks cfg (ops @ [OpRecord v a t]) (CircuitBreaker_record cfg v a t b)"
proof -
  let ?e = "\<lparr>be_ts = t, be_verdict = v, be_anomaly = a\<rparr>" and ?h = "history ops"
  let ?b = "CircuitBreaker_record cfg v a t b"
  have h: "history (ops @ [OpRecord v a t]) = ?h @ [?e]" by (simp add: history_def)
  have ev: "bk_events ?b = recent cfg t (bk_events b @ [?e])"
    by (simp add: CircuitBreaker_record_def prune_recent Let_def)
  have seen: "recent cfg t (bk_events b @ [?e]) = recent cfg t (?h @ [?e])"
    using assms unfolding tracks_def recent_append by simp
  have "excess cfg t (recent cfg t (bk_events b @ [?e])) = excess cfg t (?h @ [?e])"
    unfolding seen by (simp add: excess_def recent_recent)
  then have opened: "bk_openedAt ?b =
      (case bk_openedAt b of Some s \<Rightarrow> Some s | None \<Rightarrow> if excess cfg t (?h @ [?e]) then Some t else None)"
    using shouldTrip_excess [of cfg t "CircuitBreaker_prune cfg t (b\<lparr>bk_events := bk_events b @ [?e]\<rparr>)"]
    by (simp add: CircuitBreaker_record_def prune_recent recent_recent Let_def split: option.split)
      (simp add: CircuitBreaker_prune_def)
  have "recent cfg now (bk_events ?b) = recent cfg now (?h @ [?e])"
    if "\<forall>s \<in> set (concat (map op_times (ops @ [OpRecord v a t]))). s \<le> now" for now
    using that unfolding ev seen by (simp add: recent_recent)
  moreover have "bk_openedAt ?b = Some s \<longleftrightarrow> (\<exists>i. first_excess cfg (?h @ [?e]) i \<and> s = be_ts ((?h @ [?e]) ! i))" for s
  proof (cases "bk_openedAt b")
    case None
    then have "\<nexists>j. first_excess cfg ?h j" using assms(1) by (auto simp: tracks_def)
    then show ?thesis using None by (auto simp: opened first_excess_snoc)
  next
    case (Some s')
    then obtain i where i: "first_excess cfg ?h i" "s' = be_ts (?h ! i)"
      using assms(1) unfolding tracks_def by blast
    then have "first_excess cfg ?h j \<longleftrightarrow> j = i" for j
      unfolding first_excess_def using linorder_neqE_nat by blast
    moreover have "i < length ?h" using i(1) by (simp add: first_excess_def)
    ultimately show ?thesis using i Some by (auto simp: opened first_excess_snoc nth_append)
  qed
  ultimately show ?thesis unfolding tracks_def h by blast
qed

lemma run_tracks:
  assumes "sorted (concat (map op_times ops))" "\<And>s. bc_cooldownSeconds cfg = Some s \<Longrightarrow> s \<le> 0"
  shows "tracks cfg ops (fold (breaker_op_step cfg) ops new_breaker)"
  using assms(1)
proof (induction ops rule: rev_induct)
  case Nil
  then show ?case by (simp add: tracks_def history_def new_breaker_def first_excess_def recent_def)
next
  case (snoc op ops)
  then have IH: "tracks cfg ops (fold (breaker_op_step cfg) ops new_breaker)" by (simp add: sorted_append)
  show ?case
  proof (cases op)
    case (OpRecord v a t)
    then show ?thesis using tracks_record [OF IH, of t v a] snoc.prems by (simp add: sorted_append)
  next
    case (OpIsOpen t)
    have "snd (CircuitBreaker_isOpen cfg t b) = b" for b
      using assms(2) by (force simp: CircuitBreaker_isOpen_def split: option.split)
    then show ?thesis using IH by (simp add: OpIsOpen tracks_def history_def)
  next
    case (OpCounts t)
    then show ?thesis using IH snoc.prems
      by (simp add: tracks_def history_def CircuitBreaker_counts_def Let_def prune_recent sorted_append recent_recent)
        (simp add: CircuitBreaker_prune_def)
  next
    case OpReset
    then show ?thesis
      by (simp add: tracks_def history_def CircuitBreaker_reset_def first_excess_def recent_def)
  qed
qed

text \<open>
  C28. The breaker trips at the first excess. After any run of recordings, queries and resets in the order of their
  times, without a cooldown, it was opened at the time of the first decision since the last reset at which the
  decisions inside the window then, that one included, reached a configured maximum of blocks, escalations or
  anomalies, and it is closed when there was none: forgetting decisions as they leave the window loses nothing. Asked
  at a later time, it counts exactly the decisions of the history that are inside the window at that time.
\<close>

theorem breaker_trips_at_first_excess:
  assumes "sorted (concat (map op_times ops) @ [now])" "\<And>s. bc_cooldownSeconds cfg = Some s \<Longrightarrow> s \<le> 0"
  shows "let b = fold (breaker_op_step cfg) ops new_breaker; h = history ops; w = recent cfg now h
     in (\<forall>t. bk_openedAt b = Some t \<longleftrightarrow>
          (\<exists>i < length h. t = be_ts (h ! i) \<and> excess cfg t (take (Suc i) h) \<and>
             (\<forall>j < i. \<not> excess cfg (be_ts (h ! j)) (take (Suc j) h)))) \<and>
        fst (CircuitBreaker_isOpen cfg now b) = (\<exists>i < length h. excess cfg (be_ts (h ! i)) (take (Suc i) h)) \<and>
        fst (CircuitBreaker_counts cfg now b) =
          \<lparr>n_blocks = int (length (filter (\<lambda>e. be_verdict e = Block) w)),
           n_escalations = int (length (filter (\<lambda>e. be_verdict e = Escalate) w)),
           n_anomalies = int (length (filter be_anomaly w))\<rparr>"
proof -
  let ?b = "fold (breaker_op_step cfg) ops new_breaker" and ?h = "history ops"
  have t: "tracks cfg ops ?b" by (rule run_tracks) (use assms in \<open>simp_all add: sorted_append\<close>)
  have "\<forall>t. bk_openedAt ?b = Some t \<longleftrightarrow> (\<exists>i. first_excess cfg ?h i \<and> t = be_ts (?h ! i))"
    using t by (simp add: tracks_def)
  moreover have "(\<exists>i. first_excess cfg ?h i) \<longleftrightarrow> (\<exists>i < length ?h. excess cfg (be_ts (?h ! i)) (take (Suc i) ?h))"
    by (rule first_excess_ex)
  moreover have "fst (CircuitBreaker_isOpen cfg now ?b) = (bk_openedAt ?b \<noteq> None)"
    using assms(2) by (force simp: CircuitBreaker_isOpen_def split: option.split)
  moreover have "recent cfg now (bk_events ?b) = recent cfg now ?h"
    using t assms(1) by (auto simp: tracks_def sorted_append)
  ultimately show ?thesis
    by (auto simp: CircuitBreaker_counts_def prune_recent event_counts_def Let_def first_excess_def)
qed

text \<open>An open breaker without a cooldown stays open, since the same instant, through every
  sequence of operations that contains no reset.\<close>

theorem open_until_reset:
  assumes "bk_openedAt b = Some t" "bc_cooldownSeconds cfg = None \<or> bc_cooldownSeconds cfg = Some 0"
    and "OpReset \<notin> set ops"
  shows "bk_openedAt (fold (breaker_op_step cfg) ops b) = Some t"
  using assms
proof (induction ops arbitrary: b)
  case (Cons op ops)
  have "bk_openedAt (breaker_op_step cfg op b) = Some t"
    using Cons.prems
    by (cases op) (auto simp: record_open_stays CircuitBreaker_isOpen_def CircuitBreaker_counts_def
        CircuitBreaker_prune_def Let_def)
  with Cons show ?case by simp
qed simp

text \<open>With a cooldown, an open breaker answers closed exactly from the end of the cooldown
  on, and then it has forgotten its window; before that it answers open and is unchanged.\<close>

theorem cooldown_reopens:
  assumes "bk_openedAt b = Some t" "bc_cooldownSeconds cfg = Some s" "0 < s"
  shows "CircuitBreaker_isOpen cfg now b =
     (if t + s * 1000 \<le> now then (False, new_breaker) else (True, b))"
  using assms by (simp add: CircuitBreaker_isOpen_def CircuitBreaker_reset_def new_breaker_def)

text \<open>A restart inside the window restores the breaker exactly: replaying the log of
  decisions recorded live, all of them still in the window, rebuilds the same events and the same
  opening instant.\<close>

theorem restart_restores_breaker:
  assumes "sorted (map e_timestamp es)"
    and "\<And>e. e \<in> set es \<Longrightarrow> e_timestamp e > now - bc_windowSeconds cfg * 1000"
  shows "CircuitBreaker_hydrate cfg es now new_breaker =
     fold (\<lambda>e. CircuitBreaker_record cfg (d_verdict (e_decision e))
             (anomaly_fired (d_checks (e_decision e))) (e_timestamp e)) es new_breaker"
proof -
  have "filter (\<lambda>e. e_timestamp e > now - bc_windowSeconds cfg * 1000) es = es"
    using assms(2) by (simp add: filter_id_conv)
  with assms(1) have "breaker_in_window cfg now es = es"
    by (simp add: breaker_in_window_def sort_key_id_if_sorted)
  then show ?thesis
    by (simp add: CircuitBreaker_hydrate_def breaker_replay_step_def [abs_def])
qed

text \<open>A restart after the window thaws the agent: when every recorded decision is older
  than the window, hydration leaves the breaker closed, although the breaker that recorded them
  live is still open and, without a cooldown, only a manual reset would have closed it.\<close>

theorem restart_thaws_breaker:
  assumes "\<And>e. e \<in> set es \<Longrightarrow> e_timestamp e \<le> now - bc_windowSeconds cfg * 1000"
    and "bc_cooldownSeconds cfg = None"
    and "bk_openedAt (fold (breaker_replay_step cfg) es new_breaker) = Some t"
  shows "fst (CircuitBreaker_isOpen cfg now (fold (breaker_replay_step cfg) es new_breaker)) \<and>
     \<not> fst (CircuitBreaker_isOpen cfg now (CircuitBreaker_hydrate cfg es now new_breaker))"
proof -
  have "filter (\<lambda>e. e_timestamp e > now - bc_windowSeconds cfg * 1000) es = []"
    using assms(1) by (force simp: filter_empty_conv)
  then have "CircuitBreaker_hydrate cfg es now new_breaker = new_breaker"
    by (simp add: CircuitBreaker_hydrate_def breaker_in_window_def)
  with assms show ?thesis
    by (simp add: CircuitBreaker_isOpen_def) (simp add: new_breaker_def)
qed

section \<open>Concrete instances\<close>

definition ex_breaker_config :: "int option \<Rightarrow> breaker_config" where
  "ex_breaker_config cooldown = \<lparr>bc_windowSeconds = 60, bc_maxBlocks = Some 1, bc_maxEscalations = None,
     bc_maxAnomalies = Some 2, bc_cooldownSeconds = cooldown\<rparr>"

definition ex_block_entry :: audit_entry where
  "ex_block_entry = \<lparr>e_id = ''e1'', e_timestamp = 1000, e_agentId = ''a'',
     e_request = \<lparr>r_intent = [], r_amount = 10, r_token = ''t'', r_recipient = ''r'', r_chain = ''c'',
       r_agentId = ''a'', r_resourceUrl = None\<rparr>,
     e_decision = \<lparr>d_verdict = Block, d_riskScore = 0, d_checks = [], d_reason = R_breaker_open,
       d_escalation = None\<rparr>,
     e_settlement = None, e_entryHash = []\<rparr>"

definition ex_open_breaker :: breaker where
  "ex_open_breaker = \<lparr>bk_events = [], bk_openedAt = Some 5\<rparr>"

lemmas ex_breaker_defs = ex_breaker_config_def ex_block_entry_def ex_open_breaker_def

text \<open>A block and two anomalies, too far apart for the window; a reset; two anomalies inside it.\<close>

definition ex_breaker_run :: "breaker_op list" where
  "ex_breaker_run = [OpRecord Block False 5, OpIsOpen 6, OpReset, OpRecord Allow True 10, OpRecord Allow True 70000,
     OpCounts 70001, OpRecord Escalate True 80000, OpRecord Block False 90000]"

theorem breaker_trips_at_first_excess_witness:
  "bk_openedAt (fold (breaker_op_step (ex_breaker_config None)) ex_breaker_run new_breaker) = Some 80000"
proof -
  let ?e = "\<lambda>t v a. \<lparr>be_ts = t, be_verdict = v, be_anomaly = a\<rparr>"
  have h: "history ex_breaker_run = [?e 10 Allow True, ?e 70000 Allow True, ?e 80000 Escalate True, ?e 90000 Block False]"
    by (simp add: history_def ex_breaker_run_def)
  have "excess (ex_breaker_config None) 80000 (take (Suc 2) (history ex_breaker_run))"
    "\<not> excess (ex_breaker_config None) (be_ts (history ex_breaker_run ! 0)) (take (Suc 0) (history ex_breaker_run))"
    "\<not> excess (ex_breaker_config None) (be_ts (history ex_breaker_run ! 1)) (take (Suc 1) (history ex_breaker_run))"
    by (simp_all add: h excess_def recent_def ex_breaker_config_def numeral_2_eq_2)
  then have "\<exists>i < length (history ex_breaker_run). 80000 = be_ts (history ex_breaker_run ! i) \<and>
      excess (ex_breaker_config None) 80000 (take (Suc i) (history ex_breaker_run)) \<and>
      (\<forall>j < i. \<not> excess (ex_breaker_config None) (be_ts (history ex_breaker_run ! j)) (take (Suc j) (history ex_breaker_run)))"
    by (intro exI [of _ 2]) (auto simp: h less_2_cases_iff)
  moreover have "sorted (concat (map op_times ex_breaker_run) @ [90001])" by (simp add: ex_breaker_run_def)
  ultimately show ?thesis
    using breaker_trips_at_first_excess [of ex_breaker_run 90001 "ex_breaker_config None"]
    unfolding Let_def ex_breaker_config_def by simp
qed

theorem open_until_reset_witness:
  "bk_openedAt (fold (breaker_op_step (ex_breaker_config None))
     [OpRecord Allow False 10, OpIsOpen 100000, OpCounts 7] ex_open_breaker) = Some 5"
  by (rule open_until_reset) (simp_all add: ex_breaker_defs)

theorem cooldown_reopens_witness:
  "CircuitBreaker_isOpen (ex_breaker_config (Some 30)) 30005 ex_open_breaker = (False, new_breaker)"
  by (subst cooldown_reopens [of _ 5 _ 30]) (simp_all add: ex_breaker_defs)

theorem restart_restores_breaker_witness:
  "bk_openedAt (CircuitBreaker_hydrate (ex_breaker_config None) [ex_block_entry] 2000 new_breaker) =
     Some 1000"
  by (subst restart_restores_breaker)
     (simp_all add: ex_breaker_defs breaker_defs new_breaker_def Let_def event_counts_def reaches_def)

theorem restart_thaws_breaker_witness:
  "\<not> fst (CircuitBreaker_isOpen (ex_breaker_config None) 61000
     (CircuitBreaker_hydrate (ex_breaker_config None) [ex_block_entry] 61000 new_breaker))"
  by (rule restart_thaws_breaker [of "[ex_block_entry]" 61000 "ex_breaker_config None" 1000, THEN conjunct2])
     (simp_all add: ex_breaker_defs breaker_defs new_breaker_def Let_def event_counts_def reaches_def
        breaker_replay_step_def)

end
