(* ===== verification/Registry.thy ===== *)
theory Registry
  imports Rules
begin

text \<open>
  \<open>ResourceRegistry\<close> of \<open>packages/core/src/intent/registry.ts\<close>: the binding of a paid
  resource's host to the addresses it has been paid at. The two-level \<open>Map<string, Set<string>>\<close>
  is an association list from hosts to the lists of their addresses, both in insertion order.
  \<open>new URL\<close> is the argument \<open>pu\<close>, as in the policy rules; the host is non-empty or unusable.
\<close>

type_synonym registry = "(string \<times> string list) list"

definition hostOf :: "(string \<Rightarrow> url option) \<Rightarrow> string option \<Rightarrow> string option" where
  "hostOf pu resourceUrl =
     (case resourceUrl of
        None \<Rightarrow> None
      | Some s \<Rightarrow>
          if s = [] then None
          else (case pu s of
                  None \<Rightarrow> None
                | Some u \<Rightarrow> (let h = lower (u_host u) in if length h > 0 then Some h else None)))"

text \<open>\<open>Set.prototype.add\<close>: a member already there keeps its place.\<close>

definition set_add :: "'a \<Rightarrow> 'a list \<Rightarrow> 'a list" where
  "set_add x xs = (if x \<in> set xs then xs else xs @ [x])"

definition ResourceRegistry_bind ::
  "(string \<Rightarrow> url option) \<Rightarrow> string option \<Rightarrow> address \<Rightarrow> registry \<Rightarrow> registry" where
  "ResourceRegistry_bind pu resourceUrl recipient reg =
     (case hostOf pu resourceUrl of
        None \<Rightarrow> reg
      | Some host \<Rightarrow>
          (let addrs = (case map_of reg host of Some xs \<Rightarrow> xs | None \<Rightarrow> [])
           in AList.update host (set_add (lower recipient) addrs) reg))"

definition ResourceRegistry_known :: "(string \<Rightarrow> url option) \<Rightarrow> registry \<Rightarrow> string option \<Rightarrow> string list" where
  "ResourceRegistry_known pu reg resourceUrl =
     (case hostOf pu resourceUrl of
        None \<Rightarrow> []
      | Some host \<Rightarrow> (case map_of reg host of Some xs \<Rightarrow> xs | None \<Rightarrow> []))"

definition ResourceRegistry_size :: "registry \<Rightarrow> nat" where
  "ResourceRegistry_size reg = length reg"

definition bind_entry :: "(string \<Rightarrow> url option) \<Rightarrow> audit_entry \<Rightarrow> registry \<Rightarrow> registry" where
  "bind_entry pu e reg = ResourceRegistry_bind pu (r_resourceUrl (e_request e)) (r_recipient (e_request e)) reg"

definition ResourceRegistry_hydrate ::
  "(string \<Rightarrow> url option) \<Rightarrow> audit_entry list \<Rightarrow> registry \<Rightarrow> registry" where
  "ResourceRegistry_hydrate pu entries reg = fold (bind_entry pu) entries reg"

definition short :: "string \<Rightarrow> string" where
  "short a = take 10 a"

definition binding_check :: "bool \<Rightarrow> severity \<Rightarrow> message \<Rightarrow> policy_check" where
  "binding_check ok sev m =
     \<lparr>c_id = ''intent-resource-binding'', c_passed = ok, c_severity = sev, c_message = m\<rparr>"

definition ResourceRegistry_check :: "(string \<Rightarrow> url option) \<Rightarrow> registry \<Rightarrow> payment_request \<Rightarrow> policy_check" where
  "ResourceRegistry_check pu reg req =
     (case hostOf pu (r_resourceUrl req) of
        None \<Rightarrow> binding_check True Info M_no_resource_url
      | Some host \<Rightarrow>
          (case map_of reg host of
             None \<Rightarrow> binding_check True Warning (M_first_for_resource host (short (r_recipient req)))
           | Some known \<Rightarrow>
               if length known = 0 then
                 binding_check True Warning (M_first_for_resource host (short (r_recipient req)))
               else if lower (r_recipient req) \<in> set known then
                 binding_check True Info (M_previously_paid host (short (r_recipient req)))
               else binding_check False Critical
                 (M_payee_mismatch host (map short known) (short (r_recipient req)))))"

section \<open>The addresses known for a host\<close>

lemma set_set_add [simp]: "set (set_add x xs) = insert x (set xs)"
  by (auto simp: set_add_def)

lemma distinct_set_add [simp]: "distinct (set_add x xs) \<longleftrightarrow> distinct xs"
  by (auto simp: set_add_def)

definition paid_at :: "registry \<Rightarrow> string \<Rightarrow> string set" where
  "paid_at reg host = (case map_of reg host of None \<Rightarrow> {} | Some xs \<Rightarrow> set xs)"

lemma paid_at_bind:
  "paid_at (ResourceRegistry_bind pu u a reg) host =
     (if hostOf pu u = Some host then insert (lower a) (paid_at reg host) else paid_at reg host)"
  by (auto simp: paid_at_def ResourceRegistry_bind_def Let_def AList.update_conv' split: option.splits)

lemma check_failed_iff:
  "\<not> c_passed (ResourceRegistry_check pu reg req) \<longleftrightarrow>
     (\<exists>host. hostOf pu (r_resourceUrl req) = Some host \<and> paid_at reg host \<noteq> {} \<and>
        lower (r_recipient req) \<notin> paid_at reg host)"
  by (auto simp: ResourceRegistry_check_def binding_check_def paid_at_def split: option.splits)

lemma check_critical_iff:
  "c_severity (ResourceRegistry_check pu reg req) = Critical \<longleftrightarrow>
     \<not> c_passed (ResourceRegistry_check pu reg req)"
  by (auto simp: ResourceRegistry_check_def binding_check_def split: option.splits)

lemma check_not_behavioral: "\<not> behavioral_id (c_id (ResourceRegistry_check pu reg req))"
  by (auto simp: ResourceRegistry_check_def binding_check_def behavioral_id_def starts_with_def
      split: option.splits)

text \<open>The payees of one host are a case-insensitive memory.\<close>

definition remember_payee :: "string \<Rightarrow> string \<Rightarrow> registry \<Rightarrow> registry" where
  "remember_payee host a reg =
     AList.update host (set_add (lower a) (case map_of reg host of Some xs \<Rightarrow> xs | None \<Rightarrow> [])) reg"

interpretation payees: ci_memory "remember_payee host" "\<lambda>reg a. lower a \<in> paid_at reg host" for host
  by unfold_locales (auto simp: remember_payee_def paid_at_def AList.update_conv' split: option.splits)

lemma bind_remembers:
  "hostOf pu u = Some host \<Longrightarrow> ResourceRegistry_bind pu u a reg = remember_payee host a reg"
  by (simp add: ResourceRegistry_bind_def remember_payee_def Let_def)

text \<open>Hydration replays every entry through the live operation.\<close>

interpretation registry_log: replay "bind_entry pu" "\<lambda>es. es" "ResourceRegistry_hydrate pu" for pu
  by unfold_locales (simp_all add: ResourceRegistry_hydrate_def)

lemma paid_at_hydrate:
  "paid_at (ResourceRegistry_hydrate pu es reg) host =
     paid_at reg host \<union>
     {lower (r_recipient (e_request e)) | e.
        e \<in> set es \<and> hostOf pu (r_resourceUrl (e_request e)) = Some host}"
proof -
  have "paid_at (fold (bind_entry pu) es reg) host =
     paid_at reg host \<union>
     {lower (r_recipient (e_request e)) | e.
        e \<in> set es \<and> hostOf pu (r_resourceUrl (e_request e)) = Some host}"
    by (induction es arbitrary: reg) (auto simp: bind_entry_def paid_at_bind)
  then show ?thesis by (simp add: ResourceRegistry_hydrate_def)
qed

text \<open>Every list of addresses is duplicate-free and non-empty, and every host has one entry.\<close>

definition registry_wf :: "registry \<Rightarrow> bool" where
  "registry_wf reg \<longleftrightarrow> distinct (map fst reg) \<and> list_all (\<lambda>(h, xs). distinct xs \<and> xs \<noteq> [] \<and> map lower xs = xs) reg"

lemma registry_wf_bind:
  assumes "registry_wf reg"
  shows "registry_wf (ResourceRegistry_bind pu u a reg)"
proof (cases "hostOf pu u")
  case None
  then show ?thesis using assms by (simp add: ResourceRegistry_bind_def)
next
  case (Some host)
  let ?xs = "case map_of reg host of Some xs \<Rightarrow> xs | None \<Rightarrow> []"
  have xs: "distinct ?xs" "map lower ?xs = ?xs"
    using assms by (auto simp: registry_wf_def list_all_iff split: option.splits dest: map_of_SomeD)
  have "set_add x xs \<noteq> []" "map lower xs = xs \<Longrightarrow> map lower (set_add (lower x) xs) = set_add (lower x) xs"
    for x xs
    by (auto simp: set_add_def)
  with xs have new: "distinct (set_add (lower a) ?xs)" "set_add (lower a) ?xs \<noteq> []"
    "map lower (set_add (lower a) ?xs) = set_add (lower a) ?xs"
    by simp_all
  have "list_all (\<lambda>(h, xs). distinct xs \<and> xs \<noteq> [] \<and> map lower xs = xs) (AList.update host ys rs)"
    if "list_all (\<lambda>(h, xs). distinct xs \<and> xs \<noteq> [] \<and> map lower xs = xs) rs"
      "distinct ys" "ys \<noteq> []" "map lower ys = ys" for ys rs
    using that by (induction rs) auto
  with new assms Some show ?thesis
    by (simp add: registry_wf_def ResourceRegistry_bind_def Let_def AList.distinct_update)
qed

section \<open>Properties\<close>

text \<open>
  C15. The binding check after a restart: it fails, and then critically, exactly if the request's
  URL has a host, some entry of the log paid that host, and no entry of the log that paid that
  host names the request's recipient (up to letter case).
\<close>

theorem substituted_payee_blocks:
  "let c = ResourceRegistry_check pu (ResourceRegistry_hydrate pu es []) req;
       same_host = (\<lambda>e. hostOf pu (r_resourceUrl (e_request e)) = hostOf pu (r_resourceUrl req))
   in (\<not> c_passed c) = (hostOf pu (r_resourceUrl req) \<noteq> None \<and> list_ex same_host es \<and>
         \<not> list_ex (\<lambda>e. same_host e \<and>
              lower (r_recipient (e_request e)) = lower (r_recipient req)) es) \<and>
      (c_severity c = Critical) = (\<not> c_passed c)"
proof -
  have "paid_at [] h = {}" for h by (simp add: paid_at_def)
  then show ?thesis
    unfolding Let_def check_critical_iff check_failed_iff list_ex_iff
    by (cases "hostOf pu (r_resourceUrl req)") (auto simp: paid_at_hydrate)
qed

text \<open>
  A payment that was bound is never refused for the same payee again: after \<open>bind\<close> and any
  further replayed history, the check of a request with the same URL and recipient passes, and
  every registry reached from the empty one has one duplicate-free entry per host.
\<close>

theorem bound_payee_stays_accepted:
  assumes "r_resourceUrl req = u" "lower (r_recipient req) = lower a"
  shows "c_passed (ResourceRegistry_check pu
           (ResourceRegistry_hydrate pu es (ResourceRegistry_bind pu u a reg)) req) \<and>
         (registry_wf reg \<longrightarrow>
           registry_wf (ResourceRegistry_hydrate pu es (ResourceRegistry_bind pu u a reg)))"
proof
  let ?r = "ResourceRegistry_hydrate pu es (ResourceRegistry_bind pu u a reg)"
  have "lower a \<in> paid_at ?r host" if "hostOf pu u = Some host" for host
    using that payees.recalls_self [of a host reg] by (simp add: paid_at_hydrate bind_remembers)
  then show "c_passed (ResourceRegistry_check pu ?r req)"
    using check_failed_iff [of pu ?r req] assms by auto
next
  show "registry_wf reg \<longrightarrow> registry_wf (ResourceRegistry_hydrate pu es (ResourceRegistry_bind pu u a reg))"
    using registry_log.hydrate_keeps [where P = registry_wf and pu = pu and es = es]
    by (simp add: registry_wf_bind bind_entry_def)
qed

definition ex_parse :: "string \<Rightarrow> url option" where
  "ex_parse s = Some \<lparr>u_host = s, u_pathname = ''/''\<rparr>"

definition ex_paid :: payment_request where
  "ex_paid = \<lparr>r_intent = [], r_amount = 1, r_token = ''t'', r_recipient = ''0xab'', r_chain = ''c'',
       r_agentId = ''a'', r_resourceUrl = Some ''w.io''\<rparr>"

lemma ex_paid_case: "lower (r_recipient ex_paid) = lower ''0xAB''"
  by code_simp

theorem bound_payee_stays_accepted_witness:
  "c_passed (ResourceRegistry_check ex_parse
     (ResourceRegistry_hydrate ex_parse [] (ResourceRegistry_bind ex_parse (Some ''w.io'') ''0xAB'' [])) ex_paid)"
  using bound_payee_stays_accepted [of ex_paid "Some ''w.io''" "''0xAB''" ex_parse "[]" "[]", OF _ ex_paid_case]
  by (simp add: ex_paid_def)

end
