(* ===== verification/Json.thy ===== *)
theory Json
  imports Prelude
begin

text \<open>
  JSON as the sources use it: the values, \<open>JSON.stringify\<close> and \<open>JSON.parse\<close>, over strings of
  characters below 256. A number is kept as its literal, so that nothing is rounded here; the
  components that read a number interpret the literal. \<open>undefined\<close> members are left out by the
  code that builds the objects, as \<open>JSON.stringify\<close> leaves them out.

  The recursive descent parser has fuel; \<open>json_parse\<close> starts it with more than twice the length
  of its input, and \<open>json_parse_text\<close> shows that it reads back every well-formed value.
\<close>

datatype json =
    JNull
  | JBool bool
  | JNum string
  | JStr string
  | JArr "json list"
  | JObj "(string \<times> json) list"

section \<open>Rendering\<close>

definition hex_digit :: "nat \<Rightarrow> char" where
  "hex_digit d = (if d < 10 then char_of (48 + d) else char_of (87 + d))"

definition escape_char :: "char \<Rightarrow> string" where
  "escape_char c =
     (let n = (of_char c :: nat)
      in if n = 34 then [CHR 0x5C, CHR 0x22]
         else if n = 92 then [CHR 0x5C, CHR 0x5C]
         else if n = 8 then [CHR 0x5C, CHR ''b'']
         else if n = 12 then [CHR 0x5C, CHR ''f'']
         else if n = 10 then [CHR 0x5C, CHR ''n'']
         else if n = 13 then [CHR 0x5C, CHR ''r'']
         else if n = 9 then [CHR 0x5C, CHR ''t'']
         else if n < 32 then [CHR 0x5C, CHR ''u'', CHR ''0'', CHR ''0'', hex_digit (n div 16), hex_digit (n mod 16)]
         else [c])"

definition json_quote :: "string \<Rightarrow> string" where
  "json_quote s = CHR 0x22 # concat (map escape_char s) @ [CHR 0x22]"

fun join_with :: "string \<Rightarrow> string list \<Rightarrow> string" where
  "join_with sep [] = []"
| "join_with sep [x] = x"
| "join_with sep (x # y # ys) = x @ sep @ join_with sep (y # ys)"

fun json_text :: "json \<Rightarrow> string" where
  "json_text JNull = ''null''"
| "json_text (JBool b) = (if b then ''true'' else ''false'')"
| "json_text (JNum l) = l"
| "json_text (JStr s) = json_quote s"
| "json_text (JArr vs) = CHR ''['' # join_with '','' (map json_text vs) @ '']''"
| "json_text (JObj ms) =
     CHR ''{'' # join_with '','' (map (\<lambda>(k, v). json_quote k @ '':'' @ json_text v) ms) @ ''}''"

section \<open>Reading\<close>

fun skip_ws :: "string \<Rightarrow> string" where
  "skip_ws [] = []"
| "skip_ws (c # cs) =
     (let n = (of_char c :: nat) in if n = 32 \<or> n = 9 \<or> n = 10 \<or> n = 13 then skip_ws cs else c # cs)"

definition hex_value :: "char \<Rightarrow> nat option" where
  "hex_value c =
     (let n = (of_char c :: nat)
      in if 48 \<le> n \<and> n \<le> 57 then Some (n - 48)
         else if 97 \<le> n \<and> n \<le> 102 then Some (n - 87)
         else if 65 \<le> n \<and> n \<le> 70 then Some (n - 55)
         else None)"

definition hex4 :: "char \<Rightarrow> char \<Rightarrow> char \<Rightarrow> char \<Rightarrow> nat option" where
  "hex4 a b c d =
     (case (hex_value a, hex_value b, hex_value c, hex_value d) of
        (Some w, Some x, Some y, Some z) \<Rightarrow> Some (4096 * w + 256 * x + 16 * y + z)
      | _ \<Rightarrow> None)"

definition unescape_simple :: "char \<Rightarrow> char option" where
  "unescape_simple c =
     (if c = CHR 0x22 then Some (CHR 0x22)
      else if c = CHR 0x5C then Some (CHR 0x5C)
      else if c = CHR ''/'' then Some (CHR ''/'')
      else if c = CHR ''b'' then Some (char_of (8::nat))
      else if c = CHR ''f'' then Some (char_of (12::nat))
      else if c = CHR ''n'' then Some (char_of (10::nat))
      else if c = CHR ''r'' then Some (char_of (13::nat))
      else if c = CHR ''t'' then Some (char_of (9::nat))
      else None)"

text \<open>The characters of a string literal up to its closing quote, and what follows it.\<close>

fun parse_chars :: "nat \<Rightarrow> string \<Rightarrow> (string \<times> string) option" where
  "parse_chars 0 s = None"
| "parse_chars (Suc n) [] = None"
| "parse_chars (Suc n) (c # cs) =
     (if c = CHR 0x22 then Some ([], cs)
      else if (of_char c :: nat) < 32 then None
      else if c = CHR 0x5C then
        (case cs of
           [] \<Rightarrow> None
         | e # es \<Rightarrow>
             if e = CHR ''u'' then
               (case es of
                  h1 # h2 # h3 # h4 # rest \<Rightarrow>
                    (case hex4 h1 h2 h3 h4 of
                       None \<Rightarrow> None
                     | Some k \<Rightarrow> if k < 256 then map_option (apfst (Cons (char_of k))) (parse_chars n rest) else None)
                | _ \<Rightarrow> None)
             else (case unescape_simple e of
                     None \<Rightarrow> None
                   | Some d \<Rightarrow> map_option (apfst (Cons d)) (parse_chars n es)))
      else map_option (apfst (Cons c)) (parse_chars n cs))"

definition is_digit :: "char \<Rightarrow> bool" where
  "is_digit c = (let n = (of_char c :: nat) in 48 \<le> n \<and> n \<le> 57)"

definition number_char :: "char \<Rightarrow> bool" where
  "number_char c = (is_digit c \<or> c \<in> {CHR ''+'', CHR ''-'', CHR ''.'', CHR ''e'', CHR ''E''})"

text \<open>The JSON grammar of number literals.\<close>

definition drop_digits :: "string \<Rightarrow> string" where
  "drop_digits s = dropWhile is_digit s"

definition exponent_ok :: "string \<Rightarrow> bool" where
  "exponent_ok s =
     (case s of
        [] \<Rightarrow> True
      | e # r \<Rightarrow> (e = CHR ''e'' \<or> e = CHR ''E'') \<and>
          (let r' = (case r of c # cs \<Rightarrow> if c = CHR ''+'' \<or> c = CHR ''-'' then cs else r | [] \<Rightarrow> r)
           in r' \<noteq> [] \<and> drop_digits r' = []))"

definition fraction_ok :: "string \<Rightarrow> bool" where
  "fraction_ok s =
     (case s of
        [] \<Rightarrow> True
      | c # r \<Rightarrow> if c = CHR ''.'' then r \<noteq> [] \<and> is_digit (hd r) \<and> exponent_ok (drop_digits r)
                else exponent_ok s)"

definition number_ok :: "string \<Rightarrow> bool" where
  "number_ok s =
     (let t = (case s of c # cs \<Rightarrow> if c = CHR ''-'' then cs else s | [] \<Rightarrow> s)
      in case t of
           [] \<Rightarrow> False
         | d # ds \<Rightarrow> is_digit d \<and> list_all number_char s \<and>
             (if d = CHR ''0'' then fraction_ok ds else fraction_ok (drop_digits ds)))"

definition strip_lit :: "string \<Rightarrow> string \<Rightarrow> string option" where
  "strip_lit p s = (if starts_with s p then Some (drop (length p) s) else None)"

definition obj_of :: "(string \<times> json) list \<Rightarrow> json" where
  "obj_of ms = JObj (fold (\<lambda>(k, v) m. AList.update k v m) ms [])"

fun parse_value :: "nat \<Rightarrow> string \<Rightarrow> (json \<times> string) option"
  and parse_elems :: "nat \<Rightarrow> string \<Rightarrow> (json list \<times> string) option"
  and parse_members :: "nat \<Rightarrow> string \<Rightarrow> ((string \<times> json) list \<times> string) option" where
  "parse_value 0 s = None"
| "parse_value (Suc n) s =
     (case skip_ws s of
        [] \<Rightarrow> None
      | c # cs \<Rightarrow>
          if c = CHR 0x22 then map_option (apfst JStr) (parse_chars (Suc n) cs)
          else if c = CHR ''['' then
            (case skip_ws cs of
               [] \<Rightarrow> None
             | d # ds \<Rightarrow> if d = CHR '']'' then Some (JArr [], ds)
                        else map_option (apfst JArr) (parse_elems n (d # ds)))
          else if c = CHR ''{'' then
            (case skip_ws cs of
               [] \<Rightarrow> None
             | d # ds \<Rightarrow> if d = CHR ''}'' then Some (JObj [], ds)
                        else map_option (apfst obj_of) (parse_members n (d # ds)))
          else if c = CHR ''n'' then map_option (Pair JNull) (strip_lit ''null'' (c # cs))
          else if c = CHR ''t'' then map_option (Pair (JBool True)) (strip_lit ''true'' (c # cs))
          else if c = CHR ''f'' then map_option (Pair (JBool False)) (strip_lit ''false'' (c # cs))
          else (let l = takeWhile number_char (c # cs)
                in if number_ok l then Some (JNum l, dropWhile number_char (c # cs)) else None))"
| "parse_elems 0 s = None"
| "parse_elems (Suc n) s =
     (case parse_value n s of
        None \<Rightarrow> None
      | Some (v, r) \<Rightarrow>
          (case skip_ws r of
             [] \<Rightarrow> None
           | c # cs \<Rightarrow> if c = CHR '']'' then Some ([v], cs)
                      else if c = CHR '','' then map_option (apfst (Cons v)) (parse_elems n cs)
                      else None))"
| "parse_members 0 s = None"
| "parse_members (Suc n) s =
     (case skip_ws s of
        [] \<Rightarrow> None
      | q # qs \<Rightarrow>
          if q \<noteq> CHR 0x22 then None
          else (case parse_chars (Suc n) qs of
                  None \<Rightarrow> None
                | Some (k, r) \<Rightarrow>
                    (case skip_ws r of
                       [] \<Rightarrow> None
                     | d # ds \<Rightarrow>
                         if d \<noteq> CHR '':'' then None
                         else (case parse_value n ds of
                                 None \<Rightarrow> None
                               | Some (v, r') \<Rightarrow>
                                   (case skip_ws r' of
                                      [] \<Rightarrow> None
                                    | c # cs \<Rightarrow> if c = CHR ''}'' then Some ([(k, v)], cs)
                                               else if c = CHR '','' then
                                                 map_option (apfst (Cons (k, v))) (parse_members n cs)
                                               else None)))))"

definition json_parse :: "string \<Rightarrow> json option" where
  "json_parse s =
     (case parse_value (2 * length s + 1) s of
        None \<Rightarrow> None
      | Some (v, r) \<Rightarrow> if skip_ws r = [] then Some v else None)"

text \<open>Property access on a parsed object, \<open>undefined\<close> being \<open>None\<close>.\<close>

definition json_get :: "json \<Rightarrow> string \<Rightarrow> json option" where
  "json_get j k = (case j of JObj ms \<Rightarrow> map_of ms k | _ \<Rightarrow> None)"

section \<open>Reading back what was rendered\<close>

lemma of_char_char_of [simp]: "n < 256 \<Longrightarrow> (of_char (char_of n :: char) :: nat) = n" for n :: nat
  by simp

lemma char_eq_char_of: "(of_char c :: nat) = n \<Longrightarrow> c = char_of n"
  by (metis char_of_char)

lemma quote_chars: "char_of (34 :: nat) = CHR 0x22" "char_of (92 :: nat) = CHR 0x5C"
  by code_simp+

lemma hex_value_digit: "d < 16 \<Longrightarrow> hex_value (hex_digit d) = Some d"
  by (simp add: hex_value_def hex_digit_def Let_def)

lemma parse_chars_escape:
  "parse_chars (Suc n) (escape_char c @ t) = map_option (apfst (Cons c)) (parse_chars n t)"
proof -
  let ?n = "of_char c :: nat"
  consider "?n = 34" | "?n = 92" | "?n = 8" | "?n = 12" | "?n = 10" | "?n = 13" | "?n = 9"
    | "?n < 32" "?n \<noteq> 8" "?n \<noteq> 12" "?n \<noteq> 10" "?n \<noteq> 13" "?n \<noteq> 9" | "?n \<ge> 32" "?n \<noteq> 34" "?n \<noteq> 92"
    by linarith
  then show ?thesis
  proof cases
    case 8
    have "hex4 (CHR ''0'') (CHR ''0'') (hex_digit (?n div 16)) (hex_digit (?n mod 16)) = Some ?n"
      using 8(1) by (simp add: hex4_def hex_value_digit) (simp add: hex_value_def)
    then show ?thesis using 8 by (simp add: escape_char_def Let_def)
  next
    case 9
    then have "c \<noteq> CHR 0x22" "c \<noteq> CHR 0x5C" by auto
    then show ?thesis using 9 by (simp add: escape_char_def Let_def)
  qed (use char_eq_char_of [of c] in \<open>simp_all add: escape_char_def Let_def unescape_simple_def quote_chars\<close>)
qed

lemma escape_char_nonempty: "escape_char c \<noteq> []"
  by (simp add: escape_char_def Let_def)

lemma parse_chars_quote:
  "length s < n \<Longrightarrow> parse_chars n (concat (map escape_char s) @ CHR 0x22 # rest) = Some (s, rest)"
proof (induction s arbitrary: n)
  case Nil
  then show ?case by (cases n) simp_all
next
  case (Cons c s)
  then obtain m where "n = Suc m" "length s < m" by (cases n) auto
  then show ?case using Cons.IH [of m] by (simp add: parse_chars_escape)
qed

lemma length_quote: "length s \<le> length (concat (map escape_char s))"
proof (induction s)
  case (Cons c s)
  then show ?case using escape_char_nonempty [of c] by (cases "escape_char c") auto
qed simp

text \<open>Well-formed values: number literals follow the grammar, no object repeats a key.\<close>

fun json_ok :: "json \<Rightarrow> bool" where
  "json_ok JNull = True"
| "json_ok (JBool b) = True"
| "json_ok (JNum l) = number_ok l"
| "json_ok (JStr s) = True"
| "json_ok (JArr vs) = list_all json_ok vs"
| "json_ok (JObj ms) = (distinct (map fst ms) \<and> list_all (\<lambda>(k, v). json_ok v) ms)"

text \<open>What may follow a value: nothing, or a character no number continues with.\<close>

definition delimited :: "string \<Rightarrow> bool" where
  "delimited s \<longleftrightarrow> s = [] \<or> \<not> number_char (hd s)"

lemma delimited_simps [simp]:
  "delimited []" "delimited (CHR '','' # s)" "delimited (CHR '']'' # s)" "delimited (CHR ''}'' # s)"
  by (simp_all add: delimited_def number_char_def is_digit_def)

lemma number_ok_chars: "number_ok l \<Longrightarrow> list_all number_char l \<and> l \<noteq> [] \<and> (is_digit (hd l) \<or> hd l = CHR ''-'')"
  by (auto simp: number_ok_def Let_def split: list.splits if_splits)

lemma takeWhile_number:
  assumes "number_ok l" "delimited rest"
  shows "takeWhile number_char (l @ rest) = l" "dropWhile number_char (l @ rest) = rest"
proof -
  have "\<forall>c \<in> set l. number_char c" using number_ok_chars [OF assms(1)] by (simp add: list_all_iff)
  then show "takeWhile number_char (l @ rest) = l" "dropWhile number_char (l @ rest) = rest"
    using assms(2) by (cases rest; auto simp: delimited_def takeWhile_append2 dropWhile_append2)+
qed

lemma parse_value_number:
  assumes "number_ok l" "delimited rest"
  shows "parse_value (Suc n) (l @ rest) = Some (JNum l, rest)"
proof -
  obtain c cs where l: "l = c # cs" and c: "is_digit c \<or> c = CHR ''-''"
    using number_ok_chars [OF assms(1)] by (cases l) auto
  have "skip_ws (l @ rest) = c # cs @ rest" and
    "c \<noteq> CHR 0x22" "c \<noteq> CHR ''[''" "c \<noteq> CHR ''{''" "c \<noteq> CHR ''n''" "c \<noteq> CHR ''t''" "c \<noteq> CHR ''f''"
    using c by (auto simp: l is_digit_def Let_def)
  then show ?thesis
    using takeWhile_number [OF assms] assms(1) by (simp add: l Let_def)
qed
text \<open>A rendered value starts with a character that opens a value.\<close>

lemma json_text_head:
  assumes "json_ok v"
  obtains c cs where "json_text v = c # cs" "c \<noteq> CHR '']''" "\<And>r. skip_ws (c # r) = c # r"
proof -
  have "\<exists>c cs. json_text v = c # cs \<and> c \<noteq> CHR '']'' \<and> (\<forall>r. skip_ws (c # r) = c # r)"
  proof (cases v)
    case (JNum l)
    then show ?thesis using assms number_ok_chars [of l]
      by (cases l) (auto simp: is_digit_def Let_def)
  qed (simp_all add: json_quote_def)
  then show thesis using that by blast
qed

text \<open>Rendered elements and members in a form that the recursion of the parser follows.\<close>

fun elems_text :: "json list \<Rightarrow> string \<Rightarrow> string" where
  "elems_text [] rest = CHR '']'' # rest"
| "elems_text [v] rest = json_text v @ CHR '']'' # rest"
| "elems_text (v # w # vs) rest = json_text v @ CHR '','' # elems_text (w # vs) rest"

lemma elems_text: "join_with '','' (map json_text vs) @ CHR '']'' # rest = elems_text vs rest"
  by (induction vs rest rule: elems_text.induct) auto

fun members_text :: "(string \<times> json) list \<Rightarrow> string \<Rightarrow> string" where
  "members_text [] rest = CHR ''}'' # rest"
| "members_text [(k, v)] rest = json_quote k @ CHR '':'' # json_text v @ CHR ''}'' # rest"
| "members_text ((k, v) # m # ms) rest = json_quote k @ CHR '':'' # json_text v @ CHR '','' # members_text (m # ms) rest"

lemma members_text:
  "join_with '','' (map (\<lambda>(k, v). json_quote k @ '':'' @ json_text v) ms) @ CHR ''}'' # rest = members_text ms rest"
  by (induction ms rest rule: members_text.induct) auto

lemma json_text_append:
  "json_text (JArr vs) @ rest = CHR ''['' # elems_text vs rest"
  "json_text (JObj ms) @ rest = CHR ''{'' # members_text ms rest"
  by (simp_all add: elems_text [symmetric] members_text [symmetric])

definition reads_back :: "json \<Rightarrow> bool" where
  "reads_back v \<longleftrightarrow> (\<forall>n rest. delimited rest \<longrightarrow> 2 * length (json_text v @ rest) < n \<longrightarrow>
     parse_value n (json_text v @ rest) = Some (v, rest))"

lemma reads_backD:
  "reads_back v \<Longrightarrow> delimited rest \<Longrightarrow> 2 * length (json_text v @ rest) < n \<Longrightarrow>
     parse_value n (json_text v @ rest) = Some (v, rest)"
  by (simp add: reads_back_def)

lemma parse_elems_text:
  assumes "\<forall>v \<in> set vs. reads_back v" "vs \<noteq> []" "2 * length (elems_text vs rest) + 1 < n"
  shows "parse_elems n (elems_text vs rest) = Some (vs, rest)"
  using assms
proof (induction vs rest arbitrary: n rule: elems_text.induct)
  case (2 v rest)
  then obtain m where n: "n = Suc m" by (cases n) auto
  then have "parse_value m (json_text v @ CHR '']'' # rest) = Some (v, CHR '']'' # rest)"
    using 2 by (intro reads_backD) (auto simp: reads_back_def)
  then show ?case by (simp add: n)
next
  case (3 v w vs rest)
  then obtain m where n: "n = Suc m" by (cases n) auto
  let ?r = "elems_text (w # vs) rest"
  have "parse_value m (json_text v @ CHR '','' # ?r) = Some (v, CHR '','' # ?r)"
    using 3 n by (intro reads_backD) simp_all
  moreover have "parse_elems m ?r = Some (w # vs, rest)"
    using 3 n by (intro "3.IH") simp_all
  ultimately show ?case by (simp add: n)
qed simp

lemma parse_quote:
  "length s < n \<Longrightarrow> parse_chars n (concat (map escape_char s) @ CHR 0x22 # rest) = Some (s, rest)"
  by (rule parse_chars_quote)

lemma parse_member:
  assumes "reads_back v" "delimited (c # rest)" "c = CHR '','' \<or> c = CHR ''}''"
    "2 * length (json_quote k @ CHR '':'' # json_text v @ c # rest) < Suc m"
  shows "parse_members (Suc m) (json_quote k @ CHR '':'' # json_text v @ c # rest) =
     (if c = CHR ''}'' then Some ([(k, v)], rest)
      else map_option (apfst (Cons (k, v))) (parse_members m rest))"
proof -
  have "parse_value m (json_text v @ c # rest) = Some (v, c # rest)"
    using assms by (intro reads_backD) (simp_all add: json_quote_def)
  moreover have "parse_chars (Suc m) (concat (map escape_char k) @ CHR 0x22 # CHR '':'' # json_text v @ c # rest)
      = Some (k, CHR '':'' # json_text v @ c # rest)"
    using assms(4) length_quote [of k] by (intro parse_quote) (simp add: json_quote_def)
  ultimately show ?thesis
    using assms(3) by (auto simp: json_quote_def)
qed

lemma parse_members_text:
  assumes "\<forall>(k, v) \<in> set ms. reads_back v" "ms \<noteq> []" "2 * length (members_text ms rest) < n"
  shows "parse_members n (members_text ms rest) = Some (ms, rest)"
  using assms
proof (induction ms rest arbitrary: n rule: members_text.induct)
  case (2 k v rest)
  then obtain m where n: "n = Suc m" by (cases n) auto
  then show ?case
    using 2 parse_member [of v "CHR ''}''" rest k m] by simp
next
  case (3 k v e ms rest)
  then obtain m where n: "n = Suc m" by (cases n) auto
  have "parse_members m (members_text (e # ms) rest) = Some (e # ms, rest)"
    using 3 n by (intro "3.IH") simp_all
  then show ?case
    using 3 n parse_member [of v "CHR '',''" "members_text (e # ms) rest" k m] by simp
qed simp

lemma fold_update_distinct:
  assumes "distinct (map fst (acc @ ms))"
  shows "fold (\<lambda>(k, v) m. AList.update k v m) ms acc = acc @ ms"
  using assms
proof (induction ms arbitrary: acc)
  case (Cons m ms)
  obtain k v where m: "m = (k, v)" by force
  have "k \<notin> fst ` set acc" using Cons.prems by (auto simp: m)
  then have "AList.update k v acc = acc @ [(k, v)]"
    by (induction acc) auto
  then show ?case using Cons.IH [of "acc @ [(k, v)]"] Cons.prems by (simp add: m)
qed simp

lemma obj_of_distinct: "distinct (map fst ms) \<Longrightarrow> obj_of ms = JObj ms"
  using fold_update_distinct [of "[]" ms] by (simp add: obj_of_def)

lemma json_reads_back: "json_ok v \<Longrightarrow> reads_back v"
proof (induction v)
  case JNull
  show ?case
    unfolding reads_back_def by (intro allI impI) (case_tac n; simp add: strip_lit_def starts_with_def)
next
  case (JBool b)
  show ?case
    unfolding reads_back_def
    by (intro allI impI) (case_tac n; cases b; simp add: strip_lit_def starts_with_def)
next
  case (JNum l)
  then show ?case
    unfolding reads_back_def
    by (intro allI impI) (case_tac n; simp add: parse_value_number del: parse_value.simps)
next
  case (JStr s)
  have "parse_value n (json_quote s @ rest) = Some (JStr s, rest)" if "2 * length (json_quote s @ rest) < n" for n rest
    using that length_quote [of s] parse_quote [of s n rest] by (cases n) (simp_all add: json_quote_def)
  then show ?case by (simp add: reads_back_def)
next
  case (JArr vs)
  have all: "\<forall>v \<in> set vs. reads_back v" "\<forall>v \<in> set vs. json_ok v" using JArr by (auto simp: list_all_iff)
  have "parse_value n (CHR ''['' # elems_text vs rest) = Some (JArr vs, rest)"
    if len: "2 * (length (elems_text vs rest) + 1) < n" for n rest
  proof (cases vs)
    case Nil
    then show ?thesis using len by (cases n) simp_all
  next
    case (Cons v ws)
    obtain m where n: "n = Suc m" using len by (cases n) simp_all
    have read: "parse_elems m (elems_text vs rest) = Some (vs, rest)"
      using parse_elems_text [of vs rest m] all(1) len by (simp add: n Cons)
    obtain c cs where c: "json_text v = c # cs" "c \<noteq> CHR '']''" "\<And>r. skip_ws (c # r) = c # r"
      using json_text_head [of v] all(2) Cons by auto
    have "\<exists>r. elems_text vs rest = c # r"
      using c(1) by (cases ws) (simp_all add: Cons)
    then show ?thesis using read c by (auto simp: n)
  qed
  then show ?case
    by (simp add: reads_back_def json_text_append del: json_text.simps)
next
  case (JObj ms)
  have all: "\<forall>(k, v) \<in> set ms. reads_back v" and d: "distinct (map fst ms)"
    using JObj by (fastforce simp: list_all_iff snds.simps)+
  have "parse_value n (CHR ''{'' # members_text ms rest) = Some (JObj ms, rest)"
    if len: "2 * (length (members_text ms rest) + 1) < n" for n rest
  proof (cases ms)
    case Nil
    then show ?thesis using len by (cases n) simp_all
  next
    case (Cons e es)
    obtain m where n: "n = Suc m" using len by (cases n) simp_all
    have read: "parse_members m (members_text ms rest) = Some (ms, rest)"
      using parse_members_text [of ms rest m] all len by (simp add: n Cons)
    have "\<exists>r. members_text ms rest = CHR 0x22 # r"
      using Cons by (cases e; cases es) (simp_all add: json_quote_def)
    then show ?thesis using read d by (auto simp: n obj_of_distinct)
  qed
  then show ?case
    by (simp add: reads_back_def json_text_append del: json_text.simps)
qed

lemma json_parse_text: "json_ok v \<Longrightarrow> json_parse (json_text v) = Some v"
  using json_reads_back [of v, THEN reads_backD, of "[]" "2 * length (json_text v) + 1"]
  by (simp add: json_parse_def)

lemma json_text_inj: "json_ok v \<Longrightarrow> json_ok w \<Longrightarrow> json_text v = json_text w \<Longrightarrow> v = w"
  by (metis json_parse_text option.inject)

end
