(* ===== verification/Forest.thy ===== *)
theory Forest
  imports Prelude "HOL-Library.Word"
begin

unbundle bit_operations_syntax

text \<open>
  The isolation forest of \<open>packages/core/src/behavioral/forest.ts\<close>. The generator works on
  32-bit words as the code does with \<open>Math.imul\<close>, \<open>| 0\<close> and \<open>>>> 0\<close>; its state is passed
  through the construction. The feature values are real numbers: the rounding of doubles is
  not modelled. \<open>Infinity\<close>, the start value of a minimum, is \<open>None\<close>.
\<close>

datatype tree = Leaf nat | Branch nat real tree tree

section \<open>The generator\<close>

definition mulberry32 :: "32 word \<Rightarrow> real \<times> 32 word" where
  "mulberry32 s0 =
     (let s = s0 + 0x6d2b79f5;
          t1 = (s XOR drop_bit 15 s) * (1 OR s);
          t2 = (t1 + (t1 XOR drop_bit 7 t1) * (61 OR t1)) XOR t1
      in (real (unat (t2 XOR drop_bit 14 t2)) / 4294967296, s))"

section \<open>Path lengths\<close>

definition avg_path :: "nat \<Rightarrow> real" where
  "avg_path n =
     (if n \<le> 1 then 0
      else let H = ln (real (n - 1)) + 5772156649 / 10000000000
           in 2 * H - (2 * real (n - 1)) / real n)"

definition get0 :: "real list \<Rightarrow> nat \<Rightarrow> real" where
  "get0 row f = (if f < length row then row ! f else 0)"

fun pathLength :: "real list \<Rightarrow> tree \<Rightarrow> nat \<Rightarrow> real" where
  "pathLength x (Leaf n) depth = real depth + avg_path n"
| "pathLength x (Branch f v l r) depth = pathLength x (if get0 x f < v then l else r) (depth + 1)"

section \<open>Construction\<close>

fun draw_rows :: "real list list \<Rightarrow> nat \<Rightarrow> 32 word \<Rightarrow> real list list \<times> 32 word" where
  "draw_rows data 0 s = ([], s)"
| "draw_rows data (Suc k) s =
     (let (u, s') = mulberry32 s;
          i = nat \<lfloor>u * real (length data)\<rfloor>;
          (out, s'') = draw_rows data k s'
      in (if i < length data then data ! i # out else out, s''))"

definition subsample :: "real list list \<Rightarrow> nat \<Rightarrow> 32 word \<Rightarrow> real list list \<times> 32 word" where
  "subsample data k s = (if length data \<le> k then (data, s) else draw_rows data k s)"

definition min_step :: "real \<Rightarrow> real option \<Rightarrow> real option" where
  "min_step x m = (case m of None \<Rightarrow> Some x | Some y \<Rightarrow> if x < y then Some x else m)"

definition max_step :: "real \<Rightarrow> real option \<Rightarrow> real option" where
  "max_step x m = (case m of None \<Rightarrow> Some x | Some y \<Rightarrow> if x > y then Some x else m)"

definition feature_range :: "real list list \<Rightarrow> nat \<Rightarrow> (nat \<times> real \<times> real) option" where
  "feature_range data f =
     (let xs = map (\<lambda>row. get0 row f) data
      in case (fold min_step xs None, fold max_step xs None) of
           (Some mn, Some mx) \<Rightarrow> if mx > mn then Some (f, mn, mx) else None
         | _ \<Rightarrow> None)"

function buildTree :: "real list list \<Rightarrow> nat \<Rightarrow> nat \<Rightarrow> 32 word \<Rightarrow> tree \<times> 32 word" where
  "buildTree data depth maxDepth s =
     (let n = length data;
          dims = (case data of [] \<Rightarrow> 0 | row # _ \<Rightarrow> length row)
      in if depth \<ge> maxDepth \<or> n \<le> 1 \<or> dims = 0 then (Leaf n, s)
         else
           let ranges = List.map_filter (feature_range data) [0..<dims]
           in if ranges = [] then (Leaf n, s)
              else
                let (u1, s1) = mulberry32 s;
                    (f, mn, mx) = ranges ! nat \<lfloor>u1 * real (length ranges)\<rfloor>;
                    (u2, s2) = mulberry32 s1;
                    v = mn + u2 * (mx - mn);
                    (l, s3) = buildTree (filter (\<lambda>row. get0 row f < v) data) (depth + 1) maxDepth s2;
                    (r, s4) = buildTree (filter (\<lambda>row. \<not> get0 row f < v) data) (depth + 1) maxDepth s3
                in (Branch f v l r, s4))"
  by pat_completeness auto
termination
  by (relation "measure (\<lambda>(data, depth, maxDepth, s). maxDepth - depth)") auto

declare buildTree.simps [simp del]

fun build_trees :: "nat \<Rightarrow> real list list \<Rightarrow> nat \<Rightarrow> nat \<Rightarrow> 32 word \<Rightarrow> tree list" where
  "build_trees 0 data k maxDepth s = []"
| "build_trees (Suc i) data k maxDepth s =
     (let (rows, s1) = subsample data k s;
          (t, s2) = buildTree rows 0 maxDepth s1
      in t # build_trees i data k maxDepth s2)"

record isolation_forest =
  if_trees :: "tree list"
  if_sampleSize :: nat

definition new_forest :: "real list list \<Rightarrow> nat option \<Rightarrow> nat option \<Rightarrow> int option \<Rightarrow> isolation_forest" where
  "new_forest data trees sampleSize seed =
     (let s = word_of_int (case seed of Some x \<Rightarrow> x | None \<Rightarrow> 1337);
          treeCount = (case trees of Some t \<Rightarrow> t | None \<Rightarrow> 100);
          k = max 1 (min (case sampleSize of Some x \<Rightarrow> x | None \<Rightarrow> 256) (length data));
          maxDepth = nat \<lceil>log 2 (real (max 2 k))\<rceil>
      in \<lparr>if_trees = build_trees treeCount data k maxDepth s, if_sampleSize = k\<rparr>)"

definition anomalyScore :: "isolation_forest \<Rightarrow> real list \<Rightarrow> real" where
  "anomalyScore g x =
     (if if_trees g = [] then 0
      else let total = sum_list (map (\<lambda>t. pathLength x t 0) (if_trees g));
               mean = total / real (length (if_trees g));
               cn = avg_path (if_sampleSize g)
           in if cn = 0 then 0 else 2 powr (- mean / cn))"

section \<open>The generator stays below one\<close>

lemma unit_interval: "0 \<le> real (unat w) / 4294967296 \<and> real (unat w) / 4294967296 < 1" for w :: "32 word"
proof -
  have "unat w < 2 ^ LENGTH(32)" by (rule unsigned_less)
  then have "real (unat w) < real (2 ^ LENGTH(32))" by (simp only: of_nat_less_iff)
  moreover have "0 \<le> real (unat w)" by (rule of_nat_0_le_iff)
  ultimately show ?thesis by simp
qed

lemma mulberry32_range: "0 \<le> fst (mulberry32 s) \<and> fst (mulberry32 s) < 1"
  unfolding mulberry32_def Let_def fst_conv by (rule unit_interval)

lemma draw_index:
  assumes "0 < n" "mulberry32 s = (u, s')"
  shows "nat \<lfloor>u * real n\<rfloor> < n"
proof -
  have "0 \<le> u" "u < 1" using mulberry32_range [of s] assms(2) by simp_all
  then have "u * real n < real n" "0 \<le> u * real n" using assms(1) by simp_all
  then show ?thesis by (simp add: floor_less_iff nat_less_iff)
qed

lemma draw_rows_length:
  "data \<noteq> [] \<Longrightarrow> length (fst (draw_rows data k s)) = k \<and> set (fst (draw_rows data k s)) \<subseteq> set data"
proof (induction k arbitrary: s)
  case (Suc k)
  obtain u s' where u: "mulberry32 s = (u, s')" by force
  show ?case
    using Suc.IH [OF Suc.prems, of s'] draw_index [OF _ u, of "length data"] Suc.prems
    by (auto simp: u split: prod.splits)
qed simp

lemma subsample_props:
  "length (fst (subsample data k s)) = min k (length data) \<and> set (fst (subsample data k s)) \<subseteq> set data"
proof (cases "length data \<le> k")
  case False
  then have "data \<noteq> []" by auto
  then show ?thesis using draw_rows_length [of data k s] False by (simp add: subsample_def)
qed (simp add: subsample_def)

section \<open>Scores are bounded\<close>

lemma avg_path_nonneg: "0 \<le> avg_path n"
proof (cases "n \<le> 2")
  case True
  then consider "n \<le> 1" | "n = 2" by linarith
  then show ?thesis by cases (simp_all add: avg_path_def)
next
  case False
  have "exp (1 / 2 :: real) ^ 2 \<le> 2 ^ 2" using exp_le by (simp add: exp_of_nat_mult [symmetric])
  then have "exp (1 / 2 :: real) \<le> 2" by (rule power2_le_imp_le) simp
  then have "1 / 2 \<le> ln (2::real)" by (subst ln_ge_iff) simp_all
  moreover have "ln 2 \<le> ln (real (n - 1))" using False by (intro ln_mono) auto
  ultimately have "1 / 2 \<le> ln (real (n - 1))" by (rule order_trans)
  moreover have "2 * real (n - 1) / real n \<le> 2" using False by (simp add: field_simps)
  ultimately show ?thesis using False by (simp add: avg_path_def Let_def)
qed

lemma pathLength_ge: "real d \<le> pathLength x t d"
proof (induction t arbitrary: d)
  case (Branch f v l r)
  show ?case using Branch.IH [of "d + 1"] by (auto intro: order_trans [of _ "real (d + 1)"])
qed (simp add: avg_path_nonneg)

lemma anomalyScore_bounds: "0 \<le> anomalyScore g x \<and> anomalyScore g x \<le> 1"
proof -
  have "0 \<le> sum_list (map (\<lambda>t. pathLength x t 0) ts)" for ts
    using pathLength_ge [of 0 x] by (intro sum_list_nonneg) auto
  then have "0 \<le> sum_list (map (\<lambda>t. pathLength x t 0) (if_trees g)) / real (length (if_trees g))
      / avg_path (if_sampleSize g)"
    by (simp add: avg_path_nonneg)
  moreover have "2 powr (- a) \<le> 1" if "0 \<le> a" for a :: real
    using that powr_mono [of "- a" 0 2] by simp
  ultimately show ?thesis
    by (simp add: anomalyScore_def Let_def)
qed

section \<open>Shape of the trees\<close>

fun leaf_sizes :: "tree \<Rightarrow> nat" where
  "leaf_sizes (Leaf n) = n"
| "leaf_sizes (Branch f v l r) = leaf_sizes l + leaf_sizes r"

fun tree_height :: "tree \<Rightarrow> nat" where
  "tree_height (Leaf n) = 0"
| "tree_height (Branch f v l r) = Suc (max (tree_height l) (tree_height r))"

text \<open>The leaf a vector falls into, as \<open>pathLength\<close> descends.\<close>

fun leaf_of :: "real list \<Rightarrow> tree \<Rightarrow> nat" where
  "leaf_of x (Leaf n) = n"
| "leaf_of x (Branch f v l r) = leaf_of x (if get0 x f < v then l else r)"

fun together :: "real list \<Rightarrow> real list \<Rightarrow> tree \<Rightarrow> bool" where
  "together x y (Leaf n) = True"
| "together x y (Branch f v l r) =
     ((get0 x f < v) = (get0 y f < v) \<and> together x y (if get0 x f < v then l else r))"

lemma buildTree_shape:
  "fst (buildTree data depth maxDepth s) = t \<Longrightarrow>
     leaf_sizes t = length data \<and> tree_height t \<le> maxDepth - depth \<and>
     leaf_of x t = length (filter (\<lambda>row. together x row t) data)"
proof (induction data depth maxDepth s arbitrary: t rule: buildTree.induct)
  case (1 data depth maxDepth s)
  let ?n = "length data"
  let ?dims = "case data of [] \<Rightarrow> 0 | row # _ \<Rightarrow> length row"
  let ?ranges = "List.map_filter (feature_range data) [0..<?dims]"
  show ?case
  proof (cases "depth \<ge> maxDepth \<or> ?n \<le> 1 \<or> ?dims = 0 \<or> ?ranges = []")
    case True
    then have "t = Leaf ?n"
      using "1.prems" by (subst (asm) buildTree.simps) (auto simp: Let_def split: if_splits)
    then show ?thesis by simp
  next
    case False
    obtain u1 s1 where u1: "mulberry32 s = (u1, s1)" by force
    obtain f mn mx where p: "?ranges ! nat \<lfloor>u1 * real (length ?ranges)\<rfloor> = (f, mn, mx)"
      using prod_cases3 by blast
    obtain u2 s2 where u2: "mulberry32 s1 = (u2, s2)" by force
    define v where "v = mn + u2 * (mx - mn)"
    let ?L = "filter (\<lambda>row. get0 row f < v) data" and ?R = "filter (\<lambda>row. \<not> get0 row f < v) data"
    obtain l s3 where l: "buildTree ?L (depth + 1) maxDepth s2 = (l, s3)" by force
    obtain r s4 where r: "buildTree ?R (depth + 1) maxDepth s3 = (r, s4)" by force
    have t: "t = Branch f v l r"
      using "1.prems" False by (subst (asm) buildTree.simps) (simp add: u1 u2 p l [simplified] r [simplified] v_def [symmetric])
    have L: "leaf_sizes l = length ?L \<and> tree_height l \<le> maxDepth - (depth + 1) \<and>
        leaf_of x l = length (filter (\<lambda>row. together x row l) ?L)"
      using False l by (intro "1.IH"(1) [OF refl refl _ refl _ refl u1 [symmetric] refl p [symmetric] refl refl u2 [symmetric] v_def]) auto
    have R: "leaf_sizes r = length ?R \<and> tree_height r \<le> maxDepth - (depth + 1) \<and>
        leaf_of x r = length (filter (\<lambda>row. together x row r) ?R)"
      using False r by (intro "1.IH"(2) [OF refl refl _ refl _ refl u1 [symmetric] refl p [symmetric] refl refl u2 [symmetric] v_def refl l [symmetric]]) auto
    have "length ?L + length ?R = length data"
      by (rule sum_length_filter_compl)
    moreover have "filter (\<lambda>row. together x row t) data =
        (if get0 x f < v then filter (\<lambda>row. together x row l) ?L else filter (\<lambda>row. together x row r) ?R)"
      by (auto simp: t intro!: filter_cong)
    ultimately show ?thesis using L R False by (auto simp: t)
  qed
qed

end
