(* ===== verification/Behavioral.thy ===== *)
theory Behavioral
  imports Rules Forest
begin

text \<open>
  Behavioral anomaly detection: \<open>EWMABaseline\<close> (\<open>behavioral/baseline.ts\<close>), the features of a
  payment (\<open>features.ts\<close>) and \<open>BehavioralScorer\<close> (\<open>isolation.ts\<close>). Numbers are real numbers;
  the two keys of the maps are strings, as in the code. The readings of the clock are arguments.
\<close>

section \<open>The baseline\<close>

record baseline =
  bl_alpha :: real
  bl_means :: "string \<Rightarrow> real option"
  bl_variances :: "string \<Rightarrow> real option"
  bl_seen :: "string set"
  bl_timestamps :: "int list"
  bl_vectors :: "real list list"

definition new_baseline :: "real option \<Rightarrow> baseline" where
  "new_baseline alpha =
     \<lparr>bl_alpha = (case alpha of Some a \<Rightarrow> a | None \<Rightarrow> 1 / 10), bl_means = Map.empty,
      bl_variances = Map.empty, bl_seen = {}, bl_timestamps = [], bl_vectors = []\<rparr>"

definition EWMABaseline_zScore :: "baseline \<Rightarrow> string \<Rightarrow> real \<Rightarrow> real" where
  "EWMABaseline_zScore b feature value =
     (case (bl_means b feature, bl_variances b feature) of
        (Some mean, Some variance) \<Rightarrow> if \<not> variance > 0 then 0 else (value - mean) / sqrt variance
      | _ \<Rightarrow> 0)"

definition EWMABaseline_update :: "string \<Rightarrow> real \<Rightarrow> baseline \<Rightarrow> baseline" where
  "EWMABaseline_update feature value b =
     (let oldMean = (case bl_means b feature of Some m \<Rightarrow> m | None \<Rightarrow> value);
          newMean = bl_alpha b * value + (1 - bl_alpha b) * oldMean;
          oldVar = (case bl_variances b feature of Some v \<Rightarrow> v | None \<Rightarrow> 0);
          newVar = bl_alpha b * (value - newMean) ^ 2 + (1 - bl_alpha b) * oldVar
      in b\<lparr>bl_means := (bl_means b)(feature \<mapsto> newMean),
           bl_variances := (bl_variances b)(feature \<mapsto> newVar)\<rparr>)"

definition EWMABaseline_recordCounterparty :: "string \<Rightarrow> baseline \<Rightarrow> baseline" where
  "EWMABaseline_recordCounterparty addr b = b\<lparr>bl_seen := insert (lower addr) (bl_seen b)\<rparr>"

definition EWMABaseline_isNewCounterparty :: "baseline \<Rightarrow> string \<Rightarrow> bool" where
  "EWMABaseline_isNewCounterparty b addr = (lower addr \<notin> bl_seen b)"

text \<open>\<open>push\<close>, then \<open>shift\<close> when the array has grown past 10000.\<close>

definition push_ring :: "'a \<Rightarrow> 'a list \<Rightarrow> 'a list" where
  "push_ring x xs = (let ys = xs @ [x] in if length ys > 10000 then tl ys else ys)"

definition EWMABaseline_recordTimestamp :: "int \<Rightarrow> baseline \<Rightarrow> baseline" where
  "EWMABaseline_recordTimestamp ts b = b\<lparr>bl_timestamps := push_ring ts (bl_timestamps b)\<rparr>"

definition EWMABaseline_lastTimestamp :: "baseline \<Rightarrow> int option" where
  "EWMABaseline_lastTimestamp b = (if bl_timestamps b = [] then None else Some (last (bl_timestamps b)))"

definition EWMABaseline_recordVector :: "real list \<Rightarrow> baseline \<Rightarrow> baseline" where
  "EWMABaseline_recordVector v b = b\<lparr>bl_vectors := push_ring v (bl_vectors b)\<rparr>"

interpretation baseline_memory: ci_memory EWMABaseline_recordCounterparty
  "\<lambda>b a. \<not> EWMABaseline_isNewCounterparty b a"
  by unfold_locales (auto simp: EWMABaseline_recordCounterparty_def EWMABaseline_isNewCounterparty_def)

section \<open>Features\<close>

record features =
  f_amount :: real
  f_secondsSinceLast :: real
  f_hourOfDay :: int
  f_isNewCounterparty :: bool
  f_vector :: "real list"

definition extractFeatures :: "payment_request \<Rightarrow> baseline \<Rightarrow> int \<Rightarrow> features" where
  "extractFeatures req b now =
     (let secondsSinceLast = (case EWMABaseline_lastTimestamp b of
            Some l \<Rightarrow> real_of_int (now - l) / 1000 | None \<Rightarrow> 0);
          hourOfDay = utc_hours now;
          amount = real_of_int (r_amount req);
          new = EWMABaseline_isNewCounterparty b (r_recipient req)
      in \<lparr>f_amount = amount, f_secondsSinceLast = secondsSinceLast, f_hourOfDay = hourOfDay,
          f_isNewCounterparty = new,
          f_vector = [amount, secondsSinceLast, real_of_int hourOfDay, if new then 1 else 0]\<rparr>)"

section \<open>The scorer\<close>

record behavioral_options =
  bo_forestMinObservations :: "int option"
  bo_forestRetrainInterval :: "int option"
  bo_forestTrees :: "nat option"
  bo_forestSampleSize :: "nat option"
  bo_forestSeed :: "int option"
  bo_ewmaAlpha :: "real option"
  bo_zWarnThreshold :: "real option"
  bo_zCriticalThreshold :: "real option"
  bo_forestWarnThreshold :: "real option"
  bo_forestCriticalThreshold :: "real option"

record scorer =
  bs_opts :: behavioral_options
  bs_baseline :: baseline
  bs_count :: int
  bs_forest :: "isolation_forest option"

record behavioral_result =
  br_score :: real
  br_checks :: "policy_check list"

definition new_scorer :: "behavioral_options \<Rightarrow> scorer" where
  "new_scorer opts =
     \<lparr>bs_opts = opts, bs_baseline = new_baseline (bo_ewmaAlpha opts), bs_count = 0, bs_forest = None\<rparr>"

definition opt_default :: "'a option \<Rightarrow> 'a \<Rightarrow> 'a" where
  "opt_default a d = (case a of Some x \<Rightarrow> x | None \<Rightarrow> d)"

definition minObservations :: "scorer \<Rightarrow> int" where
  "minObservations s = opt_default (bo_forestMinObservations (bs_opts s)) 1000"

definition anomaly :: "string \<Rightarrow> severity \<Rightarrow> message \<Rightarrow> policy_check" where
  "anomaly i sev m = \<lparr>c_id = i, c_passed = False, c_severity = sev, c_message = m\<rparr>"

definition BehavioralScorer_score :: "scorer \<Rightarrow> payment_request \<Rightarrow> int \<Rightarrow> behavioral_result" where
  "BehavioralScorer_score s req now =
     (let f = extractFeatures req (bs_baseline s) now;
          zWarn = opt_default (bo_zWarnThreshold (bs_opts s)) 3;
          zCritical = opt_default (bo_zCriticalThreshold (bs_opts s)) 5;
          forestWarn = opt_default (bo_forestWarnThreshold (bs_opts s)) (7 / 10);
          forestCritical = opt_default (bo_forestCriticalThreshold (bs_opts s)) (85 / 100);
          amountZ = EWMABaseline_zScore (bs_baseline s) ''amount'' (f_amount f);
          intervalZ = EWMABaseline_zScore (bs_baseline s) ''interval'' (f_secondsSinceLast f);
          amount_checks = (if \<bar>amountZ\<bar> > zWarn then
              [anomaly ''behavioral-amount-spike'' (if \<bar>amountZ\<bar> > zCritical then Critical else Warning)
                 (M_amount_spike amountZ)] else []);
          interval_checks = (if intervalZ < - zWarn then
              [anomaly ''behavioral-frequency-spike'' Warning (M_frequency_spike \<bar>intervalZ\<bar>)] else []);
          new_checks = (if f_isNewCounterparty f \<and> bs_count s > 0 then
              [anomaly ''behavioral-new-counterparty'' Warning
                 (M_first_payment_to (take 10 (r_recipient req)))] else []);
          forestScore = (case bs_forest s of
              None \<Rightarrow> 0
            | Some g \<Rightarrow> if bs_count s \<ge> minObservations s then anomalyScore g (f_vector f) else 0);
          forest_checks = (if bs_forest s \<noteq> None \<and> bs_count s \<ge> minObservations s \<and> forestScore > forestWarn then
              [anomaly ''behavioral-multivariate-anomaly''
                 (if forestScore > forestCritical then Critical else Warning) (M_multivariate forestScore)] else []);
          featureScore = min 1 ((\<bar>amountZ\<bar> + \<bar>min 0 intervalZ\<bar>) / 10)
      in \<lparr>br_score = max featureScore forestScore,
          br_checks = amount_checks @ interval_checks @ new_checks @ forest_checks\<rparr>)"

definition BehavioralScorer_observe :: "payment_request \<Rightarrow> int \<Rightarrow> scorer \<Rightarrow> scorer" where
  "BehavioralScorer_observe req now s =
     (let f = extractFeatures req (bs_baseline s) now;
          b1 = EWMABaseline_update ''amount'' (f_amount f) (bs_baseline s);
          b2 = (if bs_count s > 0 then EWMABaseline_update ''interval'' (f_secondsSinceLast f) b1 else b1);
          b3 = EWMABaseline_recordCounterparty (r_recipient req) b2;
          b4 = EWMABaseline_recordTimestamp now b3;
          b5 = EWMABaseline_recordVector (f_vector f) b4;
          count = bs_count s + 1;
          interval = opt_default (bo_forestRetrainInterval (bs_opts s)) 500;
          retrain = (count \<ge> minObservations s \<and>
            (count = minObservations s \<or> interval \<noteq> 0 \<and> count mod interval = 0))
      in s\<lparr>bs_baseline := b5, bs_count := count,
           bs_forest := (if retrain then
               Some (new_forest (bl_vectors b5) (bo_forestTrees (bs_opts s)) (bo_forestSampleSize (bs_opts s))
                 (bo_forestSeed (bs_opts s)))
             else bs_forest s)\<rparr>)"

definition MAX_REPLAY :: nat where
  "MAX_REPLAY = 10000"

text \<open>\<open>xs.slice(-n)\<close>: the last \<open>n\<close> elements.\<close>

definition slice_last :: "nat \<Rightarrow> 'a list \<Rightarrow> 'a list" where
  "slice_last n xs = drop (length xs - n) xs"

definition scorer_replay_order :: "audit_entry list \<Rightarrow> audit_entry list" where
  "scorer_replay_order es = slice_last MAX_REPLAY (sort_key e_timestamp es)"

definition observe_entry :: "audit_entry \<Rightarrow> scorer \<Rightarrow> scorer" where
  "observe_entry e s = BehavioralScorer_observe (e_request e) (e_timestamp e) s"

definition BehavioralScorer_hydrate :: "audit_entry list \<Rightarrow> scorer \<Rightarrow> scorer" where
  "BehavioralScorer_hydrate es s = fold observe_entry (scorer_replay_order es) s"

interpretation scorer_log: replay observe_entry scorer_replay_order BehavioralScorer_hydrate
proof unfold_locales
  show "set (scorer_replay_order es) \<subseteq> set es" for es
    using set_drop_subset [of _ "sort_key e_timestamp es"]
    by (simp add: scorer_replay_order_def slice_last_def)
qed (simp add: BehavioralScorer_hydrate_def)

section \<open>Bounds of the score\<close>

lemma forest_score_bounds:
  "0 \<le> (case g of None \<Rightarrow> 0 | Some h \<Rightarrow> if b then anomalyScore h x else 0) \<and>
   (case g of None \<Rightarrow> 0 | Some h \<Rightarrow> if b then anomalyScore h x else 0) \<le> 1"
  using anomalyScore_bounds by (cases g) auto

lemma br_score_bounds:
  "0 \<le> br_score (BehavioralScorer_score s req now) \<and> br_score (BehavioralScorer_score s req now) \<le> 1"
  unfolding BehavioralScorer_score_def Let_def behavioral_result.simps
  using forest_score_bounds by (auto simp: max_def)

definition anomaly_check :: "policy_check \<Rightarrow> bool" where
  "anomaly_check c = (\<not> c_passed c \<and> behavioral_id (c_id c) \<and> c_severity c \<noteq> Info)"

lemma br_checks_anomalies: "list_all anomaly_check (br_checks (BehavioralScorer_score s req now))"
  by (auto simp: BehavioralScorer_score_def Let_def anomaly_def anomaly_check_def behavioral_id_def starts_with_def)

lemma anomaly_fired_anomalies: "list_all anomaly_check cs \<Longrightarrow> anomaly_fired cs \<longleftrightarrow> cs \<noteq> []"
  by (cases cs) (auto simp: anomaly_fired_def anomaly_check_def)

section \<open>Moving averages\<close>

lemma convex_bounds:
  fixes a x y lo hi :: real
  assumes "0 \<le> a" "a \<le> 1" "lo \<le> x" "x \<le> hi" "lo \<le> y" "y \<le> hi"
  shows "lo \<le> a * x + (1 - a) * y \<and> a * x + (1 - a) * y \<le> hi"
proof -
  have "a * lo + (1 - a) * lo \<le> a * x + (1 - a) * y" "a * x + (1 - a) * y \<le> a * hi + (1 - a) * hi"
    using assms by (intro add_mono mult_left_mono; simp)+
  then show ?thesis by (simp add: algebra_simps)
qed

definition ewma_in :: "real \<Rightarrow> real \<Rightarrow> string \<Rightarrow> baseline \<Rightarrow> bool" where
  "ewma_in lo hi f b \<longleftrightarrow>
     (case bl_means b f of None \<Rightarrow> bl_variances b f = None
      | Some m \<Rightarrow> lo \<le> m \<and> m \<le> hi \<and>
          (\<exists>v. bl_variances b f = Some v \<and> 0 \<le> v \<and> v \<le> (hi - lo)\<^sup>2))"

lemma ewma_in_update:
  assumes a: "0 \<le> bl_alpha b" "bl_alpha b \<le> 1" and x: "lo \<le> x" "x \<le> hi" and b: "ewma_in lo hi f b"
  shows "ewma_in lo hi f (EWMABaseline_update f x b) \<and> bl_means (EWMABaseline_update f x b) f \<noteq> None"
proof -
  let ?m = "case bl_means b f of Some m \<Rightarrow> m | None \<Rightarrow> x"
  let ?v = "case bl_variances b f of Some v \<Rightarrow> v | None \<Rightarrow> 0"
  let ?n = "bl_alpha b * x + (1 - bl_alpha b) * ?m"
  have m: "lo \<le> ?m" "?m \<le> hi" and v: "0 \<le> ?v" "?v \<le> (hi - lo)\<^sup>2"
    using b x by (auto simp: ewma_in_def split: option.splits)
  have n: "lo \<le> ?n \<and> ?n \<le> hi" using convex_bounds a x m by blast
  have "(x - ?n)\<^sup>2 \<le> (hi - lo)\<^sup>2"
    by (rule abs_le_square_iff [THEN iffD1]) (use n x in linarith)
  then have "0 \<le> bl_alpha b * (x - ?n)\<^sup>2 + (1 - bl_alpha b) * ?v \<and>
      bl_alpha b * (x - ?n)\<^sup>2 + (1 - bl_alpha b) * ?v \<le> (hi - lo)\<^sup>2"
    using a v by (intro convex_bounds) simp_all
  then show ?thesis using n by (simp add: ewma_in_def EWMABaseline_update_def Let_def)
qed

lemma ewma_in_fold:
  assumes "0 \<le> bl_alpha b" "bl_alpha b \<le> 1" "\<And>x. x \<in> set xs \<Longrightarrow> lo \<le> x \<and> x \<le> hi" "ewma_in lo hi f b"
  shows "ewma_in lo hi f (fold (EWMABaseline_update f) xs b) \<and>
     (xs \<noteq> [] \<or> bl_means b f \<noteq> None \<longrightarrow> bl_means (fold (EWMABaseline_update f) xs b) f \<noteq> None)"
  using assms
proof (induction xs arbitrary: b)
  case (Cons x xs)
  have "bl_alpha (EWMABaseline_update f x b) = bl_alpha b"
    by (simp add: EWMABaseline_update_def Let_def)
  then show ?case
    using Cons.IH [of "EWMABaseline_update f x b"] Cons.prems ewma_in_update [of b lo x hi f] by simp
qed simp

section \<open>What observation and replay keep\<close>

lemma push_ring_bounded: "length xs \<le> 10000 \<Longrightarrow> length (push_ring x xs) \<le> 10000"
  by (simp add: push_ring_def Let_def)

lemma last_push_ring: "last (push_ring x xs) = x"
  by (cases xs) (simp_all add: push_ring_def Let_def)

lemma update_seen [simp]: "bl_seen (EWMABaseline_update f x b) = bl_seen b"
  by (simp add: EWMABaseline_update_def Let_def)

lemma update_rings [simp]:
  "bl_timestamps (EWMABaseline_update f x b) = bl_timestamps b"
  "bl_vectors (EWMABaseline_update f x b) = bl_vectors b"
  by (simp_all add: EWMABaseline_update_def Let_def)

lemma observe_baseline:
  "bl_seen (bs_baseline (BehavioralScorer_observe req now s)) = insert (lower (r_recipient req)) (bl_seen (bs_baseline s))"
  "bl_timestamps (bs_baseline (BehavioralScorer_observe req now s)) = push_ring now (bl_timestamps (bs_baseline s))"
  "length (bl_vectors (bs_baseline s)) \<le> 10000 \<Longrightarrow>
     length (bl_vectors (bs_baseline (BehavioralScorer_observe req now s))) \<le> 10000"
  "bs_count (BehavioralScorer_observe req now s) = bs_count s + 1"
  by (simp_all add: BehavioralScorer_observe_def Let_def EWMABaseline_recordCounterparty_def
      EWMABaseline_recordTimestamp_def EWMABaseline_recordVector_def push_ring_bounded)

lemma replayed_seen:
  "bl_seen (bs_baseline (fold observe_entry es s)) =
     (\<lambda>e. lower (r_recipient (e_request e))) ` set es \<union> bl_seen (bs_baseline s)"
  by (induction es arbitrary: s) (auto simp: observe_entry_def observe_baseline)

definition rings_bounded :: "scorer \<Rightarrow> bool" where
  "rings_bounded s \<longleftrightarrow> length (bl_timestamps (bs_baseline s)) \<le> 10000 \<and> length (bl_vectors (bs_baseline s)) \<le> 10000"

lemma rings_bounded_new: "rings_bounded (new_scorer opts)"
  by (simp add: rings_bounded_def new_scorer_def new_baseline_def)

lemma rings_bounded_observe: "rings_bounded s \<Longrightarrow> rings_bounded (BehavioralScorer_observe req now s)"
  by (simp add: rings_bounded_def observe_baseline push_ring_bounded)

lemma rings_bounded_hydrate: "rings_bounded s \<Longrightarrow> rings_bounded (BehavioralScorer_hydrate es s)"
  by (rule scorer_log.hydrate_keeps [where P = rings_bounded]) (simp_all add: rings_bounded_observe observe_entry_def)

lemma replay_order_short:
  "sorted (map e_timestamp es) \<Longrightarrow> length es \<le> 10000 \<Longrightarrow> scorer_replay_order es = es"
  by (simp add: scorer_replay_order_def slice_last_def MAX_REPLAY_def sort_key_id_if_sorted)

section \<open>Properties\<close>

text \<open>
  Every behavioral result is well formed: the score lies in [0, 1] whatever the history, the
  payment and the options are, every check it carries is failed, has a \<open>behavioral-\<close> id and a
  severity above \<open>info\<close>, so that the anomaly predicate which the guard and the circuit breaker
  share fires exactly if there is a check at all.
\<close>

theorem behavioral_result_well_formed:
  "let res = BehavioralScorer_score s req now
   in 0 \<le> br_score res \<and> br_score res \<le> 1 \<and> list_all anomaly_check (br_checks res) \<and>
      anomaly_fired (br_checks res) = (br_checks res \<noteq> [])"
  using br_score_bounds br_checks_anomalies anomaly_fired_anomalies by (simp add: Let_def)

text \<open>
  An isolation tree is a partition of its sample: the sizes of its leaves add up to the
  number of rows, its height stays within the depth bound, and the leaf that any vector falls
  into has as its size exactly the number of rows of the sample that fall into the same leaf.
\<close>

theorem isolation_tree_partitions_sample:
  "let t = fst (buildTree data depth maxDepth s)
   in leaf_sizes t = length data \<and> tree_height t \<le> maxDepth - depth \<and>
      leaf_of x t = length (filter (\<lambda>row. together x row t) data)"
  using buildTree_shape [OF refl] by (simp add: Let_def)

text \<open>
  The running mean of a feature never leaves the range of the observed values, and its
  running variance stays between 0 and the square of the width of that range, for every
  reactivity between 0 and 1.
\<close>

theorem ewma_stays_in_range:
  assumes "0 \<le> a" "a \<le> 1" "xs \<noteq> []" "\<And>x. x \<in> set xs \<Longrightarrow> lo \<le> x \<and> x \<le> hi"
  shows "\<exists>m v. bl_means (fold (EWMABaseline_update f) xs (new_baseline (Some a))) f = Some m \<and>
           bl_variances (fold (EWMABaseline_update f) xs (new_baseline (Some a))) f = Some v \<and>
           lo \<le> m \<and> m \<le> hi \<and> 0 \<le> v \<and> v \<le> (hi - lo)\<^sup>2"
proof -
  have "ewma_in lo hi f (new_baseline (Some a))" by (simp add: ewma_in_def new_baseline_def)
  then show ?thesis
    using ewma_in_fold [of "new_baseline (Some a)" xs lo hi f] assms
    by (auto simp: ewma_in_def new_baseline_def)
qed

theorem ewma_stays_in_range_witness:
  "\<exists>m v. bl_means (fold (EWMABaseline_update ''amount'') [10, 30] (new_baseline (Some (1 / 2)))) ''amount'' = Some m \<and>
     bl_variances (fold (EWMABaseline_update ''amount'') [10, 30] (new_baseline (Some (1 / 2)))) ''amount'' = Some v \<and>
     10 \<le> m \<and> m \<le> 30 \<and> 0 \<le> v \<and> v \<le> (30 - 10)\<^sup>2"
  by (rule ewma_stays_in_range) auto

definition ex_history_entry :: "string \<Rightarrow> int \<Rightarrow> audit_entry" where
  "ex_history_entry payee t = \<lparr>e_id = ''e'', e_timestamp = t, e_agentId = ''a'',
     e_request = \<lparr>r_intent = [], r_amount = 10, r_token = ''t'', r_recipient = payee, r_chain = ''c'',
       r_agentId = ''a'', r_resourceUrl = None\<rparr>,
     e_decision = \<lparr>d_verdict = Allow, d_riskScore = 0, d_checks = [], d_reason = R_allowed 0,
       d_escalation = None\<rparr>,
     e_settlement = Some \<lparr>s_txHash = None, s_nonce = None, s_facilitator = None, s_success = True\<rparr>,
     e_entryHash = []\<rparr>"

definition ex_options :: behavioral_options where
  "ex_options = \<lparr>bo_forestMinObservations = None, bo_forestRetrainInterval = None, bo_forestTrees = None,
     bo_forestSampleSize = None, bo_forestSeed = None, bo_ewmaAlpha = None, bo_zWarnThreshold = None,
     bo_zCriticalThreshold = None, bo_forestWarnThreshold = None, bo_forestCriticalThreshold = None\<rparr>"

text \<open>
  A restart forgets counterparties: hydration replays only the 10000 latest payments, so a
  payee paid only before them, whom the running scorer knows, is a first-time counterparty again
  for the scorer rebuilt from the same log, although the set of seen counterparties is unbounded.
\<close>

theorem restart_forgets_counterparties:
  assumes "sorted (map e_timestamp (old @ recent))" "length recent = 10000"
    and "\<exists>e \<in> set old. lower (r_recipient (e_request e)) = lower a"
    and "\<And>e. e \<in> set recent \<Longrightarrow> lower (r_recipient (e_request e)) \<noteq> lower a"
  shows "\<not> EWMABaseline_isNewCounterparty (bs_baseline (fold observe_entry (old @ recent) (new_scorer opts))) a \<and>
     EWMABaseline_isNewCounterparty
       (bs_baseline (BehavioralScorer_hydrate (old @ recent) (new_scorer opts))) a"
proof -
  have "scorer_replay_order (old @ recent) = recent"
    using assms(1,2) by (simp add: scorer_replay_order_def slice_last_def MAX_REPLAY_def sort_key_id_if_sorted)
  moreover have "bl_seen (bs_baseline (new_scorer opts)) = {}"
    by (simp add: new_scorer_def new_baseline_def)
  ultimately show ?thesis
    using assms(3,4) unfolding EWMABaseline_isNewCounterparty_def BehavioralScorer_hydrate_def
    by (simp only: replayed_seen) (force simp: image_iff)
qed

theorem restart_forgets_counterparties_witness:
  "EWMABaseline_isNewCounterparty (bs_baseline (BehavioralScorer_hydrate
     ([ex_history_entry ''0xaa'' 5] @ replicate 10000 (ex_history_entry ''0xbb'' 6)) (new_scorer ex_options))) ''0xaa''"
proof -
  have "lower ''0xbb'' \<noteq> lower ''0xaa''" by code_simp
  then show ?thesis
    by (intro restart_forgets_counterparties [THEN conjunct2])
       (auto simp: ex_history_entry_def sorted_replicate)
qed

end
