(* ===== verification/Messages.thy ===== *)
theory Messages
  imports Types
begin

text \<open>
  The texts of the messages: one equation per template literal of the sources. \<open>formatUnits\<close>
  of viem, at 6 decimals, is the argument \<open>fu\<close>; \<open>toFixed\<close> is exact on real numbers. The
  ellipsis, the dash and the sigma of the sources are written in ASCII.
\<close>

section \<open>Rendering of numbers\<close>

definition pad_zeros :: "nat \<Rightarrow> string \<Rightarrow> string" where
  "pad_zeros n s = replicate (n - length s) (CHR ''0'') @ s"

text \<open>\<open>x.toFixed(f)\<close> for \<open>\<bar>x\<bar> < 10\<^sup>2\<^sup>1\<close> and \<open>f > 0\<close>: the nearest decimal, the larger of two.\<close>

definition to_fixed :: "nat \<Rightarrow> real \<Rightarrow> string" where
  "to_fixed f x =
     (let n = nat \<lfloor>\<bar>x\<bar> * 10 ^ f + 1 / 2\<rfloor>;
          t = nat_to_string (n div 10 ^ f) @ ''.'' @ pad_zeros f (nat_to_string (n mod 10 ^ f))
      in if x < 0 then CHR ''-'' # t else t)"

section \<open>Messages\<close>

fun window_text :: "spend_window \<Rightarrow> string" where
  "window_text Transaction = ''transaction''"
| "window_text Session = ''session''"
| "window_text Hour = ''hour''"
| "window_text Day = ''day''"

fun mode_text :: "allowlist_mode \<Rightarrow> string" where
  "mode_text Recipients = ''recipients''"
| "mode_text Resources = ''resources''"

definition int_text :: "int \<Rightarrow> string" where
  "int_text = bigint_to_string"

definition usdc :: "(int \<Rightarrow> string) \<Rightarrow> int \<Rightarrow> string" where
  "usdc fu v = fu v @ '' USDC''"

fun list_text :: "string \<Rightarrow> string list \<Rightarrow> string" where
  "list_text sep [] = []"
| "list_text sep [x] = x"
| "list_text sep (x # y # ys) = x @ sep @ list_text sep (y # ys)"

fun message_text :: "(int \<Rightarrow> string) \<Rightarrow> message \<Rightarrow> string" where
  "message_text fu (M_spend_exceeds w n cap) =
     window_text w @ '' spend '' @ usdc fu n @ '' would exceed cap '' @ usdc fu cap"
| "message_text fu (M_over_escalation amount limit) =
     ''amount '' @ usdc fu amount @ '' over escalation threshold '' @ usdc fu limit"
| "message_text fu (M_within_cap w n cap) =
     ''within '' @ window_text w @ '' cap ('' @ usdc fu n @ '' / '' @ usdc fu cap @ '')''"
| "message_text fu (M_allowlisted m) = mode_text m @ '' allowlisted''"
| "message_text fu (M_not_allowlisted m shown) = mode_text m @ '' '' @ shown @ '' not on allowlist''"
| "message_text fu (M_not_allowlisted_warn m shown) =
     mode_text m @ '' '' @ shown @ '' not on allowlist (warn only)''"
| "message_text fu (M_rate_exceeded n secs m) =
     int_text n @ '' payments in '' @ int_text secs @ ''s exceeds limit '' @ int_text m"
| "message_text fu (M_rate_within n m secs) =
     int_text n @ ''/'' @ int_text m @ '' payments in '' @ int_text secs @ ''s window''"
| "message_text fu M_known_counterparty = ''known counterparty''"
| "message_text fu (M_first_payment_to a) = ''first payment ever to '' @ a @ ''...''"
| "message_text fu (M_hour_within h s e) =
     int_text h @ '':00 UTC within allowed '' @ int_text s @ ''-'' @ int_text e"
| "message_text fu (M_hour_outside h s e) =
     int_text h @ '':00 UTC outside allowed window '' @ int_text s @ ''-'' @ int_text e"
| "message_text fu (M_no_cap_coverage t) =
     ''no spend-cap rule targets token '' @ t @ '' - this payment has no cap coverage''"
| "message_text fu (M_amount_spike z) = ''payment amount is '' @ to_fixed 1 z @ ''s from this agent's norm''"
| "message_text fu (M_frequency_spike z) = ''paying '' @ to_fixed 1 z @ ''s more frequently than baseline''"
| "message_text fu (M_multivariate s) =
     ''multivariate anomaly score '' @ to_fixed 2 s @
     '' - unusual combination of amount, timing, and counterparty''"
| "message_text fu M_no_resource_url = ''no resource URL to bind against''"
| "message_text fu (M_first_for_resource host a) =
     ''first payment for resource '' @ host @ '' - binding it to '' @ a @ ''... on settle''"
| "message_text fu (M_previously_paid host a) = host @ '' previously paid at '' @ a @ ''...''"
| "message_text fu (M_payee_mismatch host known a) =
     host @ '' has been paid at '' @ list_text '', '' (map (\<lambda>k. k @ ''...'') known) @
     '' before, but this payment names '' @ a @ ''...''"
| "message_text fu M_intent_no_llm = ''intent semantic check skipped (no LLM configured)''"
| "message_text fu (M_intent_below m) = ''intent check skipped (below '' @ fu m @ '' USDC threshold)''"
| "message_text fu (M_intent_unavailable e) = ''intent check unavailable: '' @ e"
| "message_text fu M_intent_consistent = ''consistent with stated intent''"
| "message_text fu (M_intent_mismatch c) = ''intent mismatch: '' @ c"
| "message_text fu M_breaker_open = ''circuit breaker open - agent frozen after repeated failures''"
| "message_text fu (M_amount_not_positive n) =
     ''payment amount must be positive (got '' @ int_text n @ '')''"
| "message_text fu (M_bad_address field v) = field @ '' is not a valid address (got '' @ v @ '')''"
| "message_text fu (M_bad_checksum field v) =
     field @ '' has an invalid EIP-55 checksum (corrupted or mistyped?) (got '' @ v @ '')''"
| "message_text fu (M_bad_chain c) = ''chain is not a valid CAIP-2 id (got '' @ c @ '')''"
| "message_text fu (M_text t) = t"

fun reason_text :: "(int \<Rightarrow> string) \<Rightarrow> reason \<Rightarrow> string" where
  "reason_text fu R_breaker_open = ''Blocked: circuit breaker open (agent frozen; reset required)''"
| "reason_text fu (R_invalid m) = ''Blocked: '' @ message_text fu m"
| "reason_text fu (R_allowed score) = ''Allowed (risk '' @ to_fixed 2 score @ '')''"
| "reason_text fu (R_failed v score ms) =
     (let verb = (if v = Block then ''Blocked'' else ''Escalated'');
          failed = list_text ''; '' (map (message_text fu) ms)
      in if failed \<noteq> [] then verb @ '' (risk '' @ to_fixed 2 score @ ''): '' @ failed
         else verb @ '' (risk '' @ to_fixed 2 score @ '')'')"
| "reason_text fu (R_text t) = t"

end
