(* ===== verification/Hashing.thy ===== *)
theory Hashing
  imports Types Json
begin

text \<open>
  The canonical serialisation of an audited decision and its hash (\<open>hashEntry\<close>,
  \<open>recomputeEntryHash\<close> and \<open>canonicalize\<close> of \<open>packages/core/src/audit/logger.ts\<close>).
  \<open>keccak256(toHex(s))\<close> is the argument \<open>kec\<close> on strings and \<open>Number.prototype.toString\<close> the
  argument \<open>num\<close>. \<open>canonical_text_inj\<close> says what the preimage determines.
\<close>

fun verdict_text :: "verdict \<Rightarrow> string" where
  "verdict_text Allow = ''allow''"
| "verdict_text Block = ''block''"
| "verdict_text Escalate = ''escalate''"

definition bool_text :: "bool \<Rightarrow> string" where
  "bool_text b = (if b then ''true'' else ''false'')"

definition json_opt :: "string option \<Rightarrow> json" where
  "json_opt s = (case s of None \<Rightarrow> JNull | Some t \<Rightarrow> JStr t)"

definition check_mark :: "policy_check \<Rightarrow> string" where
  "check_mark c = c_id c @ '':'' @ bool_text (c_passed c)"

definition settlement_canonical :: "settlement option \<Rightarrow> json" where
  "settlement_canonical s =
     (case s of
        None \<Rightarrow> JNull
      | Some t \<Rightarrow> JObj
          [(''success'', JBool (s_success t)),
           (''txHash'', json_opt (map_option lower (s_txHash t))),
           (''nonce'', json_opt (map_option lower (s_nonce t))),
           (''facilitator'', json_opt (s_facilitator t))])"

definition entry_canonical ::
  "(real \<Rightarrow> string) \<Rightarrow> payment_request \<Rightarrow> policy_decision \<Rightarrow> settlement option \<Rightarrow> json" where
  "entry_canonical num req decision settlement =
     JObj
       [(''intent'', JStr (r_intent req)),
        (''amount'', JStr (bigint_to_string (r_amount req))),
        (''token'', JStr (lower (r_token req))),
        (''recipient'', JStr (lower (r_recipient req))),
        (''chain'', JStr (r_chain req)),
        (''agentId'', JStr (r_agentId req)),
        (''resourceUrl'', json_opt (r_resourceUrl req)),
        (''verdict'', JStr (verdict_text (d_verdict decision))),
        (''riskScore'', JNum (num (d_riskScore decision))),
        (''checks'', JArr (map (\<lambda>c. JStr (check_mark c)) (d_checks decision))),
        (''settlement'', settlement_canonical settlement)]"

definition hashEntry ::
  "(string \<Rightarrow> hex) \<Rightarrow> (real \<Rightarrow> string) \<Rightarrow> payment_request \<Rightarrow> policy_decision \<Rightarrow> settlement option \<Rightarrow> hex" where
  "hashEntry kec num req decision settlement =
     kec (json_text (entry_canonical num req decision settlement))"

definition recomputeEntryHash :: "(string \<Rightarrow> hex) \<Rightarrow> (real \<Rightarrow> string) \<Rightarrow> audit_entry \<Rightarrow> hex" where
  "recomputeEntryHash kec num e = hashEntry kec num (e_request e) (e_decision e) (e_settlement e)"

definition canonicalize :: "(string \<Rightarrow> hex) \<Rightarrow> (real \<Rightarrow> string) \<Rightarrow> audit_entry \<Rightarrow> audit_entry" where
  "canonicalize kec num e = e\<lparr>e_entryHash := recomputeEntryHash kec num e\<rparr>"

section \<open>What the preimage determines\<close>

lemma verdict_text_inj [simp]: "verdict_text v = verdict_text w \<longleftrightarrow> v = w"
  by (cases v; cases w) simp_all

lemma json_opt_inj [simp]: "json_opt s = json_opt t \<longleftrightarrow> s = t"
  by (simp add: json_opt_def split: option.splits)

lemma check_mark_inj: "check_mark c = check_mark d \<longleftrightarrow> c_id c = c_id d \<and> c_passed c = c_passed d"
proof -
  have "rev (check_mark c) = rev (check_mark d) \<longleftrightarrow> c_id c = c_id d \<and> c_passed c = c_passed d"
    by (auto simp: check_mark_def bool_text_def)
  then show ?thesis by simp
qed

text \<open>The fields of a request, a decision and a settlement that the hash covers.\<close>

definition same_covered ::
  "payment_request \<Rightarrow> policy_decision \<Rightarrow> settlement option \<Rightarrow>
   payment_request \<Rightarrow> policy_decision \<Rightarrow> settlement option \<Rightarrow> bool" where
  "same_covered req dec s req' dec' s' \<longleftrightarrow>
     r_intent req = r_intent req' \<and> r_amount req = r_amount req' \<and>
     lower (r_token req) = lower (r_token req') \<and>
     lower (r_recipient req) = lower (r_recipient req') \<and>
     r_chain req = r_chain req' \<and> r_agentId req = r_agentId req' \<and>
     r_resourceUrl req = r_resourceUrl req' \<and> d_verdict dec = d_verdict dec' \<and>
     map (\<lambda>c. (c_id c, c_passed c)) (d_checks dec) = map (\<lambda>c. (c_id c, c_passed c)) (d_checks dec') \<and>
     map_option s_success s = map_option s_success s' \<and>
     map_option (\<lambda>t. map_option lower (s_txHash t)) s = map_option (\<lambda>t. map_option lower (s_txHash t)) s' \<and>
     map_option (\<lambda>t. map_option lower (s_nonce t)) s = map_option (\<lambda>t. map_option lower (s_nonce t)) s' \<and>
     map_option s_facilitator s = map_option s_facilitator s'"

text \<open>The fields a text determines, as one equation.\<close>

lemma settlement_canonical_eq:
  "settlement_canonical s = settlement_canonical s' \<longleftrightarrow>
     map_option s_success s = map_option s_success s' \<and>
     map_option (\<lambda>t. map_option lower (s_txHash t)) s = map_option (\<lambda>t. map_option lower (s_txHash t)) s' \<and>
     map_option (\<lambda>t. map_option lower (s_nonce t)) s = map_option (\<lambda>t. map_option lower (s_nonce t)) s' \<and>
     map_option s_facilitator s = map_option s_facilitator s'"
  by (auto simp: settlement_canonical_def split: option.splits)

lemma check_marks_eq:
  "map (\<lambda>c. JStr (check_mark c)) cs = map (\<lambda>c. JStr (check_mark c)) ds \<longleftrightarrow>
     map (\<lambda>c. (c_id c, c_passed c)) cs = map (\<lambda>c. (c_id c, c_passed c)) ds"
proof (induction cs arbitrary: ds)
  case (Cons c cs)
  then show ?case by (cases ds) (auto simp: check_mark_inj)
qed simp

lemma entry_canonical_eq:
  "entry_canonical num req dec s = entry_canonical num req' dec' s' \<longleftrightarrow>
     same_covered req dec s req' dec' s' \<and> num (d_riskScore dec) = num (d_riskScore dec')"
  by (simp only: entry_canonical_def same_covered_def json.inject list.inject prod.inject check_marks_eq
      settlement_canonical_eq json_opt_inj verdict_text_inj bigint_to_string_inj) blast

lemma json_opt_ok [simp]: "json_ok (json_opt s)"
  by (simp add: json_opt_def split: option.splits)

lemma settlement_canonical_ok [simp]: "json_ok (settlement_canonical s)"
  by (simp add: settlement_canonical_def split: option.splits)

lemma entry_canonical_ok: "json_ok (entry_canonical num req dec s) \<longleftrightarrow> number_ok (num (d_riskScore dec))"
  by (simp add: entry_canonical_def list_all_iff)

lemma entry_text_eq:
  assumes "number_ok (num (d_riskScore dec))" "number_ok (num (d_riskScore dec'))"
  shows "json_text (entry_canonical num req dec s) = json_text (entry_canonical num req' dec' s') \<longleftrightarrow>
     same_covered req dec s req' dec' s' \<and> num (d_riskScore dec) = num (d_riskScore dec')"
  using json_text_inj [of "entry_canonical num req dec s" "entry_canonical num req' dec' s'"] assms
  unfolding entry_canonical_ok entry_canonical_eq [symmetric] by metis

lemma canonicalize_simps [simp]:
  "e_request (canonicalize kec num e) = e_request e"
  "e_decision (canonicalize kec num e) = e_decision e"
  "e_settlement (canonicalize kec num e) = e_settlement e"
  "e_id (canonicalize kec num e) = e_id e"
  "e_timestamp (canonicalize kec num e) = e_timestamp e"
  "e_agentId (canonicalize kec num e) = e_agentId e"
  "e_entryHash (canonicalize kec num e) = recomputeEntryHash kec num e"
  by (simp_all add: canonicalize_def)

section \<open>Properties\<close>

text \<open>
  C34. The hash covers what the payment was and what became of it: for two entries whose
  preimages do not collide, the recomputed hashes agree exactly if the requests agree (addresses
  up to letter case), the verdicts, the printed risk scores and the checks' ids and outcomes
  agree, and the settlements agree in success, transaction hash, nonce and facilitator. In
  particular the hash says nothing about an entry's timestamp, its agent column and its messages.
\<close>

theorem hash_covers_payment_and_outcome:
  assumes "number_ok (num (d_riskScore (e_decision e)))" "number_ok (num (d_riskScore (e_decision f)))"
    and "kec (json_text (entry_canonical num (e_request e) (e_decision e) (e_settlement e))) =
           kec (json_text (entry_canonical num (e_request f) (e_decision f) (e_settlement f))) \<Longrightarrow>
         json_text (entry_canonical num (e_request e) (e_decision e) (e_settlement e)) =
           json_text (entry_canonical num (e_request f) (e_decision f) (e_settlement f))"
  shows "recomputeEntryHash kec num e = recomputeEntryHash kec num f \<longleftrightarrow>
     same_covered (e_request e) (e_decision e) (e_settlement e) (e_request f) (e_decision f) (e_settlement f) \<and>
     num (d_riskScore (e_decision e)) = num (d_riskScore (e_decision f))"
  unfolding recomputeEntryHash_def hashEntry_def
  using assms(3) entry_text_eq [OF assms(1,2), of "e_request e" "e_settlement e" "e_request f" "e_settlement f"]
  by metis

definition ex_audited :: "int \<Rightarrow> bool \<Rightarrow> audit_entry" where
  "ex_audited t ok = \<lparr>e_id = ''e'', e_timestamp = t, e_agentId = ''a'',
     e_request = \<lparr>r_intent = ''weather'', r_amount = 10, r_token = ''t'', r_recipient = ''r'', r_chain = ''c'',
       r_agentId = ''a'', r_resourceUrl = None\<rparr>,
     e_decision = \<lparr>d_verdict = Allow, d_riskScore = 0, d_checks = [], d_reason = R_allowed 0,
       d_escalation = None\<rparr>,
     e_settlement = Some \<lparr>s_txHash = None, s_nonce = None, s_facilitator = None, s_success = ok\<rparr>,
     e_entryHash = []\<rparr>"

theorem hash_covers_payment_and_outcome_witness:
  "recomputeEntryHash (\<lambda>s. s) (\<lambda>x. ''0'') (ex_audited 5 True) \<noteq>
     recomputeEntryHash (\<lambda>s. s) (\<lambda>x. ''0'') (ex_audited 5 False) \<and>
   recomputeEntryHash (\<lambda>s. s) (\<lambda>x. ''0'') (ex_audited 5 True) =
     recomputeEntryHash (\<lambda>s. s) (\<lambda>x. ''0'') (ex_audited 9 True)"
proof -
  have num: "number_ok ''0''" by code_simp
  show ?thesis
    using hash_covers_payment_and_outcome [of "\<lambda>x. ''0''" "ex_audited 5 True" "ex_audited 5 False" "\<lambda>s. s", OF num num]
      hash_covers_payment_and_outcome [of "\<lambda>x. ''0''" "ex_audited 5 True" "ex_audited 9 True" "\<lambda>s. s", OF num num]
    by (simp add: same_covered_def ex_audited_def)
qed

end
