(* ===== verification/Constants.thy ===== *)
theory Constants
  imports Types
begin

text \<open>
  The supported chains and the choice of the authorisation method
  (\<open>packages/core/src/constants.ts\<close>, \<open>AuthMethod\<close> of \<open>types.ts\<close>). Of viem's chain objects
  only the chain id is used by the modelled code; it is kept next to the code's own fields.
\<close>

record eip712_domain =
  dm_name :: string
  dm_version :: string
  dm_chainId :: int
  dm_verifyingContract :: address

record chain_config =
  cc_caip2 :: string
  cc_chainId :: int
  cc_usdc :: address
  cc_usdcDomain :: eip712_domain
  cc_defaultRpcUrl :: string

definition CHAINS :: "(string \<times> chain_config) list" where
  "CHAINS =
     [(''eip155:84532'',
       \<lparr>cc_caip2 = ''eip155:84532'', cc_chainId = 84532,
        cc_usdc = ''0x036CbD53842c5426634e7929541eC2318f3dCF7e'',
        cc_usdcDomain = \<lparr>dm_name = ''USDC'', dm_version = ''2'', dm_chainId = 84532,
          dm_verifyingContract = ''0x036CbD53842c5426634e7929541eC2318f3dCF7e''\<rparr>,
        cc_defaultRpcUrl = ''https://sepolia.base.org''\<rparr>),
      (''eip155:8453'',
       \<lparr>cc_caip2 = ''eip155:8453'', cc_chainId = 8453,
        cc_usdc = ''0x833589fCD6eDb6E08f4c7C32D4f71b54bdA02913'',
        cc_usdcDomain = \<lparr>dm_name = ''USD Coin'', dm_version = ''2'', dm_chainId = 8453,
          dm_verifyingContract = ''0x833589fCD6eDb6E08f4c7C32D4f71b54bdA02913''\<rparr>,
        cc_defaultRpcUrl = ''https://mainnet.base.org''\<rparr>)]"

text \<open>The error carries the unsupported chain; its message lists \<open>Object.keys(CHAINS)\<close>.\<close>

datatype chain_error = Unsupported_chain string "string list"

definition getChain :: "string \<Rightarrow> chain_error + chain_config" where
  "getChain caip2 =
     (case map_of CHAINS caip2 of None \<Rightarrow> Inl (Unsupported_chain caip2 (map fst CHAINS)) | Some c \<Rightarrow> Inr c)"

definition DEFAULT_TESTNET_FACILITATOR :: string where
  "DEFAULT_TESTNET_FACILITATOR = ''https://x402.org/facilitator''"

datatype auth_method = EIP3009 | PERMIT2

definition EIP3009_TOKENS :: "string list" where
  "EIP3009_TOKENS = map lower
     [''0x833589fCD6eDb6E08f4c7C32D4f71b54bdA02913'', ''0x036CbD53842c5426634e7929541eC2318f3dCF7e'',
      ''0x60a3E35Cc302bFA44Cb288Bc5a4F316Fdb1adb42'']"

definition recommendedAuthMethod :: "address \<Rightarrow> auth_method" where
  "recommendedAuthMethod token = (if lower token \<in> set EIP3009_TOKENS then EIP3009 else PERMIT2)"

text \<open>
  Solana networks (\<open>solana.ts\<close>): the ids and mints are constants of the package \<open>@x402/svm\<close>, and so is
  \<open>getUsdcAddress\<close>, \<open>None\<close> if it throws.
\<close>

record svm_lib =
  sv_mainnet :: string
  sv_devnet :: string
  sv_testnet :: string
  sv_getUsdcAddress :: "string \<Rightarrow> string option"

definition SOLANA_NETWORKS :: "svm_lib \<Rightarrow> string list" where
  "SOLANA_NETWORKS lib = [sv_mainnet lib, sv_devnet lib, sv_testnet lib]"

definition isSolanaNetwork :: "string \<Rightarrow> bool" where
  "isSolanaNetwork caip2 = starts_with caip2 ''solana:''"

definition getSolanaUsdc :: "svm_lib \<Rightarrow> string \<Rightarrow> string option" where
  "getSolanaUsdc lib network = sv_getUsdcAddress lib network"

section \<open>Consistency of the table\<close>

lemma getChain_caip2: "getChain c = Inr cfg \<Longrightarrow> cc_caip2 cfg = c"
  by (auto simp: getChain_def CHAINS_def split: option.splits if_splits)

text \<open>Every chain's USDC is paid with EIP-3009, under a domain for the chain and the token itself.\<close>

lemma chain_domains:
  "list_all (\<lambda>(c, cfg). dm_chainId (cc_usdcDomain cfg) = cc_chainId cfg \<and>
     dm_verifyingContract (cc_usdcDomain cfg) = cc_usdc cfg \<and>
     recommendedAuthMethod (cc_usdc cfg) = EIP3009) CHAINS"
  by (simp add: CHAINS_def recommendedAuthMethod_def EIP3009_TOKENS_def)

text \<open>No chain of the table is a Solana network, so \<open>getChain\<close> refuses each of them.\<close>

lemma solana_has_no_chain: "isSolanaNetwork c \<Longrightarrow> getChain c = Inl (Unsupported_chain c (map fst CHAINS))"
  by (auto simp: isSolanaNetwork_def getChain_def CHAINS_def starts_with_def split: option.splits if_splits)

end
