(* ===== verification/X402.thy ===== *)
theory X402
  imports Constants
begin

text \<open>
  The x402 helpers under \<open>packages/core/src/x402/\<close>: the tracker of nonces in flight and the
  signing of EIP-3009 authorisations (\<open>eip3009.ts\<close>), the signing of Permit2 authorisations
  (\<open>permit2.ts\<close>), the comparison of what was signed with what was approved (\<open>inspect.ts\<close>), the
  mapping of payment requirements to a request (\<open>interceptor.ts\<close>) and the facilitator failover
  (\<open>facilitator.ts\<close>).

  Random nonces are the argument \<open>rnd\<close>, the values that \<open>randomBytes\<close> will give, read at a
  position that every draw advances. The wallet's \<open>signTypedData\<close> is the argument \<open>sg\<close>, which signs
  or throws. What
  comes from the package \<open>@x402/evm\<close> is an argument as well: the constants of the Permit2
  contracts and the two functions that tell payload shapes apart.
\<close>

section \<open>Nonces in flight\<close>

record nonce_tracker =
  nt_inflight :: "string set"

definition new_tracker :: nonce_tracker where
  "new_tracker = \<lparr>nt_inflight = {}\<rparr>"

text \<open>The loop of \<open>reserve\<close>: \<open>None\<close> is a loop that never ends.\<close>

partial_function (option) reserve_loop :: "(nat \<Rightarrow> hex) \<Rightarrow> string set \<Rightarrow> nat \<Rightarrow> hex \<Rightarrow> (hex \<times> nat) option" where
  [code]: "reserve_loop rnd used k n =
     (if lower n \<in> used then reserve_loop rnd used (Suc k) (rnd k) else Some (n, k))"

definition InFlightNonceTracker_reserve ::
  "(nat \<Rightarrow> hex) \<Rightarrow> nat \<Rightarrow> hex option \<Rightarrow> nonce_tracker \<Rightarrow> (hex \<times> nat \<times> nonce_tracker) option" where
  "InFlightNonceTracker_reserve rnd k nonce t =
     (case (case nonce of Some n \<Rightarrow> reserve_loop rnd (nt_inflight t) k n
            | None \<Rightarrow> reserve_loop rnd (nt_inflight t) (Suc k) (rnd k)) of
        None \<Rightarrow> None
      | Some (n, k') \<Rightarrow> Some (n, k', t\<lparr>nt_inflight := insert (lower n) (nt_inflight t)\<rparr>))"

definition InFlightNonceTracker_release :: "hex \<Rightarrow> nonce_tracker \<Rightarrow> nonce_tracker" where
  "InFlightNonceTracker_release nonce t = t\<lparr>nt_inflight := nt_inflight t - {lower nonce}\<rparr>"

definition InFlightNonceTracker_has :: "nonce_tracker \<Rightarrow> hex \<Rightarrow> bool" where
  "InFlightNonceTracker_has t nonce \<longleftrightarrow> lower nonce \<in> nt_inflight t"

definition InFlightNonceTracker_size :: "nonce_tracker \<Rightarrow> nat" where
  "InFlightNonceTracker_size t = card (nt_inflight t)"

section \<open>EIP-3009 authorisations\<close>

record authorization =
  au_from :: address
  au_to :: address
  au_value :: int
  au_validAfter :: int
  au_validBefore :: int
  au_nonce :: hex

record signed_authorization =
  sa_signature :: hex
  sa_authorization :: authorization
  sa_method :: auth_method

record sign_options =
  so_validForSeconds :: "int option"
  so_nonce :: "hex option"
  so_tracker :: "nonce_tracker option"

record inspected_authorization =
  in_from :: address
  in_recipient :: address
  in_amount :: int
  in_expiresAt :: int
  in_nonce :: hex

definition seconds_of :: "int \<Rightarrow> int" where
  "seconds_of ms = ms div 1000"

text \<open>The nonce of a signature: reserved through the tracker when there is one.\<close>

definition choose_nonce ::
  "(nat \<Rightarrow> hex) \<Rightarrow> nat \<Rightarrow> sign_options \<Rightarrow> (hex \<times> nat \<times> nonce_tracker option) option" where
  "choose_nonce rnd k opts =
     (case so_tracker opts of
        Some t \<Rightarrow> map_option (\<lambda>(n, k', t'). (n, k', Some t')) (InFlightNonceTracker_reserve rnd k (so_nonce opts) t)
      | None \<Rightarrow> (case so_nonce opts of Some n \<Rightarrow> Some (n, k, None) | None \<Rightarrow> Some (rnd k, Suc k, None)))"

datatype sign_error = Se_chain chain_error | Se_signer string

text \<open>
  The signer is called on the domain of the chain's USDC and the message. The result is \<open>None\<close>
  if no nonce is ever found; otherwise an error (an unsupported chain, or what the signer throws) or the
  signed authorisation, and the tracker, which keeps the reserved nonce when the signer throws.
\<close>

definition signEIP3009Authorization ::
  "(nat \<Rightarrow> hex) \<Rightarrow> nat \<Rightarrow> (eip712_domain \<Rightarrow> authorization \<Rightarrow> string + hex) \<Rightarrow> address \<Rightarrow> int \<Rightarrow> payment_request \<Rightarrow>
     sign_options \<Rightarrow> ((sign_error + signed_authorization) \<times> nonce_tracker option) option" where
  "signEIP3009Authorization rnd k sg account now req opts =
     (case getChain (r_chain req) of
        Inl e \<Rightarrow> Some (Inl (Se_chain e), so_tracker opts)
      | Inr chain \<Rightarrow>
          (case choose_nonce rnd k opts of
             None \<Rightarrow> None
           | Some (n, k', t) \<Rightarrow>
               (let valid = (case so_validForSeconds opts of Some s \<Rightarrow> s | None \<Rightarrow> 3600);
                    auth = \<lparr>au_from = account, au_to = r_recipient req, au_value = r_amount req, au_validAfter = 0,
                            au_validBefore = seconds_of now + valid, au_nonce = n\<rparr>
                in case sg (cc_usdcDomain chain) auth of
                     Inl e \<Rightarrow> Some (Inl (Se_signer e), t)
                   | Inr sig \<Rightarrow>
                       Some (Inr \<lparr>sa_signature = sig, sa_authorization = auth, sa_method = EIP3009\<rparr>, t))))"

definition inspectAuthorization :: "signed_authorization \<Rightarrow> inspected_authorization" where
  "inspectAuthorization s =
     (let a = sa_authorization s
      in \<lparr>in_from = au_from a, in_recipient = au_to a, in_amount = au_value a, in_expiresAt = au_validBefore a,
          in_nonce = au_nonce a\<rparr>)"

section \<open>Permit2 authorisations\<close>

record permit2_authorization =
  pm_token :: address
  pm_amount :: int
  pm_spender :: address
  pm_nonce :: int
  pm_deadline :: int
  pm_to :: address
  pm_validAfter :: int

record signed_permit2 =
  sp2_signature :: hex
  sp2_permit :: permit2_authorization
  sp2_method :: auth_method

record permit2_options =
  po_validForSeconds :: "int option"
  po_validAfter :: "int option"
  po_nonce :: "int option"
  po_spender :: "address option"

record permit2_domain =
  pd_name :: string
  pd_chainId :: int
  pd_verifyingContract :: address

record permit2_lib =
  p2_PERMIT2_ADDRESS :: address
  p2_x402ExactPermit2ProxyAddress :: address
  p2_approvalTx :: "address \<Rightarrow> address \<times> hex"

record inspected_permit2 =
  ip_token :: address
  ip_recipient :: address
  ip_amount :: int
  ip_spender :: address
  ip_deadline :: int
  ip_nonce :: int

definition signPermit2Authorization ::
  "permit2_lib \<Rightarrow> int \<Rightarrow> (permit2_domain \<Rightarrow> permit2_authorization \<Rightarrow> string + hex) \<Rightarrow> int \<Rightarrow> payment_request \<Rightarrow>
     permit2_options \<Rightarrow> sign_error + signed_permit2" where
  "signPermit2Authorization lib rnd sg now req opts =
     (case getChain (r_chain req) of
        Inl e \<Rightarrow> Inl (Se_chain e)
      | Inr chain \<Rightarrow>
          (let permit = \<lparr>pm_token = r_token req, pm_amount = r_amount req,
                 pm_spender = (case po_spender opts of Some s \<Rightarrow> s | None \<Rightarrow> p2_x402ExactPermit2ProxyAddress lib),
                 pm_nonce = (case po_nonce opts of Some n \<Rightarrow> n | None \<Rightarrow> rnd),
                 pm_deadline = seconds_of now + (case po_validForSeconds opts of Some s \<Rightarrow> s | None \<Rightarrow> 3600),
                 pm_to = r_recipient req,
                 pm_validAfter = (case po_validAfter opts of Some v \<Rightarrow> v | None \<Rightarrow> 0)\<rparr>
           in case sg \<lparr>pd_name = ''Permit2'', pd_chainId = cc_chainId chain,
                     pd_verifyingContract = p2_PERMIT2_ADDRESS lib\<rparr> permit of
                Inl e \<Rightarrow> Inl (Se_signer e)
              | Inr sig \<Rightarrow> Inr \<lparr>sp2_signature = sig, sp2_permit = permit, sp2_method = PERMIT2\<rparr>))"

definition inspectPermit2Authorization :: "signed_permit2 \<Rightarrow> inspected_permit2" where
  "inspectPermit2Authorization s =
     (let p = sp2_permit s
      in \<lparr>ip_token = pm_token p, ip_recipient = pm_to p, ip_amount = pm_amount p, ip_spender = pm_spender p,
          ip_deadline = pm_deadline p, ip_nonce = pm_nonce p\<rparr>)"

text \<open>A client that reads a chain (\<open>adapters/base.ts\<close>); \<open>read\<close> is the allowance it reports for a token and an owner.\<close>

record public_client =
  pc_chain :: chain_config
  pc_url :: string

definition makePublicClient :: "string \<Rightarrow> string option \<Rightarrow> chain_error + public_client" where
  "makePublicClient caip2 rpcUrl =
     (case getChain caip2 of
        Inl e \<Rightarrow> Inl e
      | Inr chain \<Rightarrow> Inr \<lparr>pc_chain = chain,
          pc_url = (case rpcUrl of Some u \<Rightarrow> u | None \<Rightarrow> cc_defaultRpcUrl chain)\<rparr>)"

datatype read_error = Rd_chain chain_error | Rd_rpc string

definition permit2ApprovalNeeded ::
  "(public_client \<Rightarrow> address \<Rightarrow> address \<Rightarrow> string + int) \<Rightarrow> address \<Rightarrow> address \<Rightarrow> int \<Rightarrow> string \<Rightarrow> string option \<Rightarrow>
     read_error + bool" where
  "permit2ApprovalNeeded read token owner requiredAmount chain rpcUrl =
     (case makePublicClient chain rpcUrl of
        Inl e \<Rightarrow> Inl (Rd_chain e)
      | Inr pub \<Rightarrow> map_sum Rd_rpc (\<lambda>allowance. allowance < requiredAmount) (read pub token owner))"

definition buildPermit2Approval :: "permit2_lib \<Rightarrow> address \<Rightarrow> address \<times> hex" where
  "buildPermit2Approval lib token = p2_approvalTx lib token"

section \<open>What was signed against what was approved\<close>

text \<open>
  The payload of a signed payment is an object of the package; \<open>isEIP3009Payload\<close> and
  \<open>isPermit2Payload\<close> of the package tell its shape. The fields read from it are optional, since
  reading one that is absent throws a \<open>TypeError\<close>. Amounts are strings there.
\<close>

record signed_3009 =
  s3_to :: address
  s3_value :: string

record signed_p2 =
  s2_to :: address
  s2_amount :: string
  s2_token :: address

record payload =
  pl_authorization :: "signed_3009 option"
  pl_permit2Authorization :: "signed_p2 option"

record evm_guards =
  isEIP3009Payload :: "payload \<Rightarrow> bool"
  isPermit2Payload :: "payload \<Rightarrow> bool"

datatype mismatch =
    Mm_recipient address address
  | Mm_amount string int
  | Mm_token address address

datatype assert_error = AuthorizationMismatch "mismatch list" | Bad_BigInt string | Assert_TypeError

definition eq_ci :: "string \<Rightarrow> string \<Rightarrow> bool" where
  "eq_ci a b \<longleftrightarrow> lower a = lower b"

definition recipient_mismatch :: "address \<Rightarrow> payment_request \<Rightarrow> mismatch list" where
  "recipient_mismatch to req = (if eq_ci to (r_recipient req) then [] else [Mm_recipient to (r_recipient req)])"

definition amount_mismatch :: "string \<Rightarrow> int \<Rightarrow> payment_request \<Rightarrow> mismatch list" where
  "amount_mismatch txt value req = (if value = r_amount req then [] else [Mm_amount txt (r_amount req)])"

definition token_mismatch :: "address \<Rightarrow> payment_request \<Rightarrow> mismatch list" where
  "token_mismatch token req = (if eq_ci token (r_token req) then [] else [Mm_token token (r_token req)])"

definition throw_mismatches :: "mismatch list \<Rightarrow> assert_error + unit" where
  "throw_mismatches ms = (if length ms > 0 then Inl (AuthorizationMismatch ms) else Inr ())"

definition assertAuthorizationMatches :: "evm_guards \<Rightarrow> payload \<Rightarrow> payment_request \<Rightarrow> assert_error + unit" where
  "assertAuthorizationMatches g p req =
     (if isEIP3009Payload g p then
        (case pl_authorization p of
           None \<Rightarrow> Inl Assert_TypeError
         | Some a \<Rightarrow>
             (case bigint_of_string (s3_value a) of
                None \<Rightarrow> Inl (Bad_BigInt (s3_value a))
              | Some v \<Rightarrow> throw_mismatches (recipient_mismatch (s3_to a) req @ amount_mismatch (s3_value a) v req)))
      else if isPermit2Payload g p then
        (case pl_permit2Authorization p of
           None \<Rightarrow> Inl Assert_TypeError
         | Some a \<Rightarrow>
             (case bigint_of_string (s2_amount a) of
                None \<Rightarrow> Inl (Bad_BigInt (s2_amount a))
              | Some v \<Rightarrow> throw_mismatches (recipient_mismatch (s2_to a) req @ amount_mismatch (s2_amount a) v req @
                            token_mismatch (s2_token a) req)))
      else Inr ())"

section \<open>From payment requirements to a request\<close>

record payment_requirements =
  rq_scheme :: string
  rq_network :: string
  rq_asset :: address
  rq_amount :: string
  rq_payTo :: address
  rq_maxTimeoutSeconds :: int
  rq_extra :: "(string \<times> string) list"

record pending_item =
  pi_req :: payment_request
  pi_decision :: policy_decision
  pi_recorded :: bool

record intent_store =
  is_intent :: "string option"
  is_resourceUrl :: "string option"
  is_pending :: "pending_item list"

text \<open>The shapes of \<open>HeadersInit\<close>: a \<open>Headers\<close> object holds its names in lower case.\<close>

datatype headers =
    NoHeaders
  | HeadersObject "(string \<times> string) list"
  | HeaderPairs "string list list"
  | HeaderRecord "(string \<times> string) list"

text \<open>\<open>Headers.prototype.get\<close>: the values of the name joined by a comma and a space.\<close>

fun join_comma :: "string list \<Rightarrow> string" where
  "join_comma [] = []"
| "join_comma [v] = v"
| "join_comma (v # vs) = v @ '', '' @ join_comma vs"

definition headers_get :: "(string \<times> string) list \<Rightarrow> string \<Rightarrow> string option" where
  "headers_get hs name =
     (let vs = map snd (filter (\<lambda>(k, v). k = lower name) hs) in if vs = [] then None else Some (join_comma vs))"

definition headerValue :: "headers \<Rightarrow> string \<Rightarrow> string option" where
  "headerValue headers name =
     (let lname = lower name
      in case headers of
           NoHeaders \<Rightarrow> None
         | HeadersObject hs \<Rightarrow> headers_get hs name
         | HeaderPairs ps \<Rightarrow>
             (case find (\<lambda>pair. pair \<noteq> [] \<and> lower (hd pair) = lname) ps of
                None \<Rightarrow> None
              | Some pair \<Rightarrow> if length pair > 1 then Some (pair ! 1) else None)
         | HeaderRecord hs \<Rightarrow> map_option snd (find (\<lambda>(k, v). lower k = lname) hs))"

text \<open>\<open>None\<close>: \<open>BigInt(r.amount)\<close> throws.\<close>

definition requirementsToPaymentRequest ::
  "payment_requirements \<Rightarrow> string \<Rightarrow> intent_store option \<Rightarrow> payment_request option" where
  "requirementsToPaymentRequest r agentId store =
     (case bigint_of_string (rq_amount r) of
        None \<Rightarrow> None
      | Some v \<Rightarrow>
          (let url = Option.bind store is_resourceUrl
           in Some \<lparr>r_intent = (case Option.bind store is_intent of
                  Some i \<Rightarrow> i
                | None \<Rightarrow> ''Pay for resource at '' @ (case url of Some u \<Rightarrow> u | None \<Rightarrow> rq_payTo r)),
                r_amount = v, r_token = rq_asset r, r_recipient = rq_payTo r, r_chain = rq_network r,
                r_agentId = agentId, r_resourceUrl = url\<rparr>))"

section \<open>Facilitator failover\<close>

text \<open>
  A call either returns (a settlement may well be unsuccessful) or throws, an \<open>Error\<close> or some
  other value. The second component of \<open>tryAll\<close> is the list of the clients called.
\<close>

datatype thrown = ErrorInstance string | OtherThrown

fun tryAll_loop :: "('c \<Rightarrow> thrown + 'r) \<Rightarrow> thrown \<Rightarrow> 'c list \<Rightarrow> (thrown + 'r) \<times> 'c list" where
  "tryAll_loop call lastErr [] =
     (Inl (case lastErr of ErrorInstance e \<Rightarrow> ErrorInstance e | OtherThrown \<Rightarrow> ErrorInstance ''all facilitators failed''), [])"
| "tryAll_loop call lastErr (c # cs) =
     (case call c of
        Inr r \<Rightarrow> (Inr r, [c])
      | Inl e \<Rightarrow> (case tryAll_loop call e cs of (res, called) \<Rightarrow> (res, c # called)))"

definition FailoverFacilitatorClient_new :: "'c list \<Rightarrow> thrown + 'c list" where
  "FailoverFacilitatorClient_new clients =
     (if length clients = 0 then Inl (ErrorInstance ''FailoverFacilitatorClient needs >=1 facilitator'') else Inr clients)"

definition FailoverFacilitatorClient_tryAll :: "('c \<Rightarrow> thrown + 'r) \<Rightarrow> 'c list \<Rightarrow> (thrown + 'r) \<times> 'c list" where
  "FailoverFacilitatorClient_tryAll call clients = tryAll_loop call OtherThrown clients"

text \<open>\<open>settle\<close> and \<open>verify\<close> forward their arguments to every client in turn.\<close>

definition FailoverFacilitatorClient_settle ::
  "('c \<Rightarrow> 'p \<Rightarrow> 'q \<Rightarrow> thrown + 'r) \<Rightarrow> 'p \<Rightarrow> 'q \<Rightarrow> 'c list \<Rightarrow> (thrown + 'r) \<times> 'c list" where
  "FailoverFacilitatorClient_settle settle p q clients = FailoverFacilitatorClient_tryAll (\<lambda>c. settle c p q) clients"

definition FailoverFacilitatorClient_verify ::
  "('c \<Rightarrow> 'p \<Rightarrow> 'q \<Rightarrow> thrown + 'r) \<Rightarrow> 'p \<Rightarrow> 'q \<Rightarrow> 'c list \<Rightarrow> (thrown + 'r) \<times> 'c list" where
  "FailoverFacilitatorClient_verify verify p q clients = FailoverFacilitatorClient_tryAll (\<lambda>c. verify c p q) clients"

section \<open>Facts about the tracker\<close>

definition hold_nonce :: "hex \<Rightarrow> nonce_tracker \<Rightarrow> nonce_tracker" where
  "hold_nonce n t = t\<lparr>nt_inflight := insert (lower n) (nt_inflight t)\<rparr>"

interpretation nonces: ci_memory hold_nonce InFlightNonceTracker_has
  by unfold_locales (auto simp: hold_nonce_def InFlightNonceTracker_has_def)

lemma reserve_loop_returns:
  "lower (rnd (k + d)) \<notin> used \<Longrightarrow>
     \<exists>n k'. reserve_loop rnd used k start = Some (n, k') \<and> lower n \<notin> used \<and> k' \<le> Suc (k + d)"
proof (induction d arbitrary: k start)
  case 0
  then show ?case by (subst reserve_loop.simps) (simp add: reserve_loop.simps [of rnd used "Suc k"])
next
  case (Suc d)
  then have "lower (rnd (Suc k + d)) \<notin> used" by simp
  from Suc.IH [OF this, of "rnd k"] show ?case by (subst reserve_loop.simps) auto
qed

lemma reserve_loop_fresh:
  assumes "reserve_loop rnd used k n = Some r"
  shows "lower (fst r) \<notin> used"
  by (rule reserve_loop.raw_induct [of "\<lambda>rnd used k n r. lower (fst r) \<notin> used", OF _ assms]) (auto split: if_splits)

text \<open>The loop never ends exactly when no draw that it can still make is free.\<close>

lemma reserve_loop_never:
  assumes "reserve_loop rnd used k n = None"
  shows "lower n \<in> used" "k \<le> j \<Longrightarrow> lower (rnd j) \<in> used"
proof -
  show "lower n \<in> used" using assms by (subst (asm) reserve_loop.simps) (auto split: if_splits)
  show "lower (rnd j) \<in> used" if "k \<le> j"
    using reserve_loop_returns [of rnd k "j - k" used n] assms that by (cases "lower (rnd j) \<in> used") auto
qed

lemma unused_random_nonce:
  assumes "inj_on (\<lambda>j. lower (rnd j)) {k..k + card used}" "finite used"
  shows "\<exists>d \<le> card used. lower (rnd (k + d)) \<notin> used"
proof (rule ccontr)
  assume "\<not> (\<exists>d \<le> card used. lower (rnd (k + d)) \<notin> used)"
  then have all: "\<And>d. d \<le> card used \<Longrightarrow> lower (rnd (k + d)) \<in> used" by blast
  have "lower (rnd j) \<in> used" if "j \<in> {k..k + card used}" for j
  proof -
    have "j - k \<le> card used" "k + (j - k) = j" using that by auto
    then show ?thesis using all [of "j - k"] by simp
  qed
  then have "(\<lambda>j. lower (rnd j)) ` {k..k + card used} \<subseteq> used" by blast
  then have "card ((\<lambda>j. lower (rnd j)) ` {k..k + card used}) \<le> card used"
    by (rule card_mono [OF assms(2)])
  then show False using assms(1) by (simp add: card_image)
qed

lemma reserve_loop_soon:
  assumes "inj_on (\<lambda>j. lower (rnd j)) {k..k + card used}" "finite used"
  shows "\<exists>n k'. reserve_loop rnd used k start = Some (n, k') \<and> k' \<le> Suc (k + card used)"
proof -
  obtain d where d: "d \<le> card used" "lower (rnd (k + d)) \<notin> used"
    using unused_random_nonce [OF assms] by blast
  from reserve_loop_returns [where rnd = rnd and used = used and k = k and d = d and start = start, OF d(2)] d(1)
  show ?thesis by force
qed

lemma reserve_eq:
  "InFlightNonceTracker_reserve rnd k nonce t = Some (n, k', t') \<Longrightarrow> t' = hold_nonce n t"
  by (auto simp: InFlightNonceTracker_reserve_def hold_nonce_def split: option.splits)

section \<open>Properties\<close>

lemma reserve_cases:
  "InFlightNonceTracker_reserve rnd k nonce t =
     (case nonce of
        Some m \<Rightarrow> map_option (\<lambda>(n, k'). (n, k', hold_nonce n t)) (reserve_loop rnd (nt_inflight t) k m)
      | None \<Rightarrow> map_option (\<lambda>(n, k'). (n, k', hold_nonce n t)) (reserve_loop rnd (nt_inflight t) (Suc k) (rnd k)))"
  by (auto simp: InFlightNonceTracker_reserve_def hold_nonce_def split: option.splits)

lemma reserve_soon:
  assumes "inj_on (\<lambda>j. lower (rnd j)) {k..k + InFlightNonceTracker_size t + 1}" "finite (nt_inflight t)"
  shows "\<exists>n k' t'. InFlightNonceTracker_reserve rnd k nonce t = Some (n, k', t') \<and> k' \<le> k + InFlightNonceTracker_size t + 2"
proof (cases nonce)
  case None
  have "inj_on (\<lambda>j. lower (rnd j)) {Suc k..Suc k + card (nt_inflight t)}"
    using assms(1) by (rule inj_on_subset) (auto simp: InFlightNonceTracker_size_def)
  from reserve_loop_soon [OF this assms(2), of "rnd k"] None show ?thesis
    by (auto simp: reserve_cases InFlightNonceTracker_size_def)
next
  case (Some m)
  have "inj_on (\<lambda>j. lower (rnd j)) {k..k + card (nt_inflight t)}"
    using assms(1) by (rule inj_on_subset) (auto simp: InFlightNonceTracker_size_def)
  from reserve_loop_soon [OF this assms(2), of m] Some show ?thesis
    by (force simp: reserve_cases InFlightNonceTracker_size_def)
qed

text \<open>
  C32. Reserving a nonce returns unless the nonce asked for and every further draw is already in flight: it certainly
  returns when the next draws, two more than there are nonces in flight, differ from each other (as 32 random bytes do
  but for a negligible chance), and then after at most that many draws. The nonce it returns was not in flight (up to
  letter case), it is in flight afterwards along with exactly the others, a free nonce given by the caller is used as it
  is, and releasing the nonce gives the tracker back.
\<close>

theorem reserve_returns_fresh_nonce:
  assumes "finite (nt_inflight t)"
  shows "case InFlightNonceTracker_reserve rnd k nonce t of
           None \<Rightarrow>
             (\<forall>m. nonce = Some m \<longrightarrow> InFlightNonceTracker_has t m) \<and> (\<forall>j \<ge> k. InFlightNonceTracker_has t (rnd j)) \<and>
             \<not> inj_on (\<lambda>j. lower (rnd j)) {k..k + InFlightNonceTracker_size t + 1}
         | Some (n, k', t') \<Rightarrow>
             \<not> InFlightNonceTracker_has t n \<and>
             (inj_on (\<lambda>j. lower (rnd j)) {k..k + InFlightNonceTracker_size t + 1} \<longrightarrow>
                k' \<le> k + InFlightNonceTracker_size t + 2) \<and>
             (\<forall>m. InFlightNonceTracker_has t' m = (lower m = lower n \<or> InFlightNonceTracker_has t m)) \<and>
             (\<forall>m. nonce = Some m \<longrightarrow> \<not> InFlightNonceTracker_has t m \<longrightarrow> n = m) \<and>
             InFlightNonceTracker_release n t' = t"
proof (cases "InFlightNonceTracker_reserve rnd k nonce t")
  case None
  then have "(\<forall>m. nonce = Some m \<longrightarrow> InFlightNonceTracker_has t m) \<and> (\<forall>j \<ge> k. InFlightNonceTracker_has t (rnd j))"
    using reserve_loop_never [of rnd "nt_inflight t"]
    by (auto simp: reserve_cases InFlightNonceTracker_has_def le_eq_less_or_eq [of k] Suc_le_eq [symmetric] split: option.splits)
  then show ?thesis using None reserve_soon [OF _ assms, of rnd k nonce] by auto
next
  case (Some r)
  obtain n k' t' where r: "r = (n, k', t')" by (cases r)
  have t': "t' = hold_nonce n t" by (rule reserve_eq) (use Some r in simp)
  have fresh: "lower n \<notin> nt_inflight t"
    using Some r by (auto simp: reserve_cases split: option.splits dest: reserve_loop_fresh)
  have given: "n = m" if "nonce = Some m" "lower m \<notin> nt_inflight t" for m
    using Some r that by (simp add: reserve_cases reserve_loop.simps [of rnd "nt_inflight t" k m])
  have "InFlightNonceTracker_release n (hold_nonce n t) = t"
    using fresh by (simp add: InFlightNonceTracker_release_def hold_nonce_def)
  then show ?thesis
    using Some r t' fresh given reserve_soon [OF _ assms, of rnd k nonce]
    by (auto simp: hold_nonce_def InFlightNonceTracker_has_def)
qed

text \<open>
  What the check accepts, when the shape tests look for their fields: the recipient up to letter case
  and the exact amount, for Permit2 the token as well; an amount that is no integer never passes. A
  payload with neither authorisation passes unexamined.
\<close>

definition signed_for :: "payload \<Rightarrow> payment_request \<Rightarrow> bool" where
  "signed_for p req \<longleftrightarrow>
     (case pl_authorization p of
        Some a \<Rightarrow> lower (s3_to a) = lower (r_recipient req) \<and> bigint_of_string (s3_value a) = Some (r_amount req)
      | None \<Rightarrow> (case pl_permit2Authorization p of
          Some a \<Rightarrow> lower (s2_to a) = lower (r_recipient req) \<and> bigint_of_string (s2_amount a) = Some (r_amount req) \<and>
            lower (s2_token a) = lower (r_token req)
        | None \<Rightarrow> True))"

lemma assert_signed_for:
  assumes "\<And>p. isEIP3009Payload g p = (pl_authorization p \<noteq> None)"
    and "\<And>p. isPermit2Payload g p = (pl_permit2Authorization p \<noteq> None)"
  shows "assertAuthorizationMatches g p req = Inr () \<longleftrightarrow> signed_for p req"
  by (auto simp: assms signed_for_def assertAuthorizationMatches_def throw_mismatches_def recipient_mismatch_def
      amount_mismatch_def token_mismatch_def eq_ci_def split: option.splits)

text \<open>
  What the guard signs is what it approved: an EIP-3009 authorisation that the signing
  function returns names the request's recipient and amount, is valid from the start and for
  the requested time, is inspected as such, and its payload passes the check against the request.
\<close>

theorem signed_payment_passes_inspection:
  assumes "signEIP3009Authorization rnd k sg account now req opts = Some (Inr s, t)"
    and "isEIP3009Payload g p" "pl_authorization p =
      Some \<lparr>s3_to = au_to (sa_authorization s), s3_value = bigint_to_string (au_value (sa_authorization s))\<rparr>"
  shows "assertAuthorizationMatches g p req = Inr () \<and>
     in_recipient (inspectAuthorization s) = r_recipient req \<and> in_amount (inspectAuthorization s) = r_amount req \<and>
     in_from (inspectAuthorization s) = account \<and> au_validAfter (sa_authorization s) = 0 \<and>
     in_expiresAt (inspectAuthorization s) =
       now div 1000 + (case so_validForSeconds opts of Some v \<Rightarrow> v | None \<Rightarrow> 3600)"
  using assms
  by (auto simp: signEIP3009Authorization_def inspectAuthorization_def Let_def seconds_of_def
      assertAuthorizationMatches_def throw_mismatches_def recipient_mismatch_def amount_mismatch_def eq_ci_def
      bigint_of_string_to_string split: sum.splits option.splits)

text \<open>
  The token of the request is never looked at: whatever it is, the authorisation moves the chain's
  USDC. \<open>authorizePayment\<close> of every wallet signs a payment in another token as a transfer of the same
  number of units of USDC.
\<close>

lemma eip3009_ignores_token:
  "signEIP3009Authorization rnd k sg account now (req\<lparr>r_token := token\<rparr>) opts =
     signEIP3009Authorization rnd k sg account now req opts"
  by (auto simp: signEIP3009Authorization_def Let_def split: sum.splits option.splits)

lemma eip3009_signs_usdc:
  assumes "signEIP3009Authorization rnd k sg account now req opts = Some (Inr s, t)"
  shows "\<exists>cfg. getChain (r_chain req) = Inr cfg \<and> dm_verifyingContract (cc_usdcDomain cfg) = cc_usdc cfg \<and>
     sg (cc_usdcDomain cfg) (sa_authorization s) = Inr (sa_signature s)"
  using assms
  by (auto simp: signEIP3009Authorization_def Let_def getChain_def CHAINS_def split: sum.splits option.splits if_splits)

text \<open>
  The failover asks the facilitators in order and stops at the first that answers: a result
  is the answer of the first one that does not throw, whether it reports success or not, only
  those before it were called, and an error means that every one was called and threw.
\<close>

theorem failover_stops_at_first_answer:
  "case FailoverFacilitatorClient_settle settle p q clients of
     (Inr r, called) \<Rightarrow> (\<exists>before c after. clients = before @ c # after \<and> called = before @ [c] \<and>
        settle c p q = Inr r \<and> list_all (\<lambda>b. \<exists>e. settle b p q = Inl e) before)
   | (Inl e, called) \<Rightarrow> called = clients \<and> list_all (\<lambda>c. \<exists>e. settle c p q = Inl e) clients"
proof -
  have "case tryAll_loop (\<lambda>c. settle c p q) e0 clients of
     (Inr r, called) \<Rightarrow> (\<exists>before c after. clients = before @ c # after \<and> called = before @ [c] \<and>
        settle c p q = Inr r \<and> list_all (\<lambda>b. \<exists>e. settle b p q = Inl e) before)
   | (Inl e, called) \<Rightarrow> called = clients \<and> list_all (\<lambda>c. \<exists>e. settle c p q = Inl e) clients" for e0
  proof (induction clients arbitrary: e0)
    case (Cons c cs)
    show ?case
    proof (cases "settle c p q")
      case (Inl e)
      obtain res called where res: "tryAll_loop (\<lambda>c. settle c p q) e cs = (res, called)" by fastforce
      show ?thesis
      proof (cases res)
        case (Inl e')
        then show ?thesis using Cons.IH [of e] res \<open>settle c p q = Inl e\<close> by simp
      next
        case (Inr r)
        then obtain b d a where "cs = b @ d # a" "called = b @ [d]" "settle d p q = Inr r"
          "list_all (\<lambda>b. \<exists>e. settle b p q = Inl e) b"
          using Cons.IH [of e] res by auto
        then have "c # cs = (c # b) @ d # a \<and> c # called = (c # b) @ [d] \<and> settle d p q = Inr r \<and>
          list_all (\<lambda>b. \<exists>e. settle b p q = Inl e) (c # b)"
          using Inl by simp
        then have "\<exists>before x after. c # cs = before @ x # after \<and> c # called = before @ [x] \<and>
          settle x p q = Inr r \<and> list_all (\<lambda>b. \<exists>e. settle b p q = Inl e) before"
          by blast
        then show ?thesis using Inr res \<open>settle c p q = Inl e\<close> by simp
      qed
    qed (auto intro!: exI [of _ "[]"])
  qed simp
  then show ?thesis by (simp add: FailoverFacilitatorClient_settle_def FailoverFacilitatorClient_tryAll_def)
qed

definition ex_nonces :: "nat \<Rightarrow> hex" where
  "ex_nonces k = replicate k (CHR ''0'')"

definition ex_tracker :: nonce_tracker where
  "ex_tracker = \<lparr>nt_inflight = {[], ''0''}\<rparr>"

theorem reserve_returns_fresh_nonce_witness:
  "case InFlightNonceTracker_reserve ex_nonces 0 None ex_tracker of
     None \<Rightarrow> False
   | Some (n, k', t') \<Rightarrow> n \<noteq> ''0'' \<and> k' \<le> 4 \<and> InFlightNonceTracker_has t' n \<and>
       InFlightNonceTracker_release n t' = ex_tracker"
proof -
  have "inj_on (\<lambda>j. lower (ex_nonces j)) {0..0 + InFlightNonceTracker_size ex_tracker + 1}"
    by (rule inj_onI) (auto simp: ex_nonces_def lower_def map_replicate_const dest: arg_cong [where f = length])
  moreover have "lower ''0'' = ''0''" by code_simp
  ultimately show ?thesis
    using reserve_returns_fresh_nonce [where t = ex_tracker and rnd = ex_nonces and k = 0 and nonce = None]
    by (auto simp: ex_tracker_def InFlightNonceTracker_has_def InFlightNonceTracker_size_def split: option.splits)
qed

definition ex_order :: payment_request where
  "ex_order = \<lparr>r_intent = ''data'', r_amount = 5, r_token = ''0xt'', r_recipient = ''0xab'',
     r_chain = ''eip155:8453'', r_agentId = ''a'', r_resourceUrl = None\<rparr>"

definition ex_options :: sign_options where
  "ex_options = \<lparr>so_validForSeconds = Some 60, so_nonce = Some ''0x1'', so_tracker = None\<rparr>"

definition ex_authorization :: authorization where
  "ex_authorization = \<lparr>au_from = ''0xme'', au_to = ''0xab'', au_value = 5, au_validAfter = 0, au_validBefore = 69,
     au_nonce = ''0x1''\<rparr>"

theorem signed_payment_passes_inspection_witness:
  "assertAuthorizationMatches \<lparr>isEIP3009Payload = (\<lambda>p. pl_authorization p \<noteq> None), isPermit2Payload = (\<lambda>p. False)\<rparr>
     \<lparr>pl_authorization = Some \<lparr>s3_to = ''0xab'', s3_value = bigint_to_string 5\<rparr>, pl_permit2Authorization = None\<rparr>
     ex_order = Inr ()"
proof -
  have "signEIP3009Authorization ex_nonces 0 (\<lambda>d a. Inr ''0x5'') ''0xme'' 9999 ex_order ex_options =
     Some (Inr \<lparr>sa_signature = ''0x5'', sa_authorization = ex_authorization, sa_method = EIP3009\<rparr>, None)"
    by (simp add: signEIP3009Authorization_def ex_order_def ex_options_def ex_authorization_def choose_nonce_def
        getChain_def CHAINS_def seconds_of_def Let_def)
  from signed_payment_passes_inspection [OF this] show ?thesis by (simp add: ex_authorization_def)
qed

end
