(* ===== verification/Guard.thy ===== *)
theory Guard
  imports Spending Breaker Registry Intent Behavioral Messages Hashing X402
begin

text \<open>
  The decision of \<open>AgentGuard\<close> (\<open>packages/core/src/index.ts\<close>): the validation of a request at
  the boundary, the aggregation of the three layers' checks into a verdict, and \<open>evaluate\<close>, which
  consults the circuit breaker, the policy, the behavioral scorer, the payee registry and the
  intent check. The world outside is the record \<open>externals\<close>: viem's address tests, the URL
  parser, the environment, \<open>fetch\<close>, keccak256, the rendering of numbers and the payload tests
  of \<open>@x402/evm\<close>. \<open>clock i\<close> is the \<open>i\<close>-th reading of \<open>Date.now()\<close> during a call.
\<close>

record externals =
  x_isAddress :: "string \<Rightarrow> bool"
  x_isAddressStrict :: "string \<Rightarrow> bool"
  x_url :: "string \<Rightarrow> url option"
  x_env :: environment
  x_http :: http
  x_kec :: "string \<Rightarrow> hex"
  x_num :: "real \<Rightarrow> string"
  x_evm :: evm_guards

type_synonym clock = "nat \<Rightarrow> int"

section \<open>Validation of a request\<close>

datatype address_problem = Not_an_address | Bad_checksum

definition addressProblem :: "externals \<Rightarrow> string \<Rightarrow> address_problem option" where
  "addressProblem x value =
     (if \<not> x_isAddress x value then Some Not_an_address
      else if \<not> x_isAddressStrict x value then Some Bad_checksum else None)"

fun address_message :: "string \<Rightarrow> string \<Rightarrow> address_problem \<Rightarrow> message" where
  "address_message field value Not_an_address = M_bad_address field value"
| "address_message field value Bad_checksum = M_bad_checksum field value"

text \<open>\<open>/^[a-z0-9-]{3,8}:[a-zA-Z0-9._-]{1,32}$/\<close>; neither character class contains the colon.\<close>

definition char_between :: "char \<Rightarrow> char \<Rightarrow> char \<Rightarrow> bool" where
  "char_between a b c \<longleftrightarrow> (of_char a :: nat) \<le> of_char c \<and> (of_char c :: nat) \<le> of_char b"

definition namespace_char :: "char \<Rightarrow> bool" where
  "namespace_char c \<longleftrightarrow> char_between (CHR ''a'') (CHR ''z'') c \<or> char_between (CHR ''0'') (CHR ''9'') c \<or> c = CHR ''-''"

definition reference_char :: "char \<Rightarrow> bool" where
  "reference_char c \<longleftrightarrow> char_between (CHR ''a'') (CHR ''z'') c \<or> char_between (CHR ''A'') (CHR ''Z'') c \<or>
     char_between (CHR ''0'') (CHR ''9'') c \<or> c = CHR ''.'' \<or> c = CHR ''_'' \<or> c = CHR ''-''"

definition caip2_ok :: "string \<Rightarrow> bool" where
  "caip2_ok s =
     (let ns = takeWhile (\<lambda>c. c \<noteq> CHR '':'') s; rest = drop (length ns) s
      in 3 \<le> length ns \<and> length ns \<le> 8 \<and> list_all namespace_char ns \<and> rest \<noteq> [] \<and>
         1 \<le> length (tl rest) \<and> length (tl rest) \<le> 32 \<and> list_all reference_char (tl rest))"

definition bad_request :: "string \<Rightarrow> message \<Rightarrow> policy_check" where
  "bad_request i m = \<lparr>c_id = i, c_passed = False, c_severity = Critical, c_message = m\<rparr>"

definition first_address_problem :: "externals \<Rightarrow> (string \<times> string) list \<Rightarrow> policy_check option" where
  "first_address_problem x pairs =
     (case List.map_filter (\<lambda>(field, value). map_option (\<lambda>p. bad_request (''invalid-'' @ field)
             (address_message field value p)) (addressProblem x value)) pairs of
        [] \<Rightarrow> None | c # _ \<Rightarrow> Some c)"

definition validateRequest :: "externals \<Rightarrow> payment_request \<Rightarrow> policy_check option" where
  "validateRequest x req =
     (if r_amount req \<le> 0 then Some (bad_request ''invalid-amount'' (M_amount_not_positive (r_amount req)))
      else
        (case (if starts_with (r_chain req) ''eip155:''
               then first_address_problem x [(''recipient'', r_recipient req), (''token'', r_token req)]
               else None) of
           Some c \<Rightarrow> Some c
         | None \<Rightarrow> if \<not> caip2_ok (r_chain req) then Some (bad_request ''invalid-chain'' (M_bad_chain (r_chain req)))
                   else None))"

section \<open>Aggregation\<close>

definition failed_critical :: "policy_check \<Rightarrow> bool" where
  "failed_critical c \<longleftrightarrow> \<not> c_passed c \<and> c_severity c = Critical"

definition aggregateVerdict :: "policy_check list \<Rightarrow> real \<Rightarrow> real \<Rightarrow> anomaly_action \<Rightarrow> bool \<Rightarrow> verdict" where
  "aggregateVerdict checks score anomalyThreshold anomalyAction policyEscalate =
     (let hardCritical = list_ex (\<lambda>c. failed_critical c \<and> \<not> behavioral_id (c_id c)) checks;
          behavioralCritical = list_ex (\<lambda>c. failed_critical c \<and> behavioral_id (c_id c)) checks;
          anomalyTriggered = (score \<ge> anomalyThreshold \<or> behavioralCritical)
      in if hardCritical \<or> (anomalyTriggered \<and> anomalyAction = ABlock) then Block
         else if policyEscalate \<or> (anomalyTriggered \<and> anomalyAction = AEscalate) then Escalate
         else Allow)"

definition buildReason :: "verdict \<Rightarrow> policy_check list \<Rightarrow> real \<Rightarrow> reason" where
  "buildReason verdict checks score =
     (if verdict = Allow then R_allowed score
      else R_failed verdict score (map c_message (filter (\<lambda>c. \<not> c_passed c) checks)))"

section \<open>Evaluation\<close>

text \<open>The unchanging part of a guard, and its enforcement state over a store of type \<open>'s\<close>.\<close>

datatype escalation_handler = Callback_handler | Queue_handler | Webhook_handler

record agent_guard =
  ag_agentId :: string
  ag_chain :: string
  ag_intent :: intent_reconciler
  ag_facilitatorUrl :: string
  ag_facilitatorFallbackUrls :: "string list option"
  ag_onEscalation :: "escalation_handler option"
  ag_breaker :: "breaker_config option"

record hydration_report =
  hy_entries :: nat
  hy_settled :: nat
  hy_tampered :: nat
  hy_tamperedIds :: "string list"

record 's guard_state =
  gs_evaluator :: evaluator
  gs_behavioral :: scorer
  gs_resources :: registry
  gs_breaker :: breaker
  gs_store :: 's
  gs_lastHydration :: "hydration_report option"

definition breaker_open :: "agent_guard \<Rightarrow> int \<Rightarrow> breaker \<Rightarrow> bool \<times> breaker" where
  "breaker_open g now b = (case ag_breaker g of None \<Rightarrow> (False, b) | Some cfg \<Rightarrow> CircuitBreaker_isOpen cfg now b)"

definition blocked_decision :: "policy_check \<Rightarrow> reason \<Rightarrow> policy_decision" where
  "blocked_decision c r =
     \<lparr>d_verdict = Block, d_riskScore = 1, d_checks = [c], d_reason = r, d_escalation = None\<rparr>"

definition breaker_check :: policy_check where
  "breaker_check = \<lparr>c_id = ''circuit-breaker'', c_passed = False, c_severity = Critical, c_message = M_breaker_open\<rparr>"

definition layered_decision :: "externals \<Rightarrow> agent_guard \<Rightarrow> clock \<Rightarrow> payment_request \<Rightarrow> 's guard_state \<Rightarrow> policy_decision" where
  "layered_decision x g clock req st =
     (let ev = PolicyEvaluator_evaluate (x_url x) (gs_evaluator st) req (clock 1);
          be = BehavioralScorer_score (gs_behavioral st) req (clock 2);
          bindingCheck = ResourceRegistry_check (x_url x) (gs_resources st) req;
          intentCheck = IntentReconciler_check (x_env x) (x_http x) (ag_intent g) req;
          checks = er_checks ev @ br_checks be @ [bindingCheck, intentCheck];
          pol = ev_policy (gs_evaluator st);
          verdict = aggregateVerdict checks (br_score be) (p_anomalyThreshold pol) (p_anomalyAction pol) (er_escalate ev)
      in \<lparr>d_verdict = verdict, d_riskScore = br_score be, d_checks = checks,
          d_reason = buildReason verdict checks (br_score be), d_escalation = None\<rparr>)"

definition AgentGuard_evaluate ::
  "externals \<Rightarrow> agent_guard \<Rightarrow> clock \<Rightarrow> payment_request \<Rightarrow> 's guard_state \<Rightarrow> policy_decision \<times> 's guard_state" where
  "AgentGuard_evaluate x g clock req st =
     (let (opened, b) = breaker_open g (clock 0) (gs_breaker st); st' = st\<lparr>gs_breaker := b\<rparr>
      in if opened then (blocked_decision breaker_check R_breaker_open, st')
         else (case validateRequest x req of
                 Some c \<Rightarrow> (blocked_decision c (R_invalid (c_message c)), st')
               | None \<Rightarrow> (layered_decision x g clock req st', st')))"

section \<open>Facts about the layers\<close>

lemma intent_check_not_behavioral: "\<not> behavioral_id (c_id (IntentReconciler_check env http ir req))"
  by (auto simp: IntentReconciler_check_def IntentReconciler_semanticCheck_def intent_info_def behavioral_id_def
      starts_with_def split: sum.splits prod.splits if_splits)

lemma first_address_problem_Some:
  "first_address_problem x fs = Some c \<Longrightarrow> c_passed c = False \<and> c_severity c = Critical"
proof -
  assume "first_address_problem x fs = Some c"
  then have "c \<in> set (List.map_filter (\<lambda>(field, value). map_option (\<lambda>p. bad_request (''invalid-'' @ field)
             (address_message field value p)) (addressProblem x value)) fs)"
    by (auto simp: first_address_problem_def split: list.splits)
  then show ?thesis by (auto simp: set_map_filter bad_request_def)
qed

lemma validateRequest_Some:
  "validateRequest x req = Some c \<Longrightarrow> c_passed c = False \<and> c_severity c = Critical"
  by (auto simp: validateRequest_def bad_request_def dest: first_address_problem_Some split: if_splits option.splits)

lemma addressProblem_None: "addressProblem x v = None \<longleftrightarrow> x_isAddress x v \<and> x_isAddressStrict x v"
  by (simp add: addressProblem_def)

lemma first_address_problem_None:
  "first_address_problem x fs = None \<longleftrightarrow>
     list_all (\<lambda>(f, v). x_isAddress x v \<and> x_isAddressStrict x v) fs"
proof -
  have "first_address_problem x fs = None \<longleftrightarrow> list_all (\<lambda>(f, v). addressProblem x v = None) fs"
    by (induction fs) (auto simp: first_address_problem_def List.map_filter_simps split: list.splits option.splits)
  then show ?thesis by (simp only: addressProblem_None)
qed

lemma aggregate_cases:
  "aggregateVerdict cs s t a e = Block \<longleftrightarrow>
     (\<exists>c \<in> set cs. failed_critical c \<and> \<not> behavioral_id (c_id c)) \<or>
     a = ABlock \<and> (s \<ge> t \<or> (\<exists>c \<in> set cs. failed_critical c \<and> behavioral_id (c_id c)))"
  "aggregateVerdict cs s t a e = Escalate \<longleftrightarrow>
     aggregateVerdict cs s t a e \<noteq> Block \<and>
     (e \<or> s \<ge> t \<or> (\<exists>c \<in> set cs. failed_critical c \<and> behavioral_id (c_id c)))"
  by (cases a; auto simp: aggregateVerdict_def Let_def list_ex_iff)+

definition anomalous :: "policy \<Rightarrow> behavioral_result \<Rightarrow> bool" where
  "anomalous pol be \<longleftrightarrow> br_score be \<ge> p_anomalyThreshold pol \<or> list_ex failed_critical (br_checks be)"

lemma layered_verdict:
  fixes st :: "'s guard_state"
  defines "ev \<equiv> \<lambda>x clock req (st :: 's guard_state). PolicyEvaluator_evaluate (x_url x) (gs_evaluator st) req (clock 1)"
    and "be \<equiv> \<lambda>clock req (st :: 's guard_state). BehavioralScorer_score (gs_behavioral st) req (clock 2)"
  shows "d_verdict (layered_decision x g clock req st) = Block \<longleftrightarrow>
       blocks (ev x clock req st) \<or> failed_critical (ResourceRegistry_check (x_url x) (gs_resources st) req) \<or>
       failed_critical (IntentReconciler_check (x_env x) (x_http x) (ag_intent g) req) \<or>
       p_anomalyAction (ev_policy (gs_evaluator st)) = ABlock \<and> anomalous (ev_policy (gs_evaluator st)) (be clock req st)"
    and "d_verdict (layered_decision x g clock req st) = Escalate \<longleftrightarrow>
       d_verdict (layered_decision x g clock req st) \<noteq> Block \<and>
       (er_escalate (ev x clock req st) \<or> anomalous (ev_policy (gs_evaluator st)) (be clock req st))"
proof -
  let ?cs = "er_checks (ev x clock req st) @ br_checks (be clock req st) @
    [ResourceRegistry_check (x_url x) (gs_resources st) req,
     IntentReconciler_check (x_env x) (x_http x) (ag_intent g) req]"
  have eb: "behavioral_id (c_id c)" if "c \<in> set (br_checks (be clock req st))" for c
    using br_checks_anomalies that unfolding be_def list_all_iff anomaly_check_def by blast
  have nb: "\<not> behavioral_id (c_id c)" if "c \<in> set (er_checks (ev x clock req st))" for c
    using evaluate_checks_not_behavioral that unfolding ev_def by blast
  have hard: "(\<exists>c \<in> set ?cs. failed_critical c \<and> \<not> behavioral_id (c_id c)) \<longleftrightarrow>
      blocks (ev x clock req st) \<or> failed_critical (ResourceRegistry_check (x_url x) (gs_resources st) req) \<or>
      failed_critical (IntentReconciler_check (x_env x) (x_http x) (ag_intent g) req)"
    using eb nb check_not_behavioral intent_check_not_behavioral
    by (auto simp: blocks_def list_ex_iff failed_critical_def)
  have soft: "(\<exists>c \<in> set ?cs. failed_critical c \<and> behavioral_id (c_id c)) \<longleftrightarrow>
      list_ex failed_critical (br_checks (be clock req st))"
    using eb nb check_not_behavioral intent_check_not_behavioral by (auto simp: list_ex_iff)
  have v: "d_verdict (layered_decision x g clock req st) =
      aggregateVerdict ?cs (br_score (be clock req st)) (p_anomalyThreshold (ev_policy (gs_evaluator st)))
        (p_anomalyAction (ev_policy (gs_evaluator st))) (er_escalate (ev x clock req st))"
    by (simp add: layered_decision_def Let_def ev_def be_def)
  show "d_verdict (layered_decision x g clock req st) = Block \<longleftrightarrow>
       blocks (ev x clock req st) \<or> failed_critical (ResourceRegistry_check (x_url x) (gs_resources st) req) \<or>
       failed_critical (IntentReconciler_check (x_env x) (x_http x) (ag_intent g) req) \<or>
       p_anomalyAction (ev_policy (gs_evaluator st)) = ABlock \<and> anomalous (ev_policy (gs_evaluator st)) (be clock req st)"
    unfolding v aggregate_cases(1) hard soft anomalous_def by blast
  show "d_verdict (layered_decision x g clock req st) = Escalate \<longleftrightarrow>
       d_verdict (layered_decision x g clock req st) \<noteq> Block \<and>
       (er_escalate (ev x clock req st) \<or> anomalous (ev_policy (gs_evaluator st)) (be clock req st))"
    unfolding v by (subst aggregate_cases(2)) (unfold soft anomalous_def, blast)
qed

lemma evaluate_frame:
  "gs_evaluator (snd (AgentGuard_evaluate x g clock req st)) = gs_evaluator st"
  "gs_behavioral (snd (AgentGuard_evaluate x g clock req st)) = gs_behavioral st"
  "gs_resources (snd (AgentGuard_evaluate x g clock req st)) = gs_resources st"
  "gs_store (snd (AgentGuard_evaluate x g clock req st)) = gs_store st"
  by (simp_all add: AgentGuard_evaluate_def Let_def split: prod.splits option.splits)

section \<open>Properties\<close>

text \<open>
  C2. The verdict on a payment: it is blocked exactly if the circuit breaker is open, the request
  is malformed, a policy rule or the payee binding or the intent check fails critically, or the
  behavioral layer finds an anomaly (a score at the threshold or a critical check) and the policy
  blocks anomalies; it is escalated exactly if it is not blocked, the guard evaluated it and a
  rule asks for escalation or there is an anomaly. Evaluating changes nothing but the breaker.
\<close>

theorem verdict_characterised:
  "let d = fst (AgentGuard_evaluate x g clock req st);
       st' = snd (AgentGuard_evaluate x g clock req st);
       pol = ev_policy (gs_evaluator st);
       ev = PolicyEvaluator_evaluate (x_url x) (gs_evaluator st) req (clock 1);
       odd = anomalous pol (BehavioralScorer_score (gs_behavioral st) req (clock 2));
       stopped = (fst (breaker_open g (clock 0) (gs_breaker st)) \<or> (\<exists>c. validateRequest x req = Some c))
   in (d_verdict d = Block) =
        (stopped \<or> blocks ev \<or>
         failed_critical (ResourceRegistry_check (x_url x) (gs_resources st) req) \<or>
         failed_critical (IntentReconciler_check (x_env x) (x_http x) (ag_intent g) req) \<or>
         p_anomalyAction pol = ABlock \<and> odd) \<and>
      (d_verdict d = Escalate) = (d_verdict d \<noteq> Block \<and> (er_escalate ev \<or> odd)) \<and>
      st' = st\<lparr>gs_breaker := snd (breaker_open g (clock 0) (gs_breaker st))\<rparr>"
proof (cases "fst (breaker_open g (clock 0) (gs_breaker st)) \<or> (\<exists>c. validateRequest x req = Some c)")
  case True
  then show ?thesis
    by (auto simp: AgentGuard_evaluate_def Let_def blocked_decision_def split: prod.splits option.splits)
next
  case False
  then have e: "AgentGuard_evaluate x g clock req st =
      (layered_decision x g clock req (st\<lparr>gs_breaker := snd (breaker_open g (clock 0) (gs_breaker st))\<rparr>),
       st\<lparr>gs_breaker := snd (breaker_open g (clock 0) (gs_breaker st))\<rparr>)"
    by (auto simp: AgentGuard_evaluate_def Let_def split: prod.splits option.splits)
  show ?thesis
    using False unfolding e Let_def fst_conv snd_conv by (subst layered_verdict(2)) (simp add: layered_verdict(1))
qed

text \<open>
  Aggregation is monotone: more checks, a higher score or a policy that asks for escalation
  never make the verdict milder (allow, then escalate, then block).
\<close>

theorem aggregate_monotone:
  assumes "set cs \<subseteq> set ds" "s \<le> s'" "e \<longrightarrow> e'"
  shows "aggregateVerdict cs s t a e \<le> aggregateVerdict ds s' t a e'"
proof -
  have "aggregateVerdict ds s' t a e' = Block" if "aggregateVerdict cs s t a e = Block"
    using that assms unfolding aggregate_cases(1) by fastforce
  moreover have "aggregateVerdict ds s' t a e' \<noteq> Allow" if "aggregateVerdict cs s t a e = Escalate"
    using that assms aggregate_cases [of cs s t a e] aggregate_cases [of ds s' t a e'] by fastforce
  ultimately show ?thesis
    by (cases "aggregateVerdict cs s t a e"; cases "aggregateVerdict ds s' t a e'") (simp_all add: less_eq_verdict_def)
qed

theorem aggregate_monotone_witness:
  "aggregateVerdict [] (1 / 2) (9 / 10) ABlock False
     \<le> aggregateVerdict [bad_request ''spend-cap'' (M_text [])] (6 / 10) (9 / 10) ABlock True"
  by (rule aggregate_monotone) simp_all

text \<open>
  What passes the boundary is well formed: a request that is not refused has a positive
  amount, a chain \<open>namespace:reference\<close> with a namespace of 3 to 8 characters and a reference of 1
  to 32, and on an EVM chain a recipient and a token that pass viem's checksum test.
\<close>

theorem validated_request_well_formed:
  "validateRequest x req = None \<longleftrightarrow>
     r_amount req > 0 \<and>
     (\<exists>ns rf. r_chain req = ns @ '':'' @ rf \<and> length ns \<in> {3..8} \<and> length rf \<in> {1..32} \<and>
        list_all namespace_char ns \<and> list_all reference_char rf) \<and>
     (starts_with (r_chain req) ''eip155:'' \<longrightarrow>
        list_all (\<lambda>a. x_isAddress x a \<and> x_isAddressStrict x a) [r_recipient req, r_token req])"
proof -
  have colon: "\<not> namespace_char (CHR '':'')" by (simp add: namespace_char_def char_between_def)
  have "caip2_ok s \<longleftrightarrow> (\<exists>ns rf. s = ns @ '':'' @ rf \<and> length ns \<in> {3..8} \<and> length rf \<in> {1..32} \<and>
        list_all namespace_char ns \<and> list_all reference_char rf)" (is "_ = ?split s") for s
  proof
    assume ok: "caip2_ok s"
    let ?ns = "takeWhile (\<lambda>c. c \<noteq> CHR '':'') s"
    let ?d = "dropWhile (\<lambda>c. c \<noteq> CHR '':'') s"
    have r: "drop (length ?ns) s = ?d" by (simp add: dropWhile_eq_drop)
    have "drop (length ?ns) s \<noteq> []" using ok unfolding caip2_ok_def Let_def by blast
    then have ne: "?d \<noteq> []" unfolding r .
    have "hd ?d = CHR '':''" using hd_dropWhile [OF ne] by simp
    then have "?d = CHR '':'' # tl ?d" using ne by (metis list.collapse)
    moreover have "s = ?ns @ ?d" by simp
    ultimately have "s = ?ns @ '':'' @ tl (drop (length ?ns) s)"
      unfolding r append.simps by simp
    then show "?split s" using ok unfolding caip2_ok_def Let_def atLeastAtMost_iff by blast
  next
    assume "?split s"
    then obtain ns rf where s: "s = ns @ '':'' @ rf" "length ns \<in> {3..8}" "length rf \<in> {1..32}"
      "list_all namespace_char ns" "list_all reference_char rf" by blast
    then have "takeWhile (\<lambda>c. c \<noteq> CHR '':'') s = ns"
      using colon by (auto simp: takeWhile_append list_all_iff)
    then show "caip2_ok s" using s by (simp add: caip2_ok_def Let_def)
  qed
  note caip2 = this
  have "first_address_problem x [(''recipient'', r_recipient req), (''token'', r_token req)] = None \<longleftrightarrow>
      list_all (\<lambda>a. x_isAddress x a \<and> x_isAddressStrict x a) [r_recipient req, r_token req]"
    by (simp add: first_address_problem_None)
  moreover have "validateRequest x req = None \<longleftrightarrow> r_amount req > 0 \<and> caip2_ok (r_chain req) \<and>
      (starts_with (r_chain req) ''eip155:'' \<longrightarrow>
         first_address_problem x [(''recipient'', r_recipient req), (''token'', r_token req)] = None)"
    by (auto simp: validateRequest_def split: option.splits)
  ultimately show ?thesis unfolding caip2 by (simp only:)
qed

definition ex_externals :: externals where
  "ex_externals = \<lparr>x_isAddress = (\<lambda>s. starts_with s ''0x''), x_isAddressStrict = (\<lambda>s. s = lower s), x_url = (\<lambda>s. None),
     x_env = (\<lambda>k. None), x_http = (\<lambda>q. Inl ''offline''), x_kec = (\<lambda>s. s), x_num = (\<lambda>r. ''0''),
     x_evm = \<lparr>isEIP3009Payload = (\<lambda>p. pl_authorization p \<noteq> None), isPermit2Payload = (\<lambda>p. pl_permit2Authorization p \<noteq> None)\<rparr>\<rparr>"

lemma ex_order_valid: "validateRequest ex_externals ex_order = None"
  by (simp add: ex_externals_def validateRequest_def ex_order_def first_address_problem_def addressProblem_def
      starts_with_def lower_def lower_char_def caip2_ok_def namespace_char_def reference_char_def char_between_def
      Let_def List.map_filter_simps)

theorem validated_request_well_formed_witness:
  "r_amount ex_order > 0 \<and> list_all (\<lambda>a. x_isAddress ex_externals a) [r_recipient ex_order, r_token ex_order]"
proof -
  have "starts_with (r_chain ex_order) ''eip155:''" by (simp add: ex_order_def starts_with_def)
  then show ?thesis
    using validated_request_well_formed [of ex_externals ex_order] ex_order_valid by simp
qed

end
