(* ===== verification/Store.thy ===== *)
theory Store
  imports Hashing Messages "HOL-Library.Multiset"
begin

text \<open>
  The audit store. First the rows of \<open>packages/core/src/audit/store.ts\<close> with their JSON columns:
  \<open>serializeRequest\<close>, \<open>rowToEntry\<close> and the round trip between them. Then the interface
  \<open>AuditStore\<close> as a record of operations with its contract, the locale \<open>audit_store\<close>, and its
  two implementations, \<open>SqliteAuditStore\<close> and \<open>PostgresAuditStore\<close> (\<open>postgres-store.ts\<close>),
  each an interpretation of the locale.

  The two implementations keep a row with its columns decoded (\<open>stored_row\<close>), which is what
  every query hands to \<open>rowToEntry\<close>; \<open>row_roundtrip\<close> shows that decoding the columns an
  insertion writes gives back the entry. Number literals are printed by \<open>num\<close>, read by \<open>rd\<close>,
  and \<open>formatUnits\<close> is \<open>fu\<close>, as before. SQL is modelled by its result: \<open>ORDER BY rowid\<close> is the
  order of the list, \<open>ORDER BY k\<close> a stable sort.
\<close>

section \<open>Rows\<close>

record audit_row =
  row_id :: string
  row_timestamp :: int
  row_agent_id :: string
  row_request_json :: string
  row_decision_json :: string
  row_settlement_json :: "string option"
  row_entry_hash :: string
  row_batch_index :: "int option"
  row_batch_root :: "string option"

text \<open>A member that is left out when its value is \<open>undefined\<close>.\<close>

definition opt_member :: "string \<Rightarrow> string option \<Rightarrow> (string \<times> json) list" where
  "opt_member k v = (case v of None \<Rightarrow> [] | Some s \<Rightarrow> [(k, JStr s)])"

definition request_json :: "payment_request \<Rightarrow> json" where
  "request_json r =
     JObj ([(''intent'', JStr (r_intent r)), (''amount'', JStr (bigint_to_string (r_amount r))),
            (''token'', JStr (r_token r)), (''recipient'', JStr (r_recipient r)),
            (''chain'', JStr (r_chain r)), (''agentId'', JStr (r_agentId r))] @
           opt_member ''resourceUrl'' (r_resourceUrl r))"

definition serializeRequest :: "payment_request \<Rightarrow> string" where
  "serializeRequest r = json_text (request_json r)"

text \<open>Reading a member back; \<open>None\<close> where the stored JSON is not of the expected shape.\<close>

definition get_str :: "json \<Rightarrow> string \<Rightarrow> string option" where
  "get_str j k = (case json_get j k of Some (JStr s) \<Rightarrow> Some s | _ \<Rightarrow> None)"

definition get_bool :: "json \<Rightarrow> string \<Rightarrow> bool option" where
  "get_bool j k = (case json_get j k of Some (JBool b) \<Rightarrow> Some b | _ \<Rightarrow> None)"

definition request_of_json :: "json \<Rightarrow> payment_request option" where
  "request_of_json j =
     (case (get_str j ''intent'', get_str j ''amount'', get_str j ''token'', get_str j ''recipient'',
            get_str j ''chain'', get_str j ''agentId'') of
        (Some i, Some a, Some t, Some rc, Some c, Some ag) \<Rightarrow>
          (case bigint_of_string a of
             None \<Rightarrow> None
           | Some n \<Rightarrow> Some \<lparr>r_intent = i, r_amount = n, r_token = t, r_recipient = rc, r_chain = c,
                        r_agentId = ag, r_resourceUrl = get_str j ''resourceUrl''\<rparr>)
      | _ \<Rightarrow> None)"

definition deserializeRequest :: "string \<Rightarrow> payment_request option" where
  "deserializeRequest s = Option.bind (json_parse s) request_of_json"

fun severity_text :: "severity \<Rightarrow> string" where
  "severity_text Info = ''info''"
| "severity_text Warning = ''warning''"
| "severity_text Critical = ''critical''"

definition check_json :: "(int \<Rightarrow> string) \<Rightarrow> policy_check \<Rightarrow> json" where
  "check_json fu c =
     JObj [(''id'', JStr (c_id c)), (''passed'', JBool (c_passed c)),
           (''severity'', JStr (severity_text (c_severity c))),
           (''message'', JStr (message_text fu (c_message c)))]"

definition escalation_json :: "escalation_target \<Rightarrow> json" where
  "escalation_json t =
     JObj [(''method'', JStr (et_method t)), (''destination'', JStr (et_destination t)),
           (''timeoutSeconds'', JNum (bigint_to_string (et_timeoutSeconds t)))]"

definition decision_json :: "(int \<Rightarrow> string) \<Rightarrow> (real \<Rightarrow> string) \<Rightarrow> policy_decision \<Rightarrow> json" where
  "decision_json fu num d =
     JObj ([(''verdict'', JStr (verdict_text (d_verdict d))),
            (''riskScore'', JNum (num (d_riskScore d))),
            (''checks'', JArr (map (check_json fu) (d_checks d))),
            (''reason'', JStr (reason_text fu (d_reason d)))] @
           (case d_escalation d of None \<Rightarrow> [] | Some t \<Rightarrow> [(''escalation'', escalation_json t)]))"

definition settlement_json :: "settlement \<Rightarrow> json" where
  "settlement_json s =
     JObj (opt_member ''txHash'' (s_txHash s) @ [(''success'', JBool (s_success s))] @
           opt_member ''facilitator'' (s_facilitator s) @ opt_member ''nonce'' (s_nonce s))"

definition verdict_of_text :: "string \<Rightarrow> verdict option" where
  "verdict_of_text s =
     (if s = ''allow'' then Some Allow else if s = ''block'' then Some Block
      else if s = ''escalate'' then Some Escalate else None)"

definition severity_of_text :: "string \<Rightarrow> severity option" where
  "severity_of_text s =
     (if s = ''info'' then Some Info else if s = ''warning'' then Some Warning
      else if s = ''critical'' then Some Critical else None)"

definition check_of_json :: "json \<Rightarrow> policy_check option" where
  "check_of_json j =
     (case (get_str j ''id'', get_bool j ''passed'',
            Option.bind (get_str j ''severity'') severity_of_text, get_str j ''message'') of
        (Some i, Some p, Some sv, Some m) \<Rightarrow>
          Some \<lparr>c_id = i, c_passed = p, c_severity = sv, c_message = M_text m\<rparr>
      | _ \<Rightarrow> None)"

fun all_some :: "'a option list \<Rightarrow> 'a list option" where
  "all_some [] = Some []"
| "all_some (x # xs) =
     (case x of None \<Rightarrow> None | Some y \<Rightarrow> (case all_some xs of None \<Rightarrow> None | Some ys \<Rightarrow> Some (y # ys)))"

definition escalation_of_json :: "json \<Rightarrow> escalation_target option" where
  "escalation_of_json j =
     (case (get_str j ''method'', get_str j ''destination'', json_get j ''timeoutSeconds'') of
        (Some m, Some d, Some (JNum n)) \<Rightarrow>
          map_option (\<lambda>t. \<lparr>et_method = m, et_destination = d, et_timeoutSeconds = t\<rparr>) (bigint_of_string n)
      | _ \<Rightarrow> None)"

definition decision_of_json :: "(string \<Rightarrow> real) \<Rightarrow> json \<Rightarrow> policy_decision option" where
  "decision_of_json rd j =
     (case (Option.bind (get_str j ''verdict'') verdict_of_text, json_get j ''riskScore'',
            json_get j ''checks'', get_str j ''reason'') of
        (Some v, Some (JNum n), Some (JArr cs), Some rs) \<Rightarrow>
          (case all_some (map check_of_json cs) of
             None \<Rightarrow> None
           | Some checks \<Rightarrow> Some \<lparr>d_verdict = v, d_riskScore = rd n, d_checks = checks, d_reason = R_text rs,
               d_escalation = Option.bind (json_get j ''escalation'') escalation_of_json\<rparr>)
      | _ \<Rightarrow> None)"

definition settlement_of_json :: "json \<Rightarrow> settlement option" where
  "settlement_of_json j =
     (case get_bool j ''success'' of
        None \<Rightarrow> None
      | Some b \<Rightarrow> Some \<lparr>s_txHash = get_str j ''txHash'', s_nonce = get_str j ''nonce'',
                    s_facilitator = get_str j ''facilitator'', s_success = b\<rparr>)"

definition entry_row :: "(int \<Rightarrow> string) \<Rightarrow> (real \<Rightarrow> string) \<Rightarrow> audit_entry \<Rightarrow> audit_row" where
  "entry_row fu num e =
     \<lparr>row_id = e_id e, row_timestamp = e_timestamp e, row_agent_id = e_agentId e,
      row_request_json = serializeRequest (e_request e),
      row_decision_json = json_text (decision_json fu num (e_decision e)),
      row_settlement_json = map_option (\<lambda>s. json_text (settlement_json s)) (e_settlement e),
      row_entry_hash = e_entryHash e, row_batch_index = None, row_batch_root = None\<rparr>"

definition rowToEntry :: "(string \<Rightarrow> real) \<Rightarrow> audit_row \<Rightarrow> audit_entry option" where
  "rowToEntry rd row =
     (case (deserializeRequest (row_request_json row),
            Option.bind (json_parse (row_decision_json row)) (decision_of_json rd)) of
        (Some req, Some dec) \<Rightarrow>
          (let e = (\<lambda>s. \<lparr>e_id = row_id row, e_timestamp = row_timestamp row, e_agentId = row_agent_id row,
                     e_request = req, e_decision = dec, e_settlement = s, e_entryHash = row_entry_hash row\<rparr>)
           in case row_settlement_json row of
                None \<Rightarrow> Some (e None)
              | Some t \<Rightarrow> if t = [] then Some (e None)
                          else map_option (\<lambda>s. e (Some s)) (Option.bind (json_parse t) settlement_of_json))
      | _ \<Rightarrow> None)"

definition batchIndexOf :: "audit_row \<Rightarrow> int option" where
  "batchIndexOf row = row_batch_index row"

text \<open>An entry as it comes back from the store: its messages are texts.\<close>

definition as_stored :: "(int \<Rightarrow> string) \<Rightarrow> audit_entry \<Rightarrow> audit_entry" where
  "as_stored fu e = e\<lparr>e_decision :=
     (e_decision e)\<lparr>d_checks := map (\<lambda>c. c\<lparr>c_message := M_text (message_text fu (c_message c))\<rparr>) (d_checks (e_decision e)),
        d_reason := R_text (reason_text fu (d_reason (e_decision e)))\<rparr>\<rparr>"

section \<open>The round trip\<close>

lemma verdict_of_text [simp]: "verdict_of_text (verdict_text v) = Some v"
  by (cases v) (simp_all add: verdict_of_text_def)

lemma severity_of_text [simp]: "severity_of_text (severity_text v) = Some v"
  by (cases v) (simp_all add: severity_of_text_def)

lemma json_get_simps [simp]:
  "json_get (JObj ms) k = map_of ms k"
  by (simp add: json_get_def)

lemma map_of_opt_member [simp]: "map_of (opt_member k v) = (\<lambda>k'. if k' = k then map_option JStr v else None)"
  by (auto simp: opt_member_def split: option.splits)

lemma request_json_ok: "json_ok (request_json r)"
  by (simp add: request_json_def opt_member_def split: option.splits)

lemma request_json_roundtrip: "request_of_json (request_json r) = Some r"
proof -
  have "get_str (request_json r) ''intent'' = Some (r_intent r)"
    "get_str (request_json r) ''amount'' = Some (bigint_to_string (r_amount r))"
    "get_str (request_json r) ''token'' = Some (r_token r)"
    "get_str (request_json r) ''recipient'' = Some (r_recipient r)"
    "get_str (request_json r) ''chain'' = Some (r_chain r)"
    "get_str (request_json r) ''agentId'' = Some (r_agentId r)"
    "get_str (request_json r) ''resourceUrl'' = r_resourceUrl r"
    by (simp_all add: request_json_def get_str_def map_add_def split: option.splits)
  then show ?thesis
    by (simp add: request_of_json_def bigint_of_string_to_string)
qed

lemma deserialize_serialize: "deserializeRequest (serializeRequest r) = Some r"
  unfolding deserializeRequest_def serializeRequest_def json_parse_text [OF request_json_ok]
  by (simp add: request_json_roundtrip)

lemma check_json_roundtrip:
  "check_of_json (check_json fu c) = Some (c\<lparr>c_message := M_text (message_text fu (c_message c))\<rparr>)"
  by (simp add: check_of_json_def check_json_def get_str_def get_bool_def)

lemma all_some_map: "(\<And>x. x \<in> set xs \<Longrightarrow> f x = Some (g x)) \<Longrightarrow> all_some (map f xs) = Some (map g xs)"
  by (induction xs) auto

lemma settlement_json_roundtrip: "settlement_of_json (settlement_json s) = Some s"
proof -
  have "get_bool (settlement_json s) ''success'' = Some (s_success s)"
    "get_str (settlement_json s) ''txHash'' = s_txHash s" "get_str (settlement_json s) ''nonce'' = s_nonce s"
    "get_str (settlement_json s) ''facilitator'' = s_facilitator s"
    by (simp_all add: settlement_json_def get_str_def get_bool_def map_add_def split: option.splits)
  then show ?thesis by (simp add: settlement_of_json_def)
qed

lemma settlement_json_ok: "json_ok (settlement_json s)"
  by (auto simp: settlement_json_def opt_member_def split: option.splits)

lemma number_ok_digits:
  assumes "s \<noteq> []" "\<And>c. c \<in> set s \<Longrightarrow> is_digit c" "hd s = CHR ''0'' \<Longrightarrow> s = ''0''"
  shows "number_ok s \<and> number_ok (CHR ''-'' # s)"
proof -
  obtain d ds where s: "s = d # ds" using assms(1) by (cases s) auto
  have d: "is_digit d" "\<And>c. c \<in> set ds \<Longrightarrow> is_digit c" "d = CHR ''0'' \<Longrightarrow> ds = []"
    using assms by (auto simp: s)
  then have "drop_digits ds = []" "d \<noteq> CHR ''-''" "list_all number_char s"
    using assms(2) by (auto simp: drop_digits_def dropWhile_eq_Nil_conv is_digit_def Let_def list_all_iff number_char_def)
  then show ?thesis
    using d by (auto simp: s number_ok_def fraction_ok_def exponent_ok_def number_char_def)
qed

lemma nat_to_string_head: "0 < n \<Longrightarrow> hd (nat_to_string n) \<noteq> CHR ''0''"
proof (induction n rule: nat_to_string.induct)
  case (1 n)
  show ?case
  proof (cases "n < 10")
    case True
    have "(of_char (digit_char n) :: nat) = 48 + n" using True by (simp add: digit_char_def)
    then have "digit_char n \<noteq> CHR ''0''" using "1.prems" by auto
    then show ?thesis using True nat_to_string.simps [of n] by simp
  next
    case False
    then show ?thesis using "1.IH" nat_to_string.simps [of n] by simp
  qed
qed

lemma is_digit_digit_char: "d < 10 \<Longrightarrow> is_digit (digit_char d)"
  by (simp add: is_digit_def digit_char_def Let_def)

lemma number_ok_bigint: "number_ok (bigint_to_string n)"
proof -
  have "number_ok (nat_to_string k) \<and> number_ok (CHR ''-'' # nat_to_string k)" for k
  proof (rule number_ok_digits)
    show "c \<in> set (nat_to_string k) \<Longrightarrow> is_digit c" for c
      using nat_to_string_digits [of c k] is_digit_digit_char by auto
    show "hd (nat_to_string k) = CHR ''0'' \<Longrightarrow> nat_to_string k = ''0''"
      using nat_to_string_head [of k] by (cases "k = 0") (simp_all, code_simp)
  qed simp
  then show ?thesis by (simp add: bigint_to_string_def)
qed

lemma decision_json_ok: "number_ok (num (d_riskScore d)) \<Longrightarrow> json_ok (decision_json fu num d)"
  by (auto simp: decision_json_def check_json_def escalation_json_def list_all_iff number_ok_bigint
      split: option.splits)

lemma escalation_json_roundtrip: "escalation_of_json (escalation_json t) = Some t"
  by (cases t) (simp add: escalation_of_json_def escalation_json_def get_str_def bigint_of_string_to_string)

lemma decision_json_roundtrip:
  assumes "rd (num (d_riskScore d)) = d_riskScore d"
  shows "decision_of_json rd (decision_json fu num d) =
     Some (d\<lparr>d_checks := map (\<lambda>c. c\<lparr>c_message := M_text (message_text fu (c_message c))\<rparr>) (d_checks d),
             d_reason := R_text (reason_text fu (d_reason d))\<rparr>)"
proof -
  have "all_some (map check_of_json (map (check_json fu) (d_checks d))) =
      Some (map (\<lambda>c. c\<lparr>c_message := M_text (message_text fu (c_message c))\<rparr>) (d_checks d))"
    unfolding map_map by (rule all_some_map) (simp add: check_json_roundtrip)
  then show ?thesis
    using assms
    by (cases d) (auto simp: decision_of_json_def decision_json_def get_str_def escalation_json_roundtrip split: option.splits)
qed

lemma json_text_nonempty: "json_ok j \<Longrightarrow> json_text j \<noteq> []"
  using json_text_head [of j] by fastforce

lemma as_stored_simps [simp]:
  "e_id (as_stored fu e) = e_id e" "e_timestamp (as_stored fu e) = e_timestamp e"
  "e_agentId (as_stored fu e) = e_agentId e" "e_request (as_stored fu e) = e_request e"
  "e_settlement (as_stored fu e) = e_settlement e" "e_entryHash (as_stored fu e) = e_entryHash e"
  "d_verdict (e_decision (as_stored fu e)) = d_verdict (e_decision e)"
  "d_riskScore (e_decision (as_stored fu e)) = d_riskScore (e_decision e)"
  by (simp_all add: as_stored_def)

lemma row_decodes:
  assumes "number_ok (num (d_riskScore (e_decision e)))"
    and "rd (num (d_riskScore (e_decision e))) = d_riskScore (e_decision e)"
  shows "rowToEntry rd (entry_row fu num e) = Some (as_stored fu e)"
proof -
  have "json_parse (json_text (decision_json fu num (e_decision e))) = Some (decision_json fu num (e_decision e))"
    by (rule json_parse_text [OF decision_json_ok [where num = num, OF assms(1)]])
  moreover have "json_parse (json_text (settlement_json s)) = Some (settlement_json s)"
    "json_text (settlement_json s) \<noteq> []" for s
    using json_parse_text [OF settlement_json_ok] json_text_nonempty [OF settlement_json_ok] by blast+
  ultimately have "rowToEntry rd (entry_row fu num e) =
      Some \<lparr>e_id = e_id e, e_timestamp = e_timestamp e, e_agentId = e_agentId e, e_request = e_request e,
        e_decision = e_decision (as_stored fu e), e_settlement = e_settlement e, e_entryHash = e_entryHash e\<rparr>"
    using decision_json_roundtrip [where num = num and rd = rd and fu = fu, OF assms(2)]
    by (cases "e_settlement e")
       (simp_all add: rowToEntry_def entry_row_def deserialize_serialize settlement_json_roundtrip as_stored_def Let_def)
  then show ?thesis by (simp add: as_stored_def)
qed

lemma recompute_as_stored [simp]: "recomputeEntryHash kec num (as_stored fu e) = recomputeEntryHash kec num e"
  by (simp add: recomputeEntryHash_def hashEntry_def entry_canonical_def as_stored_def check_mark_def comp_def)

section \<open>The interface\<close>

record stored_row =
  sr_entry :: audit_entry
  sr_batchIndex :: "int option"
  sr_batchRoot :: "hex option"

text \<open>The operations of \<open>AuditStore\<close>; an insertion that throws is \<open>None\<close>.\<close>

record 's store_ops =
  so_insert :: "audit_entry \<Rightarrow> 's \<Rightarrow> 's option"
  so_list :: "string option \<Rightarrow> 's \<Rightarrow> audit_entry list"
  so_listSince :: "string \<Rightarrow> int \<Rightarrow> 's \<Rightarrow> audit_entry list"
  so_getById :: "string \<Rightarrow> 's \<Rightarrow> (audit_entry \<times> int option) option"
  so_unbatched :: "'s \<Rightarrow> audit_entry list"
  so_markBatched :: "string list \<Rightarrow> int \<Rightarrow> hex \<Rightarrow> 's \<Rightarrow> 's"
  so_entriesInBatch :: "int \<Rightarrow> 's \<Rightarrow> audit_entry list"
  so_anchoredBatches :: "'s \<Rightarrow> (int \<times> hex) list"
  so_releaseBatch :: "int \<Rightarrow> 's \<Rightarrow> nat \<times> 's"

definition row_key :: "stored_row \<Rightarrow> string" where
  "row_key r = e_id (sr_entry r)"

definition fresh_row :: "(int \<Rightarrow> string) \<Rightarrow> audit_entry \<Rightarrow> stored_row" where
  "fresh_row fu e = \<lparr>sr_entry = as_stored fu e, sr_batchIndex = None, sr_batchRoot = None\<rparr>"

definition tag_row :: "int \<Rightarrow> hex \<Rightarrow> stored_row \<Rightarrow> stored_row" where
  "tag_row i mr r = r\<lparr>sr_batchIndex := Some i, sr_batchRoot := Some mr\<rparr>"

definition untag_row :: "int \<Rightarrow> stored_row \<Rightarrow> stored_row" where
  "untag_row i r = (if sr_batchIndex r = Some i then r\<lparr>sr_batchIndex := None, sr_batchRoot := None\<rparr> else r)"

text \<open>\<open>agentId ? \<dots> : \<dots>\<close>: the empty agent id selects every agent.\<close>

definition agent_selected :: "string option \<Rightarrow> stored_row \<Rightarrow> bool" where
  "agent_selected a r = (case a of None \<Rightarrow> True | Some n \<Rightarrow> n = [] \<or> e_agentId (sr_entry r) = n)"

definition batch_pair :: "stored_row \<Rightarrow> (int \<times> hex) option" where
  "batch_pair r = (case (sr_batchIndex r, sr_batchRoot r) of (Some i, Some mr) \<Rightarrow> Some (i, mr) | _ \<Rightarrow> None)"

text \<open>
  The contract: the store is an append-only list of rows (in insertion order, one per id) whose
  batch columns alone change, and every query is a selection from it.
\<close>

locale audit_store =
  fixes ops :: "'s store_ops" and rows :: "'s \<Rightarrow> stored_row list" and inv :: "'s \<Rightarrow> bool"
    and stored :: "audit_entry \<Rightarrow> stored_row"
  assumes stored_key: "row_key (stored e) = e_id e" and stored_unbatched: "sr_batchIndex (stored e) = None"
    and insert_defined: "inv s \<Longrightarrow> so_insert ops e s \<noteq> None \<longleftrightarrow> e_id e \<notin> row_key ` set (rows s)"
    and insert_rows: "inv s \<Longrightarrow> so_insert ops e s = Some s' \<Longrightarrow> inv s' \<and> rows s' = rows s @ [stored e]"
    and distinct_keys: "inv s \<Longrightarrow> distinct (map row_key (rows s))"
    and list_rows: "inv s \<Longrightarrow> so_list ops a s = map sr_entry (filter (agent_selected a) (rows s))"
    and listSince_rows: "inv s \<Longrightarrow> so_listSince ops ag t s =
      sort_key e_timestamp (map sr_entry
        (filter (\<lambda>r. e_agentId (sr_entry r) = ag \<and> e_timestamp (sr_entry r) \<ge> t) (rows s)))"
    and getById_rows: "inv s \<Longrightarrow> so_getById ops k s =
      map_option (\<lambda>r. (sr_entry r, sr_batchIndex r)) (find (\<lambda>r. row_key r = k) (rows s))"
    and unbatched_rows: "inv s \<Longrightarrow> so_unbatched ops s = map sr_entry (filter (\<lambda>r. sr_batchIndex r = None) (rows s))"
    and markBatched_rows: "inv s \<Longrightarrow> inv (so_markBatched ops ids i mr s) \<and>
      rows (so_markBatched ops ids i mr s) =
        map (\<lambda>r. if row_key r \<in> set ids then tag_row i mr r else r) (rows s)"
    and entriesInBatch_rows: "inv s \<Longrightarrow>
      so_entriesInBatch ops i s = map sr_entry (filter (\<lambda>r. sr_batchIndex r = Some i) (rows s))"
    and anchoredBatches_rows: "inv s \<Longrightarrow> set (so_anchoredBatches ops s) = {p. \<exists>r \<in> set (rows s). batch_pair r = Some p} \<and>
      distinct (so_anchoredBatches ops s) \<and> sorted (map fst (so_anchoredBatches ops s))"
    and releaseBatch_rows: "inv s \<Longrightarrow> inv (snd (so_releaseBatch ops i s)) \<and>
      rows (snd (so_releaseBatch ops i s)) = map (untag_row i) (rows s) \<and>
      fst (so_releaseBatch ops i s) = length (filter (\<lambda>r. sr_batchIndex r = Some i) (rows s))"
begin

text \<open>The entries that exactly the batch \<open>i\<close> holds after tagging the unbatched ones with it.\<close>

lemma mark_all_unbatched:
  assumes "inv s"
  shows "so_unbatched ops (so_markBatched ops (map e_id (so_unbatched ops s)) i mr s) = []"
proof -
  have "set (map e_id (so_unbatched ops s)) = row_key ` {r \<in> set (rows s). sr_batchIndex r = None}"
    using unbatched_rows [OF assms] by (auto simp: row_key_def)
  then show ?thesis
    using markBatched_rows [OF assms] unbatched_rows
    by (auto simp: filter_empty_conv tag_row_def)
qed

lemma mark_in_batch:
  assumes "inv s" "\<And>r. r \<in> set (rows s) \<Longrightarrow> sr_batchIndex r \<noteq> Some i"
  shows "so_entriesInBatch ops i (so_markBatched ops (map e_id (so_unbatched ops s)) i mr s) = so_unbatched ops s"
proof -
  let ?ids = "map e_id (so_unbatched ops s)"
  have key: "row_key r \<in> set ?ids \<longleftrightarrow> sr_batchIndex r = None" if "r \<in> set (rows s)" for r
  proof
    assume "row_key r \<in> set ?ids"
    then obtain q where q: "q \<in> set (rows s)" "sr_batchIndex q = None" "row_key r = row_key q"
      using unbatched_rows [OF assms(1)] by (auto simp: row_key_def)
    then have "r = q"
      using distinct_keys [OF assms(1)] that by (simp add: distinct_map inj_on_def)
    then show "sr_batchIndex r = None" using q by simp
  next
    assume "sr_batchIndex r = None"
    then show "row_key r \<in> set ?ids" using unbatched_rows [OF assms(1)] that by (auto simp: row_key_def)
  qed
  have "so_entriesInBatch ops i (so_markBatched ops ?ids i mr s) =
      map sr_entry (filter (\<lambda>r. sr_batchIndex r = Some i)
        (map (\<lambda>r. if row_key r \<in> set ?ids then tag_row i mr r else r) (rows s)))"
    using markBatched_rows [OF assms(1)] entriesInBatch_rows by simp
  also have "\<dots> = map sr_entry (filter (\<lambda>r. sr_batchIndex r = None) (rows s))"
    using key assms(2)
    by (induction "rows s" arbitrary: rule: list.induct)
       (simp_all add: filter_map comp_def tag_row_def cong: filter_cong map_cong)
  finally show ?thesis using unbatched_rows [OF assms(1)] by simp
qed

lemma release_unbatches:
  assumes "inv s" "e \<in> set (so_entriesInBatch ops i s)"
  shows "e \<in> set (so_unbatched ops (snd (so_releaseBatch ops i s)))"
proof -
  obtain r where r: "r \<in> set (rows s)" "sr_batchIndex r = Some i" "e = sr_entry r"
    using assms(2) entriesInBatch_rows [OF assms(1), of i] by auto
  let ?s = "snd (so_releaseBatch ops i s)"
  have "untag_row i r \<in> set (rows ?s)" "sr_batchIndex (untag_row i r) = None" "sr_entry (untag_row i r) = e"
    using r releaseBatch_rows [OF assms(1), of i] by (simp_all add: untag_row_def)
  then have "e \<in> sr_entry ` set (filter (\<lambda>r. sr_batchIndex r = None) (rows ?s))"
    by (intro image_eqI [of _ _ "untag_row i r"]) simp_all
  then show ?thesis
    using releaseBatch_rows [OF assms(1), of i] unbatched_rows [of ?s] by simp
qed

lemma insert_listed:
  assumes "inv s" "so_insert ops e s = Some s'"
  shows "so_unbatched ops s' = so_unbatched ops s @ [sr_entry (stored e)]"
  using insert_rows [OF assms] assms(1) unbatched_rows stored_unbatched by simp

end

section \<open>SQLite\<close>

text \<open>The table in the order of the row ids, which only grow, since no row is ever deleted.\<close>

type_synonym sqlite = "stored_row list"

definition Sqlite_insert :: "(int \<Rightarrow> string) \<Rightarrow> audit_entry \<Rightarrow> sqlite \<Rightarrow> sqlite option" where
  "Sqlite_insert fu e t = (if e_id e \<in> row_key ` set t then None else Some (t @ [fresh_row fu e]))"

definition Sqlite_list :: "string option \<Rightarrow> sqlite \<Rightarrow> audit_entry list" where
  "Sqlite_list a t = map sr_entry (filter (agent_selected a) t)"

definition Sqlite_listSince :: "string \<Rightarrow> int \<Rightarrow> sqlite \<Rightarrow> audit_entry list" where
  "Sqlite_listSince a since t =
     map sr_entry (sort_key (\<lambda>r. e_timestamp (sr_entry r))
       (filter (\<lambda>r. e_agentId (sr_entry r) = a \<and> e_timestamp (sr_entry r) \<ge> since) t))"

definition Sqlite_getById :: "string \<Rightarrow> sqlite \<Rightarrow> (audit_entry \<times> int option) option" where
  "Sqlite_getById i t =
     (case filter (\<lambda>r. row_key r = i) t of [] \<Rightarrow> None | r # _ \<Rightarrow> Some (sr_entry r, sr_batchIndex r))"

definition Sqlite_unbatched :: "sqlite \<Rightarrow> audit_entry list" where
  "Sqlite_unbatched t = map sr_entry (filter (\<lambda>r. sr_batchIndex r = None) t)"

text \<open>One \<open>UPDATE\<close> per id, inside a transaction.\<close>

definition update_id :: "int \<Rightarrow> hex \<Rightarrow> string \<Rightarrow> sqlite \<Rightarrow> sqlite" where
  "update_id i mr k t = map (\<lambda>r. if row_key r = k then tag_row i mr r else r) t"

definition Sqlite_markBatched :: "string list \<Rightarrow> int \<Rightarrow> hex \<Rightarrow> sqlite \<Rightarrow> sqlite" where
  "Sqlite_markBatched ids i mr t = fold (update_id i mr) ids t"

definition Sqlite_anchoredBatches :: "sqlite \<Rightarrow> (int \<times> hex) list" where
  "Sqlite_anchoredBatches t = sort_key fst (remdups (List.map_filter batch_pair t))"

definition Sqlite_releaseBatch :: "int \<Rightarrow> sqlite \<Rightarrow> nat \<times> sqlite" where
  "Sqlite_releaseBatch i t = (length (filter (\<lambda>r. sr_batchIndex r = Some i) t), map (untag_row i) t)"

definition Sqlite_entriesInBatch :: "int \<Rightarrow> sqlite \<Rightarrow> audit_entry list" where
  "Sqlite_entriesInBatch i t = map sr_entry (filter (\<lambda>r. sr_batchIndex r = Some i) t)"

definition sqlite_ops :: "(int \<Rightarrow> string) \<Rightarrow> sqlite store_ops" where
  "sqlite_ops fu = \<lparr>so_insert = Sqlite_insert fu, so_list = Sqlite_list, so_listSince = Sqlite_listSince,
     so_getById = Sqlite_getById, so_unbatched = Sqlite_unbatched, so_markBatched = Sqlite_markBatched,
     so_entriesInBatch = Sqlite_entriesInBatch, so_anchoredBatches = Sqlite_anchoredBatches,
     so_releaseBatch = Sqlite_releaseBatch\<rparr>"

definition sqlite_inv :: "sqlite \<Rightarrow> bool" where
  "sqlite_inv t \<longleftrightarrow> distinct (map row_key t)"

lemma row_key_tag [simp]: "row_key (tag_row i mr r) = row_key r" "row_key (untag_row i r) = row_key r"
  by (simp_all add: row_key_def tag_row_def untag_row_def)

lemma row_key_fresh [simp]: "row_key (fresh_row fu e) = e_id e"
  by (simp add: row_key_def fresh_row_def)

lemma tag_tag [simp]: "tag_row i mr (tag_row i mr r) = tag_row i mr r"
  by (simp add: tag_row_def)

lemma Sqlite_markBatched_map:
  "Sqlite_markBatched ids i mr t = map (\<lambda>r. if row_key r \<in> set ids then tag_row i mr r else r) t"
proof -
  have "fold (update_id i mr) ids t = map (\<lambda>r. if row_key r \<in> set ids then tag_row i mr r else r) t"
    by (induction ids arbitrary: t) (auto simp: update_id_def intro!: map_cong)
  then show ?thesis by (simp add: Sqlite_markBatched_def)
qed

lemma map_row_key_update [simp]:
  "map row_key (map (\<lambda>r. if P r then tag_row i mr r else r) t) = map row_key t"
  "map row_key (map (untag_row i) t) = map row_key t"
  by (simp_all add: comp_def if_distrib [of row_key] cong: if_cong)

lemma map_filter_set: "set (List.map_filter f xs) = {y. \<exists>x \<in> set xs. f x = Some y}"
  by (induction xs) (auto simp: List.map_filter_simps split: option.splits)

lemma sort_key_map: "sort_key f (map g xs) = map g (sort_key (\<lambda>x. f (g x)) xs)"
proof -
  have "insort_key f (g x) (map g ys) = map g (insort_key (\<lambda>x. f (g x)) x ys)" for x ys
    by (induction ys) auto
  then show ?thesis by (induction xs) simp_all
qed

lemma find_filter: "find P xs = (case filter P xs of [] \<Rightarrow> None | x # _ \<Rightarrow> Some x)"
  by (induction xs) auto

interpretation sqlite: audit_store "sqlite_ops fu" "\<lambda>t. t" sqlite_inv "fresh_row fu" for fu
proof unfold_locales
  show "sr_batchIndex (fresh_row fu e) = None" for e by (simp add: fresh_row_def)
qed (auto simp: sqlite_ops_def sqlite_inv_def Sqlite_insert_def Sqlite_list_def Sqlite_listSince_def
    Sqlite_getById_def Sqlite_unbatched_def Sqlite_markBatched_map Sqlite_entriesInBatch_def
    Sqlite_anchoredBatches_def Sqlite_releaseBatch_def sort_key_map find_filter map_filter_set
    simp del: map_map split: if_splits list.splits)

section \<open>Postgres\<close>

text \<open>
  The table as a heap of rows with the values of their \<open>seq\<close> column, and the next value of the
  sequence. The order of the heap is not that of the insertions: every query states its order.
\<close>

record postgres =
  pg_seq :: nat
  pg_table :: "(nat \<times> stored_row) list"

definition Postgres_insert :: "(int \<Rightarrow> string) \<Rightarrow> audit_entry \<Rightarrow> postgres \<Rightarrow> postgres option" where
  "Postgres_insert fu e s =
     (if e_id e \<in> (\<lambda>p. row_key (snd p)) ` set (pg_table s) then None
      else Some (s\<lparr>pg_seq := pg_seq s + 1, pg_table := (pg_seq s, fresh_row fu e) # pg_table s\<rparr>))"

text \<open>\<open>SELECT * FROM audit_entries WHERE \<dots> ORDER BY seq\<close>\<close>

definition select_by_seq :: "(stored_row \<Rightarrow> bool) \<Rightarrow> postgres \<Rightarrow> (nat \<times> stored_row) list" where
  "select_by_seq P s = sort_key fst (filter (\<lambda>p. P (snd p)) (pg_table s))"

definition Postgres_list :: "string option \<Rightarrow> postgres \<Rightarrow> audit_entry list" where
  "Postgres_list a s = map (\<lambda>p. sr_entry (snd p)) (select_by_seq (agent_selected a) s)"

definition Postgres_listSince :: "string \<Rightarrow> int \<Rightarrow> postgres \<Rightarrow> audit_entry list" where
  "Postgres_listSince a since s =
     map (\<lambda>p. sr_entry (snd p)) (sort_key (\<lambda>p. e_timestamp (sr_entry (snd p)))
       (select_by_seq (\<lambda>r. e_agentId (sr_entry r) = a \<and> e_timestamp (sr_entry r) \<ge> since) s))"

definition Postgres_getById :: "string \<Rightarrow> postgres \<Rightarrow> (audit_entry \<times> int option) option" where
  "Postgres_getById i s =
     (case filter (\<lambda>p. row_key (snd p) = i) (pg_table s) of
        [] \<Rightarrow> None | p # _ \<Rightarrow> Some (sr_entry (snd p), sr_batchIndex (snd p)))"

definition Postgres_unbatched :: "postgres \<Rightarrow> audit_entry list" where
  "Postgres_unbatched s = map (\<lambda>p. sr_entry (snd p)) (select_by_seq (\<lambda>r. sr_batchIndex r = None) s)"

definition pg_update :: "(stored_row \<Rightarrow> stored_row) \<Rightarrow> postgres \<Rightarrow> postgres" where
  "pg_update f s = s\<lparr>pg_table := map (apsnd f) (pg_table s)\<rparr>"

definition Postgres_markBatched :: "string list \<Rightarrow> int \<Rightarrow> hex \<Rightarrow> postgres \<Rightarrow> postgres" where
  "Postgres_markBatched ids i mr s =
     fold (\<lambda>k. pg_update (\<lambda>r. if row_key r = k then tag_row i mr r else r)) ids s"

definition Postgres_anchoredBatches :: "postgres \<Rightarrow> (int \<times> hex) list" where
  "Postgres_anchoredBatches s = sort_key fst (remdups (List.map_filter (\<lambda>p. batch_pair (snd p)) (pg_table s)))"

definition Postgres_releaseBatch :: "int \<Rightarrow> postgres \<Rightarrow> nat \<times> postgres" where
  "Postgres_releaseBatch i s =
     (length (filter (\<lambda>p. sr_batchIndex (snd p) = Some i) (pg_table s)), pg_update (untag_row i) s)"

definition Postgres_entriesInBatch :: "int \<Rightarrow> postgres \<Rightarrow> audit_entry list" where
  "Postgres_entriesInBatch i s = map (\<lambda>p. sr_entry (snd p)) (select_by_seq (\<lambda>r. sr_batchIndex r = Some i) s)"

definition postgres_ops :: "(int \<Rightarrow> string) \<Rightarrow> postgres store_ops" where
  "postgres_ops fu = \<lparr>so_insert = Postgres_insert fu, so_list = Postgres_list, so_listSince = Postgres_listSince,
     so_getById = Postgres_getById, so_unbatched = Postgres_unbatched, so_markBatched = Postgres_markBatched,
     so_entriesInBatch = Postgres_entriesInBatch, so_anchoredBatches = Postgres_anchoredBatches,
     so_releaseBatch = Postgres_releaseBatch\<rparr>"

definition pg_rows :: "postgres \<Rightarrow> stored_row list" where
  "pg_rows s = map snd (sort_key fst (pg_table s))"

definition pg_inv :: "postgres \<Rightarrow> bool" where
  "pg_inv s \<longleftrightarrow> distinct (map fst (pg_table s)) \<and> (\<forall>p \<in> set (pg_table s). fst p < pg_seq s) \<and>
     distinct (map (\<lambda>p. row_key (snd p)) (pg_table s))"

lemma set_pg_rows [simp]: "set (pg_rows s) = snd ` set (pg_table s)"
  by (simp add: pg_rows_def)

lemma select_by_seq_rows: "map (\<lambda>p. f (snd p)) (select_by_seq P s) = map f (filter P (pg_rows s))"
  by (simp add: select_by_seq_def pg_rows_def filter_sort [symmetric] filter_map comp_def)

lemma insort_append_greater:
  "(\<And>y. y \<in> set xs \<Longrightarrow> f y < f z) \<Longrightarrow> insort_key f z xs = xs @ [z]"
proof (induction xs)
  case (Cons a xs)
  then have "\<not> f z \<le> f a" by (simp add: not_le)
  then show ?case using Cons by simp
qed simp

lemma pg_rows_update:
  "pg_rows (pg_update f s) = map f (pg_rows s)" "pg_inv (pg_update f s) \<longleftrightarrow>
     distinct (map fst (pg_table s)) \<and> (\<forall>p \<in> set (pg_table s). fst p < pg_seq s) \<and>
     distinct (map (\<lambda>p. row_key (f (snd p))) (pg_table s))"
  by (simp_all add: pg_rows_def pg_update_def sort_key_map comp_def pg_inv_def)

lemma pg_inv_update: "pg_inv s \<Longrightarrow> (\<And>r. row_key (f r) = row_key r) \<Longrightarrow> pg_inv (pg_update f s)"
  by (simp add: pg_rows_update(2)) (simp add: pg_inv_def)

lemma Postgres_markBatched_rows:
  assumes "pg_inv s"
  shows "pg_inv (Postgres_markBatched ids i mr s) \<and>
    pg_rows (Postgres_markBatched ids i mr s) =
      map (\<lambda>r. if row_key r \<in> set ids then tag_row i mr r else r) (pg_rows s)"
  unfolding Postgres_markBatched_def using assms
proof (induction ids arbitrary: s)
  case (Cons k ids)
  let ?s = "pg_update (\<lambda>r. if row_key r = k then tag_row i mr r else r) s"
  have "pg_inv ?s" using Cons.prems by (rule pg_inv_update) simp
  then show ?case
    using Cons.IH [of ?s] by (auto simp: pg_rows_update(1) intro!: map_cong)
qed simp

lemma Postgres_insert_rows:
  assumes "pg_inv s" "Postgres_insert fu e s = Some s'"
  shows "pg_inv s' \<and> pg_rows s' = pg_rows s @ [fresh_row fu e]"
proof -
  have s': "s' = s\<lparr>pg_seq := pg_seq s + 1, pg_table := (pg_seq s, fresh_row fu e) # pg_table s\<rparr>"
    and new: "e_id e \<notin> (\<lambda>p. row_key (snd p)) ` set (pg_table s)"
    using assms(2) by (auto simp: Postgres_insert_def split: if_splits)
  have "sort_key fst ((pg_seq s, fresh_row fu e) # pg_table s) =
      sort_key fst (pg_table s) @ [(pg_seq s, fresh_row fu e)]"
    using assms(1) insort_append_greater [of "sort_key fst (pg_table s)" fst "(pg_seq s, fresh_row fu e)"]
    by (auto simp: pg_inv_def)
  then show ?thesis
    using assms(1) new by (auto simp: s' pg_inv_def pg_rows_def less_Suc_eq)
qed

lemma distinct_pg_rows: "pg_inv s \<Longrightarrow> distinct (map row_key (pg_rows s))"
proof -
  assume "pg_inv s"
  moreover have "mset (map row_key (pg_rows s)) = mset (map (\<lambda>p. row_key (snd p)) (pg_table s))"
    by (simp add: pg_rows_def comp_def mset_map [symmetric] del: mset_map)
       (simp add: mset_map)
  ultimately show ?thesis
    unfolding pg_inv_def by (metis mset_eq_imp_distinct_iff)
qed

lemma find_unique:
  assumes "distinct (map f xs)" "x \<in> set xs" "f x = k"
  shows "find (\<lambda>y. f y = k) xs = Some x"
  using assms by (induction xs) (auto simp: rev_image_eqI)

lemma Postgres_getById_rows:
  assumes "pg_inv s"
  shows "Postgres_getById k s =
    map_option (\<lambda>r. (sr_entry r, sr_batchIndex r)) (find (\<lambda>r. row_key r = k) (pg_rows s))"
proof (cases "filter (\<lambda>p. row_key (snd p) = k) (pg_table s)")
  case Nil
  then have "find (\<lambda>r. row_key r = k) (pg_rows s) = None"
    by (auto simp: find_None_iff filter_empty_conv)
  then show ?thesis using Nil by (simp add: Postgres_getById_def)
next
  case (Cons p ps)
  then have "p \<in> set (filter (\<lambda>p. row_key (snd p) = k) (pg_table s))" by simp
  then have "p \<in> set (pg_table s)" "row_key (snd p) = k" by simp_all
  then have "find (\<lambda>r. row_key r = k) (pg_rows s) = Some (snd p)"
    by (intro find_unique distinct_pg_rows assms) auto
  then show ?thesis using Cons by (simp add: Postgres_getById_def)
qed

lemma Postgres_release_rows:
  "length (filter (\<lambda>p. sr_batchIndex (snd p) = Some i) (pg_table s)) =
     length (filter (\<lambda>r. sr_batchIndex r = Some i) (pg_rows s))"
  by (simp add: pg_rows_def filter_map comp_def filter_sort)

interpretation postgres: audit_store "postgres_ops fu" pg_rows pg_inv "fresh_row fu" for fu
proof unfold_locales
  fix s e
  assume inv: "pg_inv s"
  show "so_insert (postgres_ops fu) e s \<noteq> None \<longleftrightarrow> e_id e \<notin> row_key ` set (pg_rows s)"
    by (auto simp: postgres_ops_def Postgres_insert_def image_image)
  show "pg_inv s' \<and> pg_rows s' = pg_rows s @ [fresh_row fu e]" if "so_insert (postgres_ops fu) e s = Some s'" for s'
    using that by (intro Postgres_insert_rows [OF inv]) (simp add: postgres_ops_def)
  show "distinct (map row_key (pg_rows s))" by (rule distinct_pg_rows [OF inv])
  show "so_getById (postgres_ops fu) k s =
      map_option (\<lambda>r. (sr_entry r, sr_batchIndex r)) (find (\<lambda>r. row_key r = k) (pg_rows s))" for k
    using Postgres_getById_rows [OF inv] by (simp add: postgres_ops_def)
  show "pg_inv (so_markBatched (postgres_ops fu) ids i mr s) \<and> pg_rows (so_markBatched (postgres_ops fu) ids i mr s) =
      map (\<lambda>r. if row_key r \<in> set ids then tag_row i mr r else r) (pg_rows s)" for ids i mr
    using Postgres_markBatched_rows [OF inv] by (simp add: postgres_ops_def)
  show "pg_inv (snd (so_releaseBatch (postgres_ops fu) i s)) \<and>
      pg_rows (snd (so_releaseBatch (postgres_ops fu) i s)) = map (untag_row i) (pg_rows s) \<and>
      fst (so_releaseBatch (postgres_ops fu) i s) = length (filter (\<lambda>r. sr_batchIndex r = Some i) (pg_rows s))" for i
    using pg_inv_update [OF inv, of "untag_row i"]
    by (simp add: postgres_ops_def Postgres_releaseBatch_def Postgres_release_rows pg_rows_update(1))
next
  show "sr_batchIndex (fresh_row fu e) = None" for e by (simp add: fresh_row_def)
qed (simp_all add: postgres_ops_def Postgres_list_def Postgres_listSince_def Postgres_unbatched_def
    Postgres_entriesInBatch_def Postgres_anchoredBatches_def select_by_seq_rows sort_key_map [symmetric]
    map_filter_set, simp_all add: sort_key_map select_by_seq_rows [symmetric])

section \<open>Both stores are the same log\<close>

datatype store_op = OpInsert audit_entry | OpMark "string list" int hex | OpRelease int

text \<open>A failed insertion throws and leaves the store as it was.\<close>

fun run_op :: "'s store_ops \<Rightarrow> store_op \<Rightarrow> 's \<Rightarrow> 's" where
  "run_op ops (OpInsert e) s = (case so_insert ops e s of None \<Rightarrow> s | Some s' \<Rightarrow> s')"
| "run_op ops (OpMark ids i mr) s = so_markBatched ops ids i mr s"
| "run_op ops (OpRelease i) s = snd (so_releaseBatch ops i s)"

fun log_op :: "(audit_entry \<Rightarrow> stored_row) \<Rightarrow> store_op \<Rightarrow> stored_row list \<Rightarrow> stored_row list" where
  "log_op st (OpInsert e) rs = (if e_id e \<in> row_key ` set rs then rs else rs @ [st e])"
| "log_op st (OpMark ids i mr) rs = map (\<lambda>r. if row_key r \<in> set ids then tag_row i mr r else r) rs"
| "log_op st (OpRelease i) rs = map (untag_row i) rs"

context audit_store
begin

lemma run_op_rows: "inv s \<Longrightarrow> inv (run_op ops x s) \<and> rows (run_op ops x s) = log_op stored x (rows s)"
  using insert_defined insert_rows markBatched_rows releaseBatch_rows
  by (cases x) (auto split: option.splits)

lemma run_ops_rows:
  "inv s \<Longrightarrow> inv (fold (run_op ops) xs s) \<and> rows (fold (run_op ops) xs s) = fold (log_op stored) xs (rows s)"
  by (induction xs arbitrary: s) (simp_all add: run_op_rows)

end

definition empty_postgres :: postgres where
  "empty_postgres = \<lparr>pg_seq = 1, pg_table = []\<rparr>"

lemma run_ops_agree:
  "pg_inv (fold (run_op (postgres_ops fu)) xs empty_postgres) \<and>
   sqlite_inv (fold (run_op (sqlite_ops fu)) xs []) \<and>
   pg_rows (fold (run_op (postgres_ops fu)) xs empty_postgres) = fold (run_op (sqlite_ops fu)) xs []"
proof -
  have "pg_inv empty_postgres" "pg_rows empty_postgres = []" "sqlite_inv []"
    by (simp_all add: empty_postgres_def pg_inv_def sqlite_inv_def pg_rows_def)
  then show ?thesis
    using postgres.run_ops_rows [of empty_postgres fu xs] sqlite.run_ops_rows [of "[]" fu xs] by metis
qed

section \<open>Properties\<close>

text \<open>
  C29. What a row stores is what was recorded: decoding the columns that an insertion writes
  (through \<open>JSON.stringify\<close>, \<open>JSON.parse\<close> and the decimal rendering of the \<open>bigint\<close>) gives
  back the entry, with its messages as the texts they were written as, and the hash recomputed
  from the decoded entry is the hash recomputed from the original.
\<close>

theorem row_roundtrip:
  assumes "number_ok (num (d_riskScore (e_decision e)))"
    and "rd (num (d_riskScore (e_decision e))) = d_riskScore (e_decision e)"
  shows "map_option (\<lambda>f. (f, recomputeEntryHash kec num f)) (rowToEntry rd (entry_row fu num e)) =
     Some (as_stored fu e, recomputeEntryHash kec num e)"
  by (simp add: row_decodes [where num = num and rd = rd, OF assms])

theorem row_roundtrip_witness:
  "map_option (\<lambda>f. (f, recomputeEntryHash (\<lambda>s. s) (\<lambda>x. ''0'') f))
     (rowToEntry (\<lambda>s. 0) (entry_row (\<lambda>n. ''?'') (\<lambda>x. ''0'') (ex_audited 5 True))) =
   Some (as_stored (\<lambda>n. ''?'') (ex_audited 5 True), recomputeEntryHash (\<lambda>s. s) (\<lambda>x. ''0'') (ex_audited 5 True))"
proof (rule row_roundtrip)
  show "number_ok ((\<lambda>x. ''0'') (d_riskScore (e_decision (ex_audited 5 True))))" by code_simp
qed (simp add: ex_audited_def)

text \<open>
  C31. The two audit stores are interchangeable: after any sequence of insertions, batch tags and
  releases, starting empty, SQLite and Postgres hold the same rows in the same order and answer
  every ordered query of the interface alike.
\<close>

theorem postgres_agrees_with_sqlite:
  "let p = fold (run_op (postgres_ops fu)) xs empty_postgres;
       t = fold (run_op (sqlite_ops fu)) xs []
   in pg_rows p = t \<and> Postgres_list a p = Sqlite_list a t \<and>
      Postgres_listSince b since p = Sqlite_listSince b since t \<and>
      Postgres_getById k p = Sqlite_getById k t \<and> Postgres_unbatched p = Sqlite_unbatched t \<and>
      Postgres_entriesInBatch i p = Sqlite_entriesInBatch i t \<and>
      fst (Postgres_releaseBatch i p) = fst (Sqlite_releaseBatch i t) \<and>
      set (Postgres_anchoredBatches p) = set (Sqlite_anchoredBatches t)"
proof -
  let ?p = "fold (run_op (postgres_ops fu)) xs empty_postgres"
  let ?t = "fold (run_op (sqlite_ops fu)) xs []"
  have p: "pg_inv ?p" and t: "sqlite_inv ?t" and eq: "pg_rows ?p = ?t"
    using run_ops_agree by blast+
  show ?thesis
    unfolding Let_def
    using postgres.list_rows [OF p, of fu a] sqlite.list_rows [OF t, of fu a]
      postgres.listSince_rows [OF p, of fu b since] sqlite.listSince_rows [OF t, of fu b since]
      postgres.getById_rows [OF p, of fu k] sqlite.getById_rows [OF t, of fu k]
      postgres.unbatched_rows [OF p, of fu] sqlite.unbatched_rows [OF t, of fu]
      postgres.entriesInBatch_rows [OF p, of fu i] sqlite.entriesInBatch_rows [OF t, of fu i]
      postgres.releaseBatch_rows [OF p, of fu i] sqlite.releaseBatch_rows [OF t, of fu i]
      postgres.anchoredBatches_rows [OF p, of fu] sqlite.anchoredBatches_rows [OF t, of fu]
    unfolding eq
    by (simp add: postgres_ops_def sqlite_ops_def eq)
qed

end
