(* ===== verification/Anchor.thy ===== *)
theory Anchor
  imports Constants Hashing "HOL-Library.Char_ord" "HOL-Library.List_Lexorder"
begin

text \<open>
  The Merkle batch (\<open>packages/core/src/audit/merkle.ts\<close>), the on-chain anchor
  (\<open>contracts/src/AuditAnchor.sol\<close>) and its client (\<open>audit/anchor.ts\<close>).

  A \<open>bytes32\<close> is the string of its 64 lower-case hex digits after \<open>0x\<close>, so the comparison of
  the contract is the lexicographic order; an address is compared without letter case, as its
  20 bytes are. The Merkle tree library is the argument \<open>lib\<close>; \<open>ml_leafHash\<close> is the double
  keccak of the ABI encoding and \<open>ml_node\<close> the keccak of two packed words, which the contract
  computes with the same functions.
\<close>

section \<open>Leaves\<close>

record leaf_context =
  lc_chainId :: int
  lc_anchor :: address
  lc_operator :: address

record leaf =
  lf_chainId :: int
  lf_anchor :: address
  lf_operator :: address
  lf_agentId :: string
  lf_timestamp :: int
  lf_recipient :: address
  lf_verdict :: nat
  lf_entryHash :: hex

record merkle_lib =
  ml_leafHash :: "leaf \<Rightarrow> hex"
  ml_node :: "hex \<Rightarrow> hex \<Rightarrow> hex"
  ml_root :: "leaf list \<Rightarrow> hex"
  ml_proof :: "leaf list \<Rightarrow> nat \<Rightarrow> hex list"
  ml_verify :: "leaf list \<Rightarrow> leaf \<Rightarrow> hex list \<Rightarrow> bool"

definition ZERO_ROOT :: hex where
  "ZERO_ROOT = ''0x'' @ replicate 64 (CHR ''0'')"

text \<open>ABI encoding sees the bytes of an address, not the letter case of its text.\<close>

definition abi_leaf :: "leaf \<Rightarrow> leaf" where
  "abi_leaf l = l\<lparr>lf_anchor := lower (lf_anchor l), lf_operator := lower (lf_operator l),
     lf_recipient := lower (lf_recipient l)\<rparr>"

definition entryToLeaf :: "audit_entry \<Rightarrow> leaf_context \<Rightarrow> leaf" where
  "entryToLeaf e ctx =
     abi_leaf \<lparr>lf_chainId = lc_chainId ctx, lf_anchor = lc_anchor ctx, lf_operator = lc_operator ctx,
       lf_agentId = e_agentId e, lf_timestamp = e_timestamp e, lf_recipient = r_recipient (e_request e),
       lf_verdict = verdict_to_num (d_verdict (e_decision e)), lf_entryHash = e_entryHash e\<rparr>"

section \<open>Batches\<close>

text \<open>The batch caches its tree; \<open>mb_tree\<close> holds the leaves the cached tree was built from.\<close>

record merkle_batch =
  mb_ctx :: leaf_context
  mb_values :: "leaf list"
  mb_tree :: "leaf list option"

definition new_batch :: "leaf_context \<Rightarrow> merkle_batch" where
  "new_batch ctx = \<lparr>mb_ctx = ctx, mb_values = [], mb_tree = None\<rparr>"

definition MerkleAuditBatch_addEntry :: "audit_entry \<Rightarrow> merkle_batch \<Rightarrow> merkle_batch" where
  "MerkleAuditBatch_addEntry e b =
     b\<lparr>mb_values := mb_values b @ [entryToLeaf e (mb_ctx b)], mb_tree := None\<rparr>"

definition MerkleAuditBatch_size :: "merkle_batch \<Rightarrow> nat" where
  "MerkleAuditBatch_size b = length (mb_values b)"

definition MerkleAuditBatch_build :: "merkle_batch \<Rightarrow> leaf list \<times> merkle_batch" where
  "MerkleAuditBatch_build b =
     (case mb_tree b of
        Some t \<Rightarrow> (t, b)
      | None \<Rightarrow> (mb_values b, b\<lparr>mb_tree := Some (mb_values b)\<rparr>))"

definition MerkleAuditBatch_root :: "merkle_lib \<Rightarrow> merkle_batch \<Rightarrow> hex \<times> merkle_batch" where
  "MerkleAuditBatch_root lib b =
     (if length (mb_values b) = 0 then (ZERO_ROOT, b)
      else let (t, b') = MerkleAuditBatch_build b in (ml_root lib t, b'))"

definition MerkleAuditBatch_leafAt :: "merkle_lib \<Rightarrow> nat \<Rightarrow> merkle_batch \<Rightarrow> hex option \<times> merkle_batch" where
  "MerkleAuditBatch_leafAt lib i b =
     (if i < length (mb_values b) then
        let (t, b') = MerkleAuditBatch_build b in (Some (ml_leafHash lib (mb_values b ! i)), b')
      else (None, b))"

definition MerkleAuditBatch_proofAt :: "merkle_lib \<Rightarrow> nat \<Rightarrow> merkle_batch \<Rightarrow> hex list \<times> merkle_batch" where
  "MerkleAuditBatch_proofAt lib i b =
     (let (t, b') = MerkleAuditBatch_build b in (ml_proof lib t i, b'))"

definition MerkleAuditBatch_verify :: "merkle_lib \<Rightarrow> nat \<Rightarrow> merkle_batch \<Rightarrow> bool \<times> merkle_batch" where
  "MerkleAuditBatch_verify lib i b =
     (if i < length (mb_values b) then
        let (t, b1) = MerkleAuditBatch_build b; (p, b2) = MerkleAuditBatch_proofAt lib i b1
        in (ml_verify lib t (mb_values b ! i) p, b2)
      else (False, b))"

text \<open>The cache is never stale.\<close>

definition batch_fresh :: "merkle_batch \<Rightarrow> bool" where
  "batch_fresh b \<longleftrightarrow> mb_tree b = None \<or> mb_tree b = Some (mb_values b)"

lemma batch_fresh_new [simp]: "batch_fresh (new_batch ctx)"
  by (simp add: batch_fresh_def new_batch_def)

lemma batch_fresh_add [simp]: "batch_fresh (MerkleAuditBatch_addEntry e b)"
  by (simp add: batch_fresh_def MerkleAuditBatch_addEntry_def)

lemma build_fresh:
  "batch_fresh b \<Longrightarrow> fst (MerkleAuditBatch_build b) = mb_values b \<and>
     mb_values (snd (MerkleAuditBatch_build b)) = mb_values b \<and> batch_fresh (snd (MerkleAuditBatch_build b))"
  by (auto simp: batch_fresh_def MerkleAuditBatch_build_def)

lemma add_entries:
  "mb_values (fold MerkleAuditBatch_addEntry es b) = mb_values b @ map (\<lambda>e. entryToLeaf e (mb_ctx b)) es \<and>
   mb_ctx (fold MerkleAuditBatch_addEntry es b) = mb_ctx b \<and>
   (batch_fresh b \<longrightarrow> batch_fresh (fold MerkleAuditBatch_addEntry es b))"
proof (induction es arbitrary: b)
  case (Cons e es)
  have "mb_values (MerkleAuditBatch_addEntry e b) = mb_values b @ [entryToLeaf e (mb_ctx b)]"
    "mb_ctx (MerkleAuditBatch_addEntry e b) = mb_ctx b"
    by (simp_all add: MerkleAuditBatch_addEntry_def)
  then show ?case
    using Cons.IH [of "MerkleAuditBatch_addEntry e b"] by simp
qed simp

section \<open>The contract\<close>

record batch =
  b_merkleRoot :: hex
  b_timestamp :: nat
  b_entryCount :: nat

record anchor =
  an_batches :: "address \<Rightarrow> batch list"
  an_head :: "address \<Rightarrow> hex"

record batch_committed =
  bc_operator :: address
  bc_batchIndex :: nat
  bc_merkleRoot :: hex
  bc_prevRoot :: hex
  bc_entryCount :: nat
  bc_timestamp :: nat

datatype anchor_error = EmptyRoot | EmptyBatch | WrongPrevRoot hex hex

definition MAX_PROOF_LENGTH :: nat where
  "MAX_PROOF_LENGTH = 64"

definition new_anchor :: anchor where
  "new_anchor = \<lparr>an_batches = (\<lambda>_. []), an_head = (\<lambda>_. ZERO_ROOT)\<rparr>"

definition uint64 :: "nat \<Rightarrow> nat" where
  "uint64 n = n mod 2 ^ 64"

definition commitBatch ::
  "address \<Rightarrow> nat \<Rightarrow> hex \<Rightarrow> hex \<Rightarrow> nat \<Rightarrow> anchor \<Rightarrow> anchor_error + (nat \<times> batch_committed \<times> anchor)" where
  "commitBatch sender block_timestamp prevRoot merkleRoot entryCount st =
     (if merkleRoot = ZERO_ROOT then Inl EmptyRoot
      else if entryCount = 0 then Inl EmptyBatch
      else
        let expected = an_head st sender
        in if prevRoot \<noteq> expected then Inl (WrongPrevRoot expected prevRoot)
           else
             let bs = an_batches st sender @
                   [\<lparr>b_merkleRoot = merkleRoot, b_timestamp = uint64 block_timestamp, b_entryCount = entryCount\<rparr>];
                 st' = st\<lparr>an_batches := (an_batches st)(sender := bs), an_head := (an_head st)(sender := merkleRoot)\<rparr>;
                 batchIndex = length bs - 1
             in Inr (batchIndex,
                  \<lparr>bc_operator = sender, bc_batchIndex = batchIndex, bc_merkleRoot = merkleRoot,
                   bc_prevRoot = prevRoot, bc_entryCount = entryCount, bc_timestamp = uint64 block_timestamp\<rparr>,
                  st'))"

text \<open>The loop over the proof: the smaller of the two words comes first.\<close>

fun process_proof :: "merkle_lib \<Rightarrow> hex \<Rightarrow> hex list \<Rightarrow> hex" where
  "process_proof lib computed [] = computed"
| "process_proof lib computed (p # ps) =
     process_proof lib (if computed < p then ml_node lib computed p else ml_node lib p computed) ps"

definition leafHash ::
  "merkle_lib \<Rightarrow> int \<Rightarrow> address \<Rightarrow> address \<Rightarrow> string \<Rightarrow> int \<Rightarrow> address \<Rightarrow> nat \<Rightarrow> hex \<Rightarrow> hex" where
  "leafHash lib chainid this operator agentId timestamp recipient v entryHash =
     ml_leafHash lib (abi_leaf \<lparr>lf_chainId = chainid, lf_anchor = this, lf_operator = operator, lf_agentId = agentId,
       lf_timestamp = timestamp, lf_recipient = recipient, lf_verdict = v, lf_entryHash = entryHash\<rparr>)"

definition verifyEntry ::
  "merkle_lib \<Rightarrow> int \<Rightarrow> address \<Rightarrow> anchor \<Rightarrow> address \<Rightarrow> nat \<Rightarrow> string \<Rightarrow> int \<Rightarrow> address \<Rightarrow> nat \<Rightarrow> hex \<Rightarrow> hex list \<Rightarrow> bool"
  where
  "verifyEntry lib chainid this st operator batchIndex agentId timestamp recipient v entryHash prf =
     (if batchIndex \<ge> length (an_batches st operator) then False
      else if length prf > MAX_PROOF_LENGTH then False
      else process_proof lib (leafHash lib chainid this operator agentId timestamp recipient v entryHash) prf =
             b_merkleRoot (an_batches st operator ! batchIndex))"

definition getBatchCount :: "anchor \<Rightarrow> address \<Rightarrow> nat" where
  "getBatchCount st operator = length (an_batches st operator)"

definition getBatch :: "anchor \<Rightarrow> address \<Rightarrow> nat \<Rightarrow> bool \<times> hex \<times> nat \<times> nat" where
  "getBatch st operator batchIndex =
     (if batchIndex \<ge> length (an_batches st operator) then (False, ZERO_ROOT, 0, 0)
      else let b = an_batches st operator ! batchIndex
           in (True, b_merkleRoot b, b_timestamp b, b_entryCount b))"

text \<open>The histories of the contract: any caller commits anything at any time; failures revert.\<close>

inductive anchor_run :: "batch_committed list \<Rightarrow> anchor \<Rightarrow> bool" where
  deployed: "anchor_run [] new_anchor"
| committed: "anchor_run evs st \<Longrightarrow> commitBatch sender ts prev mr n st = Inr (i, ev, st') \<Longrightarrow>
     anchor_run (evs @ [ev]) st'"
| reverted: "anchor_run evs st \<Longrightarrow> commitBatch sender ts prev mr n st = Inl err \<Longrightarrow> anchor_run evs st"

definition events_of :: "address \<Rightarrow> batch_committed list \<Rightarrow> batch_committed list" where
  "events_of a evs = filter (\<lambda>ev. bc_operator ev = a) evs"

text \<open>A hash chain: each batch names the root before it.\<close>

fun chained :: "hex \<Rightarrow> batch_committed list \<Rightarrow> bool" where
  "chained h [] = True"
| "chained h (ev # evs) = (bc_prevRoot ev = h \<and> bc_merkleRoot ev \<noteq> ZERO_ROOT \<and> bc_entryCount ev > 0 \<and>
     chained (bc_merkleRoot ev) evs)"

definition chain_head :: "batch_committed list \<Rightarrow> hex" where
  "chain_head evs = (if evs = [] then ZERO_ROOT else bc_merkleRoot (last evs))"

definition anchor_inv :: "batch_committed list \<Rightarrow> anchor \<Rightarrow> bool" where
  "anchor_inv evs st \<longleftrightarrow>
     (\<forall>a. chained ZERO_ROOT (events_of a evs) \<and> an_head st a = chain_head (events_of a evs) \<and>
        map bc_batchIndex (events_of a evs) = [0..<length (events_of a evs)] \<and>
        an_batches st a = map (\<lambda>ev. \<lparr>b_merkleRoot = bc_merkleRoot ev, b_timestamp = bc_timestamp ev,
          b_entryCount = bc_entryCount ev\<rparr>) (events_of a evs))"

lemma chained_snoc:
  "chained h (evs @ [ev]) \<longleftrightarrow> chained h evs \<and>
     bc_prevRoot ev = (if evs = [] then h else bc_merkleRoot (last evs)) \<and>
     bc_merkleRoot ev \<noteq> ZERO_ROOT \<and> bc_entryCount ev > 0"
  by (induction evs arbitrary: h) auto

lemma events_of_simps [simp]:
  "events_of a [] = []"
  "events_of a (evs @ [ev]) = (if bc_operator ev = a then events_of a evs @ [ev] else events_of a evs)"
  by (simp_all add: events_of_def)

lemma commitBatch_ok:
  "commitBatch sender ts prev mr n st = Inr (i, ev, st') \<longleftrightarrow>
     mr \<noteq> ZERO_ROOT \<and> n > 0 \<and> prev = an_head st sender \<and> i = length (an_batches st sender) \<and>
     ev = \<lparr>bc_operator = sender, bc_batchIndex = i, bc_merkleRoot = mr, bc_prevRoot = prev, bc_entryCount = n,
       bc_timestamp = uint64 ts\<rparr> \<and>
     st' = st\<lparr>an_batches := (an_batches st)(sender := an_batches st sender @
         [\<lparr>b_merkleRoot = mr, b_timestamp = uint64 ts, b_entryCount = n\<rparr>]),
       an_head := (an_head st)(sender := mr)\<rparr>"
  by (auto simp: commitBatch_def Let_def)

lemma anchor_run_inv: "anchor_run evs st \<Longrightarrow> anchor_inv evs st"
proof (induction rule: anchor_run.induct)
  case deployed
  show ?case by (simp add: anchor_inv_def new_anchor_def chain_head_def)
next
  case (committed evs st sender ts prev mr n i ev st')
  have "length (an_batches st sender) = length (events_of sender evs)"
    using committed.IH unfolding anchor_inv_def by (metis length_map)
  then show ?case
    using committed unfolding commitBatch_ok anchor_inv_def
    by (auto simp: chained_snoc chain_head_def)
qed

section \<open>The client\<close>

datatype confirmation_tag = Latest | Safe | Finalized

record anchor_client =
  ac_chain :: string
  ac_contractAddress :: address
  ac_committer :: "address option"
  ac_confirmationTag :: "confirmation_tag option"

text \<open>
  \<open>ac_committer\<close> is the address of the committer key (\<open>privateKeyToAccount\<close>), \<open>None\<close> when
  none is configured. An error is what the client throws.
\<close>

datatype client_error =
    Client_no_key
  | Client_chain chain_error
  | Client_chain_mismatch string int int
  | Client_reverted anchor_error
  | Client_no_event
  | Client_not_durable nat
  | Client_rpc string

definition AuditAnchorClient_leafContext :: "anchor_client \<Rightarrow> address \<Rightarrow> client_error + leaf_context" where
  "AuditAnchorClient_leafContext c operator =
     (case getChain (ac_chain c) of
        Inl e \<Rightarrow> Inl (Client_chain e)
      | Inr cfg \<Rightarrow> Inr \<lparr>lc_chainId = cc_chainId cfg, lc_anchor = ac_contractAddress c, lc_operator = operator\<rparr>)"

definition AuditAnchorClient_assertChainId :: "anchor_client \<Rightarrow> int \<Rightarrow> client_error + unit" where
  "AuditAnchorClient_assertChainId c actual =
     (case getChain (ac_chain c) of
        Inl e \<Rightarrow> Inl (Client_chain e)
      | Inr cfg \<Rightarrow> if actual \<noteq> cc_chainId cfg then Inl (Client_chain_mismatch (ac_chain c) (cc_chainId cfg) actual)
                  else Inr ())"

definition AuditAnchorClient_operatorAddress :: "anchor_client \<Rightarrow> client_error + address" where
  "AuditAnchorClient_operatorAddress c =
     (case ac_committer c of None \<Rightarrow> Inl Client_no_key | Some a \<Rightarrow> Inr a)"

text \<open>
  The polls of the durability tag: the block it names (a block may have no number), or an error
  of the RPC, each with whether the deadline had passed after it. \<open>None\<close>: still waiting when
  the given polls are used up.
\<close>

datatype poll = PollBlock "nat option" | PollThrows

fun await_polls :: "nat \<Rightarrow> (poll \<times> bool) list \<Rightarrow> (client_error + unit) option" where
  "await_polls block [] = None"
| "await_polls block ((p, late) # ps) =
     (case p of
        PollThrows \<Rightarrow> Some (Inr ())
      | PollBlock n \<Rightarrow>
          if (case n of Some k \<Rightarrow> k \<ge> block | None \<Rightarrow> False) then Some (Inr ())
          else if late then Some (Inl (Client_not_durable block))
          else await_polls block ps)"

definition AuditAnchorClient_awaitDurable ::
  "anchor_client \<Rightarrow> nat \<Rightarrow> (poll \<times> bool) list \<Rightarrow> (client_error + unit) option" where
  "AuditAnchorClient_awaitDurable c block polls =
     (let tag = (case ac_confirmationTag c of Some t \<Rightarrow> t | None \<Rightarrow> Safe)
      in if tag = Latest then Some (Inr ()) else await_polls block polls)"

record commit_result =
  cr_txHash :: hex
  cr_batchIndex :: nat
  cr_root :: hex

text \<open>
  What the network does with the transaction: its hash, the block that includes it with that
  block's time, the polls that follow, and the logs of other contracts in its receipt.
\<close>

record tx_outcome =
  tx_hash :: hex
  tx_block :: nat
  tx_time :: nat
  tx_polls :: "(poll \<times> bool) list"
  tx_logs :: "(address \<times> batch_committed) list"

definition AuditAnchorClient_commit ::
  "anchor_client \<Rightarrow> hex \<Rightarrow> hex \<Rightarrow> nat \<Rightarrow> tx_outcome \<Rightarrow> anchor \<Rightarrow> (client_error + commit_result) option \<times> anchor" where
  "AuditAnchorClient_commit c prevRoot mr entryCount tx st =
     (case (ac_committer c, getChain (ac_chain c)) of
        (None, _) \<Rightarrow> (Some (Inl Client_no_key), st)
      | (Some sender, Inl e) \<Rightarrow> (Some (Inl (Client_chain e)), st)
      | (Some sender, Inr _) \<Rightarrow>
          (case commitBatch (lower sender) (tx_time tx) prevRoot mr entryCount st of
             Inl e \<Rightarrow> (Some (Inl (Client_reverted e)), st)
           | Inr (i, ev, st') \<Rightarrow>
               (case AuditAnchorClient_awaitDurable c (tx_block tx) (tx_polls tx) of
                  None \<Rightarrow> (None, st')
                | Some (Inl e) \<Rightarrow> (Some (Inl e), st')
                | Some (Inr _) \<Rightarrow>
                    (case find (\<lambda>(a, _). lower a = lower (ac_contractAddress c))
                            (tx_logs tx @ [(lower (ac_contractAddress c), ev)]) of
                       None \<Rightarrow> (Some (Inl Client_no_event), st')
                     | Some (_, mine) \<Rightarrow>
                         (Some (Inr \<lparr>cr_txHash = tx_hash tx, cr_batchIndex = bc_batchIndex mine, cr_root = mr\<rparr>), st')))))"

definition AuditAnchorClient_head :: "anchor \<Rightarrow> address \<Rightarrow> hex" where
  "AuditAnchorClient_head st operator = an_head st (lower operator)"

definition AuditAnchorClient_verifyEntry ::
  "merkle_lib \<Rightarrow> int \<Rightarrow> anchor_client \<Rightarrow> anchor \<Rightarrow> address \<Rightarrow> nat \<Rightarrow> string \<Rightarrow> int \<Rightarrow> address \<Rightarrow> nat \<Rightarrow> hex \<Rightarrow> hex list \<Rightarrow> bool"
  where
  "AuditAnchorClient_verifyEntry lib chainid c st operator i agentId t recipient v h prf =
     verifyEntry lib chainid (ac_contractAddress c) st (lower operator) i agentId t recipient v h prf"

definition AuditAnchorClient_getBatchCount :: "anchor \<Rightarrow> address \<Rightarrow> nat" where
  "AuditAnchorClient_getBatchCount st operator = getBatchCount st (lower operator)"

definition AuditAnchorClient_getBatch :: "anchor \<Rightarrow> address \<Rightarrow> nat \<Rightarrow> bool \<times> hex \<times> nat \<times> nat" where
  "AuditAnchorClient_getBatch st operator i = getBatch st (lower operator) i"

definition AuditAnchorClient_getAllBatches :: "anchor \<Rightarrow> address \<Rightarrow> (bool \<times> hex \<times> nat \<times> nat) list" where
  "AuditAnchorClient_getAllBatches st operator =
     map (AuditAnchorClient_getBatch st operator) [0..<AuditAnchorClient_getBatchCount st operator]"

lemma getAllBatches_eq:
  "AuditAnchorClient_getAllBatches st operator =
     map (\<lambda>b. (True, b_merkleRoot b, b_timestamp b, b_entryCount b)) (an_batches st (lower operator))"
  by (rule nth_equalityI)
     (simp_all add: AuditAnchorClient_getAllBatches_def AuditAnchorClient_getBatchCount_def getBatchCount_def
        AuditAnchorClient_getBatch_def getBatch_def Let_def)

lemma find_skip: "(\<And>x. x \<in> set xs \<Longrightarrow> \<not> P x) \<Longrightarrow> find P (xs @ ys) = find P ys"
  by (induction xs) auto

text \<open>What a commit that returned guarantees, when no other contract forges a log of this one.\<close>

lemma commit_success:
  assumes "AuditAnchorClient_commit c prev mr n tx st = (Some (Inr r), st')"
    and "\<And>a ev. (a, ev) \<in> set (tx_logs tx) \<Longrightarrow> lower a \<noteq> lower (ac_contractAddress c)"
  obtains sender i ev where "ac_committer c = Some sender"
    "commitBatch (lower sender) (tx_time tx) prev mr n st = Inr (i, ev, st')"
    "cr_batchIndex r = i" "cr_root r = mr" "cr_txHash r = tx_hash tx"
proof -
  obtain sender cfg where s: "ac_committer c = Some sender" "getChain (ac_chain c) = Inr cfg"
    using assms(1) by (auto simp: AuditAnchorClient_commit_def split: option.splits sum.splits)
  then obtain i ev where ce: "commitBatch (lower sender) (tx_time tx) prev mr n st = Inr (i, ev, st')"
    using assms(1)
    by (auto simp: AuditAnchorClient_commit_def split: option.splits sum.splits prod.splits)
  have "find (\<lambda>(a, _). lower a = lower (ac_contractAddress c))
      (tx_logs tx @ [(lower (ac_contractAddress c), ev)]) = Some (lower (ac_contractAddress c), ev)"
    using assms(2) by (subst find_skip) auto
  moreover have "bc_batchIndex ev = i" using ce by (simp add: commitBatch_ok)
  ultimately have "cr_batchIndex r = i \<and> cr_root r = mr \<and> cr_txHash r = tx_hash tx"
    using assms(1) s ce
    by (auto simp: AuditAnchorClient_commit_def split: option.splits sum.splits)
  then show thesis using that s ce by blast
qed

section \<open>Properties\<close>

text \<open>
  C33. An operator's on-chain history cannot be forked or rewritten: in every history of the
  contract, whoever calls it and whatever fails, the batches of an operator are exactly its
  successful commits in order, each names the root of the one before it (the zero root first),
  none has the zero root or no entries, the head is the last root, and the indices count up.
\<close>

theorem anchor_history_is_a_chain:
  assumes "anchor_run evs st"
  shows "chained ZERO_ROOT (events_of a evs) \<and> an_head st a = chain_head (events_of a evs) \<and>
     map bc_batchIndex (events_of a evs) = [0..<getBatchCount st a] \<and>
     map b_merkleRoot (an_batches st a) = map bc_merkleRoot (events_of a evs) \<and>
     map b_entryCount (an_batches st a) = map bc_entryCount (events_of a evs)"
  using anchor_run_inv [OF assms] by (simp add: anchor_inv_def getBatchCount_def comp_def)

definition ex_root :: "char \<Rightarrow> hex" where
  "ex_root c = ''0x'' @ replicate 64 c"

definition ex_anchor :: anchor where
  "ex_anchor = \<lparr>an_batches = (\<lambda>_. [])(''0xop'' :=
       [\<lparr>b_merkleRoot = ex_root (CHR ''a''), b_timestamp = 7, b_entryCount = 2\<rparr>]),
     an_head = (\<lambda>_. ZERO_ROOT)(''0xop'' := ex_root (CHR ''a''))\<rparr>"

definition ex_event :: batch_committed where
  "ex_event = \<lparr>bc_operator = ''0xop'', bc_batchIndex = 0, bc_merkleRoot = ex_root (CHR ''a''),
     bc_prevRoot = ZERO_ROOT, bc_entryCount = 2, bc_timestamp = 7\<rparr>"

lemma ex_root_nonzero: "ex_root (CHR ''a'') \<noteq> ZERO_ROOT"
  by (simp add: ex_root_def ZERO_ROOT_def)

lemma ex_anchor_commit: "commitBatch ''0xop'' 7 ZERO_ROOT (ex_root (CHR ''a'')) 2 new_anchor = Inr (0, ex_event, ex_anchor)"
  using ex_root_nonzero
  by (simp add: commitBatch_ok new_anchor_def ex_event_def ex_anchor_def uint64_def)

lemma ex_anchor_run: "anchor_run [ex_event] ex_anchor"
  using anchor_run.committed [OF anchor_run.deployed ex_anchor_commit] by simp

theorem anchor_history_is_a_chain_witness:
  "an_head ex_anchor ''0xop'' = bc_merkleRoot ex_event \<and> getBatchCount ex_anchor ''0xop'' = 1"
  using anchor_history_is_a_chain [OF ex_anchor_run, of "''0xop''"]
  by (simp add: events_of_def ex_event_def chain_head_def getBatchCount_def ex_anchor_def)

text \<open>
  A commit is accepted exactly if its root is not the zero root, it has entries, and it names
  the caller's current head; an accepted commit is appended at the index it returns, where
  \<open>getBatch\<close> finds it, becomes the head, and leaves the other operators and the caller's earlier
  batches as they were.
\<close>

theorem commit_appends:
  "case commitBatch a ts prev mr n st of
     Inl err \<Rightarrow> \<not> (mr \<noteq> ZERO_ROOT \<and> n > 0 \<and> prev = an_head st a)
   | Inr (i, ev, st') \<Rightarrow> mr \<noteq> ZERO_ROOT \<and> n > 0 \<and> prev = an_head st a \<and> an_head st' a = mr \<and>
       i = getBatchCount st a \<and> getBatch st' a i = (True, mr, uint64 ts, n) \<and>
       take i (an_batches st' a) = an_batches st a \<and> getBatchCount st' a = i + 1 \<and>
       (an_batches st')(a := []) = (an_batches st)(a := []) \<and> (an_head st')(a := mr) = (an_head st)(a := mr)"
  by (auto simp: commitBatch_def Let_def getBatchCount_def getBatch_def split: sum.splits)

text \<open>
  An RPC error ends the wait for durability as a success: when a poll of the \<open>safe\<close> or
  \<open>finalized\<close> tag throws before the block is reached, the commit is treated as durable, whatever
  the error was and whether or not the chain has the tag.
\<close>

theorem rpc_error_counts_as_durable:
  assumes "\<And>n. n \<in> set ns \<Longrightarrow> n < block"
  shows "AuditAnchorClient_awaitDurable c block
           (map (\<lambda>n. (PollBlock (Some n), False)) ns @ (PollThrows, late) # rest) = Some (Inr ())"
proof -
  have "await_polls block (map (\<lambda>n. (PollBlock (Some n), False)) ns @ (PollThrows, late) # rest) = Some (Inr ())"
    using assms by (induction ns) (auto simp: not_le)
  then show ?thesis by (simp add: AuditAnchorClient_awaitDurable_def)
qed

theorem rpc_error_counts_as_durable_witness:
  "AuditAnchorClient_awaitDurable \<lparr>ac_chain = ''eip155:8453'', ac_contractAddress = ''0xc'', ac_committer = None,
       ac_confirmationTag = Some Finalized\<rparr> 100 [(PollBlock (Some 40), False), (PollThrows, False)] = Some (Inr ())"
  using rpc_error_counts_as_durable [of "[40]" 100 _ False "[]"] by simp

end
