(* ===== verification/Logger.thy ===== *)
theory Logger
  imports Store Anchor "HOL-Library.Multiset"
begin

text \<open>
  \<open>AuditLogger\<close> of \<open>packages/core/src/audit/logger.ts\<close>, over any store that keeps the contract
  \<open>audit_store\<close>. The world of the logger is its store, the anchor contract and its own two
  flags. What happens around an awaited call is an argument: \<open>fe_before\<close> is what other callers
  commit between the reading of the head and the inclusion of the transaction, \<open>fe_tx\<close> the fate
  of the transaction, \<open>fe_arrivals\<close> what is recorded while the commit is awaited. A result
  \<open>None\<close> means that the process ended while it was still waiting.
\<close>

record logger =
  lg_client :: "anchor_client option"

record 's world =
  w_store :: 's
  w_chain :: anchor
  w_anchoring :: bool
  w_timer :: bool

record 's flush_env =
  fe_before :: "anchor \<Rightarrow> anchor"
  fe_tx :: tx_outcome
  fe_arrivals :: "'s \<Rightarrow> 's"

record flush_result =
  fr_batchIndex :: nat
  fr_root :: hex
  fr_txHash :: hex
  fr_entryCount :: nat

record entry_proof =
  ep_batchIndex :: int
  ep_leaf :: hex
  ep_proof :: "hex list"
  ep_localRoot :: hex
  ep_agentId :: string
  ep_timestamp :: int
  ep_recipient :: address
  ep_verdict :: nat
  ep_entryHash :: hex
  ep_storedHashMatches :: bool

record reconcile_result =
  rc_staleBatches :: "int list"
  rc_releasedEntries :: nat

section \<open>Choosing a store\<close>

datatype store_choice = UsePostgres string | UseSqlite string

definition makeStore :: "(string \<Rightarrow> string option) \<Rightarrow> string \<Rightarrow> store_choice" where
  "makeStore env store =
     (if starts_with store ''postgres'' then UsePostgres store
      else UseSqlite (if store = ''sqlite''
        then (case env ''AUDIT_DB_PATH'' of Some p \<Rightarrow> p | None \<Rightarrow> ''./agentctl.sqlite'') else store))"

text \<open>An anchor configuration without a committer key gives a logger without a client.\<close>

definition AuditLogger_new :: "anchor_client option \<Rightarrow> logger" where
  "AuditLogger_new anchor =
     \<lparr>lg_client = (case anchor of Some c \<Rightarrow> if ac_committer c \<noteq> None then Some c else None | None \<Rightarrow> None)\<rparr>"

section \<open>Recording\<close>

definition new_entry ::
  "(string \<Rightarrow> hex) \<Rightarrow> (real \<Rightarrow> string) \<Rightarrow> string \<Rightarrow> int \<Rightarrow> payment_request \<Rightarrow> policy_decision \<Rightarrow> settlement option \<Rightarrow> audit_entry"
  where
  "new_entry kec num uuid now req decision settlement =
     \<lparr>e_id = uuid, e_timestamp = now, e_agentId = r_agentId req, e_request = req, e_decision = decision,
      e_settlement = settlement, e_entryHash = hashEntry kec num req decision settlement\<rparr>"

definition AuditLogger_record ::
  "(string \<Rightarrow> hex) \<Rightarrow> (real \<Rightarrow> string) \<Rightarrow> 's store_ops \<Rightarrow> string \<Rightarrow> int \<Rightarrow> payment_request \<Rightarrow> policy_decision \<Rightarrow>
     settlement option \<Rightarrow> 's \<Rightarrow> (audit_entry \<times> 's) option" where
  "AuditLogger_record kec num ops uuid now req decision settlement s =
     (let e = new_entry kec num uuid now req decision settlement
      in map_option (Pair e) (so_insert ops e s))"

definition AuditLogger_list :: "'s store_ops \<Rightarrow> string option \<Rightarrow> 's \<Rightarrow> audit_entry list" where
  "AuditLogger_list ops agentId s = so_list ops agentId s"

definition AuditLogger_listSince :: "'s store_ops \<Rightarrow> string \<Rightarrow> int \<Rightarrow> 's \<Rightarrow> audit_entry list" where
  "AuditLogger_listSince ops agentId sinceMs s = so_listSince ops agentId sinceMs s"

definition AuditLogger_getById :: "'s store_ops \<Rightarrow> string \<Rightarrow> 's \<Rightarrow> (audit_entry \<times> int option) option" where
  "AuditLogger_getById ops i s = so_getById ops i s"

section \<open>Anchoring\<close>

definition batch_of ::
  "(string \<Rightarrow> hex) \<Rightarrow> (real \<Rightarrow> string) \<Rightarrow> leaf_context \<Rightarrow> audit_entry list \<Rightarrow> merkle_batch" where
  "batch_of kec num ctx es = fold MerkleAuditBatch_addEntry (map (canonicalize kec num) es) (new_batch ctx)"

definition AuditLogger_flush ::
  "merkle_lib \<Rightarrow> (string \<Rightarrow> hex) \<Rightarrow> (real \<Rightarrow> string) \<Rightarrow> 's store_ops \<Rightarrow> logger \<Rightarrow> 's flush_env \<Rightarrow> 's world \<Rightarrow>
     (client_error + flush_result option) option \<times> 's world" where
  "AuditLogger_flush lib kec num ops lg env w =
     (case lg_client lg of
        None \<Rightarrow> (Some (Inr None), w)
      | Some c \<Rightarrow>
          let rows = so_unbatched ops (w_store w)
          in if length rows = 0 then (Some (Inr None), w)
             else
               (case AuditAnchorClient_operatorAddress c of
                  Inl e \<Rightarrow> (Some (Inl e), w)
                | Inr operator \<Rightarrow>
                    (case AuditAnchorClient_leafContext c operator of
                       Inl e \<Rightarrow> (Some (Inl e), w)
                     | Inr ctx \<Rightarrow>
                         let mr = fst (MerkleAuditBatch_root lib (batch_of kec num ctx rows));
                             prevRoot = AuditAnchorClient_head (w_chain w) operator
                         in (case AuditAnchorClient_commit c prevRoot mr (length rows) (fe_tx env)
                                     (fe_before env (w_chain w)) of
                               (None, ch) \<Rightarrow> (None, w\<lparr>w_chain := ch\<rparr>)
                             | (Some (Inl e), ch) \<Rightarrow>
                                 (Some (Inl e), w\<lparr>w_chain := ch, w_store := fe_arrivals env (w_store w)\<rparr>)
                             | (Some (Inr r), ch) \<Rightarrow>
                                 (Some (Inr (Some \<lparr>fr_batchIndex = cr_batchIndex r, fr_root = mr,
                                    fr_txHash = cr_txHash r, fr_entryCount = length rows\<rparr>)),
                                  w\<lparr>w_chain := ch,
                                    w_store := so_markBatched ops (map e_id rows) (int (cr_batchIndex r)) mr
                                      (fe_arrivals env (w_store w))\<rparr>)))))"

text \<open>One turn of the loop of \<open>reconcile\<close>: the stale batches, the released rows, the store.\<close>

definition reconcile_step ::
  "'s store_ops \<Rightarrow> anchor \<Rightarrow> address \<Rightarrow> int \<times> hex \<Rightarrow> int list \<times> nat \<times> 's \<Rightarrow> int list \<times> nat \<times> 's" where
  "reconcile_step ops ch operator p acc =
     (case (p, acc) of
        ((i, localRoot), (stale, released, s)) \<Rightarrow>
          (let (found, onRoot, _, _) = (if i < 0 then (False, ZERO_ROOT, 0, 0)
                 else AuditAnchorClient_getBatch ch operator (nat i))
           in if found \<and> lower onRoot = lower localRoot then (stale, released, s)
              else let (n, s') = so_releaseBatch ops i s in (stale @ [i], released + n, s')))"

definition AuditLogger_reconcile ::
  "'s store_ops \<Rightarrow> logger \<Rightarrow> 's world \<Rightarrow> (client_error + reconcile_result option) \<times> 's world" where
  "AuditLogger_reconcile ops lg w =
     (case lg_client lg of
        None \<Rightarrow> (Inr None, w)
      | Some c \<Rightarrow>
          (case AuditAnchorClient_operatorAddress c of
             Inl e \<Rightarrow> (Inl e, w)
           | Inr operator \<Rightarrow>
               (case fold (reconcile_step ops (w_chain w) operator) (so_anchoredBatches ops (w_store w))
                       ([], 0, w_store w) of
                  (stale, released, s) \<Rightarrow>
                    (Inr (Some \<lparr>rc_staleBatches = stale, rc_releasedEntries = released\<rparr>), w\<lparr>w_store := s\<rparr>))))"

definition proof_entry ::
  "merkle_lib \<Rightarrow> int \<Rightarrow> merkle_batch \<Rightarrow> hex \<Rightarrow> audit_entry list \<Rightarrow> audit_entry list \<Rightarrow> nat \<Rightarrow> string \<times> entry_proof" where
  "proof_entry lib batchIndex b localRoot rows canonical i =
     (let e = canonical ! i
      in (e_id e,
          \<lparr>ep_batchIndex = batchIndex, ep_leaf = the (fst (MerkleAuditBatch_leafAt lib i b)),
           ep_proof = fst (MerkleAuditBatch_proofAt lib i b), ep_localRoot = localRoot,
           ep_agentId = e_agentId e, ep_timestamp = e_timestamp e, ep_recipient = r_recipient (e_request e),
           ep_verdict = verdict_to_num (d_verdict (e_decision e)), ep_entryHash = e_entryHash e,
           ep_storedHashMatches = (e_entryHash e = e_entryHash (rows ! i))\<rparr>))"

definition AuditLogger_proofsForBatch ::
  "merkle_lib \<Rightarrow> (string \<Rightarrow> hex) \<Rightarrow> (real \<Rightarrow> string) \<Rightarrow> 's store_ops \<Rightarrow> int \<Rightarrow> leaf_context \<Rightarrow> 's \<Rightarrow> (string \<times> entry_proof) list"
  where
  "AuditLogger_proofsForBatch lib kec num ops batchIndex ctx s =
     (let rows = so_entriesInBatch ops batchIndex s;
          canonical = map (canonicalize kec num) rows;
          (localRoot, b) = MerkleAuditBatch_root lib (batch_of kec num ctx rows)
      in map (proof_entry lib batchIndex b localRoot rows canonical) [0..<length canonical])"

definition AuditLogger_proofFor ::
  "merkle_lib \<Rightarrow> (string \<Rightarrow> hex) \<Rightarrow> (real \<Rightarrow> string) \<Rightarrow> 's store_ops \<Rightarrow> string \<Rightarrow> leaf_context \<Rightarrow> 's \<Rightarrow> entry_proof option"
  where
  "AuditLogger_proofFor lib kec num ops entryId ctx s =
     (case AuditLogger_getById ops entryId s of
        None \<Rightarrow> None
      | Some (e, None) \<Rightarrow> None
      | Some (e, Some i) \<Rightarrow> map_of (AuditLogger_proofsForBatch lib kec num ops i ctx s) entryId)"

definition AuditLogger_startAnchorScheduler :: "logger \<Rightarrow> 's world \<Rightarrow> 's world" where
  "AuditLogger_startAnchorScheduler lg w =
     (if lg_client lg = None \<or> w_timer w then w else w\<lparr>w_timer := True\<rparr>)"

definition AuditLogger_stopAnchorScheduler :: "'s world \<Rightarrow> 's world" where
  "AuditLogger_stopAnchorScheduler w = w\<lparr>w_timer := False\<rparr>"

text \<open>
  One cycle. The errors of the two calls are logged, not thrown, and the flag is cleared in the
  end; it stays set only as long as the flush is still waiting.
\<close>

definition AuditLogger_anchorTick ::
  "merkle_lib \<Rightarrow> (string \<Rightarrow> hex) \<Rightarrow> (real \<Rightarrow> string) \<Rightarrow> 's store_ops \<Rightarrow> logger \<Rightarrow> 's flush_env \<Rightarrow> 's world \<Rightarrow>
     flush_result option option \<times> 's world" where
  "AuditLogger_anchorTick lib kec num ops lg env w =
     (if w_anchoring w then (Some None, w)
      else
        (case AuditLogger_reconcile ops lg (w\<lparr>w_anchoring := True\<rparr>) of
           (Inl e, w1) \<Rightarrow> (Some None, w1\<lparr>w_anchoring := False\<rparr>)
         | (Inr _, w1) \<Rightarrow>
             (case AuditLogger_flush lib kec num ops lg env w1 of
                (None, w2) \<Rightarrow> (None, w2)
              | (Some (Inl e), w2) \<Rightarrow> (Some None, w2\<lparr>w_anchoring := False\<rparr>)
              | (Some (Inr r), w2) \<Rightarrow> (Some r, w2\<lparr>w_anchoring := False\<rparr>))))"

lemmas logger_defs [op_defs] =
  AuditLogger_flush_def AuditLogger_reconcile_def AuditLogger_anchorTick_def AuditLogger_proofsForBatch_def

section \<open>Batches and their proofs\<close>

lemma batch_of_values:
  "mb_values (batch_of kec num ctx es) = map (\<lambda>e. entryToLeaf (canonicalize kec num e) ctx) es"
  "batch_fresh (batch_of kec num ctx es)"
  using add_entries [of "map (canonicalize kec num) es" "new_batch ctx"] batch_fresh_new [of ctx]
  by (simp_all add: batch_of_def comp_def) (simp_all add: new_batch_def)

text \<open>What the library promises of the proofs of one list of leaves.\<close>

definition proofs_lead_to_root :: "merkle_lib \<Rightarrow> leaf list \<Rightarrow> bool" where
  "proofs_lead_to_root lib vs \<longleftrightarrow>
     (\<forall>i < length vs. length (ml_proof lib vs i) \<le> MAX_PROOF_LENGTH \<and>
        process_proof lib (ml_leafHash lib (vs ! i)) (ml_proof lib vs i) = ml_root lib vs)"

definition leaves_of :: "(string \<Rightarrow> hex) \<Rightarrow> (real \<Rightarrow> string) \<Rightarrow> leaf_context \<Rightarrow> audit_entry list \<Rightarrow> leaf list" where
  "leaves_of kec num ctx es = map (\<lambda>e. entryToLeaf (canonicalize kec num e) ctx) es"

lemma root_batch_of:
  "fst (MerkleAuditBatch_root lib (batch_of kec num ctx es)) =
     (if es = [] then ZERO_ROOT else ml_root lib (leaves_of kec num ctx es)) \<and>
   mb_values (snd (MerkleAuditBatch_root lib (batch_of kec num ctx es))) = leaves_of kec num ctx es \<and>
   batch_fresh (snd (MerkleAuditBatch_root lib (batch_of kec num ctx es)))"
  using build_fresh [OF batch_of_values(2), of kec num ctx es] batch_of_values [of kec num ctx es]
  by (auto simp: MerkleAuditBatch_root_def leaves_of_def split: prod.splits)

lemma abi_leaf_idem [simp]: "abi_leaf (abi_leaf l) = abi_leaf l"
  by (simp add: abi_leaf_def)

text \<open>How the client checks a proof on chain.\<close>

definition proof_verifies :: "merkle_lib \<Rightarrow> leaf_context \<Rightarrow> anchor \<Rightarrow> entry_proof \<Rightarrow> bool" where
  "proof_verifies lib ctx ch p =
     (ep_batchIndex p \<ge> 0 \<and>
      verifyEntry lib (lc_chainId ctx) (lc_anchor ctx) ch (lower (lc_operator ctx)) (nat (ep_batchIndex p))
        (ep_agentId p) (ep_timestamp p) (ep_recipient p) (ep_verdict p) (ep_entryHash p) (ep_proof p))"

lemma proofs_verify_iff_root:
  assumes "(k, p) \<in> set (AuditLogger_proofsForBatch lib kec num ops i ctx s)"
    and "proofs_lead_to_root lib (leaves_of kec num ctx (so_entriesInBatch ops i s))"
    and "0 \<le> i" "nat i < length (an_batches ch (lower (lc_operator ctx)))"
  shows "proof_verifies lib ctx ch p \<longleftrightarrow>
     ml_root lib (leaves_of kec num ctx (so_entriesInBatch ops i s)) =
       b_merkleRoot (an_batches ch (lower (lc_operator ctx)) ! nat i)"
proof -
  let ?rows = "so_entriesInBatch ops i s"
  let ?vs = "leaves_of kec num ctx ?rows"
  obtain lr b where b: "MerkleAuditBatch_root lib (batch_of kec num ctx ?rows) = (lr, b)" by force
  have fresh: "mb_values b = ?vs" "batch_fresh b"
    using root_batch_of [of lib kec num ctx ?rows] b by simp_all
  obtain j where j: "j < length ?rows"
    "(k, p) = proof_entry lib i b lr ?rows (map (canonicalize kec num) ?rows) j"
    using assms(1) b by (auto simp: AuditLogger_proofsForBatch_def Let_def)
  have "ep_proof p = ml_proof lib ?vs j"
    using j(2) build_fresh [OF fresh(2)] fresh(1)
    by (auto simp: proof_entry_def MerkleAuditBatch_proofAt_def Let_def split: prod.splits)
  moreover have "leafHash lib (lc_chainId ctx) (lc_anchor ctx) (lower (lc_operator ctx)) (ep_agentId p)
      (ep_timestamp p) (ep_recipient p) (ep_verdict p) (ep_entryHash p) = ml_leafHash lib (?vs ! j)"
    using j by (simp add: proof_entry_def Let_def leafHash_def leaves_of_def entryToLeaf_def abi_leaf_def)
  moreover have "ep_batchIndex p = i"
    using j(2) by (simp add: proof_entry_def Let_def)
  moreover have "length (ml_proof lib ?vs j) \<le> MAX_PROOF_LENGTH"
    "process_proof lib (ml_leafHash lib (?vs ! j)) (ml_proof lib ?vs j) = ml_root lib ?vs"
    using assms(2) j(1) by (simp_all add: proofs_lead_to_root_def leaves_of_def)
  ultimately show ?thesis
    using assms(3,4) by (simp add: proof_verifies_def verifyEntry_def)
qed

text \<open>A recorded batch agrees with the chain.\<close>

definition batch_matches :: "anchor \<Rightarrow> address \<Rightarrow> int \<times> hex \<Rightarrow> bool" where
  "batch_matches ch operator p \<longleftrightarrow>
     fst p \<ge> 0 \<and> (case AuditAnchorClient_getBatch ch operator (nat (fst p)) of (found, onRoot, _, _) \<Rightarrow>
        found \<and> lower onRoot = lower (snd p))"

lemma commitBatch_getBatch:
  assumes "commitBatch a ts prev mr n st = Inr (i, ev, st')"
  shows "an_head st' a = mr" "getBatch st' a i = (True, mr, uint64 ts, n)" "i = getBatchCount st a"
    "getBatchCount st' a = Suc i" "j < i \<Longrightarrow> getBatch st' a j = getBatch st a j"
  using assms by (auto simp: commitBatch_ok getBatch_def getBatchCount_def Let_def nth_append)

text \<open>A flush that returned a batch: the commitment it made and how it tagged the rows.\<close>

lemma flush_committed:
  assumes "AuditLogger_flush lib kec num ops lg env w = (Some (Inr (Some res)), w')"
    and "\<And>c a ev. lg_client lg = Some c \<Longrightarrow> (a, ev) \<in> set (tx_logs (fe_tx env)) \<Longrightarrow> lower a \<noteq> lower (ac_contractAddress c)"
  obtains c operator ctx ev where "lg_client lg = Some c" "ac_committer c = Some operator"
    "AuditAnchorClient_leafContext c operator = Inr ctx" "so_unbatched ops (w_store w) \<noteq> []"
    "commitBatch (lower operator) (tx_time (fe_tx env)) (AuditAnchorClient_head (w_chain w) operator)
       (ml_root lib (leaves_of kec num ctx (so_unbatched ops (w_store w)))) (length (so_unbatched ops (w_store w)))
       (fe_before env (w_chain w)) = Inr (fr_batchIndex res, ev, w_chain w')"
    "w_store w' = so_markBatched ops (map e_id (so_unbatched ops (w_store w))) (int (fr_batchIndex res))
       (ml_root lib (leaves_of kec num ctx (so_unbatched ops (w_store w)))) (fe_arrivals env (w_store w))"
    "fr_entryCount res = length (so_unbatched ops (w_store w))"
proof -
  let ?rows = "so_unbatched ops (w_store w)"
  obtain c where c: "lg_client lg = Some c" "?rows \<noteq> []"
    using assms(1) by (auto simp: AuditLogger_flush_def Let_def split: option.splits if_splits)
  obtain operator where o: "ac_committer c = Some operator"
    using assms(1) c by (auto simp: AuditLogger_flush_def Let_def AuditAnchorClient_operatorAddress_def split: option.splits if_splits)
  obtain ctx where ctx: "AuditAnchorClient_leafContext c operator = Inr ctx"
    using assms(1) c o by (auto simp: AuditLogger_flush_def Let_def AuditAnchorClient_operatorAddress_def split: sum.splits)
  let ?mr = "ml_root lib (leaves_of kec num ctx ?rows)"
  have mr: "fst (MerkleAuditBatch_root lib (batch_of kec num ctx ?rows)) = ?mr" using root_batch_of c(2) by simp
  obtain r ch where com: "AuditAnchorClient_commit c (AuditAnchorClient_head (w_chain w) operator) ?mr (length ?rows)
        (fe_tx env) (fe_before env (w_chain w)) = (Some (Inr r), ch)"
    and res: "fr_batchIndex res = cr_batchIndex r" "fr_entryCount res = length ?rows"
    and w': "w_chain w' = ch" "w_store w' = so_markBatched ops (map e_id ?rows) (int (cr_batchIndex r)) ?mr
        (fe_arrivals env (w_store w))"
    using assms(1) c o ctx mr
    by (auto simp: AuditLogger_flush_def Let_def AuditAnchorClient_operatorAddress_def
        split: option.splits sum.splits prod.splits)
  obtain i ev where "commitBatch (lower operator) (tx_time (fe_tx env)) (AuditAnchorClient_head (w_chain w) operator)
        ?mr (length ?rows) (fe_before env (w_chain w)) = Inr (i, ev, ch)" "cr_batchIndex r = i"
    by (rule commit_success [OF com]) (use assms(2) c o that in auto)
  then show thesis using that [OF c(1) o ctx c(2)] res w' by simp
qed

lemma flush_uncommitted:
  assumes "AuditLogger_flush lib kec num ops lg env w = (out, w')" "\<nexists>res. out = Some (Inr (Some res))" "fe_arrivals env = id"
  shows "w_store w' = w_store w"
  using assms by (auto simp: AuditLogger_flush_def Let_def split: option.splits sum.splits prod.splits if_splits)

section \<open>Over any store\<close>

text \<open>What may happen to the store while a commit is awaited: entries are recorded.\<close>

context audit_store
begin

definition arrived :: "'s \<Rightarrow> 's \<Rightarrow> stored_row list \<Rightarrow> bool" where
  "arrived s s2 ns \<longleftrightarrow> inv s2 \<and> rows s2 = rows s @ ns \<and> (\<forall>r \<in> set ns. sr_batchIndex r = None)"

lemma unbatched_ids:
  assumes "inv s" "arrived s s2 ns" "r \<in> set (rows s2)"
  shows "row_key r \<in> set (map e_id (so_unbatched ops s)) \<longleftrightarrow> r \<in> set (rows s) \<and> sr_batchIndex r = None"
proof
  assume "row_key r \<in> set (map e_id (so_unbatched ops s))"
  then obtain q where q: "q \<in> set (rows s)" "sr_batchIndex q = None" "row_key r = row_key q"
    using unbatched_rows [OF assms(1)] by (auto simp: row_key_def)
  moreover have "inj_on row_key (set (rows s2))"
    using distinct_keys [of s2] assms(2) by (simp add: arrived_def distinct_map)
  ultimately have "r = q"
    using assms(2,3) by (auto simp: arrived_def dest: inj_onD)
  then show "r \<in> set (rows s) \<and> sr_batchIndex r = None" using q by simp
next
  assume "r \<in> set (rows s) \<and> sr_batchIndex r = None"
  then show "row_key r \<in> set (map e_id (so_unbatched ops s))"
    using unbatched_rows [OF assms(1)] by (auto simp: row_key_def)
qed

text \<open>Tagging the entries that were unbatched puts exactly them into the new batch.\<close>

lemma mark_batch:
  fixes mr :: hex
  assumes "inv s" "arrived s s2 ns" "\<And>r. r \<in> set (rows s) \<Longrightarrow> sr_batchIndex r \<noteq> Some i"
  defines "s3 \<equiv> so_markBatched ops (map e_id (so_unbatched ops s)) i mr s2"
  shows "inv s3 \<and> so_entriesInBatch ops i s3 = so_unbatched ops s \<and> so_unbatched ops s3 = map sr_entry ns"
proof -
  let ?P = "\<lambda>r. row_key r \<in> set (map e_id (so_unbatched ops s))"
  have s2: "inv s2" "rows s2 = rows s @ ns" using assms(2) by (simp_all add: arrived_def)
  have s3: "inv s3" "rows s3 = map (\<lambda>r. if ?P r then tag_row i mr r else r) (rows s @ ns)"
    using markBatched_rows [OF s2(1)] s2(2) by (simp_all add: s3_def)
  have old: "?P r \<longleftrightarrow> sr_batchIndex r = None" if "r \<in> set (rows s)" for r
    using unbatched_ids [OF assms(1,2)] that s2 by auto
  have "distinct (map row_key (rows s @ ns))" using distinct_keys [OF s2(1)] s2(2) by simp
  then have new: "\<not> ?P r" "sr_batchIndex r = None" if "r \<in> set ns" for r
    using that unbatched_ids [OF assms(1,2), of r] s2 assms(2) by (auto simp: arrived_def)
  have "map (\<lambda>r. if ?P r then tag_row i mr r else r) (rows s) =
      map (\<lambda>r. if sr_batchIndex r = None then tag_row i mr r else r) (rows s)"
    "map (\<lambda>r. if ?P r then tag_row i mr r else r) ns = ns"
    using old new by (auto intro!: map_cong map_idI)
  then have r3: "rows s3 = map (\<lambda>r. if sr_batchIndex r = None then tag_row i mr r else r) (rows s) @ ns"
    using s3(2) by simp
  have "map sr_entry (filter (\<lambda>r. sr_batchIndex r = Some i)
        (map (\<lambda>r. if sr_batchIndex r = None then tag_row i mr r else r) rs)) =
      map sr_entry (filter (\<lambda>r. sr_batchIndex r = None) rs) \<and>
      filter (\<lambda>r. sr_batchIndex r = None)
        (map (\<lambda>r. if sr_batchIndex r = None then tag_row i mr r else r) rs) = []"
    if "\<forall>r \<in> set rs. sr_batchIndex r \<noteq> Some i" for rs
    using that by (induction rs) (auto simp: tag_row_def)
  moreover have "filter (\<lambda>r. sr_batchIndex r = Some i) ns = []" "filter (\<lambda>r. sr_batchIndex r = None) ns = ns"
    using new(2) by (auto simp: filter_empty_conv filter_id_conv)
  ultimately show ?thesis
    using assms(3) s3(1) r3 entriesInBatch_rows [OF s3(1)] unbatched_rows [OF s3(1)] unbatched_rows [OF assms(1)]
    by simp
qed

text \<open>A successful flush.\<close>

lemma flush_success:
  assumes fl: "AuditLogger_flush lib kec num ops lg env w = (Some (Inr (Some res)), w')"
    and logs: "\<And>c a ev. lg_client lg = Some c \<Longrightarrow> (a, ev) \<in> set (tx_logs (fe_tx env)) \<Longrightarrow>
      lower a \<noteq> lower (ac_contractAddress c)"
    and s: "inv (w_store w)" "arrived (w_store w) (fe_arrivals env (w_store w)) ns"
    and fresh: "\<And>r i. r \<in> set (rows (w_store w)) \<Longrightarrow> sr_batchIndex r = Some i \<Longrightarrow>
      i < int (getBatchCount (fe_before env (w_chain w)) (lower (the (ac_committer (the (lg_client lg))))))"
  obtains c operator ctx where "lg_client lg = Some c" "ac_committer c = Some operator"
    "AuditAnchorClient_leafContext c operator = Inr ctx"
    "so_entriesInBatch ops (int (fr_batchIndex res)) (w_store w') = so_unbatched ops (w_store w)"
    "so_unbatched ops (w_store w') = map sr_entry ns" "inv (w_store w')"
    "getBatch (w_chain w') (lower operator) (fr_batchIndex res) =
       (True, ml_root lib (leaves_of kec num ctx (so_unbatched ops (w_store w))), uint64 (tx_time (fe_tx env)),
        length (so_unbatched ops (w_store w)))"
    "fr_entryCount res = length (so_unbatched ops (w_store w))"
proof -
  let ?rows = "so_unbatched ops (w_store w)"
  obtain c operator ctx ev where c: "lg_client lg = Some c" "ac_committer c = Some operator"
    "AuditAnchorClient_leafContext c operator = Inr ctx"
    and co: "commitBatch (lower operator) (tx_time (fe_tx env)) (AuditAnchorClient_head (w_chain w) operator)
       (ml_root lib (leaves_of kec num ctx ?rows)) (length ?rows) (fe_before env (w_chain w)) = Inr (fr_batchIndex res, ev, w_chain w')"
    and w': "w_store w' = so_markBatched ops (map e_id ?rows) (int (fr_batchIndex res)) (ml_root lib (leaves_of kec num ctx ?rows))
       (fe_arrivals env (w_store w))" "fr_entryCount res = length ?rows"
    by (rule flush_committed [OF fl logs])
  note batch = commitBatch_getBatch [OF co]
  have "sr_batchIndex q \<noteq> Some (int (fr_batchIndex res))" if "q \<in> set (rows (w_store w))" for q
    using fresh [OF that, of "int (fr_batchIndex res)"] batch(3) c by auto
  then have "inv (w_store w') \<and> so_entriesInBatch ops (int (fr_batchIndex res)) (w_store w') = ?rows \<and>
      so_unbatched ops (w_store w') = map sr_entry ns"
    using mark_batch [OF s, of "int (fr_batchIndex res)" "ml_root lib (leaves_of kec num ctx ?rows)"] w'(1) by simp
  then show thesis using that [OF c] batch(2) w'(2) by simp
qed

text \<open>A released batch is unbatched again; the others keep their rows.\<close>

lemma release_keeps:
  assumes "inv s" "j \<noteq> i"
  shows "so_entriesInBatch ops j (snd (so_releaseBatch ops i s)) = so_entriesInBatch ops j s"
proof -
  have r: "inv (snd (so_releaseBatch ops i s))" "rows (snd (so_releaseBatch ops i s)) = map (untag_row i) (rows s)"
    using releaseBatch_rows [OF assms(1)] by auto
  have "map sr_entry (filter (\<lambda>r. sr_batchIndex r = Some j) (map (untag_row i) rs)) =
      map sr_entry (filter (\<lambda>r. sr_batchIndex r = Some j) rs)" for rs
    using assms(2) by (induction rs) (auto simp: untag_row_def)
  then show ?thesis
    using entriesInBatch_rows [OF r(1)] entriesInBatch_rows [OF assms(1)] r(2) by simp
qed

lemma reconcile_step_eq:
  "reconcile_step ops ch operator p (stale, released, s) =
     (if batch_matches ch operator p then (stale, released, s)
      else (stale @ [fst p], released + fst (so_releaseBatch ops (fst p) s), snd (so_releaseBatch ops (fst p) s)))"
  by (cases p) (auto simp: reconcile_step_def batch_matches_def Let_def split: prod.splits)

lemma reconcile_fold:
  assumes "inv s" "fold (reconcile_step ops ch operator) ps (stale, released, s) = (stale', released', s')"
  shows "inv s' \<and> stale' = stale @ map fst (filter (\<lambda>p. \<not> batch_matches ch operator p) ps) \<and>
     rows s' = map (\<lambda>r. if \<exists>p \<in> set ps. \<not> batch_matches ch operator p \<and> sr_batchIndex r = Some (fst p)
                        then r\<lparr>sr_batchIndex := None, sr_batchRoot := None\<rparr> else r) (rows s)"
  using assms
proof (induction ps arbitrary: stale released s)
  case (Cons p ps)
  show ?case
  proof (cases "batch_matches ch operator p")
    case True
    then show ?thesis
      using Cons.IH [of s stale released] Cons.prems by (auto simp: reconcile_step_eq intro!: map_cong)
  next
    case False
    have r: "inv (snd (so_releaseBatch ops (fst p) s))"
      "rows (snd (so_releaseBatch ops (fst p) s)) = map (untag_row (fst p)) (rows s)"
      using releaseBatch_rows [OF Cons.prems(1)] by auto
    show ?thesis
      using Cons.IH [OF r(1), of "stale @ [fst p]" "released + fst (so_releaseBatch ops (fst p) s)"] Cons.prems False r(2)
      by (auto simp: reconcile_step_eq untag_row_def comp_def intro!: map_cong)
  qed
qed simp

end

section \<open>A commit that is awaited for too long\<close>

lemma commit_waiting:
  assumes "AuditAnchorClient_commit c prev mr n tx st = (None, st')"
  obtains sender i ev where "ac_committer c = Some sender"
    "commitBatch (lower sender) (tx_time tx) prev mr n st = Inr (i, ev, st')"
  using assms that
  by (auto simp: AuditAnchorClient_commit_def split: option.splits sum.splits prod.splits)

section \<open>What an edit changes\<close>

text \<open>The fields of an entry that its leaf carries, the hash recomputed from its contents.\<close>

definition leaf_fields ::
  "(string \<Rightarrow> hex) \<Rightarrow> (real \<Rightarrow> string) \<Rightarrow> audit_entry \<Rightarrow> string \<times> int \<times> address \<times> nat \<times> hex" where
  "leaf_fields kec num e =
     (e_agentId e, e_timestamp e, lower (r_recipient (e_request e)),
      verdict_to_num (d_verdict (e_decision e)), recomputeEntryHash kec num e)"

definition leaf_with :: "leaf_context \<Rightarrow> string \<times> int \<times> address \<times> nat \<times> hex \<Rightarrow> leaf" where
  "leaf_with ctx p = (case p of (a, t, r, v, h) \<Rightarrow>
     \<lparr>lf_chainId = lc_chainId ctx, lf_anchor = lower (lc_anchor ctx), lf_operator = lower (lc_operator ctx),
      lf_agentId = a, lf_timestamp = t, lf_recipient = r, lf_verdict = v, lf_entryHash = h\<rparr>)"

lemma leaves_of_fields: "leaves_of kec num ctx es = map (leaf_with ctx) (map (leaf_fields kec num) es)"
  by (simp add: leaves_of_def leaf_with_def leaf_fields_def entryToLeaf_def abi_leaf_def)

lemma inj_leaf_with: "inj (leaf_with ctx)"
  by (auto intro!: injI simp: leaf_with_def split: prod.splits)

lemma mset_leaves_eq:
  "mset (leaves_of kec num ctx es) = mset (leaves_of kec num ctx fs) \<longleftrightarrow>
     mset (map (leaf_fields kec num) es) = mset (map (leaf_fields kec num) fs)"
  unfolding leaves_of_fields mset_map [of "leaf_with ctx"]
  using multiset.inj_map [OF inj_leaf_with [of ctx]] by (simp add: inj_eq)

section \<open>Properties\<close>

text \<open>
  C11. What is anchored verifies: after a flush that returned, whatever was recorded while it
  waited, the batch it names holds exactly the entries that were unanchored before, in order,
  with a proof for each; the contract accepts every one of these proofs; the batch's entry count
  on chain is their number; and the entries recorded meanwhile are the unanchored ones now. The
  hypotheses: no other contract's log carries the anchor's address, no local row is tagged with
  an index that the chain has not reached, and the tree library's proofs lead to its root.
\<close>

theorem anchored_entries_verify:
  assumes "AuditLogger_flush lib kec num (sqlite_ops fu) lg env w = (Some (Inr (Some res)), w')"
    and "lg_client lg = Some c" "ac_committer c = Some operator"
      "AuditAnchorClient_leafContext c operator = Inr ctx"
    and "\<And>a ev. (a, ev) \<in> set (tx_logs (fe_tx env)) \<Longrightarrow> lower a \<noteq> lower (ac_contractAddress c)"
    and "sqlite_inv (w_store w)" "sqlite_inv (fe_arrivals env (w_store w))"
      "fe_arrivals env (w_store w) = w_store w @ ns" "\<And>r. r \<in> set ns \<Longrightarrow> sr_batchIndex r = None"
    and "\<And>r i. r \<in> set (w_store w) \<Longrightarrow> sr_batchIndex r = Some i \<Longrightarrow>
      i < int (getBatchCount (fe_before env (w_chain w)) (lower operator))"
    and "proofs_lead_to_root lib (leaves_of kec num ctx (Sqlite_unbatched (w_store w)))"
  shows "let proofs = AuditLogger_proofsForBatch lib kec num (sqlite_ops fu) (int (fr_batchIndex res)) ctx (w_store w')
     in map fst proofs = map e_id (Sqlite_unbatched (w_store w)) \<and>
        list_all (\<lambda>(k, p). proof_verifies lib ctx (w_chain w') p) proofs \<and>
        snd (snd (snd (getBatch (w_chain w') (lower operator) (fr_batchIndex res)))) = length proofs \<and>
        Sqlite_unbatched (w_store w') = map sr_entry ns"
proof -
  let ?i = "fr_batchIndex res"
  let ?rows = "Sqlite_unbatched (w_store w)"
  have ops: "so_unbatched (sqlite_ops fu) = Sqlite_unbatched" by (simp add: sqlite_ops_def)
  have arr: "sqlite.arrived (w_store w) (fe_arrivals env (w_store w)) ns"
    using assms(7-9) by (simp add: sqlite.arrived_def)
  have res: "so_entriesInBatch (sqlite_ops fu) (int ?i) (w_store w') = ?rows"
    "Sqlite_unbatched (w_store w') = map sr_entry ns"
    "getBatch (w_chain w') (lower operator) ?i =
       (True, ml_root lib (leaves_of kec num ctx ?rows), uint64 (tx_time (fe_tx env)), length ?rows)"
    by (rule sqlite.flush_success [OF assms(1) _ assms(6) arr];
        use assms(2-5,10) in \<open>auto simp: ops\<close>)+
  have op: "lc_operator ctx = operator"
    using assms(4) by (auto simp: AuditAnchorClient_leafContext_def split: sum.splits)
  have in_range: "?i < length (an_batches (w_chain w') (lower operator))"
    "b_merkleRoot (an_batches (w_chain w') (lower operator) ! ?i) = ml_root lib (leaves_of kec num ctx ?rows)"
    using res(3) by (auto simp: getBatch_def Let_def split: if_splits)
  have proofs: "map fst (AuditLogger_proofsForBatch lib kec num (sqlite_ops fu) (int ?i) ctx (w_store w')) = map e_id ?rows"
    by (auto simp: AuditLogger_proofsForBatch_def Let_def res(1) proof_entry_def split: prod.splits intro!: nth_equalityI)
  have "proof_verifies lib ctx (w_chain w') p"
    if "(k, p) \<in> set (AuditLogger_proofsForBatch lib kec num (sqlite_ops fu) (int ?i) ctx (w_store w'))" for k p
    using proofs_verify_iff_root [OF that] assms(11) in_range by (simp add: res(1) op)
  then show ?thesis
    using proofs res(2,3) map_eq_imp_length_eq [OF proofs] by (auto simp: Let_def list_all_iff)
qed

definition ex_lib :: merkle_lib where
  "ex_lib = \<lparr>ml_leafHash = (\<lambda>l. ex_root (CHR ''a'')), ml_node = (\<lambda>x y. x), ml_root = (\<lambda>vs. ex_root (CHR ''a'')),
     ml_proof = (\<lambda>vs i. []), ml_verify = (\<lambda>vs v p. True)\<rparr>"

definition ex_client :: anchor_client where
  "ex_client = \<lparr>ac_chain = ''eip155:8453'', ac_contractAddress = ''0xc'', ac_committer = Some ''0xop'',
     ac_confirmationTag = Some Latest\<rparr>"

definition ex_tx :: "confirmation_tag \<Rightarrow> tx_outcome" where
  "ex_tx t = \<lparr>tx_hash = ''0xt'', tx_block = 9, tx_time = 7, tx_polls = [], tx_logs = []\<rparr>"

definition ex_env :: "sqlite flush_env" where
  "ex_env = \<lparr>fe_before = (\<lambda>s. s), fe_tx = ex_tx Latest, fe_arrivals = (\<lambda>t. t)\<rparr>"

definition ex_world :: "sqlite world" where
  "ex_world = \<lparr>w_store = [fresh_row (\<lambda>n. ''?'') (ex_audited 5 True)], w_chain = new_anchor, w_anchoring = False,
     w_timer = False\<rparr>"

lemma ex_lower: "lower ''0xop'' = ''0xop''" "lower ''0xc'' = ''0xc''"
  by code_simp+

lemma ex_leafContext: "AuditAnchorClient_leafContext ex_client ''0xop'' =
    Inr \<lparr>lc_chainId = 8453, lc_anchor = ''0xc'', lc_operator = ''0xop''\<rparr>"
  by (simp add: AuditAnchorClient_leafContext_def getChain_def CHAINS_def ex_client_def)

lemma ex_flush:
  "AuditLogger_flush ex_lib (\<lambda>s. s) (\<lambda>x. ''0'') (sqlite_ops (\<lambda>n. ''?'')) \<lparr>lg_client = Some ex_client\<rparr> ex_env ex_world =
     (Some (Inr (Some \<lparr>fr_batchIndex = 0, fr_root = ex_root (CHR ''a''), fr_txHash = ''0xt'', fr_entryCount = 1\<rparr>)),
      ex_world\<lparr>w_chain := snd (snd (projr (commitBatch ''0xop'' 7 ZERO_ROOT (ex_root (CHR ''a'')) 1 new_anchor))),
        w_store := [tag_row 0 (ex_root (CHR ''a'')) (fresh_row (\<lambda>n. ''?'') (ex_audited 5 True))]\<rparr>)"
proof -
  have rows: "so_unbatched (sqlite_ops (\<lambda>n. ''?'')) (w_store ex_world) = [as_stored (\<lambda>n. ''?'') (ex_audited 5 True)]"
    by (simp add: sqlite_ops_def Sqlite_unbatched_def ex_world_def fresh_row_def)
  have mr: "fst (MerkleAuditBatch_root ex_lib (batch_of (\<lambda>s. s) (\<lambda>x. ''0'')
      ctx [as_stored (\<lambda>n. ''?'') (ex_audited 5 True)])) = ex_root (CHR ''a'')" for ctx
    by (simp add: root_batch_of ex_lib_def)
  have chain: "getChain ''eip155:8453'' = Inr (snd (CHAINS ! 1))"
    by (simp add: getChain_def CHAINS_def)
  show ?thesis
    unfolding AuditLogger_flush_def rows Let_def
    using ex_root_nonzero
    by (simp add: AuditAnchorClient_operatorAddress_def ex_client_def [symmetric] ex_leafContext mr)
       (simp add: ex_client_def chain AuditAnchorClient_operatorAddress_def AuditAnchorClient_leafContext_def mr
         AuditAnchorClient_commit_def AuditAnchorClient_awaitDurable_def ex_env_def ex_tx_def ex_lower
         AuditAnchorClient_head_def commitBatch_def Let_def ex_world_def sqlite_ops_def Sqlite_markBatched_map row_key_def
         fresh_row_def new_anchor_def)
qed

theorem anchored_entries_verify_witness:
  "list_all (\<lambda>(k, p). proof_verifies ex_lib \<lparr>lc_chainId = 8453, lc_anchor = ''0xc'', lc_operator = ''0xop''\<rparr>
       (snd (snd (projr (commitBatch ''0xop'' 7 ZERO_ROOT (ex_root (CHR ''a'')) 1 new_anchor)))) p)
     (AuditLogger_proofsForBatch ex_lib (\<lambda>s. s) (\<lambda>x. ''0'') (sqlite_ops (\<lambda>n. ''?'')) 0
       \<lparr>lc_chainId = 8453, lc_anchor = ''0xc'', lc_operator = ''0xop''\<rparr>
       [tag_row 0 (ex_root (CHR ''a'')) (fresh_row (\<lambda>n. ''?'') (ex_audited 5 True))])"
proof -
  have "sqlite_inv (w_store ex_world)" by (simp add: sqlite_inv_def ex_world_def)
  then show ?thesis
    using anchored_entries_verify [OF ex_flush, of ex_client "''0xop''" _ "[]"]
    by (simp add: ex_leafContext ex_env_def ex_tx_def ex_client_def [THEN arg_cong [of _ _ ac_committer]]
        ex_world_def fresh_row_def proofs_lead_to_root_def ex_lib_def Let_def)
qed

text \<open>
  C12. An edited log does not verify: for a committed batch, the proof that is rebuilt for any of
  its entries from the rows as they are now is accepted by the contract exactly if the rows carry
  the same leaf fields as the entries that were committed (agent, timestamp, recipient up to letter
  case, verdict, and the hash recomputed from request, decision and settlement), in any order. The
  hypotheses: the tree library's proofs lead to its root and its root determines the leaves.
\<close>

theorem edited_batch_fails:
  assumes "(k, p) \<in> set (AuditLogger_proofsForBatch lib kec num (sqlite_ops fu) i ctx s)"
    and "0 \<le> i" "nat i < length (an_batches ch (lower (lc_operator ctx)))"
    and "b_merkleRoot (an_batches ch (lower (lc_operator ctx)) ! nat i) = ml_root lib (leaves_of kec num ctx es)"
    and "proofs_lead_to_root lib (leaves_of kec num ctx (Sqlite_entriesInBatch i s))"
    and "ml_root lib (leaves_of kec num ctx (Sqlite_entriesInBatch i s)) = ml_root lib (leaves_of kec num ctx es) \<longleftrightarrow>
      mset (leaves_of kec num ctx (Sqlite_entriesInBatch i s)) = mset (leaves_of kec num ctx es)"
  shows "proof_verifies lib ctx ch p \<longleftrightarrow>
     mset (map (leaf_fields kec num) (Sqlite_entriesInBatch i s)) = mset (map (leaf_fields kec num) es)"
proof -
  have ops: "so_entriesInBatch (sqlite_ops fu) i s = Sqlite_entriesInBatch i s" by (simp add: sqlite_ops_def)
  show ?thesis
    using proofs_verify_iff_root [OF assms(1) _ assms(2,3)] assms(4-6) unfolding ops
    by (simp add: mset_leaves_eq)
qed

text \<open>
  A crash before the rows are tagged anchors them twice: when the process ends while it waits
  for a commit to become durable, reconciliation finds nothing to repair, and the next flush
  commits the same root again, so the operator's history ends with two batches for one set of
  rows, of which only the second is tagged.
\<close>

theorem crash_anchors_twice:
  assumes "AuditLogger_flush lib kec num (sqlite_ops fu) lg env w = (None, w1)"
    and "AuditLogger_flush lib kec num (sqlite_ops fu) lg env2 w1 = (Some (Inr (Some res)), w2)"
    and "lg_client lg = Some c" "ac_committer c = Some operator"
    and "fe_before env2 = (\<lambda>ch. ch)" "tx_logs (fe_tx env2) = []"
    and "\<And>r. r \<in> set (w_store w) \<Longrightarrow> sr_batchIndex r = None"
  shows "snd (AuditLogger_reconcile (sqlite_ops fu) lg w1) = w1 \<and> w_store w1 = w_store w \<and>
     fr_batchIndex res \<ge> 1 \<and>
     fst (snd (getBatch (w_chain w2) (lower operator) (fr_batchIndex res - 1))) =
       fst (snd (getBatch (w_chain w2) (lower operator) (fr_batchIndex res))) \<and>
     getBatchCount (w_chain w2) (lower operator) = fr_batchIndex res + 1"
proof -
  let ?rows = "so_unbatched (sqlite_ops fu) (w_store w)"
  have op: "AuditAnchorClient_operatorAddress c = Inr operator"
    using assms(4) by (simp add: AuditAnchorClient_operatorAddress_def)
  obtain ctx ch where rows: "?rows \<noteq> []" and ctx: "AuditAnchorClient_leafContext c operator = Inr ctx"
    and c1: "AuditAnchorClient_commit c (AuditAnchorClient_head (w_chain w) operator)
        (fst (MerkleAuditBatch_root lib (batch_of kec num ctx ?rows))) (length ?rows) (fe_tx env)
        (fe_before env (w_chain w)) = (None, ch)" and w1: "w1 = w\<lparr>w_chain := ch\<rparr>"
    using assms(1) assms(3) op
    by (auto simp: AuditLogger_flush_def Let_def split: option.splits sum.splits prod.splits if_splits)
  let ?mr = "fst (MerkleAuditBatch_root lib (batch_of kec num ctx ?rows))"
  obtain i ev where com1: "commitBatch (lower operator) (tx_time (fe_tx env)) (AuditAnchorClient_head (w_chain w) operator)
      ?mr (length ?rows) (fe_before env (w_chain w)) = Inr (i, ev, ch)"
    by (rule commit_waiting [OF c1]) (use assms(4) in auto)
  obtain r ch2 where c2: "AuditAnchorClient_commit c (AuditAnchorClient_head ch operator) ?mr (length ?rows)
        (fe_tx env2) ch = (Some (Inr r), ch2)" and res: "fr_batchIndex res = cr_batchIndex r" and w2: "w_chain w2 = ch2"
    using assms(2,3,5) op ctx rows
    by (auto simp: AuditLogger_flush_def Let_def w1 split: option.splits sum.splits prod.splits if_splits)
  obtain j ev2 where com2: "commitBatch (lower operator) (tx_time (fe_tx env2)) (AuditAnchorClient_head ch operator)
      ?mr (length ?rows) ch = Inr (j, ev2, ch2)" "cr_batchIndex r = j"
    by (rule commit_success [OF c2]) (use assms(4,6) in auto)
  have j: "j = Suc i" using commitBatch_getBatch(3,4) [OF com1] commitBatch_getBatch(3) [OF com2(1)] by simp
  have "getBatch ch2 (lower operator) i = (True, ?mr, uint64 (tx_time (fe_tx env)), length ?rows)"
    using commitBatch_getBatch(5) [OF com2(1), of i] commitBatch_getBatch(2) [OF com1] j by simp
  moreover have "so_anchoredBatches (sqlite_ops fu) (w_store w1) = []"
    using assms(7) by (auto simp: sqlite_ops_def Sqlite_anchoredBatches_def w1 map_filter_set batch_pair_def
        set_empty [symmetric] simp del: set_empty)
  ultimately show ?thesis
    using commitBatch_getBatch(2,4) [OF com2(1)] j res com2(2) w1 w2 op assms(3)
    by (simp add: AuditLogger_reconcile_def)
qed

text \<open>Once the stale batches are released, every batch that is left matches the chain.\<close>

lemma released_match:
  assumes stale: "stale = map fst (filter (\<lambda>p. \<not> batch_matches ch operator p) (Sqlite_anchoredBatches t))"
    and s: "s = map (\<lambda>r. if sr_batchIndex r \<in> Some ` set stale
                          then r\<lparr>sr_batchIndex := None, sr_batchRoot := None\<rparr> else r) t"
  shows "list_all (batch_matches ch operator) (Sqlite_anchoredBatches s)"
  unfolding list_all_iff
proof (intro ballI)
  fix p
  have mem: "p \<in> set (Sqlite_anchoredBatches t) \<longleftrightarrow> (\<exists>q \<in> set t. batch_pair q = Some p)" for t
    by (simp add: Sqlite_anchoredBatches_def map_filter_set)
  assume "p \<in> set (Sqlite_anchoredBatches s)"
  then obtain q where q: "q \<in> set s" "batch_pair q = Some p" using mem by blast
  have "\<exists>r \<in> set t. q = (if sr_batchIndex r \<in> Some ` set stale
      then r\<lparr>sr_batchIndex := None, sr_batchRoot := None\<rparr> else r)"
    using q(1) unfolding s set_map by blast
  then obtain r where r: "r \<in> set t"
    "q = (if sr_batchIndex r \<in> Some ` set stale then r\<lparr>sr_batchIndex := None, sr_batchRoot := None\<rparr> else r)" ..
  moreover have kept: "sr_batchIndex r \<notin> Some ` set stale"
    using q(2) r(2) by (cases "sr_batchIndex r \<in> Some ` set stale") (simp_all add: batch_pair_def)
  ultimately have pair: "batch_pair r = Some p" using q(2) by simp
  then have "sr_batchIndex r = Some (fst p)" by (auto simp: batch_pair_def split: option.splits)
  moreover have "fst p \<in> set stale" if "\<not> batch_matches ch operator p"
    unfolding stale set_map set_filter using mem r(1) pair that by blast
  ultimately show "batch_matches ch operator p" using kept by blast
qed

text \<open>
  C19. Reconciliation repairs a reorganised chain: it reports exactly the locally recorded batches
  whose root is absent from the chain or different, afterwards every recorded batch agrees with
  the chain, the entries of the reported batches are unanchored again, and no other row changes.
\<close>

theorem reconcile_releases_stale:
  assumes "AuditLogger_reconcile (sqlite_ops fu) lg w = (Inr (Some rc), w')"
    and "lg_client lg = Some c" "ac_committer c = Some operator" "sqlite_inv (w_store w)"
  shows "rc_staleBatches rc =
       map fst (filter (\<lambda>p. \<not> batch_matches (w_chain w) operator p) (Sqlite_anchoredBatches (w_store w))) \<and>
     list_all (batch_matches (w_chain w) operator) (Sqlite_anchoredBatches (w_store w')) \<and>
     w_store w' = map (\<lambda>r. if sr_batchIndex r \<in> Some ` set (rc_staleBatches rc)
                          then r\<lparr>sr_batchIndex := None, sr_batchRoot := None\<rparr> else r) (w_store w)"
proof -
  let ?ps = "Sqlite_anchoredBatches (w_store w)"
  have op: "AuditAnchorClient_operatorAddress c = Inr operator"
    using assms(3) by (simp add: AuditAnchorClient_operatorAddress_def)
  obtain stale n s where f: "fold (reconcile_step (sqlite_ops fu) (w_chain w) operator) ?ps ([], 0, w_store w) = (stale, n, s)"
    by (metis prod_cases3)
  have rc: "rc_staleBatches rc = stale" "w_store w' = s"
    using assms(1,2) op f by (auto simp: AuditLogger_reconcile_def sqlite_ops_def)
  have fold: "stale = map fst (filter (\<lambda>p. \<not> batch_matches (w_chain w) operator p) ?ps)"
    "s = map (\<lambda>r. if \<exists>p \<in> set ?ps. \<not> batch_matches (w_chain w) operator p \<and> sr_batchIndex r = Some (fst p)
                  then r\<lparr>sr_batchIndex := None, sr_batchRoot := None\<rparr> else r) (w_store w)"
    using sqlite.reconcile_fold [OF assms(4) f] by simp_all
  then have s: "s = map (\<lambda>r. if sr_batchIndex r \<in> Some ` set stale
                          then r\<lparr>sr_batchIndex := None, sr_batchRoot := None\<rparr> else r) (w_store w)"
    by (auto intro!: map_cong)
  then have "list_all (batch_matches (w_chain w) operator) (Sqlite_anchoredBatches s)"
    by (rule released_match [OF fold(1)])
  then show ?thesis unfolding rc by (intro conjI fold(1) s)
qed

text \<open>The log of the previous example with its settlement rewritten: its proof is refused.\<close>

definition ex_ctx :: leaf_context where
  "ex_ctx = \<lparr>lc_chainId = 8453, lc_anchor = ''0xc'', lc_operator = ''0xop''\<rparr>"

definition ex_lib_of :: "leaf list \<Rightarrow> merkle_lib" where
  "ex_lib_of good = \<lparr>ml_leafHash = (\<lambda>l. if [l] = good then ex_root (CHR ''a'') else ex_root (CHR ''b'')),
     ml_node = (\<lambda>x y. x), ml_root = (\<lambda>vs. if vs = good then ex_root (CHR ''a'') else ex_root (CHR ''b'')),
     ml_proof = (\<lambda>vs i. []), ml_verify = (\<lambda>vs v p. True)\<rparr>"

definition ex_edited :: sqlite where
  "ex_edited = [tag_row 0 (ex_root (CHR ''a'')) (fresh_row (\<lambda>n. ''?'') (ex_audited 5 False))]"

definition ex_good :: "leaf list" where
  "ex_good = leaves_of (\<lambda>s. s) (\<lambda>x. ''0'') ex_ctx [ex_audited 5 True]"

lemma ex_hash_differs:
  "recomputeEntryHash (\<lambda>s. s) (\<lambda>x. ''0'') (ex_audited 5 False) \<noteq> recomputeEntryHash (\<lambda>s. s) (\<lambda>x. ''0'') (ex_audited 5 True)"
  by (simp add: recomputeEntryHash_def hashEntry_def entry_canonical_def ex_audited_def settlement_canonical_def)

lemma ex_edited_leaves:
  "Sqlite_entriesInBatch 0 ex_edited = [as_stored (\<lambda>n. ''?'') (ex_audited 5 False)]"
  "mset (leaves_of (\<lambda>s. s) (\<lambda>x. ''0'') ex_ctx [as_stored (\<lambda>n. ''?'') (ex_audited 5 False)]) \<noteq> mset ex_good"
  by (simp_all only: ex_good_def mset_leaves_eq)
     (simp_all add: Sqlite_entriesInBatch_def ex_edited_def tag_row_def fresh_row_def leaf_fields_def ex_hash_differs)

theorem edited_batch_fails_witness:
  "list_all (\<lambda>(k, p). \<not> proof_verifies (ex_lib_of ex_good) ex_ctx ex_anchor p)
     (AuditLogger_proofsForBatch (ex_lib_of ex_good) (\<lambda>s. s) (\<lambda>x. ''0'') (sqlite_ops (\<lambda>n. ''?'')) 0 ex_ctx ex_edited)"
proof -
  let ?bad = "leaves_of (\<lambda>s. s) (\<lambda>x. ''0'') ex_ctx (Sqlite_entriesInBatch 0 ex_edited)"
  have bad: "?bad \<noteq> ex_good" "length ?bad = 1" using ex_edited_leaves by (auto simp: leaves_of_def)
  have ab: "ex_root (CHR ''b'') \<noteq> ex_root (CHR ''a'')" by (simp add: ex_root_def)
  have op: "lower (lc_operator ex_ctx) = ''0xop''" using ex_lower by (simp add: ex_ctx_def)
  have "\<not> proof_verifies (ex_lib_of ex_good) ex_ctx ex_anchor p"
    if p: "(k, p) \<in> set (AuditLogger_proofsForBatch (ex_lib_of ex_good) (\<lambda>s. s) (\<lambda>x. ''0'') (sqlite_ops (\<lambda>n. ''?''))
      0 ex_ctx ex_edited)" for k p
  proof -
    have "proof_verifies (ex_lib_of ex_good) ex_ctx ex_anchor p \<longleftrightarrow>
       mset (map (leaf_fields (\<lambda>s. s) (\<lambda>x. ''0'')) (Sqlite_entriesInBatch 0 ex_edited)) =
       mset (map (leaf_fields (\<lambda>s. s) (\<lambda>x. ''0'')) [ex_audited 5 True])"
      using bad ab ex_edited_leaves
      by (intro edited_batch_fails [OF p])
         (auto simp: op ex_anchor_def ex_lib_of_def ex_good_def [symmetric] proofs_lead_to_root_def length_Suc_conv)
    then show ?thesis
      using ex_edited_leaves(2) unfolding ex_good_def mset_leaves_eq ex_edited_leaves(1) by simp
  qed
  then show ?thesis by (auto simp: list_all_iff)
qed

text \<open>Two flushes of the same row: the first is cut off while it waits, the second returns.\<close>

definition ex_safe_client :: anchor_client where
  "ex_safe_client = \<lparr>ac_chain = ''eip155:8453'', ac_contractAddress = ''0xc'', ac_committer = Some ''0xop'',
     ac_confirmationTag = Some Safe\<rparr>"

definition ex_safe_env :: "(poll \<times> bool) list \<Rightarrow> sqlite flush_env" where
  "ex_safe_env polls = \<lparr>fe_before = (\<lambda>s. s),
     fe_tx = \<lparr>tx_hash = ''0xt'', tx_block = 9, tx_time = 7, tx_polls = polls, tx_logs = []\<rparr>, fe_arrivals = (\<lambda>t. t)\<rparr>"

definition ex_once :: anchor where
  "ex_once = snd (snd (projr (commitBatch ''0xop'' 7 ZERO_ROOT (ex_root (CHR ''a'')) 1 new_anchor)))"

definition ex_twice :: anchor where
  "ex_twice = snd (snd (projr (commitBatch ''0xop'' 7 (ex_root (CHR ''a'')) (ex_root (CHR ''a'')) 1 ex_once)))"

lemma ex_commits:
  "AuditAnchorClient_commit ex_safe_client ZERO_ROOT (ex_root (CHR ''a'')) 1 (fe_tx (ex_safe_env [])) new_anchor =
     (None, ex_once)"
  "AuditAnchorClient_commit ex_safe_client (ex_root (CHR ''a'')) (ex_root (CHR ''a'')) 1
      (fe_tx (ex_safe_env [(PollBlock (Some 9), False)])) ex_once =
     (Some (Inr \<lparr>cr_txHash = ''0xt'', cr_batchIndex = 1, cr_root = ex_root (CHR ''a'')\<rparr>), ex_twice)"
  "an_head ex_once ''0xop'' = ex_root (CHR ''a'')"
  using ex_root_nonzero
  by (simp_all add: AuditAnchorClient_commit_def ex_safe_client_def getChain_def CHAINS_def ex_lower commitBatch_def
      new_anchor_def Let_def AuditAnchorClient_awaitDurable_def ex_safe_env_def ex_once_def ex_twice_def)

lemma ex_flush_gen:
  "AuditLogger_flush ex_lib (\<lambda>s. s) (\<lambda>x. ''0'') (sqlite_ops (\<lambda>n. ''?'')) \<lparr>lg_client = Some ex_safe_client\<rparr> env
      (ex_world\<lparr>w_chain := st\<rparr>) =
     (case AuditAnchorClient_commit ex_safe_client (an_head st ''0xop'') (ex_root (CHR ''a'')) 1 (fe_tx env) (fe_before env st) of
        (None, ch) \<Rightarrow> (None, ex_world\<lparr>w_chain := ch\<rparr>)
      | (Some (Inl e), ch) \<Rightarrow> (Some (Inl e), ex_world\<lparr>w_chain := ch, w_store := fe_arrivals env (w_store ex_world)\<rparr>)
      | (Some (Inr r), ch) \<Rightarrow>
          (Some (Inr (Some \<lparr>fr_batchIndex = cr_batchIndex r, fr_root = ex_root (CHR ''a''), fr_txHash = cr_txHash r,
             fr_entryCount = 1\<rparr>)),
           ex_world\<lparr>w_chain := ch, w_store := so_markBatched (sqlite_ops (\<lambda>n. ''?'')) [''e''] (int (cr_batchIndex r))
              (ex_root (CHR ''a'')) (fe_arrivals env (w_store ex_world))\<rparr>))"
proof -
  have rows: "so_unbatched (sqlite_ops (\<lambda>n. ''?'')) (w_store (ex_world\<lparr>w_chain := st\<rparr>)) = [as_stored (\<lambda>n. ''?'') (ex_audited 5 True)]"
    by (simp add: sqlite_ops_def Sqlite_unbatched_def ex_world_def fresh_row_def)
  have mr: "fst (MerkleAuditBatch_root ex_lib (batch_of (\<lambda>s. s) (\<lambda>x. ''0'')
      ctx [as_stored (\<lambda>n. ''?'') (ex_audited 5 True)])) = ex_root (CHR ''a'')" for ctx
    by (simp add: root_batch_of ex_lib_def)
  have i: "e_id (ex_audited 5 True) = ''e''" by (simp add: ex_audited_def)
  have op: "AuditAnchorClient_operatorAddress ex_safe_client = Inr ''0xop''"
    "AuditAnchorClient_leafContext ex_safe_client ''0xop'' = Inr ex_ctx"
    by (simp_all add: AuditAnchorClient_operatorAddress_def ex_safe_client_def AuditAnchorClient_leafContext_def
        getChain_def CHAINS_def ex_ctx_def)
  show ?thesis
    unfolding AuditLogger_flush_def rows Let_def AuditAnchorClient_head_def ex_lower
    by (simp add: op mr i AuditAnchorClient_head_def ex_lower split: prod.split option.split sum.split)
qed

lemma ex_two_flushes:
  "AuditLogger_flush ex_lib (\<lambda>s. s) (\<lambda>x. ''0'') (sqlite_ops (\<lambda>n. ''?'')) \<lparr>lg_client = Some ex_safe_client\<rparr>
     (ex_safe_env []) ex_world = (None, ex_world\<lparr>w_chain := ex_once\<rparr>)"
  "\<exists>w2. AuditLogger_flush ex_lib (\<lambda>s. s) (\<lambda>x. ''0'') (sqlite_ops (\<lambda>n. ''?'')) \<lparr>lg_client = Some ex_safe_client\<rparr>
     (ex_safe_env [(PollBlock (Some 9), False)]) (ex_world\<lparr>w_chain := ex_once\<rparr>) =
     (Some (Inr (Some \<lparr>fr_batchIndex = 1, fr_root = ex_root (CHR ''a''), fr_txHash = ''0xt'', fr_entryCount = 1\<rparr>)), w2) \<and>
     w_chain w2 = ex_twice"
proof -
  have before: "fe_before (ex_safe_env ps) = (\<lambda>s. s)" for ps by (simp add: ex_safe_env_def)
  have "ex_world = ex_world\<lparr>w_chain := new_anchor\<rparr>" by (simp add: ex_world_def)
  moreover have "an_head new_anchor ''0xop'' = ZERO_ROOT" by (simp add: new_anchor_def)
  ultimately show "AuditLogger_flush ex_lib (\<lambda>s. s) (\<lambda>x. ''0'') (sqlite_ops (\<lambda>n. ''?'')) \<lparr>lg_client = Some ex_safe_client\<rparr>
     (ex_safe_env []) ex_world = (None, ex_world\<lparr>w_chain := ex_once\<rparr>)"
    using ex_flush_gen [of "ex_safe_env []" new_anchor] by (simp add: ex_commits before del: One_nat_def)
  show "\<exists>w2. AuditLogger_flush ex_lib (\<lambda>s. s) (\<lambda>x. ''0'') (sqlite_ops (\<lambda>n. ''?'')) \<lparr>lg_client = Some ex_safe_client\<rparr>
     (ex_safe_env [(PollBlock (Some 9), False)]) (ex_world\<lparr>w_chain := ex_once\<rparr>) =
     (Some (Inr (Some \<lparr>fr_batchIndex = 1, fr_root = ex_root (CHR ''a''), fr_txHash = ''0xt'', fr_entryCount = 1\<rparr>)), w2) \<and>
     w_chain w2 = ex_twice"
    using ex_flush_gen [of "ex_safe_env [(PollBlock (Some 9), False)]" ex_once]
    by (simp add: ex_commits before del: One_nat_def)
qed

theorem crash_anchors_twice_witness:
  "fst (snd (getBatch ex_twice (lower ''0xop'') 0)) = fst (snd (getBatch ex_twice (lower ''0xop'') 1)) \<and>
   getBatchCount ex_twice (lower ''0xop'') = 2"
proof -
  obtain w2 where w2: "AuditLogger_flush ex_lib (\<lambda>s. s) (\<lambda>x. ''0'') (sqlite_ops (\<lambda>n. ''?'')) \<lparr>lg_client = Some ex_safe_client\<rparr>
     (ex_safe_env [(PollBlock (Some 9), False)]) (ex_world\<lparr>w_chain := ex_once\<rparr>) =
     (Some (Inr (Some \<lparr>fr_batchIndex = 1, fr_root = ex_root (CHR ''a''), fr_txHash = ''0xt'', fr_entryCount = 1\<rparr>)), w2)"
    "w_chain w2 = ex_twice"
    using ex_two_flushes(2) by blast
  show ?thesis
    using crash_anchors_twice [OF ex_two_flushes(1) w2(1), of ex_safe_client "''0xop''"]
    by (simp add: w2(2) ex_safe_client_def ex_safe_env_def ex_world_def fresh_row_def)
qed

definition ex_reorged :: "sqlite world" where
  "ex_reorged = \<lparr>w_store = ex_edited, w_chain = new_anchor, w_anchoring = False, w_timer = False\<rparr>"

theorem reconcile_releases_stale_witness:
  "\<exists>rc w'. AuditLogger_reconcile (sqlite_ops (\<lambda>n. ''?'')) \<lparr>lg_client = Some ex_safe_client\<rparr> ex_reorged = (Inr (Some rc), w') \<and>
     rc_staleBatches rc = [0]"
proof -
  have anchored: "Sqlite_anchoredBatches ex_edited = [(0, ex_root (CHR ''a''))]"
    by (simp add: Sqlite_anchoredBatches_def ex_edited_def tag_row_def batch_pair_def List.map_filter_simps fresh_row_def)
  have "\<exists>rc w'. AuditLogger_reconcile (sqlite_ops (\<lambda>n. ''?'')) \<lparr>lg_client = Some ex_safe_client\<rparr> ex_reorged = (Inr (Some rc), w')"
    by (simp add: AuditLogger_reconcile_def AuditAnchorClient_operatorAddress_def ex_safe_client_def split: prod.split)
  then obtain rc w' where r: "AuditLogger_reconcile (sqlite_ops (\<lambda>n. ''?'')) \<lparr>lg_client = Some ex_safe_client\<rparr> ex_reorged = (Inr (Some rc), w')"
    by blast
  then have "rc_staleBatches rc =
      map fst (filter (\<lambda>p. \<not> batch_matches new_anchor ''0xop'' p) [(0, ex_root (CHR ''a''))])"
    using reconcile_releases_stale [OF r, of ex_safe_client "''0xop''"] anchored
    by (simp add: ex_safe_client_def ex_reorged_def sqlite_inv_def) (simp add: ex_edited_def)
  then show ?thesis
    using r by (simp add: batch_matches_def AuditAnchorClient_getBatch_def getBatch_def new_anchor_def)
qed

end
