(* ===== verification/Approvals.thy ===== *)
theory Approvals
  imports Types "HOL-Library.Multiset"
begin

text \<open>
  \<open>ApprovalQueue\<close> of \<open>packages/core/src/approval-queue.ts\<close>: the in-process queue in which
  an escalated payment waits for a human. A promise is an identifier (the slot's id) whose
  outcome, once set, never changes; \<open>aq_timers\<close> are the timers armed with \<open>setTimeout\<close>, with
  the instant each falls due. \<open>randomUUID()\<close> is the argument \<open>uuid\<close>.
\<close>

record pending_approval =
  pa_id :: string
  pa_request :: payment_request
  pa_decision :: policy_decision
  pa_createdAt :: int
  pa_expiresAt :: int

record approval_queue =
  aq_defaultTimeoutSeconds :: "int option"
  aq_pending :: "(string \<times> pending_approval) list"
  aq_timers :: "(string \<times> int) list"
  aq_outcomes :: "string \<rightharpoonup> bool"

definition new_queue :: "int option \<Rightarrow> approval_queue" where
  "new_queue d = \<lparr>aq_defaultTimeoutSeconds = d, aq_pending = [], aq_timers = [], aq_outcomes = Map.empty\<rparr>"

text \<open>A promise settles once; later calls of its \<open>resolve\<close> have no effect.\<close>

definition settle_promise :: "string \<Rightarrow> bool \<Rightarrow> approval_queue \<Rightarrow> approval_queue" where
  "settle_promise i v q =
     (if aq_outcomes q i = None then q\<lparr>aq_outcomes := (aq_outcomes q)(i \<mapsto> v)\<rparr> else q)"

text \<open>The delay Node's \<open>setTimeout\<close> uses: 1 ms outside \<open>1 .. 2\<^sup>31 - 1\<close>.\<close>

definition timer_delay :: "int \<Rightarrow> int" where
  "timer_delay ms = (if ms < 1 \<or> ms > 2147483647 then 1 else ms)"

definition ApprovalQueue_enqueue ::
  "string \<Rightarrow> payment_request \<Rightarrow> policy_decision \<Rightarrow> int option \<Rightarrow> int \<Rightarrow> approval_queue \<Rightarrow> approval_queue"
  where
  "ApprovalQueue_enqueue uuid req dec timeoutSeconds now q =
     (let timeoutMs = (case timeoutSeconds of Some s \<Rightarrow> s
                       | None \<Rightarrow> (case aq_defaultTimeoutSeconds q of Some s \<Rightarrow> s | None \<Rightarrow> 300)) * 1000;
          item = \<lparr>pa_id = uuid, pa_request = req, pa_decision = dec, pa_createdAt = now,
                  pa_expiresAt = now + timeoutMs\<rparr>
      in q\<lparr>aq_timers := aq_timers q @ [(uuid, now + timer_delay timeoutMs)],
           aq_pending := AList.update uuid item (aq_pending q)\<rparr>)"

text \<open>The callback of the timer of \<open>i\<close>, run by the event loop when the timer is due.\<close>

definition approval_timeout :: "string \<Rightarrow> approval_queue \<Rightarrow> approval_queue" where
  "approval_timeout i q =
     settle_promise i False
       (q\<lparr>aq_timers := AList.delete i (aq_timers q), aq_pending := AList.delete i (aq_pending q)\<rparr>)"

definition ApprovalQueue_list :: "approval_queue \<Rightarrow> pending_approval list" where
  "ApprovalQueue_list q = sort_key pa_createdAt (map snd (aq_pending q))"

definition ApprovalQueue_get :: "approval_queue \<Rightarrow> string \<Rightarrow> pending_approval option" where
  "ApprovalQueue_get q i = map_of (aq_pending q) i"

definition ApprovalQueue_resolve :: "string \<Rightarrow> bool \<Rightarrow> approval_queue \<Rightarrow> bool \<times> approval_queue" where
  "ApprovalQueue_resolve i approved q =
     (case map_of (aq_pending q) i of
        None \<Rightarrow> (False, q)
      | Some slot \<Rightarrow>
          (True, settle_promise i approved
             (q\<lparr>aq_timers := AList.delete i (aq_timers q), aq_pending := AList.delete i (aq_pending q)\<rparr>)))"

definition ApprovalQueue_size :: "approval_queue \<Rightarrow> nat" where
  "ApprovalQueue_size q = length (aq_pending q)"

section \<open>Runs of the queue\<close>

datatype queue_event =
    Enqueued string payment_request policy_decision "int option" int
  | Resolved string bool
  | TimedOut string

text \<open>
  The runs of a queue, with their history of events: payments are enqueued under fresh ids, an
  operator calls \<open>resolve\<close> with any id at any time, and a timer that is armed may fire.
\<close>

inductive queue_run :: "int option \<Rightarrow> queue_event list \<Rightarrow> approval_queue \<Rightarrow> bool" for d where
  start: "queue_run d [] (new_queue d)"
| enqueue: "queue_run d es q \<Longrightarrow> (\<forall>r p t n. Enqueued i r p t n \<notin> set es) \<Longrightarrow>
     queue_run d (es @ [Enqueued i req dec tmo now]) (ApprovalQueue_enqueue i req dec tmo now q)"
| resolve: "queue_run d es q \<Longrightarrow>
     queue_run d (es @ [Resolved i approved]) (snd (ApprovalQueue_resolve i approved q))"
| timeout: "queue_run d es q \<Longrightarrow> i \<in> fst ` set (aq_timers q) \<Longrightarrow>
     queue_run d (es @ [TimedOut i]) (approval_timeout i q)"

inductive_cases queue_runE: "queue_run d es q"

definition enqueued_ids :: "queue_event list \<Rightarrow> string set" where
  "enqueued_ids es = {i. \<exists>r p t n. Enqueued i r p t n \<in> set es}"

lemma enqueued_ids_simps [simp]:
  "enqueued_ids [] = {}"
  "enqueued_ids (es @ [Enqueued i req dec tmo now]) = insert i (enqueued_ids es)"
  "enqueued_ids (es @ [Resolved i b]) = enqueued_ids es"
  "enqueued_ids (es @ [TimedOut i]) = enqueued_ids es"
  by (auto simp: enqueued_ids_def)

text \<open>
  What the history says about the payment \<open>i\<close>: the first event after its own enqueueing that
  answers it, an operator's word or the timeout, which denies.
\<close>

definition answers :: "string \<Rightarrow> queue_event \<Rightarrow> bool option" where
  "answers i e = (case e of Resolved j b \<Rightarrow> if j = i then Some b else None
                  | TimedOut j \<Rightarrow> if j = i then Some False else None
                  | Enqueued _ _ _ _ _ \<Rightarrow> None)"

definition is_enqueue :: "string \<Rightarrow> queue_event \<Rightarrow> bool" where
  "is_enqueue i e = (case e of Enqueued j _ _ _ _ \<Rightarrow> j = i | _ \<Rightarrow> False)"

fun first_answer :: "string \<Rightarrow> queue_event list \<Rightarrow> bool option" where
  "first_answer i [] = None"
| "first_answer i (e # es) = (case answers i e of Some b \<Rightarrow> Some b | None \<Rightarrow> first_answer i es)"

definition queue_answer :: "string \<Rightarrow> queue_event list \<Rightarrow> bool option" where
  "queue_answer i es = first_answer i (dropWhile (\<lambda>e. \<not> is_enqueue i e) es)"

lemma is_enqueue_iff: "is_enqueue i e \<longleftrightarrow> (\<exists>r p t n. e = Enqueued i r p t n)"
  by (cases e) (auto simp: is_enqueue_def)

lemma enqueued_ids_iff: "i \<in> enqueued_ids es \<longleftrightarrow> (\<exists>e \<in> set es. is_enqueue i e)"
  unfolding enqueued_ids_def is_enqueue_iff by blast

lemma first_answer_snoc:
  "first_answer i (es @ [e]) = (case first_answer i es of Some b \<Rightarrow> Some b | None \<Rightarrow> answers i e)"
  by (induction es) (auto split: option.splits)

lemma queue_answer_Nil [simp]: "queue_answer i [] = None"
  by (simp add: queue_answer_def)

lemma queue_answer_snoc:
  "queue_answer i (es @ [e]) =
     (if i \<in> enqueued_ids es then (case queue_answer i es of Some b \<Rightarrow> Some b | None \<Rightarrow> answers i e)
      else None)"
proof (cases "i \<in> enqueued_ids es")
  case True
  then show ?thesis
    by (auto simp: queue_answer_def enqueued_ids_iff dropWhile_append1 first_answer_snoc)
next
  case False
  then have "dropWhile (\<lambda>e. \<not> is_enqueue i e) (es @ [e]) = dropWhile (\<lambda>e. \<not> is_enqueue i e) [e]"
    by (subst dropWhile_append2) (auto simp: enqueued_ids_iff)
  then show ?thesis
    using False by (auto simp: queue_answer_def answers_def is_enqueue_iff)
qed

lemma answers_simps [simp]:
  "answers i (Enqueued j r p t n) = None"
  "answers i (Resolved j b) = (if j = i then Some b else None)"
  "answers i (TimedOut j) = (if j = i then Some False else None)"
  by (simp_all add: answers_def)

text \<open>
  The invariant of a run: every enqueued id is waiting with its timer armed or settled, and it
  is settled with the answer the history gives it.
\<close>

definition queue_inv :: "queue_event list \<Rightarrow> approval_queue \<Rightarrow> bool" where
  "queue_inv es q \<longleftrightarrow>
     distinct (map fst (aq_pending q)) \<and>
     fst ` set (aq_timers q) = fst ` set (aq_pending q) \<and>
     fst ` set (aq_pending q) \<union> dom (aq_outcomes q) = enqueued_ids es \<and>
     fst ` set (aq_pending q) \<inter> dom (aq_outcomes q) = {} \<and>
     (\<forall>i. aq_outcomes q i = queue_answer i es)"

lemmas queue_defs [op_defs] =
  new_queue_def settle_promise_def ApprovalQueue_enqueue_def approval_timeout_def
  ApprovalQueue_resolve_def

lemma fst_delete: "fst ` set (AList.delete k xs) = fst ` set xs - {k}"
  by (auto simp: AList.delete_eq)

lemma map_of_none_iff: "map_of xs k = None \<longleftrightarrow> k \<notin> fst ` set xs"
  by (rule map_of_eq_None_iff)

lemma fst_update: "fst ` set (AList.update k v xs) = insert k (fst ` set xs)"
  using AList.dom_update [of k v xs] by simp

lemma queue_inv_start: "queue_inv [] (new_queue d)"
  by (simp add: queue_inv_def new_queue_def)

lemma queue_inv_enqueue:
  assumes "queue_inv es q" "i \<notin> enqueued_ids es"
  shows "queue_inv (es @ [Enqueued i req dec tmo now]) (ApprovalQueue_enqueue i req dec tmo now q)"
proof -
  have "aq_outcomes q i = None"
    using assms unfolding queue_inv_def by auto
  moreover have "queue_answer j (es @ [Enqueued i req dec tmo now]) = aq_outcomes q j" for j
    using assms by (auto simp: queue_answer_snoc queue_inv_def split: option.splits)
  ultimately show ?thesis
    using assms by (auto simp: queue_inv_def ApprovalQueue_enqueue_def Let_def fst_update AList.distinct_update)
qed

text \<open>Whoever settles a waiting slot removes it and its timer and fixes its outcome.\<close>

lemma queue_inv_settle:
  assumes inv: "queue_inv es q" and i: "i \<in> fst ` set (aq_pending q)"
    and e: "e = Resolved i v \<or> e = TimedOut i \<and> \<not> v"
  shows "queue_inv (es @ [e]) (settle_promise i v
           (q\<lparr>aq_timers := AList.delete i (aq_timers q), aq_pending := AList.delete i (aq_pending q)\<rparr>))"
proof -
  have none: "aq_outcomes q i = None" and mem: "i \<in> enqueued_ids es"
    using inv i by (auto simp: queue_inv_def)
  have "queue_answer j (es @ [e]) = ((aq_outcomes q)(i \<mapsto> v)) j" for j
    using inv e none mem by (auto simp: queue_answer_snoc queue_inv_def split: option.splits)
  moreover have "enqueued_ids (es @ [e]) = enqueued_ids es"
    using e by auto
  ultimately show ?thesis
    using inv i none mem
    by (auto simp: queue_inv_def settle_promise_def fst_delete AList.distinct_delete split: if_splits)
qed

lemma queue_inv_unknown:
  assumes inv: "queue_inv es q" and i: "i \<notin> fst ` set (aq_pending q)"
  shows "queue_inv (es @ [Resolved i v]) q"
proof -
  have "queue_answer j (es @ [Resolved i v]) = queue_answer j es" for j
    using assms by (auto simp: queue_answer_snoc queue_inv_def split: option.splits)
  then show ?thesis
    using assms by (simp add: queue_inv_def)
qed

lemma queue_run_inv: "queue_run d es q \<Longrightarrow> queue_inv es q"
proof (induction rule: queue_run.induct)
  case start
  show ?case by (rule queue_inv_start)
next
  case (enqueue es q i req dec tmo now)
  then show ?case by (intro queue_inv_enqueue) (auto simp: enqueued_ids_def)
next
  case (resolve es q i approved)
  show ?case
  proof (cases "map_of (aq_pending q) i")
    case None
    then have "i \<notin> fst ` set (aq_pending q)" by (simp add: map_of_none_iff)
    then show ?thesis
      using resolve.IH None by (simp add: ApprovalQueue_resolve_def queue_inv_unknown)
  next
    case (Some slot)
    then have "i \<in> fst ` set (aq_pending q)" using map_of_none_iff [of "aq_pending q" i] by simp
    then show ?thesis
      using resolve.IH Some by (auto simp: ApprovalQueue_resolve_def intro!: queue_inv_settle)
  qed
next
  case (timeout es q i)
  then have "i \<in> fst ` set (aq_pending q)" by (simp add: queue_inv_def)
  then show ?case
    unfolding approval_timeout_def using timeout.IH by (intro queue_inv_settle) simp_all
qed

lemma queue_inv_answer: "queue_inv es q \<Longrightarrow> aq_outcomes q i = queue_answer i es"
  by (simp add: queue_inv_def)

lemma queue_inv_pending:
  assumes "queue_inv es q"
  shows "ApprovalQueue_get q i \<noteq> None \<longleftrightarrow> i \<in> enqueued_ids es \<and> queue_answer i es = None"
  using assms by (auto simp: queue_inv_def ApprovalQueue_get_def map_of_none_iff)

text \<open>When every armed timer fires, every waiting slot is denied.\<close>

lemma approval_timeout_pending:
  "aq_pending (approval_timeout j q) = AList.delete j (aq_pending q)"
  "aq_outcomes (approval_timeout j q) =
     (aq_outcomes q)(j \<mapsto> case aq_outcomes q j of None \<Rightarrow> False | Some b \<Rightarrow> b)"
  by (auto simp: approval_timeout_def settle_promise_def split: option.splits)

lemma fire_timers:
  "fst ` set (aq_pending (fold approval_timeout js q)) = fst ` set (aq_pending q) - set js"
  "aq_outcomes (fold approval_timeout js q) i =
     (if i \<in> set js \<and> aq_outcomes q i = None then Some False else aq_outcomes q i)"
  by (induction js arbitrary: q) (auto simp: approval_timeout_pending fst_delete split: option.splits)

section \<open>Properties\<close>

text \<open>
  C8. In every run of the queue, the promise of a payment has exactly the answer its history
  gives it: the first event after its own enqueueing that concerns it decides, an operator's
  \<open>resolve(id, approved)\<close> by its argument and the timeout by a denial; later answers change
  nothing, and only an explicit approval ever yields \<open>true\<close>.
\<close>

theorem queue_outcome_is_first_answer:
  assumes "queue_run d es q"
  shows "aq_outcomes q i = queue_answer i es"
  using queue_inv_answer [OF queue_run_inv [OF assms]] .

definition ex_pay :: payment_request where
  "ex_pay = \<lparr>r_intent = ''weather'', r_amount = 5, r_token = ''0xAb'', r_recipient = ''0xCd'',
     r_chain = ''eip155:84532'', r_agentId = ''a'', r_resourceUrl = None\<rparr>"

definition ex_dec :: policy_decision where
  "ex_dec = \<lparr>d_verdict = Escalate, d_riskScore = 0, d_checks = [], d_reason = R_allowed 0,
     d_escalation = None\<rparr>"

definition ex_history :: "queue_event list" where
  "ex_history = [Enqueued ''u1'' ex_pay ex_dec None 100, Enqueued ''u2'' ex_pay ex_dec (Some 5) 90,
     Resolved ''u1'' True, TimedOut ''u2'', Resolved ''u2'' True]"

definition ex_queue :: approval_queue where
  "ex_queue = snd (ApprovalQueue_resolve ''u2'' True (approval_timeout ''u2''
     (snd (ApprovalQueue_resolve ''u1'' True
       (ApprovalQueue_enqueue ''u2'' ex_pay ex_dec (Some 5) 90
         (ApprovalQueue_enqueue ''u1'' ex_pay ex_dec None 100 (new_queue None)))))))"

lemma ex_queue_run: "queue_run None ex_history ex_queue"
proof -
  note run = queue_run.start [of None]
  note run = queue_run.enqueue [OF run, of "''u1''" ex_pay ex_dec None 100, simplified]
  note run = queue_run.enqueue [OF run, of "''u2''" ex_pay ex_dec "Some 5" 90, simplified]
  note run = queue_run.resolve [OF run, of "''u1''" True]
  note run = queue_run.timeout [OF run, of "''u2''"]
  show ?thesis
    unfolding ex_history_def ex_queue_def
    using queue_run.resolve [OF run, of "''u2''" True]
    by (simp add: ApprovalQueue_enqueue_def ApprovalQueue_resolve_def new_queue_def settle_promise_def Let_def)
qed

theorem queue_outcome_is_first_answer_witness:
  "aq_outcomes ex_queue ''u1'' = Some True \<and> aq_outcomes ex_queue ''u2'' = Some False"
  using queue_outcome_is_first_answer [OF ex_queue_run, of "''u1''"]
    queue_outcome_is_first_answer [OF ex_queue_run, of "''u2''"]
  by (simp add: queue_answer_def ex_history_def is_enqueue_def)

text \<open>
  C35. In every run of the queue no escalated payment is lost: an id is pending (\<open>get\<close> finds it)
  exactly if it was enqueued and nothing has answered it yet, and then its timer is armed; and
  when all the armed timers have fired nothing is pending and every payment that was waiting
  has been denied.
\<close>

theorem queue_never_loses_a_payment:
  assumes "queue_run d es q"
  shows "(ApprovalQueue_get q i \<noteq> None \<longleftrightarrow> i \<in> enqueued_ids es \<and> queue_answer i es = None) \<and>
         (ApprovalQueue_get q i \<noteq> None \<longleftrightarrow> i \<in> fst ` set (aq_timers q)) \<and>
         (let q' = fold approval_timeout (map fst (aq_timers q)) q
          in ApprovalQueue_size q' = 0 \<and>
             aq_outcomes q' i = (if ApprovalQueue_get q i \<noteq> None then Some False else aq_outcomes q i))"
proof -
  have inv: "queue_inv es q" by (rule queue_run_inv [OF assms])
  then have timers: "fst ` set (aq_timers q) = fst ` set (aq_pending q)"
    and free: "i \<in> fst ` set (aq_pending q) \<Longrightarrow> aq_outcomes q i = None"
    by (auto simp: queue_inv_def)
  have "fst ` set (aq_pending (fold approval_timeout (map fst (aq_timers q)) q)) = {}"
    using timers by (simp add: fire_timers)
  then have "aq_pending (fold approval_timeout (map fst (aq_timers q)) q) = []"
    by simp
  moreover have "ApprovalQueue_get q i \<noteq> None \<longleftrightarrow> i \<in> fst ` set (aq_timers q)"
    by (simp add: ApprovalQueue_get_def map_of_none_iff timers)
  moreover have "i \<in> fst ` set (aq_timers q) \<Longrightarrow> aq_outcomes q i = None"
    using free timers by simp
  ultimately show ?thesis
    using queue_inv_pending [OF inv, of i]
    by (simp add: ApprovalQueue_size_def fire_timers Let_def)
qed

theorem queue_never_loses_a_payment_witness:
  "ApprovalQueue_get ex_queue ''u1'' = None \<and> queue_answer ''u1'' ex_history = Some True"
  using queue_never_loses_a_payment [OF ex_queue_run, of "''u1''"]
  by (simp add: ex_history_def queue_answer_def is_enqueue_def enqueued_ids_def)

text \<open>
  \<open>list()\<close> shows exactly the pending payments, each once, oldest first, and
  \<open>resolve(id, approved)\<close> answers a pending payment once: it returns \<open>true\<close> exactly for an id
  that is pending, takes it off the list, and a second call with the same id returns \<open>false\<close>
  and changes nothing.
\<close>

theorem list_and_resolve:
  "mset (ApprovalQueue_list q) = mset (map snd (aq_pending q)) \<and>
   sorted (map pa_createdAt (ApprovalQueue_list q)) \<and>
   (let (ok, q') = ApprovalQueue_resolve i approved q
    in ok = (ApprovalQueue_get q i \<noteq> None) \<and>
       ApprovalQueue_get q' i = None \<and>
       ApprovalQueue_resolve i again q' = (False, q'))"
proof -
  have "map_of (AList.delete i xs) i = None" for xs :: "(string \<times> pending_approval) list"
    by (simp add: AList.delete_conv')
  then show ?thesis
    by (auto simp: ApprovalQueue_list_def mset_sort ApprovalQueue_resolve_def ApprovalQueue_get_def settle_promise_def
        split: option.splits)
qed

text \<open>
  An approval window longer than 2147483 seconds (about 24.8 days) is not waited for: Node's
  \<open>setTimeout\<close> turns a delay above 2147483647 ms into 1 ms, so the timer that denies the payment
  falls due 1 ms after the enqueueing, while the item shown to the operator expires only after
  the full window.
\<close>

theorem long_approval_window_denies_at_once:
  assumes "2147483 < s"
  shows "let q' = ApprovalQueue_enqueue i req dec (Some s) now q
         in last (aq_timers q') = (i, now + 1) \<and>
            map_option pa_expiresAt (ApprovalQueue_get q' i) = Some (now + s * 1000)"
  using assms
  by (simp add: ApprovalQueue_enqueue_def ApprovalQueue_get_def timer_delay_def Let_def AList.update_conv')

theorem long_approval_window_denies_at_once_witness:
  "aq_timers (ApprovalQueue_enqueue ''u'' ex_pay ex_dec (Some 2592000) 7 (new_queue None)) = [(''u'', 8)]"
  using long_approval_window_denies_at_once [of 2592000 "''u''" ex_pay ex_dec 7 "new_queue None"]
  by (simp add: ApprovalQueue_enqueue_def new_queue_def Let_def)

end
