(* ===== verification/Hydration.thy ===== *)
theory Hydration
  imports Guard Logger Approvals
begin

text \<open>
  The life cycle of \<open>AgentGuard\<close> (\<open>packages/core/src/index.ts\<close>): its construction from a
  configuration, and the rebuilding of the enforcement state from the audit log. An audit store
  that cannot be read is the argument \<open>failure\<close>, the error that the query throws.
\<close>

section \<open>Configuration\<close>

record guard_config =
  gc_walletChain :: string
  gc_llmApiKey :: "string option"
  gc_llm :: "llm_config option"
  gc_anchor :: "anchor_client option"
  gc_anchorIntervalMs :: "int option"
  gc_facilitatorUrl :: "string option"
  gc_facilitatorFallbackUrls :: "string list option"
  gc_onEscalation :: bool
  gc_escalationWebhook :: bool
  gc_approvalQueue :: bool
  gc_circuitBreaker :: "breaker_config option"
  gc_behavioral :: behavioral_options
  gc_hydrate :: "bool option"
  gc_hydrateLookbackMs :: "int option"

definition no_llm :: llm_config where
  "no_llm = \<lparr>lc_provider = None, lc_apiKey = None, lc_baseUrl = None, lc_model = None\<rparr>"

definition resolveGuardLLMConfig :: "guard_config \<Rightarrow> llm_config" where
  "resolveGuardLLMConfig config =
     (case gc_llm config of
        Some l \<Rightarrow> l
      | None \<Rightarrow> if truthy (gc_llmApiKey config) then no_llm\<lparr>lc_apiKey := gc_llmApiKey config\<rparr> else no_llm)"

text \<open>\<open>onEscalation\<close> before the approval queue before the webhook.\<close>

definition escalation_of :: "guard_config \<Rightarrow> escalation_handler option" where
  "escalation_of config =
     (if gc_onEscalation config then Some Callback_handler
      else if gc_approvalQueue config then Some Queue_handler
      else if gc_escalationWebhook config then Some Webhook_handler else None)"

definition AgentGuard_new :: "policy \<Rightarrow> guard_config \<Rightarrow> 's \<Rightarrow> agent_guard \<times> logger \<times> 's guard_state" where
  "AgentGuard_new policy config store =
     (\<lparr>ag_agentId = p_agentId policy, ag_chain = gc_walletChain config,
       ag_intent = IntentReconciler_new (resolveGuardLLMConfig config) None None None None,
       ag_facilitatorUrl = (case gc_facilitatorUrl config of Some u \<Rightarrow> u | None \<Rightarrow> DEFAULT_TESTNET_FACILITATOR),
       ag_facilitatorFallbackUrls = gc_facilitatorFallbackUrls config,
       ag_onEscalation = escalation_of config, ag_breaker = gc_circuitBreaker config\<rparr>,
      AuditLogger_new (gc_anchor config),
      \<lparr>gs_evaluator = new_evaluator policy, gs_behavioral = new_scorer (gc_behavioral config),
       gs_resources = [], gs_breaker = new_breaker, gs_store = store, gs_lastHydration = None\<rparr>)"

section \<open>Rebuilding the state from the log\<close>

definition DEFAULT_HYDRATE_LOOKBACK_MS :: int where
  "DEFAULT_HYDRATE_LOOKBACK_MS = 30 * 86400000"

definition entry_intact :: "externals \<Rightarrow> audit_entry \<Rightarrow> bool" where
  "entry_intact x e \<longleftrightarrow> recomputeEntryHash (x_kec x) (x_num x) e = e_entryHash e"

definition hydration_report_of :: "audit_entry list \<Rightarrow> audit_entry list \<Rightarrow> audit_entry list \<Rightarrow> hydration_report" where
  "hydration_report_of entries settled_rows tampered =
     \<lparr>hy_entries = length entries, hy_settled = length settled_rows, hy_tampered = length tampered,
      hy_tamperedIds = map e_id tampered\<rparr>"

text \<open>\<open>clock 0\<close> dates the query, \<open>clock 1\<close> the evaluator's window, \<open>clock 2\<close> the breaker's.\<close>

definition hydrate_state ::
  "externals \<Rightarrow> agent_guard \<Rightarrow> clock \<Rightarrow> audit_entry list \<Rightarrow> 's guard_state \<Rightarrow> hydration_report \<times> 's guard_state" where
  "hydrate_state x g clock entries st =
     (let intact = filter (entry_intact x) entries;
          tampered = filter (\<lambda>e. \<not> entry_intact x e) entries;
          settled_rows = filter settled intact;
          report = hydration_report_of entries settled_rows tampered
      in (report,
          st\<lparr>gs_evaluator := PolicyEvaluator_hydrate (settled_rows @ tampered) (clock 1) (gs_evaluator st),
             gs_behavioral := BehavioralScorer_hydrate settled_rows (gs_behavioral st),
             gs_resources := ResourceRegistry_hydrate (x_url x) settled_rows (gs_resources st),
             gs_breaker := (case ag_breaker g of None \<Rightarrow> gs_breaker st
                            | Some cfg \<Rightarrow> CircuitBreaker_hydrate cfg intact (clock 2) (gs_breaker st)),
             gs_lastHydration := Some report\<rparr>))"

definition AgentGuard_hydrate ::
  "externals \<Rightarrow> 's store_ops \<Rightarrow> thrown option \<Rightarrow> agent_guard \<Rightarrow> clock \<Rightarrow> int \<Rightarrow> 's guard_state \<Rightarrow>
     hydration_report option \<times> 's guard_state" where
  "AgentGuard_hydrate x ops failure g clock lookbackMs st =
     (case failure of
        Some err \<Rightarrow> (None, st)
      | None \<Rightarrow>
          (let entries = AuditLogger_listSince ops (ag_agentId g) (clock 0 - lookbackMs) (gs_store st)
           in if length entries = 0 then (Some (hydration_report_of [] [] []), st)
              else (case hydrate_state x g clock entries st of (report, st') \<Rightarrow> (Some report, st'))))"

text \<open>
  \<open>create\<close> with a structured policy (a natural-language one is compiled first): the last
  component tells whether the anchor scheduler was started.
\<close>

definition AgentGuard_create ::
  "externals \<Rightarrow> 's store_ops \<Rightarrow> thrown option \<Rightarrow> clock \<Rightarrow> policy \<Rightarrow> guard_config \<Rightarrow> 's \<Rightarrow>
     agent_guard \<times> logger \<times> 's guard_state \<times> bool" where
  "AgentGuard_create x ops failure clock policy config store =
     (case AgentGuard_new policy config store of
        (g, lg, st) \<Rightarrow>
          (let st' = (if gc_hydrate config \<noteq> Some False
                      then snd (AgentGuard_hydrate x ops failure g clock
                             (case gc_hydrateLookbackMs config of Some l \<Rightarrow> l | None \<Rightarrow> DEFAULT_HYDRATE_LOOKBACK_MS) st)
                      else st);
               anchoring = (case gc_anchorIntervalMs config of
                              Some ms \<Rightarrow> ms \<noteq> 0 \<and> (case gc_anchor config of Some c \<Rightarrow> ac_committer c \<noteq> None | None \<Rightarrow> False)
                            | None \<Rightarrow> False)
           in (g, lg, st', anchoring)))"

text \<open>\<open>resetCircuitBreaker\<close>.\<close>

definition AgentGuard_resetCircuitBreaker :: "agent_guard \<Rightarrow> 's guard_state \<Rightarrow> 's guard_state" where
  "AgentGuard_resetCircuitBreaker g st =
     (case ag_breaker g of None \<Rightarrow> st | Some cfg \<Rightarrow> st\<lparr>gs_breaker := CircuitBreaker_reset (gs_breaker st)\<rparr>)"

section \<open>What hydration counts\<close>

lemma mset_settled_or_tampered:
  "mset (filter settled (filter P es) @ filter (\<lambda>e. \<not> P e) es) = mset (filter (\<lambda>e. P e \<longrightarrow> settled e) es)"
  unfolding filter_filter by (induction es) auto

definition in_window :: "spend_window \<Rightarrow> address \<Rightarrow> int \<Rightarrow> audit_entry \<Rightarrow> bool" where
  "in_window w tok now e \<longleftrightarrow> lower (r_token (e_request e)) = lower tok \<and> e_timestamp e > window_start w now"

text \<open>The sum of the amounts that the rows which satisfy \<open>P\<close> claim for a token in a window.\<close>

definition claimed_spend :: "(audit_entry \<Rightarrow> bool) \<Rightarrow> spend_window \<Rightarrow> address \<Rightarrow> int \<Rightarrow> audit_entry list \<Rightarrow> int" where
  "claimed_spend P w tok now es =
     sum_list (map (\<lambda>e. r_amount (e_request e)) (filter (\<lambda>e. P e \<and> in_window w tok now e) es))"

lemma claimed_spend_append [simp]:
  "claimed_spend P w tok now (es @ fs) = claimed_spend P w tok now es + claimed_spend P w tok now fs"
  by (simp add: claimed_spend_def)

lemma claimed_spend_Cons [simp]:
  "claimed_spend P w tok now (e # es) =
     (if P e \<and> in_window w tok now e then r_amount (e_request e) else 0) + claimed_spend P w tok now es"
  by (simp add: claimed_spend_def)

definition counted_row :: "externals \<Rightarrow> audit_entry \<Rightarrow> bool" where
  "counted_row x e \<longleftrightarrow> (entry_intact x e \<longrightarrow> settled e)"

definition trusted_row :: "externals \<Rightarrow> audit_entry \<Rightarrow> bool" where
  "trusted_row x e \<longleftrightarrow> entry_intact x e \<and> settled e"

definition fresh_guard :: "policy \<Rightarrow> guard_config \<Rightarrow> 's \<Rightarrow> 's guard_state" where
  "fresh_guard p config store = snd (snd (AgentGuard_new p config store))"

lemma fresh_guard_simps:
  "gs_evaluator (fresh_guard p config store) = new_evaluator p"
  "gs_resources (fresh_guard p config store) = []"
  "gs_behavioral (fresh_guard p config store) = new_scorer (gc_behavioral config)"
  by (simp_all add: fresh_guard_def AgentGuard_new_def)

lemma hydrated_spend:
  assumes "w = Hour \<or> w = Day" "clock 1 \<le> now"
  shows "windowedSpend (gs_evaluator (snd (hydrate_state x g clock es (fresh_guard p config store)))) w tok now =
     claimed_spend (counted_row x) w tok now es"
proof -
  let ?rows = "filter settled (filter (entry_intact x) es) @ filter (\<lambda>e. \<not> entry_intact x e) es"
  have "windowedSpend (gs_evaluator (snd (hydrate_state x g clock es (fresh_guard p config store)))) w tok now =
      sum_list (map (\<lambda>e. r_amount (e_request e)) (filter (in_window w tok now) ?rows))"
    using windowedSpend_hydrate [OF assms, of ?rows p tok]
    by (simp add: hydrate_state_def Let_def fresh_guard_simps in_window_def [abs_def])
  also have "\<dots> = sum_list (map (\<lambda>e. r_amount (e_request e))
      (filter (in_window w tok now) (filter (\<lambda>e. entry_intact x e \<longrightarrow> settled e) es)))"
    by (rule sum_filter_cong_mset) (rule mset_settled_or_tampered)
  also have "\<dots> = claimed_spend (counted_row x) w tok now es"
    by (simp add: claimed_spend_def counted_row_def conj_commute)
  finally show ?thesis .
qed

lemma hydrated_payees:
  "paid_at (gs_resources (snd (hydrate_state x g clock es (fresh_guard p config store)))) host =
     {lower (r_recipient (e_request e)) | e. e \<in> set es \<and> trusted_row x e \<and>
        hostOf (x_url x) (r_resourceUrl (e_request e)) = Some host}"
  by (auto simp: hydrate_state_def Let_def fresh_guard_simps paid_at_hydrate trusted_row_def paid_at_def [of "[]"])

lemma hydrated_baseline:
  "bl_seen (bs_baseline (gs_behavioral (snd (hydrate_state x g clock es (fresh_guard p config store)))))
     \<subseteq> {lower (r_recipient (e_request e)) | e. e \<in> set es \<and> trusted_row x e}"
proof -
  let ?rows = "filter settled (filter (entry_intact x) es)"
  have "bl_seen (bs_baseline (gs_behavioral (snd (hydrate_state x g clock es (fresh_guard p config store))))) =
      (\<lambda>e. lower (r_recipient (e_request e))) ` set (scorer_replay_order ?rows)"
    by (simp add: hydrate_state_def Let_def fresh_guard_simps BehavioralScorer_hydrate_def replayed_seen new_scorer_def
        new_baseline_def)
  also have "\<dots> \<subseteq> (\<lambda>e. lower (r_recipient (e_request e))) ` set ?rows"
    using scorer_log.select_subset by (rule image_mono)
  finally show ?thesis by (auto simp: trusted_row_def)
qed

section \<open>Properties\<close>

text \<open>
  C14. What a restarted guard believes of its log: an hour or day window holds exactly the amounts
  of the rows that are settled or whose hash does not match, whatever else these claim; a host's
  payees are exactly those of the intact settled rows, and the behavioral memory has no
  counterparty of any other row; the report counts every row as intact or tampered and lists the
  tampered ones.
\<close>

theorem hydration_suspects_edited_rows:
  assumes "w = Hour \<or> w = Day" "clock 1 \<le> now"
  shows "case hydrate_state x g clock es (fresh_guard p config store) of (rep, st) \<Rightarrow>
     windowedSpend (gs_evaluator st) w tok now = claimed_spend (counted_row x) w tok now es \<and>
     paid_at (gs_resources st) host =
       {lower (r_recipient (e_request e)) | e. e \<in> set es \<and> trusted_row x e \<and>
          hostOf (x_url x) (r_resourceUrl (e_request e)) = Some host} \<and>
     bl_seen (bs_baseline (gs_behavioral st)) \<subseteq>
       {lower (r_recipient (e_request e)) | e. e \<in> set es \<and> trusted_row x e} \<and>
     hy_entries rep = length es \<and> hy_settled rep = length (filter (trusted_row x) es) \<and>
     hy_tampered rep + length (filter (entry_intact x) es) = length es \<and>
     hy_tamperedIds rep = map e_id (filter (\<lambda>e. \<not> entry_intact x e) es) \<and> gs_lastHydration st = Some rep"
proof -
  have "fst (hydrate_state x g clock es (fresh_guard p config store)) =
      hydration_report_of es (filter settled (filter (entry_intact x) es)) (filter (\<lambda>e. \<not> entry_intact x e) es)"
    "gs_lastHydration (snd (hydrate_state x g clock es (fresh_guard p config store))) =
      Some (fst (hydrate_state x g clock es (fresh_guard p config store)))"
    by (simp_all add: hydrate_state_def Let_def)
  moreover have "filter settled (filter (entry_intact x) es) = filter (trusted_row x) es"
    by (simp add: trusted_row_def [abs_def] conj_commute)
  moreover have "length (filter (\<lambda>e. \<not> entry_intact x e) es) + length (filter (entry_intact x) es) = length es"
    by (simp add: sum_length_filter_compl add.commute)
  ultimately show ?thesis
    using hydrated_spend [where clock = clock, OF assms, of x g es p config store tok]
      hydrated_payees [of x g clock es p config store host] hydrated_baseline [of x g clock es p config store]
    by (cases "hydrate_state x g clock es (fresh_guard p config store)") (simp add: hydration_report_of_def)
qed

text \<open>
  A flipped settlement does not free the budget: when the settlement of a counted row is
  rewritten and its hash no longer matches, a restart counts the same spend as before the edit.
\<close>

theorem flipped_settlement_still_counts:
  assumes "w = Hour \<or> w = Day" "clock 1 \<le> now" "settled e" "\<not> entry_intact x (e\<lparr>e_settlement := s\<rparr>)"
  shows "windowedSpend (gs_evaluator (snd (hydrate_state x g clock (es @ e\<lparr>e_settlement := s\<rparr> # fs)
             (fresh_guard p config store)))) w tok now =
         windowedSpend (gs_evaluator (snd (hydrate_state x g clock (es @ e # fs) (fresh_guard p config store)))) w tok now"
  using assms(3,4) unfolding hydrated_spend [where clock = clock, OF assms(1,2)]
  by (simp add: counted_row_def in_window_def)

text \<open>
  An edited amount frees it: the row of a settled payment whose amount is rewritten is recognised as
  tampered and still counted, but with the amount it now claims, so a restart loses the
  difference from the window (all of it for an amount of zero, more for a negative one).
\<close>

theorem edited_amount_frees_budget:
  assumes "w = Hour \<or> w = Day" "clock 1 \<le> now" "settled e" "in_window w tok now e"
    and "e' = e\<lparr>e_request := (e_request e)\<lparr>r_amount := a\<rparr>\<rparr>" "\<not> entry_intact x e'"
  shows "windowedSpend (gs_evaluator (snd (hydrate_state x g clock (es @ e' # fs)
             (fresh_guard p config store)))) w tok now =
         windowedSpend (gs_evaluator (snd (hydrate_state x g clock (es @ e # fs) (fresh_guard p config store)))) w tok now
           - (r_amount (e_request e) - a)"
  using assms(3-6) unfolding hydrated_spend [where clock = clock, OF assms(1,2)]
  by (auto simp: counted_row_def in_window_def)

text \<open>
  And so does an edit that also rewrites the hash, which has no key: the edited row is intact, is
  not reported, and its payment is gone from the window.
\<close>

theorem recomputed_hash_frees_budget:
  assumes "w = Hour \<or> w = Day" "clock 1 \<le> now" "settled e" "in_window w tok now e"
    and "e' = canonicalize (x_kec x) (x_num x) (e\<lparr>e_settlement := None\<rparr>)"
  shows "entry_intact x e' \<and>
         windowedSpend (gs_evaluator (snd (hydrate_state x g clock (es @ e' # fs)
             (fresh_guard p config store)))) w tok now =
         windowedSpend (gs_evaluator (snd (hydrate_state x g clock (es @ e # fs) (fresh_guard p config store)))) w tok now
           - r_amount (e_request e)"
proof -
  have "entry_intact x e'" "\<not> settled e'"
    using assms(5)
    by (simp_all add: entry_intact_def canonicalize_def recomputeEntryHash_def settled_def)
  then show ?thesis
    using assms(3,4) unfolding hydrated_spend [where clock = clock, OF assms(1,2)] by (simp add: counted_row_def)
qed

section \<open>Examples\<close>

definition ex_settled_row :: audit_entry where
  "ex_settled_row = canonicalize (x_kec ex_externals) (x_num ex_externals) (ex_audited 500 True)"

definition ex_free_row :: audit_entry where
  "ex_free_row = ex_settled_row\<lparr>e_request := (e_request ex_settled_row)\<lparr>r_amount := 0\<rparr>\<rparr>"

definition ex_flipped_row :: audit_entry where
  "ex_flipped_row = ex_settled_row\<lparr>e_settlement := None\<rparr>"

definition ex_policy_config :: "policy \<times> guard_config" where
  "ex_policy_config =
     (\<lparr>p_agentId = ''a'', p_rules = [], p_anomalyThreshold = 1, p_anomalyAction = ABlock, p_sourceText = None\<rparr>,
      \<lparr>gc_walletChain = ''eip155:8453'', gc_llmApiKey = None, gc_llm = None, gc_anchor = None, gc_anchorIntervalMs = None,
       gc_facilitatorUrl = None, gc_facilitatorFallbackUrls = None, gc_onEscalation = False, gc_escalationWebhook = False,
       gc_approvalQueue = False, gc_circuitBreaker = None,
       gc_behavioral = \<lparr>bo_forestMinObservations = None, bo_forestRetrainInterval = None, bo_forestTrees = None,
         bo_forestSampleSize = None, bo_forestSeed = None, bo_ewmaAlpha = None, bo_zWarnThreshold = None,
         bo_zCriticalThreshold = None, bo_forestWarnThreshold = None, bo_forestCriticalThreshold = None\<rparr>,
       gc_hydrate = None, gc_hydrateLookbackMs = None\<rparr>)"

definition ex_guard :: agent_guard where
  "ex_guard = fst (AgentGuard_new (fst ex_policy_config) (snd ex_policy_config) ())"

text \<open>The day's spend of the token \<open>t\<close> that a guard restarted at time 1000 sees.\<close>

definition ex_spend :: "audit_entry list \<Rightarrow> int" where
  "ex_spend es = windowedSpend (gs_evaluator (snd (hydrate_state ex_externals ex_guard (\<lambda>i. 1000) es
     (fresh_guard (fst ex_policy_config) (snd ex_policy_config) ())))) Day ''t'' 1000"

lemma ex_rows:
  "settled ex_settled_row" "in_window Day ''t'' 1000 ex_settled_row" "entry_intact ex_externals ex_settled_row"
  "r_amount (e_request ex_settled_row) = 10"
  by (simp_all add: ex_settled_row_def settled_def ex_audited_def canonicalize_def in_window_def window_start_def DAY_MS_def
      entry_intact_def recomputeEntryHash_def)

lemma ex_edits: "\<not> entry_intact ex_externals ex_free_row" "\<not> entry_intact ex_externals ex_flipped_row"
proof -
  have num: "number_ok ''0''" by code_simp
  show "\<not> entry_intact ex_externals ex_free_row" "\<not> entry_intact ex_externals ex_flipped_row"
    by (simp_all add: ex_free_row_def ex_flipped_row_def ex_settled_row_def entry_intact_def recomputeEntryHash_def
        hashEntry_def ex_externals_def entry_text_eq [OF num num] same_covered_def ex_audited_def canonicalize_def)
qed

lemma ex_spend_row: "ex_spend [ex_settled_row] = 10"
proof -
  have "ex_spend [ex_settled_row] = claimed_spend (counted_row ex_externals) Day ''t'' 1000 [ex_settled_row]"
    unfolding ex_spend_def by (rule hydrated_spend) simp_all
  then show ?thesis using ex_rows by (simp add: counted_row_def) (simp add: claimed_spend_def)
qed

theorem hydration_suspects_edited_rows_witness:
  "case hydrate_state ex_externals ex_guard (\<lambda>i. 1000) [ex_free_row]
      (fresh_guard (fst ex_policy_config) (snd ex_policy_config) ()) of (rep, st) \<Rightarrow>
     hy_tamperedIds rep = [''e''] \<and> hy_settled rep = 0 \<and> paid_at (gs_resources st) ''h'' = {}"
  using hydration_suspects_edited_rows [where w = Day and clock = "\<lambda>i. 1000" and now = 1000 and x = ex_externals and
      g = ex_guard and es = "[ex_free_row]" and p = "fst ex_policy_config" and config = "snd ex_policy_config" and
      store = "()" and host = "''h''"] ex_edits(1)
  by (auto simp: trusted_row_def ex_free_row_def ex_settled_row_def canonicalize_def ex_audited_def split: prod.splits)

theorem flipped_settlement_still_counts_witness:
  "ex_spend [ex_flipped_row] = 10"
  using flipped_settlement_still_counts [where w = Day and clock = "\<lambda>i. 1000" and now = 1000 and e = ex_settled_row and
      x = ex_externals and s = None and g = ex_guard and es = "[]" and fs = "[]" and p = "fst ex_policy_config" and
      config = "snd ex_policy_config" and store = "()" and tok = "''t''"] ex_rows ex_edits(2) ex_spend_row
  by (simp add: ex_spend_def ex_flipped_row_def)

theorem edited_amount_frees_budget_witness:
  "ex_spend [ex_settled_row] = 10 \<and> ex_spend [ex_free_row] = 0"
  using edited_amount_frees_budget [where w = Day and clock = "\<lambda>i. 1000" and now = 1000 and e = ex_settled_row and
      tok = "''t''" and e' = ex_free_row and a = 0 and x = ex_externals and g = ex_guard and es = "[]" and fs = "[]" and
      p = "fst ex_policy_config" and config = "snd ex_policy_config" and store = "()"] ex_rows ex_edits(1) ex_spend_row
  by (simp add: ex_spend_def ex_free_row_def)

theorem recomputed_hash_frees_budget_witness:
  "ex_spend [canonicalize (x_kec ex_externals) (x_num ex_externals) (ex_settled_row\<lparr>e_settlement := None\<rparr>)] = 0"
  using recomputed_hash_frees_budget [where w = Day and clock = "\<lambda>i. 1000" and now = 1000 and e = ex_settled_row and
      tok = "''t''" and e' = "canonicalize (x_kec ex_externals) (x_num ex_externals) (ex_settled_row\<lparr>e_settlement := None\<rparr>)" and
      x = ex_externals and g = ex_guard and es = "[]" and fs = "[]" and p = "fst ex_policy_config" and
      config = "snd ex_policy_config" and store = "()"] ex_rows ex_spend_row
  by (simp add: ex_spend_def)

end
