(* ===== verification/Execute.thy ===== *)
theory Execute
  imports Hydration
begin

text \<open>
  What \<open>AgentGuard\<close> (\<open>packages/core/src/index.ts\<close>) does with a decision: \<open>runGuard\<close>, the
  settlement by \<open>execute\<close>, the three hooks that \<open>guardedFetch\<close> installs in the x402 client and
  the answer it gives when the client throws.

  Every answer of the outside world to a call is in the record \<open>call_env\<close>: the readings of the
  clock, the wallet and client calls that may throw, the operator's answer to an escalation, the
  facilitators, the new entry's id, and what concurrent payments do to the guard's state while
  this call awaits the language model, the operator or the settlement. The effects of a call on
  the outside are the payloads handed to facilitators, in order.
\<close>

section \<open>The environment of a call\<close>

record payment_required =
  pq_x402Version :: int
  pq_resourceUrl :: string
  pq_accepts :: "payment_requirements list"

record settle_response =
  st_success :: bool
  st_transaction :: hex
  st_errorReason :: "string option"

record 's call_env =
  ce_clock :: clock
  ce_uuid :: string
  ce_during_llm :: "'s guard_state \<Rightarrow> 's guard_state"
  ce_during_approval :: "'s guard_state \<Rightarrow> 's guard_state"
  ce_during_settlement :: "'s guard_state \<Rightarrow> 's guard_state"
  ce_answer :: "escalation_handler \<Rightarrow> payment_request \<Rightarrow> policy_decision \<Rightarrow> thrown + bool"
  ce_spine :: "thrown + unit"
  ce_payload :: "payment_required \<Rightarrow> thrown + payload"
  ce_settle :: "string \<Rightarrow> payload \<Rightarrow> payment_requirements \<Rightarrow> thrown + settle_response"

datatype guard_error =
    Ge_thrown thrown
  | Ge_chain chain_error
  | Ge_mismatch assert_error
  | Ge_bad_amount string
  | Ge_aborted reason
  | Ge_no_requirements
  | Ge_store

record execute_result =
  ex_executed :: bool
  ex_decision :: policy_decision
  ex_settlement :: "settlement option"
  ex_reason :: "string option"

type_synonym handed_over = "string \<times> payload \<times> payment_requirements"

section \<open>Running the guard\<close>

definition record_on_breaker :: "agent_guard \<Rightarrow> policy_decision \<Rightarrow> int \<Rightarrow> 's guard_state \<Rightarrow> 's guard_state" where
  "record_on_breaker g dec now st =
     (case ag_breaker g of
        None \<Rightarrow> st
      | Some cfg \<Rightarrow>
          st\<lparr>gs_breaker := CircuitBreaker_record cfg (d_verdict dec) (anomaly_fired (d_checks dec)) now (gs_breaker st)\<rparr>)"

definition AgentGuard_runGuard ::
  "externals \<Rightarrow> agent_guard \<Rightarrow> 's call_env \<Rightarrow> payment_request \<Rightarrow> 's guard_state \<Rightarrow>
     (guard_error + policy_decision \<times> bool) \<times> 's guard_state" where
  "AgentGuard_runGuard x g ce req st =
     (case AgentGuard_evaluate x g (ce_clock ce) req st of
        (dec, st1) \<Rightarrow>
          (let st2 = record_on_breaker g dec (ce_clock ce 3) (ce_during_llm ce st1)
           in if d_verdict dec = Block then (Inr (dec, False), st2)
              else if d_verdict dec = Escalate then
                (case ag_onEscalation g of
                   None \<Rightarrow> (Inr (dec, False), st2)
                 | Some h \<Rightarrow>
                     (case ce_answer ce h req dec of
                        Inl e \<Rightarrow> (Inl (Ge_thrown e), ce_during_approval ce st2)
                      | Inr ok \<Rightarrow> (Inr (dec, ok), ce_during_approval ce st2)))
              else (Inr (dec, True), st2)))"

text \<open>\<open>this.audit.record(req, decision, settlement)\<close>.\<close>

definition audit_record ::
  "externals \<Rightarrow> 's store_ops \<Rightarrow> 's call_env \<Rightarrow> payment_request \<Rightarrow> policy_decision \<Rightarrow> settlement option \<Rightarrow>
     's guard_state \<Rightarrow> 's guard_state option" where
  "audit_record x ops ce req dec s st =
     map_option (\<lambda>(e, t). st\<lparr>gs_store := t\<rparr>)
       (AuditLogger_record (x_kec x) (x_num x) ops (ce_uuid ce) (ce_clock ce 6) req dec s (gs_store st))"

text \<open>What a successful settlement teaches the guard, at the readings 4 and 5 of the clock.\<close>

definition observe_settled :: "externals \<Rightarrow> clock \<Rightarrow> payment_request \<Rightarrow> 's guard_state \<Rightarrow> 's guard_state" where
  "observe_settled x clock req st =
     st\<lparr>gs_behavioral := BehavioralScorer_observe req (clock 4) (gs_behavioral st),
        gs_evaluator := PolicyEvaluator_observe req (clock 5) (gs_evaluator st),
        gs_resources := ResourceRegistry_bind (x_url x) (r_resourceUrl req) (r_recipient req) (gs_resources st)\<rparr>"

section \<open>Settling a payment\<close>

definition AgentGuard_toPaymentRequired :: "payment_request \<Rightarrow> chain_error + payment_required" where
  "AgentGuard_toPaymentRequired req =
     (case getChain (r_chain req) of
        Inl e \<Rightarrow> Inl e
      | Inr chain \<Rightarrow>
          Inr \<lparr>pq_x402Version = 2,
            pq_resourceUrl = (case r_resourceUrl req of Some u \<Rightarrow> u | None \<Rightarrow> ''agentctl://manual/'' @ r_agentId req),
            pq_accepts = [\<lparr>rq_scheme = ''exact'', rq_network = r_chain req, rq_asset = r_token req,
              rq_amount = bigint_to_string (r_amount req), rq_payTo = r_recipient req, rq_maxTimeoutSeconds = 3600,
              rq_extra = [(''name'', dm_name (cc_usdcDomain chain)), (''version'', dm_version (cc_usdcDomain chain))]\<rparr>]\<rparr>)"

text \<open>The facilitator of the spine: with fallbacks the failover client, else the one client.\<close>

definition facilitator_urls :: "agent_guard \<Rightarrow> string list" where
  "facilitator_urls g =
     ag_facilitatorUrl g # (case ag_facilitatorFallbackUrls g of Some us \<Rightarrow> us | None \<Rightarrow> [])"

definition facilitator_settle ::
  "agent_guard \<Rightarrow> 's call_env \<Rightarrow> payload \<Rightarrow> payment_requirements \<Rightarrow> (thrown + settle_response) \<times> string list" where
  "facilitator_settle g ce pl rq =
     (case ag_facilitatorFallbackUrls g of
        Some (u # us) \<Rightarrow> FailoverFacilitatorClient_settle (ce_settle ce) pl rq (ag_facilitatorUrl g # u # us)
      | _ \<Rightarrow> (ce_settle ce (ag_facilitatorUrl g) pl rq, [ag_facilitatorUrl g]))"

definition settlement_of :: "agent_guard \<Rightarrow> settle_response \<Rightarrow> settlement" where
  "settlement_of g r =
     \<lparr>s_txHash = (if st_success r then Some (st_transaction r) else None), s_nonce = None,
      s_facilitator = Some (ag_facilitatorUrl g), s_success = st_success r\<rparr>"

text \<open>The payload of an allowed payment and the requirements it answers, or the error.\<close>

definition prepare_payment ::
  "externals \<Rightarrow> 's call_env \<Rightarrow> payment_request \<Rightarrow> guard_error + payload \<times> payment_requirements" where
  "prepare_payment x ce req =
     (case ce_spine ce of
        Inl e \<Rightarrow> Inl (Ge_thrown e)
      | Inr _ \<Rightarrow>
          (case AgentGuard_toPaymentRequired req of
             Inl e \<Rightarrow> Inl (Ge_chain e)
           | Inr pr \<Rightarrow>
               (case pq_accepts pr of
                  [] \<Rightarrow> Inl Ge_no_requirements
                | rq # _ \<Rightarrow>
                    (case ce_payload ce pr of
                       Inl e \<Rightarrow> Inl (Ge_thrown e)
                     | Inr pl \<Rightarrow>
                         (case assertAuthorizationMatches (x_evm x) pl req of
                            Inl e \<Rightarrow> Inl (Ge_mismatch e)
                          | Inr _ \<Rightarrow> Inr (pl, rq))))))"

definition AgentGuard_execute ::
  "externals \<Rightarrow> 's store_ops \<Rightarrow> agent_guard \<Rightarrow> 's call_env \<Rightarrow> payment_request \<Rightarrow> 's guard_state \<Rightarrow>
     (guard_error + execute_result) \<times> handed_over list \<times> 's guard_state" where
  "AgentGuard_execute x ops g ce req st =
     (case AgentGuard_runGuard x g ce req st of
        (Inl e, st1) \<Rightarrow> (Inl e, [], st1)
      | (Inr (dec, allowed), st1) \<Rightarrow>
          if \<not> allowed then
            (case audit_record x ops ce req dec None st1 of
               None \<Rightarrow> (Inl Ge_store, [], st1)
             | Some st2 \<Rightarrow>
                 (Inr \<lparr>ex_executed = False, ex_decision = dec, ex_settlement = None,
                       ex_reason = Some (if d_verdict dec = Block then ''blocked by policy''
                                         else ''escalation denied/timed out'')\<rparr>, [], st2))
          else
            (case prepare_payment x ce req of
               Inl e \<Rightarrow> (Inl e, [], st1)
             | Inr (pl, rq) \<Rightarrow>
                 (case facilitator_settle g ce pl rq of
                    (res, called) \<Rightarrow>
                      let handed = map (\<lambda>u. (u, pl, rq)) called;
                          st2 = ce_during_settlement ce st1
                      in (case res of
                            Inl e \<Rightarrow> (Inl (Ge_thrown e), handed, st2)
                          | Inr r \<Rightarrow>
                              let s = settlement_of g r;
                                  st3 = (if s_success s then observe_settled x (ce_clock ce) req st2 else st2)
                              in (case audit_record x ops ce req dec (Some s) st3 of
                                    None \<Rightarrow> (Inl Ge_store, handed, st3)
                                  | Some st4 \<Rightarrow>
                                      (Inr \<lparr>ex_executed = s_success s, ex_decision = dec, ex_settlement = Some s,
                                            ex_reason = st_errorReason r\<rparr>, handed, st4))))))"

section \<open>Facts about a run\<close>

lemma settlement_of_success [simp]: "s_success (settlement_of g r) = st_success r"
  by (simp add: settlement_of_def)

lemma facilitator_urls_called:
  "facilitator_settle g ce pl rq = (res, called) \<Longrightarrow> called \<noteq> [] \<and> set called \<subseteq> set (facilitator_urls g)"
proof -
  assume s: "facilitator_settle g ce pl rq = (res, called)"
  have loop: "set (snd (tryAll_loop call e cs)) \<subseteq> set cs \<and> (cs \<noteq> [] \<longrightarrow> snd (tryAll_loop call e cs) \<noteq> [])"
    for call :: "string \<Rightarrow> thrown + settle_response" and e cs
    by (induction cs arbitrary: e) (auto simp: case_prod_beta split: sum.splits)
  show ?thesis
    using s loop [of "\<lambda>c. ce_settle ce c pl rq" OtherThrown "facilitator_urls g"]
    by (auto simp: facilitator_settle_def facilitator_urls_def FailoverFacilitatorClient_settle_def
        FailoverFacilitatorClient_tryAll_def split: option.splits list.splits)
qed

text \<open>The approval of a payment: allowed outright, or escalated and granted by the handler.\<close>

definition approved :: "agent_guard \<Rightarrow> 's call_env \<Rightarrow> payment_request \<Rightarrow> policy_decision \<Rightarrow> bool" where
  "approved g ce req dec \<longleftrightarrow>
     d_verdict dec = Allow \<or>
     d_verdict dec = Escalate \<and> (\<exists>h. ag_onEscalation g = Some h \<and> ce_answer ce h req dec = Inr True)"

lemma runGuard_Inr:
  assumes "AgentGuard_runGuard x g ce req st = (Inr (dec, allowed), st')"
  shows "dec = fst (AgentGuard_evaluate x g (ce_clock ce) req st)" "allowed = approved g ce req dec"
  using assms by (cases "d_verdict dec";
    auto simp: AgentGuard_runGuard_def approved_def Let_def split: prod.splits if_splits option.splits sum.splits)+

definition quiet :: "'s call_env \<Rightarrow> bool" where
  "quiet ce \<longleftrightarrow> ce_during_llm ce = id \<and> ce_during_approval ce = id \<and> ce_during_settlement ce = id"

lemma runGuard_state:
  assumes "AgentGuard_runGuard x g ce req st = (res, st')" "quiet ce"
  shows "st' = record_on_breaker g (fst (AgentGuard_evaluate x g (ce_clock ce) req st)) (ce_clock ce 3)
           (snd (AgentGuard_evaluate x g (ce_clock ce) req st))"
  using assms
  by (auto simp: AgentGuard_runGuard_def quiet_def Let_def split: prod.splits if_splits option.splits sum.splits)

lemma breaker_record_frame [simp]:
  "gs_evaluator (record_on_breaker g d t st) = gs_evaluator st"
  "gs_behavioral (record_on_breaker g d t st) = gs_behavioral st"
  "gs_resources (record_on_breaker g d t st) = gs_resources st"
  "gs_store (record_on_breaker g d t st) = gs_store st"
  by (simp_all add: record_on_breaker_def split: option.splits)

lemma observe_settled_frame [simp]:
  "gs_store (observe_settled x clock req st) = gs_store st"
  "gs_breaker (observe_settled x clock req st) = gs_breaker st"
  by (simp_all add: observe_settled_def)

lemma prepare_payment_Inr:
  assumes "prepare_payment x ce req = Inr (pl, rq)"
  shows "assertAuthorizationMatches (x_evm x) pl req = Inr ()"
    "rq_payTo rq = r_recipient req" "rq_asset rq = r_token req" "rq_network rq = r_chain req"
    "rq_amount rq = bigint_to_string (r_amount req)"
  using assms
  by (auto simp: prepare_payment_def AgentGuard_toPaymentRequired_def split: sum.splits list.splits)

lemma audit_record_Some:
  assumes "audit_record x ops ce req dec s st = Some st'"
  shows "so_insert ops (new_entry (x_kec x) (x_num x) (ce_uuid ce) (ce_clock ce 6) req dec s) (gs_store st) = Some (gs_store st')"
    "gs_evaluator st' = gs_evaluator st" "gs_behavioral st' = gs_behavioral st" "gs_resources st' = gs_resources st"
    "gs_breaker st' = gs_breaker st"
  using assms by (auto simp: audit_record_def AuditLogger_record_def Let_def)

text \<open>The two ways a call of \<open>execute\<close> returns a result, and those in which it throws.\<close>

lemma execute_cases:
  assumes "AgentGuard_execute x ops g ce req st = (res, handed, st')"
  obtains (run_error) e where "res = Inl e" "handed = []" "AgentGuard_runGuard x g ce req st = (Inl e, st')"
  | (refused) dec st1 where "AgentGuard_runGuard x g ce req st = (Inr (dec, False), st1)" "handed = []"
      "audit_record x ops ce req dec None st1 = None \<and> res = Inl Ge_store \<and> st' = st1 \<or>
       audit_record x ops ce req dec None st1 = Some st' \<and>
         (\<exists>r. res = Inr \<lparr>ex_executed = False, ex_decision = dec, ex_settlement = None, ex_reason = Some r\<rparr>)"
  | (unprepared) dec e where "AgentGuard_runGuard x g ce req st = (Inr (dec, True), st')" "handed = []"
      "prepare_payment x ce req = Inl e" "res = Inl e"
  | (thrown) dec st1 pl rq called e where "AgentGuard_runGuard x g ce req st = (Inr (dec, True), st1)"
      "prepare_payment x ce req = Inr (pl, rq)" "facilitator_settle g ce pl rq = (Inl e, called)"
      "handed = map (\<lambda>u. (u, pl, rq)) called" "st' = ce_during_settlement ce st1" "res = Inl (Ge_thrown e)"
  | (answered) dec st1 pl rq called r st3 where "AgentGuard_runGuard x g ce req st = (Inr (dec, True), st1)"
      "prepare_payment x ce req = Inr (pl, rq)" "facilitator_settle g ce pl rq = (Inr r, called)"
      "handed = map (\<lambda>u. (u, pl, rq)) called"
      "st3 = (if st_success r then observe_settled x (ce_clock ce) req (ce_during_settlement ce st1)
              else ce_during_settlement ce st1)"
      "audit_record x ops ce req dec (Some (settlement_of g r)) st3 = None \<and> res = Inl Ge_store \<and> st' = st3 \<or>
       audit_record x ops ce req dec (Some (settlement_of g r)) st3 = Some st' \<and>
         res = Inr \<lparr>ex_executed = st_success r, ex_decision = dec, ex_settlement = Some (settlement_of g r),
           ex_reason = st_errorReason r\<rparr>"
proof -
  have succ: "s_success (settlement_of g r) = st_success r" for r by (simp add: settlement_of_def)
  obtain rg st1 where rg: "AgentGuard_runGuard x g ce req st = (rg, st1)" by fastforce
  show thesis
  proof (cases rg)
    case (Inl e)
    then show thesis using assms rg by (intro run_error) (auto simp: AgentGuard_execute_def)
  next
    case (Inr p)
    then obtain dec allowed where p: "rg = Inr (dec, allowed)" by (cases p) auto
    show thesis
    proof (cases allowed)
      case False
      then show thesis using assms rg p
        by (intro refused [of dec st1]) (auto simp: AgentGuard_execute_def split: option.splits)
    next
      case True
      show thesis
      proof (cases "prepare_payment x ce req")
        case (Inl e)
        then show thesis using assms rg p True by (intro unprepared) (auto simp: AgentGuard_execute_def)
      next
        case (Inr q)
        then obtain pl rq where q: "prepare_payment x ce req = Inr (pl, rq)" by (cases q) auto
        obtain fr called where fr: "facilitator_settle g ce pl rq = (fr, called)" by fastforce
        show thesis
        proof (cases fr)
          case (Inl e)
          then show thesis using assms rg p True q fr
            by (intro thrown) (auto simp: AgentGuard_execute_def Let_def)
        next
          case (Inr r)
          then show thesis using assms rg p True q fr
            by (intro answered [OF _ _ _ _ refl]) (auto simp: AgentGuard_execute_def Let_def succ split: option.splits)
        qed
      qed
    qed
  qed
qed

section \<open>Properties of execute\<close>

text \<open>
  C1. Nothing is handed to a facilitator without approval: if a call of \<open>execute\<close> hands over a
  payload at all, the guard's decision on the request is to allow it, or to escalate it and the
  configured handler approved. Every payload goes to a configured facilitator, with requirements that
  name the request's payee, token, chain and exact amount. A payload that carries an EIP-3009
  authorisation is signed for the request's payee (up to letter case) and its exact amount; one that carries a
  Permit2 authorisation instead, for its payee, its exact amount and its token. A payload with neither
  is handed over as it is: the check leaves the shapes of other chains to their schemes, and does so on
  every chain. The hypotheses on the two shape tests of \<open>@x402/evm\<close> say that they test the presence of the field.
\<close>

theorem execute_settles_only_approved:
  assumes "AgentGuard_execute x ops g ce req st = (res, handed, st')" "handed \<noteq> []"
    and "\<And>p. isEIP3009Payload (x_evm x) p = (pl_authorization p \<noteq> None)"
    and "\<And>p. isPermit2Payload (x_evm x) p = (pl_permit2Authorization p \<noteq> None)"
  shows "approved g ce req (fst (AgentGuard_evaluate x g (ce_clock ce) req st)) \<and>
     list_all (\<lambda>(url, pl, rq). url \<in> set (facilitator_urls g) \<and>
        rq_payTo rq = r_recipient req \<and> rq_asset rq = r_token req \<and> rq_network rq = r_chain req \<and>
        rq_amount rq = bigint_to_string (r_amount req) \<and>
        (\<forall>a. pl_authorization pl = Some a \<longrightarrow>
           lower (s3_to a) = lower (r_recipient req) \<and> bigint_of_string (s3_value a) = Some (r_amount req)) \<and>
        (\<forall>a. pl_authorization pl = None \<longrightarrow> pl_permit2Authorization pl = Some a \<longrightarrow>
           lower (s2_to a) = lower (r_recipient req) \<and> bigint_of_string (s2_amount a) = Some (r_amount req) \<and>
           lower (s2_token a) = lower (r_token req))) handed"
proof -
  note signed = assert_signed_for [of "x_evm x", OF assms(3,4)]
  show ?thesis
    using assms(1)
  proof (cases rule: execute_cases)
    case (thrown dec st1 pl rq called e)
    then show ?thesis
      using runGuard_Inr [OF thrown(1)] facilitator_urls_called [OF thrown(3)] prepare_payment_Inr [OF thrown(2)]
      by (auto simp: list_all_iff signed signed_for_def split: option.splits)
  next
    case (answered dec st1 pl rq called r st3)
    then show ?thesis
      using runGuard_Inr [OF answered(1)] facilitator_urls_called [OF answered(3)] prepare_payment_Inr [OF answered(2)]
      by (auto simp: list_all_iff signed signed_for_def split: option.splits)
  qed (use assms(2) in simp_all)
qed

text \<open>
  C18. What a result records: when a call of \<open>execute\<close> that no other payment interferes with
  returns, exactly one entry was inserted into the audit log, with the request, the decision and
  the settlement of the result; the spend window, the behavioral baseline and the payee registry
  have learnt the payment if and only if it was executed, and it was executed exactly if the
  facilitator reported success.
\<close>

theorem execute_records_its_result:
  assumes "AgentGuard_execute x ops g ce req st = (Inr r, handed, st')" "quiet ce"
  shows "so_insert ops (new_entry (x_kec x) (x_num x) (ce_uuid ce) (ce_clock ce 6) req (ex_decision r) (ex_settlement r))
           (gs_store st) = Some (gs_store st') \<and>
     ex_decision r = fst (AgentGuard_evaluate x g (ce_clock ce) req st) \<and>
     ex_executed r = (\<exists>s. ex_settlement r = Some s \<and> s_success s) \<and>
     gs_evaluator st' = (if ex_executed r then PolicyEvaluator_observe req (ce_clock ce 5) (gs_evaluator st)
                         else gs_evaluator st) \<and>
     gs_behavioral st' = (if ex_executed r then BehavioralScorer_observe req (ce_clock ce 4) (gs_behavioral st)
                          else gs_behavioral st) \<and>
     gs_resources st' = (if ex_executed r
       then ResourceRegistry_bind (x_url x) (r_resourceUrl req) (r_recipient req) (gs_resources st) else gs_resources st)"
  using assms(1)
proof (cases rule: execute_cases)
  case (refused dec st1)
  then have a: "audit_record x ops ce req dec None st1 = Some st'" "ex_settlement r = None" "ex_decision r = dec"
    "\<not> ex_executed r" by auto
  show ?thesis
    using audit_record_Some [OF a(1)] a runGuard_Inr [OF refused(1)] runGuard_state [OF refused(1) assms(2)]
    by (simp add: evaluate_frame)
next
  case (answered dec st1 pl rq called q st3)
  then have a: "audit_record x ops ce req dec (Some (settlement_of g q)) st3 = Some st'"
    "ex_settlement r = Some (settlement_of g q)" "ex_decision r = dec" "ex_executed r = st_success q" by auto
  have "st3 = (if st_success q then observe_settled x (ce_clock ce) req st1 else st1)"
    using answered(5) assms(2) by (simp add: quiet_def)
  then show ?thesis
    using audit_record_Some [OF a(1)] a runGuard_Inr [OF answered(1)] runGuard_state [OF answered(1) assms(2)]
    by (cases "st_success q") (simp_all add: evaluate_frame settlement_of_def observe_settled_def)
qed simp_all

text \<open>
  A facilitator that throws leaves no trace: when the payload was handed over and the call
  throws what the facilitator threw, nothing is written to the audit log and no window counts the
  payment, whether or not the facilitator had already settled it.
\<close>

theorem facilitator_error_leaves_no_trace:
  assumes "AgentGuard_execute x ops g ce req st = (Inl (Ge_thrown e), handed, st')" "handed \<noteq> []" "quiet ce"
  shows "gs_store st' = gs_store st \<and> gs_evaluator st' = gs_evaluator st \<and> gs_behavioral st' = gs_behavioral st \<and>
     gs_resources st' = gs_resources st"
  using assms(1)
proof (cases rule: execute_cases)
  case (thrown dec st1 pl rq called e')
  then show ?thesis
    using runGuard_state [OF thrown(1) assms(3)] assms(3) by (simp add: evaluate_frame quiet_def)
qed (use assms(2) in auto)

text \<open>
  A settlement by a fallback is recorded under the primary's name: whichever facilitator
  answered, the settlement of the result names the first one, even when it threw.
\<close>

theorem fallback_recorded_as_primary:
  assumes "AgentGuard_execute x ops g ce req st = (Inr r, handed, st')" "handed \<noteq> []"
    and "ag_facilitatorFallbackUrls g = Some (u # us)" "\<And>pl rq. ce_settle ce (ag_facilitatorUrl g) pl rq = Inl e"
    and "ag_facilitatorUrl g \<notin> set (u # us)"
  shows "\<exists>s. ex_settlement r = Some s \<and> s_facilitator s = Some (ag_facilitatorUrl g) \<and>
     fst (last handed) \<noteq> ag_facilitatorUrl g"
  using assms(1)
proof (cases rule: execute_cases)
  case (answered dec st1 pl rq called q st3)
  have loop: "fst (tryAll_loop call e' cs) = Inr q \<Longrightarrow> last (snd (tryAll_loop call e' cs)) \<in> set cs"
    for call :: "string \<Rightarrow> thrown + settle_response" and e' cs
  proof (induction cs arbitrary: e')
    case (Cons c cs)
    show ?case
    proof (cases "call c")
      case (Inl f)
      with Cons have "last (snd (tryAll_loop call f cs)) \<in> set cs" by (simp add: case_prod_beta)
      moreover have "snd (tryAll_loop call f cs) \<noteq> []"
        using Cons.prems Inl by (cases cs) (auto simp: case_prod_beta split: sum.splits)
      ultimately show ?thesis using Inl by (simp add: case_prod_beta)
    qed simp
  qed simp
  define rest where "rest = tryAll_loop (\<lambda>c. ce_settle ce c pl rq) e (u # us)"
  have "called = ag_facilitatorUrl g # snd rest" "fst rest = Inr q"
    using answered(3) assms(3,4) unfolding rest_def
    by (auto simp: facilitator_settle_def FailoverFacilitatorClient_settle_def FailoverFacilitatorClient_tryAll_def
        case_prod_beta simp del: tryAll_loop.simps(2) simp: tryAll_loop.simps(2) [of _ _ "ag_facilitatorUrl g"])
  moreover have "snd rest \<noteq> []" unfolding rest_def by (auto simp: case_prod_beta split: sum.splits)
  moreover have "last (snd rest) \<in> set (u # us)"
    using \<open>fst rest = Inr q\<close> loop unfolding rest_def by blast
  ultimately have "last called \<in> set (u # us)" by simp
  then show ?thesis using answered(4,6) assms(2,5) by (auto simp: settlement_of_def last_map)
qed (use assms(2) in auto)

section \<open>Examples\<close>

definition ex_state :: "sqlite guard_state" where
  "ex_state = fresh_guard (fst ex_policy_config) (snd ex_policy_config) []"

definition ex_agent :: agent_guard where
  "ex_agent = ex_guard\<lparr>ag_facilitatorUrl := ''f'', ag_facilitatorFallbackUrls := Some [''g'']\<rparr>"

definition ex_payload :: payload where
  "ex_payload = \<lparr>pl_authorization = Some \<lparr>s3_to = ''0xAB'', s3_value = bigint_to_string 5\<rparr>, pl_permit2Authorization = None\<rparr>"

definition ex_call :: "(string \<Rightarrow> thrown + settle_response) \<Rightarrow> sqlite call_env" where
  "ex_call settle = \<lparr>ce_clock = (\<lambda>i. 1000), ce_uuid = ''u'', ce_during_llm = id, ce_during_approval = id,
     ce_during_settlement = id, ce_answer = (\<lambda>h req dec. Inr False), ce_spine = Inr (),
     ce_payload = (\<lambda>pr. Inr ex_payload), ce_settle = (\<lambda>url pl rq. settle url)\<rparr>"

definition ex_paid_response :: settle_response where
  "ex_paid_response = \<lparr>st_success = True, st_transaction = ''0x9'', st_errorReason = None\<rparr>"

text \<open>The primary facilitator is down, the fallback settles; and both are down.\<close>

definition ex_failover :: "string \<Rightarrow> thrown + settle_response" where
  "ex_failover url = (if url = ''f'' then Inl (ErrorInstance ''down'') else Inr ex_paid_response)"

definition ex_outage :: "string \<Rightarrow> thrown + settle_response" where
  "ex_outage url = Inl (ErrorInstance ''timeout'')"

text \<open>A guard without a breaker and without a language model allows the order when its policy does not object.\<close>

lemma ex_allows:
  assumes "ag_breaker g = None" "ag_intent g = ag_intent ex_agent"
    and "gs_behavioral st = gs_behavioral ex_state" "p_anomalyThreshold (ev_policy (gs_evaluator st)) = 1"
    and "\<not> blocks (PolicyEvaluator_evaluate (x_url ex_externals) (gs_evaluator st) ex_order 1000)"
    and "\<not> er_escalate (PolicyEvaluator_evaluate (x_url ex_externals) (gs_evaluator st) ex_order 1000)"
  shows "\<exists>d. AgentGuard_evaluate ex_externals g (\<lambda>i. 1000) ex_order st = (d, st) \<and> d_verdict d = Allow"
proof -
  let ?d = "layered_decision ex_externals g (\<lambda>i. 1000) ex_order st"
  have b: "breaker_open g 1000 b = (False, b)" for b
    using assms(1) by (simp add: breaker_open_def)
  have "AgentGuard_evaluate ex_externals g (\<lambda>i. 1000) ex_order st = (?d, st)"
    by (simp add: AgentGuard_evaluate_def b ex_order_valid Let_def)
  moreover have "\<not> failed_critical (ResourceRegistry_check (x_url ex_externals) (gs_resources st) ex_order)"
    by (simp add: failed_critical_def ResourceRegistry_check_def hostOf_def ex_order_def binding_check_def)
  moreover have "\<not> failed_critical (IntentReconciler_check (x_env ex_externals) (x_http ex_externals) (ag_intent g) ex_order)"
    using assms(2)
    by (simp add: failed_critical_def IntentReconciler_check_def resolveLLMConfig_def ex_agent_def ex_guard_def
        AgentGuard_new_def IntentReconciler_new_def resolveGuardLLMConfig_def ex_policy_config_def ex_externals_def truthy_def
        or_else_def no_llm_def intent_info_def)
  moreover have "\<not> anomalous (ev_policy (gs_evaluator st)) (BehavioralScorer_score (gs_behavioral st) ex_order 1000)"
    using assms(3,4)
    by (simp add: anomalous_def BehavioralScorer_score_def Let_def ex_state_def fresh_guard_simps new_scorer_def
        new_baseline_def EWMABaseline_zScore_def opt_default_def ex_policy_config_def)
  ultimately have "d_verdict ?d \<noteq> Block" "d_verdict ?d \<noteq> Escalate" using assms(5,6) by (simp_all add: layered_verdict)
  then show ?thesis
    using \<open>AgentGuard_evaluate ex_externals g (\<lambda>i. 1000) ex_order st = (?d, st)\<close> by (cases "d_verdict ?d") simp_all
qed

lemma ex_evaluated:
  "d_verdict (fst (AgentGuard_evaluate ex_externals ex_agent (\<lambda>i. 1000) ex_order ex_state)) = Allow"
proof -
  have "\<exists>d. AgentGuard_evaluate ex_externals ex_agent (\<lambda>i. 1000) ex_order ex_state = (d, ex_state) \<and> d_verdict d = Allow"
    by (rule ex_allows)
      (simp_all add: blocks_def PolicyEvaluator_evaluate_def ex_state_def fresh_guard_simps new_evaluator_def ex_policy_config_def
        ex_agent_def ex_guard_def AgentGuard_new_def)
  then show ?thesis by force
qed

lemma ex_quiet: "quiet (ex_call s)"
  by (simp add: quiet_def ex_call_def)

lemma ex_run:
  "AgentGuard_runGuard ex_externals ex_agent (ex_call s) ex_order ex_state =
     (Inr (fst (AgentGuard_evaluate ex_externals ex_agent (\<lambda>i. 1000) ex_order ex_state), True),
      snd (AgentGuard_evaluate ex_externals ex_agent (\<lambda>i. 1000) ex_order ex_state))"
  using ex_evaluated
  by (simp add: AgentGuard_runGuard_def ex_call_def case_prod_beta Let_def record_on_breaker_def ex_agent_def ex_guard_def
      AgentGuard_new_def ex_policy_config_def)

lemma ex_prepared: "\<exists>rq. prepare_payment ex_externals (ex_call s) ex_order = Inr (ex_payload, rq)"
proof -
  have "lower ''0xAB'' = lower ''0xab''" by code_simp
  then have "assertAuthorizationMatches (x_evm ex_externals) ex_payload ex_order = Inr ()"
    by (simp add: assertAuthorizationMatches_def ex_externals_def ex_payload_def bigint_of_string_to_string throw_mismatches_def
        recipient_mismatch_def amount_mismatch_def eq_ci_def ex_order_def)
  then show ?thesis
    by (auto simp: prepare_payment_def ex_call_def AgentGuard_toPaymentRequired_def ex_order_def getChain_def CHAINS_def)
qed

lemma ex_settled_by_fallback:
  "\<exists>r handed st'. AgentGuard_execute ex_externals (sqlite_ops (\<lambda>n. ''?'')) ex_agent (ex_call ex_failover) ex_order ex_state =
     (Inr r, handed, st') \<and> handed \<noteq> [] \<and> ex_executed r"
proof -
  obtain rq where rq: "prepare_payment ex_externals (ex_call ex_failover) ex_order = Inr (ex_payload, rq)"
    using ex_prepared by blast
  have s: "facilitator_settle ex_agent (ex_call ex_failover) ex_payload rq = (Inr ex_paid_response, [''f'', ''g''])"
    by (simp add: facilitator_settle_def ex_agent_def ex_call_def ex_failover_def FailoverFacilitatorClient_settle_def
        FailoverFacilitatorClient_tryAll_def)
  have "gs_store (snd (AgentGuard_evaluate ex_externals ex_agent (\<lambda>i. 1000) ex_order ex_state)) = []"
    by (simp add: evaluate_frame ex_state_def fresh_guard_def AgentGuard_new_def)
  then have "\<exists>st'. audit_record ex_externals (sqlite_ops (\<lambda>n. ''?'')) (ex_call ex_failover) ex_order
      (fst (AgentGuard_evaluate ex_externals ex_agent (\<lambda>i. 1000) ex_order ex_state))
      (Some (settlement_of ex_agent ex_paid_response))
      (observe_settled ex_externals (\<lambda>i. 1000) ex_order
         (snd (AgentGuard_evaluate ex_externals ex_agent (\<lambda>i. 1000) ex_order ex_state))) = Some st'"
    by (simp add: audit_record_def AuditLogger_record_def Let_def sqlite_ops_def Sqlite_insert_def)
  then obtain st' where st': "audit_record ex_externals (sqlite_ops (\<lambda>n. ''?'')) (ex_call ex_failover) ex_order
      (fst (AgentGuard_evaluate ex_externals ex_agent (\<lambda>i. 1000) ex_order ex_state))
      (Some (settlement_of ex_agent ex_paid_response))
      (observe_settled ex_externals (\<lambda>i. 1000) ex_order
         (snd (AgentGuard_evaluate ex_externals ex_agent (\<lambda>i. 1000) ex_order ex_state))) = Some st'" ..
  have "s_success (settlement_of ex_agent ex_paid_response)" "ce_clock (ex_call ex_failover) = (\<lambda>i. 1000)"
    "ce_during_settlement (ex_call ex_failover) = id"
    by (simp_all add: settlement_of_def ex_paid_response_def ex_call_def)
  then show ?thesis using rq s st' by (auto simp: AgentGuard_execute_def ex_run Let_def)
qed

lemma ex_both_down:
  "\<exists>handed st'. AgentGuard_execute ex_externals (sqlite_ops (\<lambda>n. ''?'')) ex_agent (ex_call ex_outage) ex_order ex_state =
     (Inl (Ge_thrown (ErrorInstance ''timeout'')), handed, st') \<and> handed \<noteq> []"
proof -
  obtain rq where rq: "prepare_payment ex_externals (ex_call ex_outage) ex_order = Inr (ex_payload, rq)"
    using ex_prepared by blast
  have "facilitator_settle ex_agent (ex_call ex_outage) ex_payload rq = (Inl (ErrorInstance ''timeout''), [''f'', ''g''])"
    by (simp add: facilitator_settle_def ex_agent_def ex_call_def ex_outage_def FailoverFacilitatorClient_settle_def
        FailoverFacilitatorClient_tryAll_def)
  then show ?thesis using rq by (auto simp: AgentGuard_execute_def ex_run Let_def)
qed

theorem execute_settles_only_approved_witness:
  "\<exists>r handed st'. AgentGuard_execute ex_externals (sqlite_ops (\<lambda>n. ''?'')) ex_agent (ex_call ex_failover) ex_order ex_state =
     (Inr r, handed, st') \<and> handed \<noteq> [] \<and>
     approved ex_agent (ex_call ex_failover) ex_order
       (fst (AgentGuard_evaluate ex_externals ex_agent (ce_clock (ex_call ex_failover)) ex_order ex_state))"
proof -
  obtain r handed st' where e: "AgentGuard_execute ex_externals (sqlite_ops (\<lambda>n. ''?'')) ex_agent (ex_call ex_failover)
      ex_order ex_state = (Inr r, handed, st')" "handed \<noteq> []"
    using ex_settled_by_fallback by blast
  then show ?thesis using execute_settles_only_approved [OF e] by (simp add: ex_externals_def)
qed

theorem execute_records_its_result_witness:
  "\<exists>r handed st'. AgentGuard_execute ex_externals (sqlite_ops (\<lambda>n. ''?'')) ex_agent (ex_call ex_failover) ex_order ex_state =
     (Inr r, handed, st') \<and> gs_evaluator st' = PolicyEvaluator_observe ex_order 1000 (gs_evaluator ex_state)"
proof -
  obtain r handed st' where e: "AgentGuard_execute ex_externals (sqlite_ops (\<lambda>n. ''?'')) ex_agent (ex_call ex_failover)
      ex_order ex_state = (Inr r, handed, st')" "ex_executed r"
    using ex_settled_by_fallback by blast
  then show ?thesis using execute_records_its_result [OF e(1) ex_quiet] by (simp add: ex_call_def)
qed

theorem facilitator_error_leaves_no_trace_witness:
  "\<exists>handed st'. AgentGuard_execute ex_externals (sqlite_ops (\<lambda>n. ''?'')) ex_agent (ex_call ex_outage) ex_order ex_state =
     (Inl (Ge_thrown (ErrorInstance ''timeout'')), handed, st') \<and> handed \<noteq> [] \<and> gs_store st' = []"
proof -
  obtain handed st' where e: "AgentGuard_execute ex_externals (sqlite_ops (\<lambda>n. ''?'')) ex_agent (ex_call ex_outage)
      ex_order ex_state = (Inl (Ge_thrown (ErrorInstance ''timeout'')), handed, st')" "handed \<noteq> []"
    using ex_both_down by blast
  have "gs_store ex_state = []" by (simp add: ex_state_def fresh_guard_def AgentGuard_new_def)
  then show ?thesis using e facilitator_error_leaves_no_trace [OF e ex_quiet] by simp
qed

theorem fallback_recorded_as_primary_witness:
  "\<exists>r handed st' s. AgentGuard_execute ex_externals (sqlite_ops (\<lambda>n. ''?'')) ex_agent (ex_call ex_failover) ex_order ex_state =
     (Inr r, handed, st') \<and> ex_settlement r = Some s \<and> s_facilitator s = Some ''f'' \<and> fst (last handed) \<noteq> ''f''"
proof -
  obtain r handed st' where e: "AgentGuard_execute ex_externals (sqlite_ops (\<lambda>n. ''?'')) ex_agent (ex_call ex_failover)
      ex_order ex_state = (Inr r, handed, st')" "handed \<noteq> []"
    using ex_settled_by_fallback by blast
  have "ag_facilitatorUrl ex_agent = ''f''" "ag_facilitatorFallbackUrls ex_agent = Some [''g'']"
    by (simp_all add: ex_agent_def)
  then show ?thesis
    using e fallback_recorded_as_primary [OF e, of "''g''" "[]" "ErrorInstance ''down''"]
    by (auto simp: ex_call_def ex_failover_def)
qed

end
