(* ===== verification/Fetch.thy ===== *)
theory Fetch
  imports Execute
begin

text \<open>
  \<open>guardedFetch\<close> of \<open>packages/core/src/index.ts\<close>: the hooks that \<open>ensureSpine\<close> registers with the
  x402 client, and the handler around it. The client of \<open>@x402/fetch\<close> is outside: \<open>fetch_world\<close>
  says what the resource and the signing scheme answer, and \<open>guarded_fetch\<close> calls the hooks in the
  order of the client's protocol: a 402 answer, the hook before payment, the creation of the payload,
  the hook after it, the retried request, the hook on its response. An exception at any point ends the
  request, and the handler decides what the caller sees.
\<close>

section \<open>The hooks\<close>

datatype hook_result = Proceed | Abort reason | Hook_throws guard_error

definition push_pending :: "pending_item \<Rightarrow> intent_store option \<Rightarrow> intent_store option" where
  "push_pending p store = map_option (\<lambda>s. s\<lparr>is_pending := is_pending s @ [p]\<rparr>) store"

definition onBeforePaymentCreation ::
  "externals \<Rightarrow> 's store_ops \<Rightarrow> agent_guard \<Rightarrow> 's call_env \<Rightarrow> payment_requirements \<Rightarrow> intent_store option \<Rightarrow>
     's guard_state \<Rightarrow> hook_result \<times> intent_store option \<times> 's guard_state" where
  "onBeforePaymentCreation x ops g ce rq store st =
     (case requirementsToPaymentRequest rq (ag_agentId g) store of
        None \<Rightarrow> (Hook_throws (Ge_bad_amount (rq_amount rq)), store, st)
      | Some req \<Rightarrow>
          (case AgentGuard_runGuard x g ce req st of
             (Inl e, st1) \<Rightarrow> (Hook_throws e, store, st1)
           | (Inr (dec, allowed), st1) \<Rightarrow>
               if \<not> allowed then
                 (case audit_record x ops ce req dec None st1 of
                    None \<Rightarrow> (Hook_throws Ge_store, store, st1)
                  | Some st2 \<Rightarrow>
                      (Abort (d_reason dec),
                       push_pending \<lparr>pi_req = req, pi_decision = dec, pi_recorded = True\<rparr> store, st2))
               else (Proceed, push_pending \<lparr>pi_req = req, pi_decision = dec, pi_recorded = False\<rparr> store, st1)))"

definition last_pending :: "intent_store option \<Rightarrow> pending_item option" where
  "last_pending store =
     (case store of None \<Rightarrow> None | Some s \<Rightarrow> if is_pending s = [] then None else Some (last (is_pending s)))"

text \<open>The error that the hook throws, if any.\<close>

definition onAfterPaymentCreation :: "externals \<Rightarrow> payload \<Rightarrow> intent_store option \<Rightarrow> guard_error option" where
  "onAfterPaymentCreation x pl store =
     (case last_pending store of
        None \<Rightarrow> None
      | Some p \<Rightarrow> (case assertAuthorizationMatches (x_evm x) pl (pi_req p) of Inl e \<Rightarrow> Some (Ge_mismatch e) | Inr _ \<Rightarrow> None))"

definition onPaymentResponse ::
  "externals \<Rightarrow> 's store_ops \<Rightarrow> agent_guard \<Rightarrow> 's call_env \<Rightarrow> settle_response option \<Rightarrow> intent_store option \<Rightarrow>
     's guard_state \<Rightarrow> guard_error option \<times> intent_store option \<times> 's guard_state" where
  "onPaymentResponse x ops g ce response store st =
     (case last_pending store of
        None \<Rightarrow> (None, store, st)
      | Some p \<Rightarrow>
          (let store' = map_option (\<lambda>s. s\<lparr>is_pending := butlast (is_pending s)\<rparr>) store;
               s = map_option (settlement_of g) response;
               paid = (case s of None \<Rightarrow> False | Some t \<Rightarrow> s_success t);
               st1 = (if paid then observe_settled x (ce_clock ce) (pi_req p) st else st)
           in if pi_recorded p then (None, store', st1)
              else (case audit_record x ops ce (pi_req p) (pi_decision p) s st1 of
                      None \<Rightarrow> (Some Ge_store, store', st1)
                    | Some st2 \<Rightarrow> (None, store', st2))))"

section \<open>The request\<close>

record fetch_world =
  fw_requirements :: "payment_requirements option"
  fw_payload :: "thrown + payload"
  fw_retry :: "thrown + settle_response option"

text \<open>What the caller gets: the resource's response, the guard's own 403, or the exception.\<close>

datatype fetch_result = Upstream | Forbidden reason policy_decision | Rethrown guard_error

definition answer_exception :: "guard_error \<Rightarrow> intent_store option \<Rightarrow> fetch_result" where
  "answer_exception err store =
     (case last_pending store of
        Some p \<Rightarrow> if d_verdict (pi_decision p) \<noteq> Allow then Forbidden (d_reason (pi_decision p)) (pi_decision p)
                  else Rethrown err
      | None \<Rightarrow> Rethrown err)"

definition request_store :: "headers \<Rightarrow> string \<Rightarrow> intent_store" where
  "request_store hs url =
     \<lparr>is_intent = headerValue hs ''x-agent-intent'', is_resourceUrl = Some url, is_pending = []\<rparr>"

definition guarded_fetch ::
  "externals \<Rightarrow> 's store_ops \<Rightarrow> agent_guard \<Rightarrow> 's call_env \<Rightarrow> fetch_world \<Rightarrow> headers \<Rightarrow> string \<Rightarrow> 's guard_state \<Rightarrow>
     fetch_result \<times> 's guard_state" where
  "guarded_fetch x ops g ce fw hs url st =
     (case fw_requirements fw of
        None \<Rightarrow> (Upstream, st)
      | Some rq \<Rightarrow>
          (case onBeforePaymentCreation x ops g ce rq (Some (request_store hs url)) st of
             (Hook_throws e, store, st1) \<Rightarrow> (answer_exception e store, st1)
           | (Abort r, store, st1) \<Rightarrow> (answer_exception (Ge_aborted r) store, st1)
           | (Proceed, store, st1) \<Rightarrow>
               (case fw_payload fw of
                  Inl e \<Rightarrow> (answer_exception (Ge_thrown e) store, st1)
                | Inr pl \<Rightarrow>
                    (case onAfterPaymentCreation x pl store of
                       Some e \<Rightarrow> (answer_exception e store, st1)
                     | None \<Rightarrow>
                         (case fw_retry fw of
                            Inl e \<Rightarrow> (answer_exception (Ge_thrown e) store, ce_during_settlement ce st1)
                          | Inr response \<Rightarrow>
                              (case onPaymentResponse x ops g ce response store (ce_during_settlement ce st1) of
                                 (Some e, store', st2) \<Rightarrow> (answer_exception e store', st2)
                               | (None, store', st2) \<Rightarrow> (Upstream, st2)))))))"

section \<open>Properties\<close>

text \<open>The payment of a request that asks for one.\<close>

definition payment_of :: "agent_guard \<Rightarrow> payment_requirements \<Rightarrow> headers \<Rightarrow> string \<Rightarrow> payment_request option" where
  "payment_of g rq hs url = requirementsToPaymentRequest rq (ag_agentId g) (Some (request_store hs url))"

text \<open>The signed payload is what was approved, and the retried request is answered.\<close>

definition completes :: "externals \<Rightarrow> fetch_world \<Rightarrow> payment_request \<Rightarrow> settle_response option \<Rightarrow> bool" where
  "completes x fw req response \<longleftrightarrow>
     (\<exists>pl. fw_payload fw = Inr pl \<and> assertAuthorizationMatches (x_evm x) pl req = Inr ()) \<and> fw_retry fw = Inr response"

lemma runGuard_answered:
  assumes "\<And>h e. ag_onEscalation g = Some h \<Longrightarrow>
     ce_answer ce h req (fst (AgentGuard_evaluate x g (ce_clock ce) req st)) \<noteq> Inl e"
  shows "\<exists>st'. AgentGuard_runGuard x g ce req st =
     (Inr (fst (AgentGuard_evaluate x g (ce_clock ce) req st),
           approved g ce req (fst (AgentGuard_evaluate x g (ce_clock ce) req st))), st')"
proof -
  obtain r st' where r: "AgentGuard_runGuard x g ce req st = (r, st')" by fastforce
  show ?thesis
  proof (cases r)
    case (Inl e)
    then show ?thesis using r assms
      by (auto simp: AgentGuard_runGuard_def Let_def split: prod.splits if_splits option.splits sum.splits)
  next
    case (Inr p)
    then obtain dec allowed where "r = Inr (dec, allowed)" by (cases p) auto
    then show ?thesis using r runGuard_Inr [of x g ce req st dec allowed st'] by auto
  qed
qed

text \<open>The hooks of an approved payment that goes through: one record, the last state.\<close>

lemma fetch_approved:
  assumes "requirementsToPaymentRequest rq (ag_agentId g) (Some (request_store hs url)) = Some req"
    and "AgentGuard_runGuard x g ce req st = (Inr (dec, True), st1)"
    and "audit_record x ops ce req dec (map_option (settlement_of g) response)
      (if \<exists>r. response = Some r \<and> st_success r then observe_settled x (ce_clock ce) req st1 else st1) = Some st4"
    and "guarded_fetch x ops g ce fw hs url st = (res, st')" "fw_requirements fw = Some rq"
    and "completes x fw req response" "ce_during_settlement ce = id"
  shows "res = Upstream \<and> st' = st4"
proof -
  define store where "store = Some (request_store hs url \<lparr>is_pending := [\<lparr>pi_req = req, pi_decision = dec, pi_recorded = False\<rparr>]\<rparr>)"
  have last: "last_pending store = Some \<lparr>pi_req = req, pi_decision = dec, pi_recorded = False\<rparr>"
    by (simp add: store_def last_pending_def)
  have "onBeforePaymentCreation x ops g ce rq (Some (request_store hs url)) st = (Proceed, store, st1)"
    using assms(1,2) by (simp add: onBeforePaymentCreation_def push_pending_def store_def request_store_def)
  moreover have "\<exists>store'. onPaymentResponse x ops g ce response store st1 = (None, store', st4)"
    using assms(3) by (cases response; cases "\<exists>r. response = Some r \<and> st_success r") (auto simp: onPaymentResponse_def last Let_def)
  moreover have "onAfterPaymentCreation x pl store = None" if "assertAuthorizationMatches (x_evm x) pl req = Inr ()" for pl
    using that by (simp add: onAfterPaymentCreation_def last)
  ultimately show ?thesis
    using assms(4-7) by (auto simp: guarded_fetch_def completes_def)
qed

text \<open>
  C6. Every payment of a guarded request is recorded exactly once: if it is not approved, the
  refusal is in the audit log when the caller gets the guard's 403 with the decision; if it is
  approved and the request completes, the log has the decision with the settlement of the
  response, and the guard has learnt the payment exactly if that settlement succeeded.
\<close>

theorem fetch_records_payment_once:
  assumes "guarded_fetch x ops g ce fw hs url st = (res, st')" "quiet ce" "fw_requirements fw = Some rq"
    and "payment_of g rq hs url = Some req" "dec = fst (AgentGuard_evaluate x g (ce_clock ce) req st)"
    and "\<And>h e. ce_answer ce h req dec \<noteq> Inl e"
    and "\<And>s. so_insert ops (new_entry (x_kec x) (x_num x) (ce_uuid ce) (ce_clock ce 6) req dec s) (gs_store st) \<noteq> None"
  shows "(\<not> approved g ce req dec \<longrightarrow>
       so_insert ops (new_entry (x_kec x) (x_num x) (ce_uuid ce) (ce_clock ce 6) req dec None) (gs_store st) = Some (gs_store st') \<and>
       res = Forbidden (d_reason dec) dec \<and> gs_evaluator st' = gs_evaluator st) \<and>
     (approved g ce req dec \<longrightarrow> completes x fw req response \<longrightarrow>
       so_insert ops (new_entry (x_kec x) (x_num x) (ce_uuid ce) (ce_clock ce 6) req dec (map_option (settlement_of g) response))
         (gs_store st) = Some (gs_store st') \<and> res = Upstream \<and>
       gs_evaluator st' = (if (\<exists>r. response = Some r \<and> st_success r)
         then PolicyEvaluator_observe req (ce_clock ce 5) (gs_evaluator st) else gs_evaluator st))"
proof -
  have no_throw: "\<And>h e. ce_answer ce h req (fst (AgentGuard_evaluate x g (ce_clock ce) req st)) \<noteq> Inl e"
    using assms(5,6) by simp
  obtain st1 where run: "AgentGuard_runGuard x g ce req st = (Inr (dec, approved g ce req dec), st1)"
    using runGuard_answered [where ce = ce and x = x and g = g and req = req and st = st] no_throw assms(5) by auto
  have st1: "gs_store st1 = gs_store st" "gs_evaluator st1 = gs_evaluator st"
    using runGuard_state [OF run assms(2)] by (simp_all add: evaluate_frame)
  have rec: "\<exists>t. audit_record x ops ce req dec s t0 = Some t" if "gs_store t0 = gs_store st" for s t0
    using assms(7) [of s] that by (auto simp: audit_record_def AuditLogger_record_def Let_def)
  have req: "requirementsToPaymentRequest rq (ag_agentId g) (Some (request_store hs url)) = Some req"
    using assms(4) by (simp add: payment_of_def)
  have idle: "ce_during_settlement ce = id" using assms(2) by (simp add: quiet_def)
  show ?thesis
  proof (cases "approved g ce req dec")
    case False
    obtain st2 where st2: "audit_record x ops ce req dec None st1 = Some st2" using rec st1 by blast
    have "d_verdict dec \<noteq> Allow" using False by (auto simp: approved_def)
    then have "res = Forbidden (d_reason dec) dec" "st' = st2"
      using assms(1,3) req run False st2
      by (auto simp: guarded_fetch_def onBeforePaymentCreation_def answer_exception_def last_pending_def push_pending_def)
    then show ?thesis using audit_record_Some [OF st2] st1 False by simp
  next
    case True
    let ?s = "map_option (settlement_of g) response"
    let ?st3 = "if (\<exists>r. response = Some r \<and> st_success r) then observe_settled x (ce_clock ce) req st1 else st1"
    obtain st4 where st4: "audit_record x ops ce req dec ?s ?st3 = Some st4"
    proof -
      have "gs_store ?st3 = gs_store st" using st1 by simp
      from rec [OF this, of ?s] show thesis using that by blast
    qed
    have "res = Upstream \<and> st' = st4" if "completes x fw req response"
      by (rule fetch_approved [OF req _ st4 assms(1,3) that idle]) (use run True in simp)
    then show ?thesis
      using audit_record_Some [OF st4] st1 True
      by (cases "\<exists>r. response = Some r \<and> st_success r") (auto simp: observe_settled_def)
  qed
qed

text \<open>
  An approved escalation whose payment cannot be signed is reported to the caller as blocked by
  the guard, and its decision is not in the audit log.
\<close>

theorem approved_escalation_reported_blocked:
  assumes "quiet ce" "fw_requirements fw = Some rq" "payment_of g rq hs url = Some req"
    and "dec = fst (AgentGuard_evaluate x g (ce_clock ce) req st)" "d_verdict dec = Escalate"
    and "ag_onEscalation g = Some h" "ce_answer ce h req dec = Inr True" "fw_payload fw = Inl e"
  shows "case guarded_fetch x ops g ce fw hs url st of
     (res, st') \<Rightarrow> res = Forbidden (d_reason dec) dec \<and> gs_store st' = gs_store st"
proof -
  obtain st1 where run: "AgentGuard_runGuard x g ce req st = (Inr (dec, True), st1)"
  proof -
    have "ce_answer ce h' req (fst (AgentGuard_evaluate x g (ce_clock ce) req st)) \<noteq> Inl e'"
      if "ag_onEscalation g = Some h'" for h' e'
      using that assms(4-7) by simp
    from runGuard_answered [where ce = ce and x = x and g = g and req = req and st = st, OF this] show thesis
      using that assms(4-7) by (auto simp: approved_def)
  qed
  have "gs_store st1 = gs_store st" using runGuard_state [OF run assms(1)] by (simp add: evaluate_frame)
  then show ?thesis
    using assms(2,3,5,8) run
    by (simp add: guarded_fetch_def onBeforePaymentCreation_def payment_of_def answer_exception_def last_pending_def
        push_pending_def)
qed

section \<open>Examples\<close>

definition ex_requirements :: payment_requirements where
  "ex_requirements = \<lparr>rq_scheme = ''exact'', rq_network = r_chain ex_order, rq_asset = r_token ex_order,
     rq_amount = bigint_to_string 5, rq_payTo = r_recipient ex_order, rq_maxTimeoutSeconds = 60, rq_extra = []\<rparr>"

definition ex_headers :: headers where
  "ex_headers = HeaderRecord [(''x-agent-intent'', ''data'')]"

definition ex_fetch_world :: fetch_world where
  "ex_fetch_world = \<lparr>fw_requirements = Some ex_requirements, fw_payload = Inr ex_payload, fw_retry = Inr (Some ex_paid_response)\<rparr>"

text \<open>A guard with a handler that approves, under a policy that escalates every anomaly score.\<close>

definition ex_cautious :: "sqlite guard_state" where
  "ex_cautious = fresh_guard ((fst ex_policy_config)\<lparr>p_anomalyThreshold := 0, p_anomalyAction := AEscalate\<rparr>) (snd ex_policy_config) []"

definition ex_asking :: agent_guard where
  "ex_asking = ex_agent\<lparr>ag_onEscalation := Some Callback_handler\<rparr>"

definition ex_yes :: "sqlite call_env" where
  "ex_yes = (ex_call ex_failover)\<lparr>ce_answer := (\<lambda>h req dec. Inr True)\<rparr>"

definition ex_fetched :: payment_request where
  "ex_fetched = ex_order\<lparr>r_agentId := ag_agentId ex_agent, r_resourceUrl := Some ''https://h/''\<rparr>"

lemma ex_payment: "payment_of ex_agent ex_requirements ex_headers ''https://h/'' = Some ex_fetched"
  "payment_of ex_asking ex_requirements ex_headers ''https://h/'' = Some ex_fetched"
proof -
  have "lower ''x-agent-intent'' = ''x-agent-intent''" by code_simp
  then show "payment_of ex_agent ex_requirements ex_headers ''https://h/'' = Some ex_fetched"
    "payment_of ex_asking ex_requirements ex_headers ''https://h/'' = Some ex_fetched"
    by (simp_all add: payment_of_def requirementsToPaymentRequest_def ex_requirements_def bigint_of_string_to_string
        request_store_def ex_headers_def headerValue_def ex_fetched_def ex_order_def ex_asking_def)
qed

theorem fetch_records_payment_once_witness:
  "gs_store (snd (guarded_fetch ex_externals (sqlite_ops (\<lambda>n. ''?'')) ex_agent (ex_call ex_failover) ex_fetch_world
     ex_headers ''https://h/'' ex_state)) \<noteq> []"
proof -
  let ?f = "guarded_fetch ex_externals (sqlite_ops (\<lambda>n. ''?'')) ex_agent (ex_call ex_failover) ex_fetch_world
     ex_headers ''https://h/'' ex_state"
  let ?dec = "fst (AgentGuard_evaluate ex_externals ex_agent (ce_clock (ex_call ex_failover)) ex_fetched ex_state)"
  have f: "?f = (fst ?f, snd ?f)" by simp
  have "gs_store ex_state = []" by (simp add: ex_state_def fresh_guard_def AgentGuard_new_def)
  moreover have "lower ''0xAB'' = lower ''0xab''" by code_simp
  then have "completes ex_externals ex_fetch_world ex_fetched (Some ex_paid_response)"
    by (simp add: completes_def ex_fetch_world_def assertAuthorizationMatches_def ex_externals_def ex_payload_def
        bigint_of_string_to_string throw_mismatches_def recipient_mismatch_def amount_mismatch_def eq_ci_def ex_fetched_def ex_order_def)
  moreover have "fw_requirements ex_fetch_world = Some ex_requirements" by (simp add: ex_fetch_world_def)
  ultimately have "(\<not> approved ex_agent (ex_call ex_failover) ex_fetched ?dec \<longrightarrow>
      so_insert (sqlite_ops (\<lambda>n. ''?'')) (new_entry (x_kec ex_externals) (x_num ex_externals) (ce_uuid (ex_call ex_failover))
        (ce_clock (ex_call ex_failover) 6) ex_fetched ?dec None) [] = Some (gs_store (snd ?f))) \<and>
    (approved ex_agent (ex_call ex_failover) ex_fetched ?dec \<longrightarrow>
      so_insert (sqlite_ops (\<lambda>n. ''?'')) (new_entry (x_kec ex_externals) (x_num ex_externals) (ce_uuid (ex_call ex_failover))
        (ce_clock (ex_call ex_failover) 6) ex_fetched ?dec (Some (settlement_of ex_agent ex_paid_response))) [] = Some (gs_store (snd ?f)))"
    using fetch_records_payment_once [OF f ex_quiet _ ex_payment(1) refl, of "Some ex_paid_response"]
    by (auto simp: sqlite_ops_def Sqlite_insert_def ex_call_def)
  then show ?thesis
    by (cases "approved ex_agent (ex_call ex_failover) ex_fetched ?dec") (auto simp: sqlite_ops_def Sqlite_insert_def)
qed

lemma ex_escalated:
  "d_verdict (fst (AgentGuard_evaluate ex_externals ex_asking (\<lambda>i. 1000) ex_fetched ex_cautious)) = Escalate"
proof -
  let ?d = "layered_decision ex_externals ex_asking (\<lambda>i. 1000) ex_fetched ex_cautious"
  have b: "breaker_open ex_asking 1000 b = (False, b)" for b
    by (simp add: breaker_open_def ex_asking_def ex_agent_def ex_guard_def AgentGuard_new_def ex_policy_config_def)
  have "validateRequest ex_externals ex_fetched = validateRequest ex_externals ex_order"
    by (simp add: validateRequest_def ex_fetched_def cong: option.case_cong)
  then have "fst (AgentGuard_evaluate ex_externals ex_asking (\<lambda>i. 1000) ex_fetched ex_cautious) = ?d"
    by (simp add: AgentGuard_evaluate_def b ex_order_valid Let_def)
  moreover have "\<not> blocks (PolicyEvaluator_evaluate (x_url ex_externals) (gs_evaluator ex_cautious) ex_fetched 1000)"
    by (simp add: blocks_def PolicyEvaluator_evaluate_def ex_cautious_def fresh_guard_simps new_evaluator_def ex_policy_config_def)
  moreover have "\<not> failed_critical (ResourceRegistry_check (x_url ex_externals) (gs_resources ex_cautious) ex_fetched)"
    by (simp add: failed_critical_def ResourceRegistry_check_def hostOf_def ex_fetched_def binding_check_def ex_externals_def)
  moreover have "\<not> failed_critical (IntentReconciler_check (x_env ex_externals) (x_http ex_externals) (ag_intent ex_asking) ex_fetched)"
    by (simp add: failed_critical_def IntentReconciler_check_def resolveLLMConfig_def ex_asking_def ex_agent_def ex_guard_def
        AgentGuard_new_def IntentReconciler_new_def resolveGuardLLMConfig_def ex_policy_config_def ex_externals_def truthy_def
        or_else_def no_llm_def intent_info_def)
  moreover have "anomalous (ev_policy (gs_evaluator ex_cautious)) (BehavioralScorer_score (gs_behavioral ex_cautious) ex_fetched 1000)"
    "p_anomalyAction (ev_policy (gs_evaluator ex_cautious)) = AEscalate"
    using br_score_bounds by (simp_all add: anomalous_def ex_cautious_def fresh_guard_simps new_evaluator_def)
  ultimately show ?thesis by (simp add: layered_verdict)
qed

theorem approved_escalation_reported_blocked_witness:
  "case guarded_fetch ex_externals (sqlite_ops (\<lambda>n. ''?'')) ex_asking ex_yes
      (ex_fetch_world\<lparr>fw_payload := Inl (ErrorInstance ''no signer'')\<rparr>) ex_headers ''https://h/'' ex_cautious of
     (res, st') \<Rightarrow> (\<exists>r dec. res = Forbidden r dec) \<and> gs_store st' = []"
proof -
  have "quiet ex_yes" "ce_clock ex_yes = (\<lambda>i. 1000)" "gs_store ex_cautious = []"
    by (simp_all add: quiet_def ex_yes_def ex_call_def ex_cautious_def fresh_guard_def AgentGuard_new_def)
  moreover have "ag_onEscalation ex_asking = Some Callback_handler" by (simp add: ex_asking_def)
  ultimately show ?thesis
    using approved_escalation_reported_blocked [of ex_yes "ex_fetch_world\<lparr>fw_payload := Inl (ErrorInstance ''no signer'')\<rparr>"
        ex_requirements ex_asking ex_headers "''https://h/''" ex_fetched _ ex_externals ex_cautious Callback_handler
        "ErrorInstance ''no signer''" "sqlite_ops (\<lambda>n. ''?'')", OF _ _ ex_payment(2) refl] ex_escalated
    by (auto simp: ex_fetch_world_def ex_yes_def)
qed

end
