(* ===== verification/Webhook.thy ===== *)
theory Webhook
  imports Store X402 Approvals
begin

text \<open>
  Human approval over a webhook (\<open>packages/core/src/escalation/webhook.ts\<close>): the signing and the
  verification of messages, and the escalation handler. HMAC-SHA256 is the argument \<open>hmac\<close> (key
  and text to lower-case hex), \<open>num\<close> and \<open>rd\<close> print and read a JavaScript number (\<open>rd\<close> gives
  \<open>None\<close> for \<open>NaN\<close> and the infinities), and \<open>fetch\<close> is the argument \<open>post\<close>. A reply says after how
  many milliseconds it is complete, which the abort timer is compared with. Text is compared byte
  by byte, which for the buffers of \<open>timingSafeEqual\<close> is equality.
\<close>

section \<open>Signatures\<close>

definition DEFAULT_SIGNATURE_TOLERANCE_SECONDS :: real where
  "DEFAULT_SIGNATURE_TOLERANCE_SECONDS = 300"

definition signed_text :: "(real \<Rightarrow> string) \<Rightarrow> string \<Rightarrow> real \<Rightarrow> string" where
  "signed_text num body timestamp = num timestamp @ ''.'' @ body"

definition signWebhook ::
  "(real \<Rightarrow> string) \<Rightarrow> (string \<Rightarrow> string \<Rightarrow> hex) \<Rightarrow> string \<Rightarrow> string \<Rightarrow> real \<Rightarrow> string" where
  "signWebhook num hmac secret body timestamp = ''sha256='' @ hmac secret (signed_text num body timestamp)"

record verify_options =
  vo_toleranceSeconds :: "real option"
  vo_now :: "real option"

text \<open>\<open>Math.floor(Date.now() / 1000)\<close>.\<close>

definition unix_seconds :: "int \<Rightarrow> real" where
  "unix_seconds now = of_int (now div 1000)"

definition verifyWebhook ::
  "(real \<Rightarrow> string) \<Rightarrow> (string \<Rightarrow> string \<Rightarrow> hex) \<Rightarrow> int \<Rightarrow> string \<Rightarrow> string \<Rightarrow> string \<Rightarrow> real option \<Rightarrow> verify_options \<Rightarrow> bool" where
  "verifyWebhook num hmac clock secret body signature timestamp opts =
     (case timestamp of
        None \<Rightarrow> False
      | Some ts \<Rightarrow>
          (let tolerance = (case vo_toleranceSeconds opts of Some t \<Rightarrow> t | None \<Rightarrow> DEFAULT_SIGNATURE_TOLERANCE_SECONDS);
               now = (case vo_now opts of Some n \<Rightarrow> n | None \<Rightarrow> unix_seconds clock);
               expected = signWebhook num hmac secret body ts
           in if tolerance > 0 \<and> \<bar>now - ts\<bar> > tolerance then False
              else length expected = length signature \<and> expected = signature))"

section \<open>The escalation handler\<close>

record webhook_options =
  wo_url :: string
  wo_secret :: string
  wo_timeoutSeconds :: "int option"
  wo_requireSignedResponse :: "bool option"

record webhook_request =
  wq_url :: string
  wq_headers :: "(string \<times> string) list"
  wq_body :: string

record webhook_reply =
  wr_ok :: bool
  wr_headers :: "(string \<times> string) list"
  wr_text :: "thrown + string"
  wr_arrival :: int

definition escalation_event ::
  "(int \<Rightarrow> string) \<Rightarrow> (real \<Rightarrow> string) \<Rightarrow> real \<Rightarrow> string \<Rightarrow> payment_request \<Rightarrow> policy_decision \<Rightarrow> json" where
  "escalation_event fu num timestamp nonce req dec =
     JObj [(''type'', JStr ''payment.escalation''), (''timestamp'', JNum (num timestamp)), (''nonce'', JStr nonce),
           (''request'', request_json req), (''decision'', decision_json fu num dec)]"

definition responseSignatureOk ::
  "(real \<Rightarrow> string) \<Rightarrow> (string \<Rightarrow> real option) \<Rightarrow> (string \<Rightarrow> string \<Rightarrow> hex) \<Rightarrow> int \<Rightarrow> string \<Rightarrow> webhook_reply \<Rightarrow> string \<Rightarrow> bool" where
  "responseSignatureOk num rd hmac clock secret res body =
     (let signature = headers_get (wr_headers res) ''x-agentctl-signature'';
          timestamp = (case headers_get (wr_headers res) ''x-agentctl-timestamp'' of None \<Rightarrow> Some 0 | Some t \<Rightarrow> rd t)
      in case signature of
           None \<Rightarrow> False
         | Some s \<Rightarrow> if s = [] \<or> timestamp = None then False
                     else verifyWebhook num hmac clock secret body s timestamp \<lparr>vo_toleranceSeconds = None, vo_now = None\<rparr>)"

text \<open>The answer in a reply's body: \<open>approved\<close> is \<open>true\<close> and \<open>nonce\<close> is the request's.\<close>

definition approves_nonce :: "string \<Rightarrow> string \<Rightarrow> bool" where
  "approves_nonce raw nonce =
     (case json_parse raw of
        None \<Rightarrow> False
      | Some data \<Rightarrow> json_get data ''approved'' = Some (JBool True) \<and> json_get data ''nonce'' = Some (JStr nonce))"

text \<open>\<open>clock\<close> is the time of the call, \<open>clock'\<close> the time when the reply is examined.\<close>

definition createWebhookEscalation ::
  "(int \<Rightarrow> string) \<Rightarrow> (real \<Rightarrow> string) \<Rightarrow> (string \<Rightarrow> real option) \<Rightarrow> (string \<Rightarrow> string \<Rightarrow> hex) \<Rightarrow>
     (webhook_request \<Rightarrow> thrown + webhook_reply) \<Rightarrow> int \<Rightarrow> int \<Rightarrow> string \<Rightarrow> webhook_options \<Rightarrow> payment_request \<Rightarrow>
     policy_decision \<Rightarrow> bool" where
  "createWebhookEscalation fu num rd hmac post clock clock' nonce opts req dec =
     (let requireSignedResponse = (case wo_requireSignedResponse opts of Some b \<Rightarrow> b | None \<Rightarrow> True);
          timestamp = unix_seconds clock;
          body = json_text (escalation_event fu num timestamp nonce req dec);
          abort_after = timer_delay ((case wo_timeoutSeconds opts of Some t \<Rightarrow> t | None \<Rightarrow> 30) * 1000)
      in case post \<lparr>wq_url = wo_url opts,
             wq_headers = [(''content-type'', ''application/json''),
               (''x-agentctl-signature'', signWebhook num hmac (wo_secret opts) body timestamp),
               (''x-agentctl-timestamp'', num timestamp)],
             wq_body = body\<rparr> of
           Inl e \<Rightarrow> False
         | Inr res \<Rightarrow>
             if wr_arrival res \<ge> abort_after then False
             else if \<not> wr_ok res then False
             else (case wr_text res of
                     Inl e \<Rightarrow> False
                   | Inr raw \<Rightarrow>
                       if requireSignedResponse \<and> \<not> responseSignatureOk num rd hmac clock' (wo_secret opts) res raw then False
                       else approves_nonce raw nonce))"

section \<open>A signed text determines its body\<close>

lemma number_char_dot: "number_char (CHR ''.'')"
  by (simp add: number_char_def)

lemma bigint_no_dot: "CHR ''.'' \<notin> set (bigint_to_string n)"
proof -
  have "CHR ''.'' \<noteq> digit_char d" if "d < 10" for d
  proof
    assume "CHR ''.'' = digit_char d"
    then have "(of_char (CHR ''.'') :: nat) = of_char (digit_char d)" by simp
    then show False using that by (simp add: digit_char_def)
  qed
  then have "CHR ''.'' \<notin> set (nat_to_string k)" for k using nat_to_string_digits by blast
  then show ?thesis by (simp add: bigint_to_string_def)
qed

lemma signed_text_inj:
  assumes "number_ok (num t')" "num t = bigint_to_string n" "hd body = CHR ''{''" "body \<noteq> []"
    and "signed_text num raw t' = signed_text num body t"
  shows "raw = body"
proof -
  have brace: "\<not> number_char (CHR ''{'')" by (simp add: number_char_def is_digit_def)
  have nums: "\<forall>c \<in> set (num t'). number_char c" "\<forall>c \<in> set (num t). number_char c"
    using number_ok_chars [OF assms(1)] number_ok_chars [OF number_ok_bigint [of n]] assms(2) by (simp_all add: list_all_iff)
  have "takeWhile number_char body = []" using assms(3,4) brace by (cases body) simp_all
  then have "takeWhile number_char (signed_text num body t) = num t @ ''.''"
    using nums number_char_dot by (simp add: signed_text_def takeWhile_append2)
  moreover have "takeWhile number_char (signed_text num raw t') = num t' @ ''.'' @ takeWhile number_char raw"
    using nums number_char_dot by (simp add: signed_text_def takeWhile_append2)
  ultimately have eq: "num t' @ CHR ''.'' # takeWhile number_char raw = num t @ ''.''" using assms(5) by simp
  have "takeWhile number_char raw = []"
  proof (rule ccontr)
    assume "takeWhile number_char raw \<noteq> []"
    then obtain w c where w: "takeWhile number_char raw = w @ [c]" by (metis rev_exhaust)
    then have "num t = num t' @ CHR ''.'' # w" using eq by (metis append.assoc append_Cons butlast_snoc)
    then show False using bigint_no_dot [of n] assms(2) by (metis in_set_conv_decomp)
  qed
  then have "num t' = num t" using eq by simp
  then show ?thesis using assms(5) by (simp add: signed_text_def)
qed

lemma event_not_approval:
  assumes "number_ok (num t)" "number_ok (num (d_riskScore dec))"
  shows "\<not> approves_nonce (json_text (escalation_event fu num t nonce' req dec)) nonce"
proof -
  have "json_ok (escalation_event fu num t nonce' req dec)"
    using assms request_json_ok decision_json_ok by (simp add: escalation_event_def)
  then show ?thesis by (simp add: approves_nonce_def json_parse_text) (simp add: escalation_event_def json_get_def)
qed

lemma event_text_brace: "hd (json_text (escalation_event fu num t nonce req dec)) = CHR ''{''"
  "json_text (escalation_event fu num t nonce req dec) \<noteq> []"
  by (simp_all add: escalation_event_def)

section \<open>Properties\<close>

text \<open>
  C7. An approval over the webhook is genuine: if the handler lets a payment through while it
  requires signed replies, and the endpoint holds no MAC under the shared secret but of the
  guard's own escalation events and of the texts the approver signed, then the
  approver signed a body that approves exactly this escalation's nonce, at a time within the
  tolerance of the guard's clock. In particular the guard's own event, reflected, is no approval.
\<close>

theorem webhook_approval_is_genuine:
  assumes "createWebhookEscalation fu num rd hmac post clock clock' nonce opts req dec"
    and "wo_requireSignedResponse opts \<noteq> Some False"
    and "\<And>r. number_ok (num r)" "\<And>n. num (of_int n) = bigint_to_string n"
    and "\<And>q res mtext. post q = Inr res \<Longrightarrow>
       headers_get (wr_headers res) ''x-agentctl-signature'' = Some (''sha256='' @ hmac (wo_secret opts) mtext) \<Longrightarrow>
       mtext \<in> events \<union> by_approver"
    and "\<And>t. t \<in> events \<Longrightarrow> \<exists>c i r d. t = signed_text num (json_text (escalation_event fu num (unix_seconds c) i r d)) (unix_seconds c)"
  shows "\<exists>body ts. signed_text num body ts \<in> by_approver \<and> approves_nonce body nonce \<and>
     \<bar>unix_seconds clock' - ts\<bar> \<le> DEFAULT_SIGNATURE_TOLERANCE_SECONDS"
proof -
  obtain q res raw where post: "post q = Inr res" and raw: "wr_text res = Inr raw"
    and sig: "responseSignatureOk num rd hmac clock' (wo_secret opts) res raw" and app: "approves_nonce raw nonce"
    using assms(1,2)
    by (auto simp: createWebhookEscalation_def Let_def split: sum.splits if_splits option.splits)
  obtain s ts where s: "headers_get (wr_headers res) ''x-agentctl-signature'' = Some s"
    "s = signWebhook num hmac (wo_secret opts) raw ts"
    and near: "\<bar>unix_seconds clock' - ts\<bar> \<le> DEFAULT_SIGNATURE_TOLERANCE_SECONDS"
    using sig
    by (auto simp: responseSignatureOk_def verifyWebhook_def Let_def DEFAULT_SIGNATURE_TOLERANCE_SECONDS_def
        split: option.splits if_splits)
  define mtext where "mtext = signed_text num raw ts"
  have mtext: "mtext \<in> events \<union> by_approver"
    using assms(5) [OF post] s by (simp add: signWebhook_def mtext_def)
  have "mtext \<notin> events"
  proof
    assume "mtext \<in> events"
    then obtain c i r d where "mtext = signed_text num (json_text (escalation_event fu num (unix_seconds c) i r d)) (unix_seconds c)"
      using assms(6) by blast
    then have eq: "signed_text num raw ts =
        signed_text num (json_text (escalation_event fu num (unix_seconds c) i r d)) (unix_seconds c)"
      by (simp only: mtext_def)
    have "num (unix_seconds c) = bigint_to_string (c div 1000)"
      unfolding unix_seconds_def by (rule assms(4))
    from signed_text_inj [OF assms(3) this event_text_brace eq]
    have "raw = json_text (escalation_event fu num (unix_seconds c) i r d)" .
    then show False using app event_not_approval assms(3) by blast
  qed
  then show ?thesis using mtext near app unfolding mtext_def by blast
qed

section \<open>Example\<close>

definition ex_print :: "real \<Rightarrow> string" where
  "ex_print r = bigint_to_string \<lfloor>r\<rfloor>"

definition ex_approval :: string where
  "ex_approval = json_text (JObj [(''approved'', JBool True), (''nonce'', JStr ''n'')])"

definition ex_reply :: webhook_reply where
  "ex_reply = \<lparr>wr_ok = True, wr_headers = [(''x-agentctl-signature'', ''sha256='' @ signed_text ex_print ex_approval 0)],
     wr_text = Inr ex_approval, wr_arrival = 5\<rparr>"

definition ex_webhook :: webhook_options where
  "ex_webhook = \<lparr>wo_url = ''u'', wo_secret = ''s'', wo_timeoutSeconds = None, wo_requireSignedResponse = None\<rparr>"

lemma ex_headers_lower:
  "lower ''x-agentctl-signature'' = ''x-agentctl-signature''" "lower ''x-agentctl-timestamp'' = ''x-agentctl-timestamp''"
  by code_simp+

lemma ex_webhook_approves:
  "createWebhookEscalation (\<lambda>n. ''?'') ex_print (\<lambda>t. None) (\<lambda>k t. t) (\<lambda>q. Inr ex_reply) 0 0 ''n'' ex_webhook req dec"
proof -
  have "approves_nonce ex_approval ''n''"
    by (simp add: approves_nonce_def ex_approval_def json_parse_text json_get_def del: json_text.simps)
  moreover have "responseSignatureOk ex_print (\<lambda>t. None) (\<lambda>k t. t) 0 ''s'' ex_reply ex_approval"
    using ex_headers_lower
    by (simp add: responseSignatureOk_def headers_get_def ex_reply_def verifyWebhook_def signWebhook_def Let_def
        unix_seconds_def DEFAULT_SIGNATURE_TOLERANCE_SECONDS_def)
  ultimately show ?thesis
    by (simp add: createWebhookEscalation_def ex_webhook_def Let_def timer_delay_def) (simp add: ex_reply_def)
qed

theorem webhook_approval_is_genuine_witness:
  "\<exists>body ts. signed_text ex_print body ts \<in> {signed_text ex_print ex_approval 0} \<and> approves_nonce body ''n'' \<and>
     \<bar>unix_seconds 0 - ts\<bar> \<le> DEFAULT_SIGNATURE_TOLERANCE_SECONDS"
proof (rule webhook_approval_is_genuine [where events = "{}"])
  show "createWebhookEscalation (\<lambda>n. ''?'') ex_print (\<lambda>t. None) (\<lambda>k t. t) (\<lambda>q. Inr ex_reply) 0 0 ''n'' ex_webhook ex_pay ex_dec"
    by (rule ex_webhook_approves)
  show "number_ok (ex_print r)" for r using number_ok_bigint by (simp add: ex_print_def)
qed (use ex_headers_lower in \<open>auto simp: ex_webhook_def ex_print_def ex_reply_def headers_get_def\<close>)

end
