(* ===== verification/Verify.thy ===== *)
theory Verify
  imports Logger
begin

text \<open>
  \<open>agentctl audit --verify\<close>: \<open>verifyEntries\<close> of \<open>packages/cli/src/cli.ts\<close>, which checks the local
  audit log against the anchor contract. What is printed is left out, except for the problems,
  which the exit code depends on. The failures of the RPC are the argument \<open>rpc\<close>, the error a
  call throws; \<open>chainid\<close> is the chain id the RPC reports.
\<close>

section \<open>The check\<close>

datatype rpc_call = Rpc_batch int | Rpc_verify string | Rpc_batches

datatype problem =
    P_not_on_chain int nat
  | P_root_differs int
  | P_count int nat nat
  | P_after_batch string int
  | P_edited string
  | P_total nat nat
  | P_no_batch_list

record tally =
  ty_verified :: nat
  ty_failed :: nat
  ty_errored :: nat
  ty_problems :: "problem list"

definition add_problem :: "bool \<Rightarrow> problem \<Rightarrow> tally \<Rightarrow> tally" where
  "add_problem b p ty = (if b then ty\<lparr>ty_problems := ty_problems ty @ [p]\<rparr> else ty)"

definition rpcUrlFor :: "(string \<Rightarrow> string option) \<Rightarrow> string \<Rightarrow> string option" where
  "rpcUrlFor env chain =
     (if chain = ''eip155:8453'' then env ''RPC_BASE''
      else if chain = ''eip155:84532'' then env ''RPC_BASE_SEPOLIA'' else None)"

text \<open>The entries of a batch, one after the other, until a call throws.\<close>

fun verify_group ::
  "(rpc_call \<Rightarrow> string option) \<Rightarrow> (entry_proof \<Rightarrow> bool) \<Rightarrow> int \<Rightarrow> nat \<Rightarrow> (string \<times> entry_proof) list \<Rightarrow>
     audit_entry list \<Rightarrow> tally \<Rightarrow> tally \<times> string option" where
  "verify_group rpc ok i time proofs [] ty = (ty, None)"
| "verify_group rpc ok i time proofs (e # es) ty =
     (case map_of proofs (e_id e) of
        None \<Rightarrow> verify_group rpc ok i time proofs es (ty\<lparr>ty_errored := ty_errored ty + 1\<rparr>)
      | Some p \<Rightarrow>
          (case rpc (Rpc_verify (e_id e)) of
             Some err \<Rightarrow> (ty, Some err)
           | None \<Rightarrow>
               (let withinTime = (e_timestamp e \<le> int time * 1000);
                    ty1 = add_problem (\<not> withinTime) (P_after_batch (take 8 (e_id e)) i) ty;
                    ty2 = add_problem (\<not> ep_storedHashMatches p) (P_edited (take 8 (e_id e))) ty1;
                    good = (ok p \<and> withinTime \<and> ep_storedHashMatches p)
                in verify_group rpc ok i time proofs es
                     (if good then ty2\<lparr>ty_verified := ty_verified ty2 + 1\<rparr>
                      else ty2\<lparr>ty_failed := ty_failed ty2 + 1\<rparr>))))"

text \<open>The call that reads a batch; the ABI encoder rejects a negative index.\<close>

definition batch_call :: "(rpc_call \<Rightarrow> string option) \<Rightarrow> int \<Rightarrow> string option" where
  "batch_call rpc i = (if i < 0 then Some ''IntegerOutOfRangeError'' else rpc (Rpc_batch i))"

definition verify_batch ::
  "(rpc_call \<Rightarrow> string option) \<Rightarrow> (entry_proof \<Rightarrow> bool) \<Rightarrow> anchor \<Rightarrow> address \<Rightarrow> (int \<Rightarrow> (string \<times> entry_proof) list) \<Rightarrow>
     (int \<Rightarrow> audit_entry list) \<Rightarrow> int \<Rightarrow> tally \<Rightarrow> tally" where
  "verify_batch rpc ok ch operator proofs_of group_of i ty =
     (let group = group_of i
      in case batch_call rpc i of
           Some err \<Rightarrow> ty\<lparr>ty_errored := ty_errored ty + length group\<rparr>
         | None \<Rightarrow>
             (case AuditAnchorClient_getBatch ch operator (nat i) of
                (found, mr, time, entryCount) \<Rightarrow>
                  if \<not> found then
                    (add_problem True (P_not_on_chain i (length group)) ty)\<lparr>ty_failed := ty_failed ty + length group\<rparr>
                  else
                    (let proofs = proofs_of i;
                         differs = (case proofs of [] \<Rightarrow> False
                                    | (k, p) # _ \<Rightarrow> ep_localRoot p \<noteq> [] \<and> lower (ep_localRoot p) \<noteq> lower mr);
                         ty1 = add_problem differs (P_root_differs i) ty;
                         ty2 = add_problem (length proofs \<noteq> entryCount) (P_count i (length proofs) entryCount) ty1
                     in case verify_group rpc ok i time proofs group ty2 of
                          (ty3, None) \<Rightarrow> ty3
                        | (ty3, Some err) \<Rightarrow> ty3\<lparr>ty_errored := ty_errored ty3 + length group\<rparr>)))"

text \<open>The batch that each listed entry is in, looked up by its id.\<close>

definition batch_index_of :: "'s store_ops \<Rightarrow> 's \<Rightarrow> audit_entry \<Rightarrow> int option" where
  "batch_index_of ops s e = (case AuditLogger_getById ops (e_id e) s of None \<Rightarrow> None | Some (_, b) \<Rightarrow> b)"

definition batch_group :: "'s store_ops \<Rightarrow> 's \<Rightarrow> audit_entry list \<Rightarrow> int \<Rightarrow> audit_entry list" where
  "batch_group ops s entries i = filter (\<lambda>e. batch_index_of ops s e = Some i) entries"

definition total_check ::
  "(rpc_call \<Rightarrow> string option) \<Rightarrow> anchor \<Rightarrow> address \<Rightarrow> string option \<Rightarrow> nat \<Rightarrow> tally \<Rightarrow> tally" where
  "total_check rpc ch operator agent anchoredLocally ty =
     (if agent = None then
        (case rpc Rpc_batches of
           Some err \<Rightarrow> add_problem True P_no_batch_list ty
         | None \<Rightarrow>
             (let committedTotal = sum_list (map (\<lambda>(found, mr, time, entryCount). entryCount) (AuditAnchorClient_getAllBatches ch operator))
              in add_problem (committedTotal \<noteq> anchoredLocally) (P_total committedTotal anchoredLocally) ty))
      else ty)"

datatype verify_outcome =
    Not_configured
  | Unreachable client_error
  | Rejected client_error
  | Checked nat tally "nat option"

text \<open>\<open>process.exitCode\<close>, \<open>None\<close> when it is left unset.\<close>

definition exit_code :: "tally \<Rightarrow> nat option" where
  "exit_code ty =
     (if ty_failed ty > 0 \<or> length (ty_problems ty) > 0 then Some 2
      else if ty_errored ty > 0 then Some 1 else None)"

text \<open>
  \<open>committer\<close> is the address of the key in the environment, if there is one; the contract's
  address comes from the environment as well.
\<close>

definition verifyEntries ::
  "merkle_lib \<Rightarrow> (string \<Rightarrow> hex) \<Rightarrow> (real \<Rightarrow> string) \<Rightarrow> 's store_ops \<Rightarrow> (string \<Rightarrow> string option) \<Rightarrow> (rpc_call \<Rightarrow> string option) \<Rightarrow>
     int \<Rightarrow> address option \<Rightarrow> string \<Rightarrow> string option \<Rightarrow> address option \<Rightarrow> anchor \<Rightarrow> 's \<Rightarrow> verify_outcome" where
  "verifyEntries lib kec num ops env rpc chainid committer chain agent operatorOverride ch s =
     (case (env ''AUDIT_ANCHOR_ADDRESS'', (case operatorOverride of Some a \<Rightarrow> Some a | None \<Rightarrow> committer)) of
        (Some contractAddress, Some operator) \<Rightarrow>
          if contractAddress = [] \<or> operator = [] then Not_configured
          else
            (let client = \<lparr>ac_chain = chain, ac_contractAddress = contractAddress, ac_committer = None,
                           ac_confirmationTag = None\<rparr>
             in case AuditAnchorClient_assertChainId client chainid of
                  Inl e \<Rightarrow> Unreachable e
                | Inr _ \<Rightarrow>
                    (case AuditAnchorClient_leafContext client operator of
                       Inl e \<Rightarrow> Rejected e
                     | Inr ctx \<Rightarrow>
                         (let entries = AuditLogger_list ops agent s;
                              unanchored = length (filter (\<lambda>e. batch_index_of ops s e = None) entries);
                              indices = sort (remdups (List.map_filter (batch_index_of ops s) entries));
                              ok = (\<lambda>p. AuditAnchorClient_verifyEntry lib chainid client ch operator (nat (ep_batchIndex p))
                                     (ep_agentId p) (ep_timestamp p) (ep_recipient p) (ep_verdict p) (ep_entryHash p) (ep_proof p));
                              ty = fold (verify_batch rpc ok ch operator
                                     (\<lambda>i. AuditLogger_proofsForBatch lib kec num ops i ctx s) (batch_group ops s entries))
                                     indices \<lparr>ty_verified = 0, ty_failed = 0, ty_errored = 0, ty_problems = []\<rparr>;
                              ty' = total_check rpc ch operator agent (length entries - unanchored) ty
                          in Checked unanchored ty' (exit_code ty'))))
      | _ \<Rightarrow> Not_configured)"

section \<open>What a clean tally means\<close>

definition badness :: "tally \<Rightarrow> nat" where
  "badness ty = ty_failed ty + ty_errored ty + length (ty_problems ty)"

lemma badness_simps [simp]:
  "badness (ty\<lparr>ty_verified := n\<rparr>) = badness ty"
  "badness (ty\<lparr>ty_failed := ty_failed ty + n\<rparr>) = badness ty + n"
  "badness (ty\<lparr>ty_errored := ty_errored ty + n\<rparr>) = badness ty + n"
  "badness (add_problem b p ty) = badness ty + (if b then 1 else 0)"
  by (simp_all add: badness_def add_problem_def)

lemma exit_code_clean: "exit_code ty = None \<longleftrightarrow> badness ty = 0"
  by (auto simp: exit_code_def badness_def)

definition entry_good :: "(entry_proof \<Rightarrow> bool) \<Rightarrow> nat \<Rightarrow> (string \<times> entry_proof) list \<Rightarrow> audit_entry \<Rightarrow> bool" where
  "entry_good ok time proofs e \<longleftrightarrow>
     (\<exists>p. map_of proofs (e_id e) = Some p \<and> ok p \<and> ep_storedHashMatches p) \<and> e_timestamp e \<le> int time * 1000"

lemma verify_group_bad:
  "verify_group rpc ok i time proofs es ty = (ty', r) \<Longrightarrow>
     badness ty \<le> badness ty' \<and> (badness ty' = badness ty \<longrightarrow> r = None \<longrightarrow> list_all (entry_good ok time proofs) es)"
proof (induction es arbitrary: ty)
  case (Cons e es)
  show ?case
  proof (cases "map_of proofs (e_id e)")
    case None
    with Cons.prems Cons.IH [of "ty\<lparr>ty_errored := ty_errored ty + 1\<rparr>"] show ?thesis
      by (simp add: badness_simps(3) [of ty 1, simplified])
  next
    case (Some p)
    show ?thesis
    proof (cases "rpc (Rpc_verify (e_id e))")
      case (Some err)
      then show ?thesis using Cons.prems \<open>map_of proofs (e_id e) = Some p\<close> by auto
    next
      case None
      let ?ty2 = "add_problem (\<not> ep_storedHashMatches p) (P_edited (take 8 (e_id e)))
         (add_problem (\<not> e_timestamp e \<le> int time * 1000) (P_after_batch (take 8 (e_id e)) i) ty)"
      let ?good = "ok p \<and> e_timestamp e \<le> int time * 1000 \<and> ep_storedHashMatches p"
      let ?next = "if ?good then ?ty2\<lparr>ty_verified := ty_verified ?ty2 + 1\<rparr> else ?ty2\<lparr>ty_failed := ty_failed ?ty2 + 1\<rparr>"
      have next_bad: "badness ty \<le> badness ?next" "badness ?next = badness ty \<Longrightarrow> ?good"
        using badness_simps(3) [of ?ty2 1] badness_simps(2) [of ?ty2 1] by (auto split: if_splits)
      have "verify_group rpc ok i time proofs es ?next = (ty', r)"
        using Cons.prems \<open>map_of proofs (e_id e) = Some p\<close> None by (simp add: Let_def)
      from Cons.IH [OF this] next_bad \<open>map_of proofs (e_id e) = Some p\<close> show ?thesis
        by (auto simp: entry_good_def)
    qed
  qed
qed simp

definition batch_good ::
  "(entry_proof \<Rightarrow> bool) \<Rightarrow> anchor \<Rightarrow> address \<Rightarrow> (int \<Rightarrow> (string \<times> entry_proof) list) \<Rightarrow> (int \<Rightarrow> audit_entry list) \<Rightarrow> int \<Rightarrow> bool" where
  "batch_good ok ch operator proofs_of group_of i \<longleftrightarrow>
     0 \<le> i \<and>
     (\<exists>mr time. AuditAnchorClient_getBatch ch operator (nat i) = (True, mr, time, length (proofs_of i)) \<and>
        list_all (entry_good ok time (proofs_of i)) (group_of i))"

lemma verify_batch_bad:
  assumes "group_of i \<noteq> []"
  shows "badness ty \<le> badness (verify_batch rpc ok ch operator proofs_of group_of i ty) \<and>
     (badness (verify_batch rpc ok ch operator proofs_of group_of i ty) = badness ty \<longrightarrow>
        batch_good ok ch operator proofs_of group_of i)"
proof (cases "batch_call rpc i")
  case (Some err)
  then show ?thesis using assms by (simp add: verify_batch_def Let_def)
next
  case None
  obtain found mr time n where c: "AuditAnchorClient_getBatch ch operator (nat i) = (found, mr, time, n)" by (metis prod_cases4)
  show ?thesis
  proof (cases found)
    case False
    have "badness ((add_problem True (P_not_on_chain i (length (group_of i))) ty)\<lparr>ty_failed := ty_failed ty + length (group_of i)\<rparr>)
        = badness ty + 1 + length (group_of i)"
      by (simp add: badness_def add_problem_def)
    then show ?thesis using None c False by (simp add: verify_batch_def Let_def)
  next
    case True
    let ?differs = "case proofs_of i of [] \<Rightarrow> False
        | (k, p) # _ \<Rightarrow> ep_localRoot p \<noteq> [] \<and> lower (ep_localRoot p) \<noteq> lower mr"
    let ?ty2 = "add_problem (length (proofs_of i) \<noteq> n) (P_count i (length (proofs_of i)) n)
        (add_problem ?differs (P_root_differs i) ty)"
    obtain ty3 r where g: "verify_group rpc ok i time (proofs_of i) (group_of i) ?ty2 = (ty3, r)" by fastforce
    have le: "badness ty \<le> badness ?ty2" "badness ?ty2 = badness ty \<Longrightarrow> length (proofs_of i) = n"
      by (simp, cases "length (proofs_of i) = n") simp_all
    have out: "verify_batch rpc ok ch operator proofs_of group_of i ty =
        (case r of None \<Rightarrow> ty3 | Some err \<Rightarrow> ty3\<lparr>ty_errored := ty_errored ty3 + length (group_of i)\<rparr>)"
      using None c True g by (simp add: verify_batch_def Let_def)
    have le3: "badness ty \<le> badness ty3"
      and same3: "badness ty3 = badness ty \<Longrightarrow> r = None \<Longrightarrow> length (proofs_of i) = n \<and> list_all (entry_good ok time (proofs_of i)) (group_of i)"
      using verify_group_bad [OF g] le by linarith+
    have nonneg: "0 \<le> i" using None by (simp add: batch_call_def split: if_splits)
    show ?thesis
    proof (cases r)
      case None
      then show ?thesis using out le3 same3 nonneg c True by (simp only: option.case batch_good_def) blast
    next
      case (Some err)
      have "badness ty < badness (ty3\<lparr>ty_errored := ty_errored ty3 + length (group_of i)\<rparr>)"
        using le3 assms by (simp only: badness_simps) (cases "group_of i", simp_all)
      then show ?thesis using out Some by simp
    qed
  qed
qed

lemma verify_batches_bad:
  assumes "\<And>i. i \<in> set idxs \<Longrightarrow> group_of i \<noteq> []"
  shows "badness ty \<le> badness (fold (verify_batch rpc ok ch operator proofs_of group_of) idxs ty) \<and>
     (badness (fold (verify_batch rpc ok ch operator proofs_of group_of) idxs ty) = badness ty \<longrightarrow>
        list_all (batch_good ok ch operator proofs_of group_of) idxs)"
  using assms
proof (induction idxs arbitrary: ty)
  case (Cons i idxs)
  have "group_of i \<noteq> []" using Cons.prems by simp
  from verify_batch_bad [where group_of = group_of and i = i and ty = ty and rpc = rpc and ok = ok and ch = ch and
      operator = operator and proofs_of = proofs_of, OF this] Cons.IH [of "verify_batch rpc ok ch operator proofs_of group_of i ty"] Cons.prems
  show ?case by (fastforce simp: list_all_iff)
qed simp

section \<open>The log of an SQLite store\<close>

lemma sqlite_batch_index:
  assumes "sqlite_inv s" "r \<in> set s"
  shows "batch_index_of (sqlite_ops fu) s (sr_entry r) = sr_batchIndex r"
proof -
  have "find (\<lambda>q. row_key q = row_key r) s = Some r"
    using assms
  proof (induction s)
    case (Cons q s)
    then show ?case by (auto simp: sqlite_inv_def)
  qed simp
  then have "so_getById (sqlite_ops fu) (row_key r) s = Some (sr_entry r, sr_batchIndex r)"
    using sqlite.getById_rows [OF assms(1), of fu "row_key r"] by simp
  then show ?thesis by (simp add: batch_index_of_def AuditLogger_getById_def row_key_def)
qed

lemma sqlite_listed: "AuditLogger_list (sqlite_ops fu) None s = map sr_entry s"
  by (simp add: AuditLogger_list_def sqlite_ops_def Sqlite_list_def agent_selected_def)

lemma sqlite_group:
  assumes "sqlite_inv s"
  shows "batch_group (sqlite_ops fu) s (map sr_entry s) i = so_entriesInBatch (sqlite_ops fu) i s"
proof -
  have "filter (\<lambda>r. batch_index_of (sqlite_ops fu) s (sr_entry r) = Some i) s = filter (\<lambda>r. sr_batchIndex r = Some i) s"
    using sqlite_batch_index [OF assms] by (intro filter_cong) simp_all
  then show ?thesis
    by (simp add: batch_group_def filter_map comp_def sqlite_ops_def Sqlite_entriesInBatch_def)
qed

lemma proofs_ids: "map fst (AuditLogger_proofsForBatch lib kec num ops i ctx s) = map e_id (so_entriesInBatch ops i s)"
  by (rule nth_equalityI) (auto simp: AuditLogger_proofsForBatch_def Let_def proof_entry_def split: prod.splits)

text \<open>A proof that is found under an entry's id and whose hash matches vouches for that entry.\<close>

lemma proof_of_entry:
  assumes "map_of (AuditLogger_proofsForBatch lib kec num ops i ctx s) k = Some p" "ep_storedHashMatches p"
    and "distinct (map e_id (so_entriesInBatch ops i s))" "e \<in> set (so_entriesInBatch ops i s)" "e_id e = k"
  shows "recomputeEntryHash kec num e = e_entryHash e" "ep_entryHash p = e_entryHash e" "ep_agentId p = e_agentId e"
    "ep_timestamp p = e_timestamp e" "ep_recipient p = r_recipient (e_request e)"
    "ep_verdict p = verdict_to_num (d_verdict (e_decision e))" "ep_batchIndex p = i"
proof -
  let ?rows = "so_entriesInBatch ops i s"
  obtain lr b where b: "MerkleAuditBatch_root lib (batch_of kec num ctx ?rows) = (lr, b)" by force
  obtain j where j: "j < length ?rows" "(k, p) = proof_entry lib i b lr ?rows (map (canonicalize kec num) ?rows) j"
    using map_of_SomeD [OF assms(1)] b by (auto simp: AuditLogger_proofsForBatch_def Let_def)
  obtain m where m: "m < length ?rows" "e = ?rows ! m" using assms(4) by (metis in_set_conv_nth)
  have "e_id (?rows ! j) = k" using j by (simp add: proof_entry_def Let_def)
  then have "?rows ! j = e"
    using assms(3,5) j(1) m by (auto simp: distinct_conv_nth)
  then show "recomputeEntryHash kec num e = e_entryHash e" "ep_entryHash p = e_entryHash e" "ep_agentId p = e_agentId e"
    "ep_timestamp p = e_timestamp e" "ep_recipient p = r_recipient (e_request e)"
    "ep_verdict p = verdict_to_num (d_verdict (e_decision e))" "ep_batchIndex p = i"
    using j assms(2) by (simp_all add: proof_entry_def Let_def)
qed

lemma counts_complete:
  fixes n :: "nat \<Rightarrow> nat"
  assumes "finite I" "\<And>i. i \<in> I \<Longrightarrow> 0 \<le> i \<and> nat i < N \<and> f i = n (nat i)" "(\<Sum>j<N. n j) = (\<Sum>i\<in>I. f i)"
    and "j < N" "int j \<notin> I"
  shows "n j = 0"
proof -
  have inj: "inj_on nat I" using assms(2) by (auto simp: inj_on_def) (metis nat_0_le)
  have sub: "nat ` I \<subseteq> {..<N}" using assms(2) by auto
  have "(\<Sum>i\<in>I. f i) = (\<Sum>i\<in>I. n (nat i))" using assms(2) by (intro sum.cong) simp_all
  also have "\<dots> = (\<Sum>j\<in>nat ` I. n j)" using sum.reindex [OF inj, of n] by simp
  finally have "(\<Sum>j\<in>{..<N} - nat ` I. n j) = 0"
    using assms(3) sum.subset_diff [OF sub, of n] by simp
  moreover have "j \<in> {..<N} - nat ` I"
  proof -
    have "j \<noteq> nat i" if "i \<in> I" for i using assms(2) [OF that] assms(5) that by auto
    then show ?thesis using assms(4) by auto
  qed
  ultimately show ?thesis by (meson finite_Diff finite_lessThan sum_eq_0_iff)
qed

lemma count_by_batch:
  assumes "finite I" "\<And>r i. r \<in> set s \<Longrightarrow> sr_batchIndex r = Some i \<Longrightarrow> i \<in> I"
  shows "length (filter (\<lambda>r. sr_batchIndex r \<noteq> None) s) = (\<Sum>i\<in>I. length (filter (\<lambda>r. sr_batchIndex r = Some i) s))"
  using assms(2)
proof (induction s)
  case (Cons r s)
  have ih: "length (filter (\<lambda>q. sr_batchIndex q \<noteq> None) s) = (\<Sum>i\<in>I. length (filter (\<lambda>q. sr_batchIndex q = Some i) s))"
    using Cons.prems by (intro Cons.IH) auto
  have "(\<Sum>i\<in>I. length (filter (\<lambda>q. sr_batchIndex q = Some i) (r # s))) =
      (\<Sum>i\<in>I. length (filter (\<lambda>q. sr_batchIndex q = Some i) s) + (if sr_batchIndex r = Some i then 1 else 0))"
    by (intro sum.cong) auto
  also have "\<dots> = length (filter (\<lambda>q. sr_batchIndex q \<noteq> None) s) + (\<Sum>i\<in>I. if sr_batchIndex r = Some i then 1 else 0)"
    using ih by (simp add: sum.distrib)
  also have "(\<Sum>i\<in>I. if sr_batchIndex r = Some i then 1 else 0) = (if sr_batchIndex r \<noteq> None then 1 else (0::nat))"
    using Cons.prems [of r] assms(1) by (cases "sr_batchIndex r") (auto simp: sum.delta)
  finally show ?case by (cases "sr_batchIndex r") simp_all
qed simp

text \<open>What the chain says of an entry that was checked.\<close>

definition vouched ::
  "merkle_lib \<Rightarrow> (string \<Rightarrow> hex) \<Rightarrow> (real \<Rightarrow> string) \<Rightarrow> int \<Rightarrow> address \<Rightarrow> anchor \<Rightarrow> address \<Rightarrow> int \<Rightarrow> audit_entry \<Rightarrow> bool" where
  "vouched lib kec num chainid this ch operator i e \<longleftrightarrow>
     0 \<le> i \<and> nat i < getBatchCount ch (lower operator) \<and> recomputeEntryHash kec num e = e_entryHash e \<and>
     e_timestamp e \<le> int (b_timestamp (an_batches ch (lower operator) ! nat i)) * 1000 \<and>
     (\<exists>prf. verifyEntry lib chainid this ch (lower operator) (nat i) (e_agentId e) (e_timestamp e)
        (r_recipient (e_request e)) (verdict_to_num (d_verdict (e_decision e))) (e_entryHash e) prf)"

abbreviation proof_accepted ::
  "merkle_lib \<Rightarrow> int \<Rightarrow> anchor_client \<Rightarrow> anchor \<Rightarrow> address \<Rightarrow> entry_proof \<Rightarrow> bool" where
  "proof_accepted lib chainid c ch operator p \<equiv>
     AuditAnchorClient_verifyEntry lib chainid c ch operator (nat (ep_batchIndex p)) (ep_agentId p) (ep_timestamp p)
       (ep_recipient p) (ep_verdict p) (ep_entryHash p) (ep_proof p)"

lemma good_batch_vouches:
  assumes good: "batch_good (proof_accepted lib chainid c ch operator) ch operator
        (\<lambda>i. AuditLogger_proofsForBatch lib kec num (sqlite_ops fu) i ctx s)
        (batch_group (sqlite_ops fu) s (map sr_entry s)) i"
    and s: "sqlite_inv s"
  shows "0 \<le> i" "nat i < getBatchCount ch (lower operator)"
    "length (filter (\<lambda>r. sr_batchIndex r = Some i) s) = b_entryCount (an_batches ch (lower operator) ! nat i)"
    "\<And>r. r \<in> set s \<Longrightarrow> sr_batchIndex r = Some i \<Longrightarrow>
       vouched lib kec num chainid (ac_contractAddress c) ch operator i (sr_entry r)"
proof -
  let ?proofs = "AuditLogger_proofsForBatch lib kec num (sqlite_ops fu) i ctx s"
  let ?rows = "so_entriesInBatch (sqlite_ops fu) i s"
  let ?b = "an_batches ch (lower operator) ! nat i"
  obtain mr time where ch: "getBatch ch (lower operator) (nat i) = (True, mr, time, length ?proofs)"
    and all: "list_all (entry_good (proof_accepted lib chainid c ch operator) time ?proofs) ?rows"
    and "0 \<le> i"
    using good by (auto simp: batch_good_def sqlite_group [OF s] AuditAnchorClient_getBatch_def)
  show "0 \<le> i" by fact
  show i: "nat i < getBatchCount ch (lower operator)"
    using ch by (simp add: getBatch_def getBatchCount_def split: if_splits)
  have b: "time = b_timestamp ?b" "length ?proofs = b_entryCount ?b"
    using ch i by (simp_all add: getBatch_def getBatchCount_def Let_def)
  have rows: "?rows = map sr_entry (filter (\<lambda>r. sr_batchIndex r = Some i) s)"
    by (simp add: sqlite_ops_def Sqlite_entriesInBatch_def)
  have "length ?proofs = length ?rows" using proofs_ids [of lib kec num "sqlite_ops fu" i ctx s] by (metis length_map)
  then show "length (filter (\<lambda>r. sr_batchIndex r = Some i) s) = b_entryCount ?b" using b rows by simp
  have "distinct (map e_id ?rows)"
    using s rows by (simp add: sqlite_inv_def row_key_def [abs_def] comp_def distinct_map_filter)
  then show "vouched lib kec num chainid (ac_contractAddress c) ch operator i (sr_entry r)"
    if "r \<in> set s" "sr_batchIndex r = Some i" for r
  proof -
    have r: "sr_entry r \<in> set ?rows" using that rows by auto
    obtain p where p: "map_of ?proofs (e_id (sr_entry r)) = Some p" "ep_storedHashMatches p"
      "proof_accepted lib chainid c ch operator p" "e_timestamp (sr_entry r) \<le> int time * 1000"
      using all r by (auto simp: list_all_iff entry_good_def)
    note q = proof_of_entry [OF p(1,2) \<open>distinct _\<close> r refl]
    show ?thesis
      unfolding vouched_def using \<open>0 \<le> i\<close> i q(1) p(3,4) b(1) by (auto simp: q AuditAnchorClient_verifyEntry_def)
  qed
qed

text \<open>The batch indices a verification goes through.\<close>

lemma sqlite_indices:
  assumes "sqlite_inv s"
  shows "set (sort (remdups (List.map_filter (batch_index_of (sqlite_ops fu) s) (map sr_entry s)))) =
      {i. \<exists>r \<in> set s. sr_batchIndex r = Some i}"
  using sqlite_batch_index [OF assms] by (force simp: map_filter_set)

lemma sqlite_anchored_length:
  assumes "sqlite_inv s"
  shows "length s - length (filter (\<lambda>e. batch_index_of (sqlite_ops fu) s e = None) (map sr_entry s)) =
      length (filter (\<lambda>r. sr_batchIndex r \<noteq> None) s)"
proof -
  have "filter (\<lambda>r. batch_index_of (sqlite_ops fu) s (sr_entry r) = None) s = filter (\<lambda>r. sr_batchIndex r = None) s"
    using sqlite_batch_index [OF assms] by (intro filter_cong) simp_all
  then show ?thesis
    using sum_length_filter_compl [of "\<lambda>r. sr_batchIndex r = None" s] by (simp add: filter_map comp_def)
qed

lemma finite_indices: "finite {i. \<exists>r \<in> set s. sr_batchIndex r = Some i}"
  by (rule finite_subset [of _ "the ` sr_batchIndex ` set s"]) (auto simp: image_iff, metis option.sel)

lemma total_check_clean:
  assumes "exit_code (total_check rpc ch operator None n ty) = None"
  shows "badness ty = 0"
    "(\<Sum>j<getBatchCount ch (lower operator). b_entryCount (an_batches ch (lower operator) ! j)) = n"
proof -
  have "sum_list (map b_entryCount (an_batches ch (lower operator))) =
      (\<Sum>j<getBatchCount ch (lower operator). b_entryCount (an_batches ch (lower operator) ! j))"
    by (simp add: sum_list_sum_nth getBatchCount_def atLeast0LessThan)
  then show "badness ty = 0"
    "(\<Sum>j<getBatchCount ch (lower operator). b_entryCount (an_batches ch (lower operator) ! j)) = n"
    using assms by (auto simp: exit_code_clean total_check_def getAllBatches_eq comp_def Let_def split: option.splits if_splits)
qed

lemma sqlite_group_nonempty:
  assumes "sqlite_inv s" "r \<in> set s" "sr_batchIndex r = Some i"
  shows "batch_group (sqlite_ops fu) s (map sr_entry s) i \<noteq> []"
  using assms sqlite_batch_index [OF assms(1,2), of fu] by (auto simp: batch_group_def filter_empty_conv)

lemma fold_clean:
  assumes "badness (fold (verify_batch rpc ok ch operator proofs_of group_of) idxs
      \<lparr>ty_verified = 0, ty_failed = 0, ty_errored = 0, ty_problems = []\<rparr>) = 0"
    and "\<And>i. i \<in> set idxs \<Longrightarrow> group_of i \<noteq> []"
  shows "list_all (batch_good ok ch operator proofs_of group_of) idxs"
proof -
  have "badness \<lparr>ty_verified = 0, ty_failed = 0, ty_errored = 0, ty_problems = []\<rparr> = 0" by (simp add: badness_def)
  then show ?thesis
    using verify_batches_bad [where group_of = group_of and idxs = idxs, OF assms(2)] assms(1) by metis
qed

lemma good_batches_complete:
  assumes good: "\<And>i r. r \<in> set s \<Longrightarrow> sr_batchIndex r = Some i \<Longrightarrow>
        batch_good (proof_accepted lib chainid c ch operator) ch operator
          (\<lambda>i. AuditLogger_proofsForBatch lib kec num (sqlite_ops fu) i ctx s)
          (batch_group (sqlite_ops fu) s (map sr_entry s)) i"
    and s: "sqlite_inv s"
    and all: "(\<Sum>j<getBatchCount ch (lower operator). b_entryCount (an_batches ch (lower operator) ! j)) =
        length (filter (\<lambda>r. sr_batchIndex r \<noteq> None) s)"
    and j: "j < getBatchCount ch (lower operator)"
  shows "length (filter (\<lambda>r. sr_batchIndex r = Some (int j)) s) = b_entryCount (an_batches ch (lower operator) ! j)"
proof (cases "\<exists>r \<in> set s. sr_batchIndex r = Some (int j)")
  case True
  then show ?thesis using good_batch_vouches(3) [OF good s, of _ "int j"] by auto
next
  case False
  let ?I = "{i. \<exists>r \<in> set s. sr_batchIndex r = Some i}"
  let ?n = "\<lambda>i. length (filter (\<lambda>r. sr_batchIndex r = Some i) s)"
  let ?N = "getBatchCount ch (lower operator)"
  let ?count = "\<lambda>j. b_entryCount (an_batches ch (lower operator) ! j)"
  have "(\<Sum>j<?N. ?count j) = (\<Sum>i\<in>?I. ?n i)"
    unfolding all by (rule count_by_batch) (auto simp: finite_indices)
  moreover have "0 \<le> i \<and> nat i < ?N \<and> ?n i = ?count (nat i)" if "i \<in> ?I" for i
    using that good_batch_vouches(1-3) [OF good s] by blast
  ultimately have "?count j = 0"
    using counts_complete [where I = ?I and f = ?n and N = ?N and j = j and n = ?count] finite_indices j False by auto
  then show ?thesis using False by (simp add: filter_empty_conv)
qed

text \<open>
  A verification that was carried out and sets no exit code means a complete and unedited log: every anchored row is in a
  batch that the operator committed, its contents match its hash, it is not later than the batch and the
  contract accepts a proof of it; and for every batch the operator ever committed, the log holds exactly
  as many rows as were committed.
\<close>

lemma checked_log_is_complete:
  assumes "verifyEntries lib kec num (sqlite_ops fu) env rpc chainid committer chain None operatorOverride ch s =
       Checked u ty None" "sqlite_inv s"
  shows "\<exists>this operator. env ''AUDIT_ANCHOR_ADDRESS'' = Some this \<and>
     (case operatorOverride of None \<Rightarrow> committer | Some a \<Rightarrow> Some a) = Some operator \<and>
     (\<forall>r \<in> set s. \<forall>i. sr_batchIndex r = Some i \<longrightarrow> vouched lib kec num chainid this ch operator i (sr_entry r)) \<and>
     (\<forall>j < getBatchCount ch (lower operator).
        length (filter (\<lambda>r. sr_batchIndex r = Some (int j)) s) = b_entryCount (an_batches ch (lower operator) ! j))"
proof -
  obtain this operator ctx where addr: "env ''AUDIT_ANCHOR_ADDRESS'' = Some this"
    "(case operatorOverride of None \<Rightarrow> committer | Some a \<Rightarrow> Some a) = Some operator"
    and ty: "exit_code (total_check rpc ch operator None (length s - length (filter (\<lambda>e. batch_index_of (sqlite_ops fu) s e = None) (map sr_entry s)))
       (fold (verify_batch rpc (proof_accepted lib chainid
            \<lparr>ac_chain = chain, ac_contractAddress = this, ac_committer = None, ac_confirmationTag = None\<rparr> ch operator)
          ch operator (\<lambda>i. AuditLogger_proofsForBatch lib kec num (sqlite_ops fu) i ctx s)
          (batch_group (sqlite_ops fu) s (map sr_entry s)))
          (sort (remdups (List.map_filter (batch_index_of (sqlite_ops fu) s) (map sr_entry s))))
          \<lparr>ty_verified = 0, ty_failed = 0, ty_errored = 0, ty_problems = []\<rparr>)) = None"
    using assms(1)
    by (auto simp: verifyEntries_def Let_def sqlite_listed split: option.splits if_splits sum.splits)
  let ?c = "\<lparr>ac_chain = chain, ac_contractAddress = this, ac_committer = None, ac_confirmationTag = None\<rparr>"
  note clean = total_check_clean [OF ty]
  have "list_all (batch_good (proof_accepted lib chainid ?c ch operator) ch operator
      (\<lambda>i. AuditLogger_proofsForBatch lib kec num (sqlite_ops fu) i ctx s) (batch_group (sqlite_ops fu) s (map sr_entry s)))
      (sort (remdups (List.map_filter (batch_index_of (sqlite_ops fu) s) (map sr_entry s))))"
    using sqlite_indices [OF assms(2)] sqlite_group_nonempty [OF assms(2)] by (intro fold_clean [OF clean(1)]) blast
  then have good: "batch_good (proof_accepted lib chainid ?c ch operator) ch operator
        (\<lambda>i. AuditLogger_proofsForBatch lib kec num (sqlite_ops fu) i ctx s) (batch_group (sqlite_ops fu) s (map sr_entry s)) i"
    if "r \<in> set s" "sr_batchIndex r = Some i" for i r
    using that sqlite_indices [OF assms(2)] unfolding list_all_iff by blast
  have all: "(\<Sum>j<getBatchCount ch (lower operator). b_entryCount (an_batches ch (lower operator) ! j)) =
      length (filter (\<lambda>r. sr_batchIndex r \<noteq> None) s)"
    using clean(2) unfolding sqlite_anchored_length [OF assms(2)] .
  have "length (filter (\<lambda>r. sr_batchIndex r = Some (int j)) s) = b_entryCount (an_batches ch (lower operator) ! j)"
    if "j < getBatchCount ch (lower operator)" for j
    by (rule good_batches_complete [OF good assms(2) all that])
  moreover have "vouched lib kec num chainid this ch operator i (sr_entry r)" if "r \<in> set s" "sr_batchIndex r = Some i" for r i
    using good_batch_vouches(4) [OF good assms(2)] that by simp
  ultimately show ?thesis using addr by blast
qed

definition ex_kept_entry :: audit_entry where
  "ex_kept_entry = as_stored (\<lambda>n. ''?'') (canonicalize (\<lambda>s. s) (\<lambda>x. ''0'') (ex_audited 5 True))"

definition ex_kept :: sqlite where
  "ex_kept = [\<lparr>sr_entry = ex_kept_entry, sr_batchIndex = Some 0, sr_batchRoot = Some (ex_root (CHR ''a''))\<rparr>]"

definition ex_verify_env :: "string \<Rightarrow> string option" where
  "ex_verify_env k = (if k = ''AUDIT_ANCHOR_ADDRESS'' then Some ''0xc'' else None)"

lemma ex_kept_entry_simps:
  "e_id ex_kept_entry = ''e''" "e_timestamp ex_kept_entry = 5" "canonicalize (\<lambda>s. s) (\<lambda>x. ''0'') ex_kept_entry = ex_kept_entry"
  by (simp_all add: ex_kept_entry_def canonicalize_def ex_audited_def [of 5 True, THEN arg_cong [of _ _ e_id]]
      ex_audited_def [of 5 True, THEN arg_cong [of _ _ e_timestamp]])
     (simp_all add: recomputeEntryHash_def hashEntry_def as_stored_def)

lemma ex_kept_proofs:
  "AuditLogger_proofsForBatch ex_lib (\<lambda>s. s) (\<lambda>x. ''0'') (sqlite_ops (\<lambda>n. ''?'')) 0 ex_ctx ex_kept =
     [(''e'', \<lparr>ep_batchIndex = 0, ep_leaf = ex_root (CHR ''a''), ep_proof = [], ep_localRoot = ex_root (CHR ''a''),
        ep_agentId = e_agentId ex_kept_entry, ep_timestamp = 5, ep_recipient = r_recipient (e_request ex_kept_entry),
        ep_verdict = verdict_to_num (d_verdict (e_decision ex_kept_entry)), ep_entryHash = e_entryHash ex_kept_entry,
        ep_storedHashMatches = True\<rparr>)]"
proof -
  have "so_entriesInBatch (sqlite_ops (\<lambda>n. ''?'')) 0 ex_kept = [ex_kept_entry]"
    by (simp add: sqlite_ops_def Sqlite_entriesInBatch_def ex_kept_def)
  then show ?thesis
    using ex_kept_entry_simps
    by (simp add: AuditLogger_proofsForBatch_def Let_def batch_of_def MerkleAuditBatch_root_def MerkleAuditBatch_build_def
        MerkleAuditBatch_addEntry_def MerkleAuditBatch_leafAt_def MerkleAuditBatch_proofAt_def new_batch_def
        proof_entry_def ex_lib_def)
qed

lemma ex_verified:
  "verifyEntries ex_lib (\<lambda>s. s) (\<lambda>x. ''0'') (sqlite_ops (\<lambda>n. ''?'')) ex_verify_env (\<lambda>_. None) 8453 None ''eip155:8453'' None
     (Some ''0xop'') ex_once ex_kept =
   Checked 0 \<lparr>ty_verified = 1, ty_failed = 0, ty_errored = 0, ty_problems = []\<rparr> None"
proof -
  have inv: "sqlite_inv ex_kept" by (simp add: sqlite_inv_def ex_kept_def)
  have idx: "batch_index_of (sqlite_ops (\<lambda>n. ''?'')) ex_kept ex_kept_entry = Some 0"
    using sqlite_batch_index [OF inv, of "hd ex_kept"] by (simp add: ex_kept_def)
  have chain: "getChain ''eip155:8453'' = Inr (snd (CHAINS ! 1))"
    by (simp add: getChain_def CHAINS_def)
  have once: "an_batches ex_once ''0xop'' = [\<lparr>b_merkleRoot = ex_root (CHR ''a''), b_timestamp = 7, b_entryCount = 1\<rparr>]"
    using ex_root_nonzero by (simp add: ex_once_def commitBatch_def new_anchor_def Let_def uint64_def)
  have group: "batch_group (sqlite_ops (\<lambda>n. ''?'')) ex_kept [ex_kept_entry] 0 = [ex_kept_entry]"
    by (simp add: batch_group_def idx)
  have "proof_accepted ex_lib 8453
      \<lparr>ac_chain = ''eip155:8453'', ac_contractAddress = ''0xc'', ac_committer = None, ac_confirmationTag = None\<rparr>
      ex_once ''0xop'' (snd (hd (AuditLogger_proofsForBatch ex_lib (\<lambda>s. s) (\<lambda>x. ''0'') (sqlite_ops (\<lambda>n. ''?'')) 0 ex_ctx ex_kept)))"
    unfolding ex_kept_proofs
    by (simp add: AuditAnchorClient_verifyEntry_def verifyEntry_def ex_lower once leafHash_def ex_lib_def)
  then have batch: "verify_batch (\<lambda>_. None) (proof_accepted ex_lib 8453
      \<lparr>ac_chain = ''eip155:8453'', ac_contractAddress = ''0xc'', ac_committer = None, ac_confirmationTag = None\<rparr>
      ex_once ''0xop'') ex_once ''0xop''
      (\<lambda>i. AuditLogger_proofsForBatch ex_lib (\<lambda>s. s) (\<lambda>x. ''0'') (sqlite_ops (\<lambda>n. ''?'')) i ex_ctx ex_kept)
      (batch_group (sqlite_ops (\<lambda>n. ''?'')) ex_kept [ex_kept_entry]) 0 ty =
      ty\<lparr>ty_verified := ty_verified ty + 1\<rparr>" for ty
    by (simp add: verify_batch_def Let_def batch_call_def group AuditAnchorClient_getBatch_def getBatch_def once ex_lower
        ex_kept_proofs add_problem_def ex_kept_entry_simps)
  have listed: "AuditLogger_list (sqlite_ops (\<lambda>n. ''?'')) None ex_kept = [ex_kept_entry]"
    by (simp add: sqlite_listed, simp add: ex_kept_def)
  have "total_check (\<lambda>_. None) ex_once ''0xop'' None 1 ty = ty" for ty
    by (simp add: total_check_def getAllBatches_eq once ex_lower add_problem_def)
  then show ?thesis
    unfolding verifyEntries_def Let_def listed
    using chain batch
    by (simp add: ex_verify_env_def AuditAnchorClient_assertChainId_def AuditAnchorClient_leafContext_def
      idx CHAINS_def ex_ctx_def [symmetric] map_filter_simps exit_code_def)
qed

lemma ex_kept_vouched: "vouched ex_lib (\<lambda>s. s) (\<lambda>x. ''0'') 8453 ''0xc'' ex_once ''0xop'' 0 ex_kept_entry"
proof -
  have inv: "sqlite_inv ex_kept" by (simp add: sqlite_inv_def ex_kept_def)
  show ?thesis using checked_log_is_complete [OF ex_verified inv]
    by (simp add: ex_kept_def ex_verify_env_def)
qed

end
