(* ===== verification/Analytics.thy ===== *)
theory Analytics
  imports Types "HOL-Library.AList"
begin

text \<open>
  The analytics over an audit log (\<open>packages/core/src/analytics.ts\<close>). \<open>report\<close> reads the log in one
  pass; its maps keep the order in which their keys first occur, as association lists. The
  reference is the report's definition by filters and sums.
\<close>

section \<open>The report\<close>

record counterparty_stat =
  cp_recipient :: string
  cp_count :: nat
  cp_totalSpend :: string

record verdict_counts =
  vc_allow :: nat
  vc_block :: nat
  vc_escalate :: nat

record analytics_report =
  rp_total :: nat
  rp_verdicts :: verdict_counts
  rp_settled :: nat
  rp_totalSpendByToken :: "(string \<times> string) list"
  rp_topCounterparties :: "counterparty_stat list"
  rp_anomalies :: nat
  rp_blockRate :: real
  rp_escalateRate :: real
  rp_firstTimestamp :: "int option"
  rp_lastTimestamp :: "int option"

record report_state =
  rs_verdicts :: verdict_counts
  rs_spend :: "(string \<times> int) list"
  rs_counterparties :: "(string \<times> nat \<times> int) list"
  rs_settled :: nat
  rs_anomalies :: nat
  rs_first :: "int option"
  rs_last :: "int option"

definition report_start :: report_state where
  "report_start = \<lparr>rs_verdicts = \<lparr>vc_allow = 0, vc_block = 0, vc_escalate = 0\<rparr>, rs_spend = [],
     rs_counterparties = [], rs_settled = 0, rs_anomalies = 0, rs_first = None, rs_last = None\<rparr>"

fun count_verdict :: "verdict \<Rightarrow> verdict_counts \<Rightarrow> verdict_counts" where
  "count_verdict Allow c = c\<lparr>vc_allow := vc_allow c + 1\<rparr>"
| "count_verdict Block c = c\<lparr>vc_block := vc_block c + 1\<rparr>"
| "count_verdict Escalate c = c\<lparr>vc_escalate := vc_escalate c + 1\<rparr>"

text \<open>\<open>map.set(k, f(map.get(k) ?? d))\<close>\<close>

definition bump :: "'v \<Rightarrow> ('v \<Rightarrow> 'v) \<Rightarrow> 'k \<Rightarrow> ('k \<times> 'v) list \<Rightarrow> ('k \<times> 'v) list" where
  "bump d f k m = AList.update k (f (case map_of m k of None \<Rightarrow> d | Some v \<Rightarrow> v)) m"

definition report_settled :: "audit_entry \<Rightarrow> report_state \<Rightarrow> report_state" where
  "report_settled e st =
     (let amount = r_amount (e_request e)
      in st\<lparr>rs_settled := rs_settled st + 1,
            rs_spend := bump 0 (\<lambda>v. v + amount) (lower (r_token (e_request e))) (rs_spend st),
            rs_counterparties := bump (0, 0) (\<lambda>(n, v). (n + 1, v + amount)) (lower (r_recipient (e_request e)))
              (rs_counterparties st)\<rparr>)"

definition report_step :: "audit_entry \<Rightarrow> report_state \<Rightarrow> report_state" where
  "report_step e st =
     (let st1 = st\<lparr>rs_verdicts := count_verdict (d_verdict (e_decision e)) (rs_verdicts st)\<rparr>;
          st2 = (if anomaly_fired (d_checks (e_decision e)) then st1\<lparr>rs_anomalies := rs_anomalies st1 + 1\<rparr> else st1);
          st3 = st2\<lparr>rs_first := Some (case rs_first st2 of None \<Rightarrow> e_timestamp e | Some t \<Rightarrow> min t (e_timestamp e)),
                    rs_last := Some (case rs_last st2 of None \<Rightarrow> e_timestamp e | Some t \<Rightarrow> max t (e_timestamp e))\<rparr>
      in if settled e then report_settled e st3 else st3)"

text \<open>\<open>xs.slice(0, n)\<close>; a negative end counts from the end of the list.\<close>

definition slice_to :: "int \<Rightarrow> 'a list \<Rightarrow> 'a list" where
  "slice_to n xs = take (if n < 0 then nat (int (length xs) + n) else nat n) xs"

definition top_counterparties :: "int \<Rightarrow> (string \<times> nat \<times> int) list \<Rightarrow> counterparty_stat list" where
  "top_counterparties topN cps =
     slice_to topN
       (sort_key (\<lambda>c. - the (bigint_of_string (cp_totalSpend c)))
         (map (\<lambda>(r, n, v). \<lparr>cp_recipient = r, cp_count = n, cp_totalSpend = bigint_to_string v\<rparr>) cps))"

definition rate :: "nat \<Rightarrow> nat \<Rightarrow> real" where
  "rate n entries = (if entries \<noteq> 0 then real n / real entries else 0)"

definition report :: "audit_entry list \<Rightarrow> int option \<Rightarrow> analytics_report" where
  "report entries topN =
     (let st = fold report_step entries report_start; n = length entries
      in \<lparr>rp_total = n, rp_verdicts = rs_verdicts st, rp_settled = rs_settled st,
          rp_totalSpendByToken = map (\<lambda>(k, v). (k, bigint_to_string v)) (rs_spend st),
          rp_topCounterparties = top_counterparties (case topN of None \<Rightarrow> 5 | Some k \<Rightarrow> k) (rs_counterparties st),
          rp_anomalies = rs_anomalies st, rp_blockRate = rate (vc_block (rs_verdicts st)) n,
          rp_escalateRate = rate (vc_escalate (rs_verdicts st)) n,
          rp_firstTimestamp = rs_first st, rp_lastTimestamp = rs_last st\<rparr>)"

section \<open>The pass computes the reference aggregates\<close>

definition verdict_total :: "verdict \<Rightarrow> audit_entry list \<Rightarrow> nat" where
  "verdict_total v es = length (filter (\<lambda>e. d_verdict (e_decision e) = v) es)"

definition settled_to :: "(payment_request \<Rightarrow> string) \<Rightarrow> string \<Rightarrow> audit_entry list \<Rightarrow> audit_entry list" where
  "settled_to part k es = filter (\<lambda>e. settled e \<and> lower (part (e_request e)) = k) es"

definition spend_of :: "audit_entry list \<Rightarrow> int" where
  "spend_of es = sum_list (map (\<lambda>e. r_amount (e_request e)) es)"

lemma settled_to_append [simp]: "settled_to part k (es @ [e]) =
    settled_to part k es @ (if settled e \<and> lower (part (e_request e)) = k then [e] else [])"
  by (simp add: settled_to_def)

lemma spend_of_simps [simp]: "spend_of [] = 0" "spend_of (es @ [e]) = spend_of es + r_amount (e_request e)"
  by (simp_all add: spend_of_def)

lemma map_of_bump [simp]:
  "map_of (bump d f k m) k' = (if k' = k then Some (f (case map_of m k of None \<Rightarrow> d | Some v \<Rightarrow> v)) else map_of m k')"
  by (simp add: bump_def update_conv')

lemma distinct_bump [simp]: "distinct (map fst m) \<Longrightarrow> distinct (map fst (bump d f k m))"
  by (simp add: bump_def distinct_update)

definition grouped :: "('a list \<Rightarrow> 'v) \<Rightarrow> 'a list \<Rightarrow> 'v option" where
  "grouped f xs = (if xs = [] then None else Some (f xs))"

definition pass_inv :: "audit_entry list \<Rightarrow> report_state \<Rightarrow> bool" where
  "pass_inv es st \<longleftrightarrow>
     rs_verdicts st = \<lparr>vc_allow = verdict_total Allow es, vc_block = verdict_total Block es,
       vc_escalate = verdict_total Escalate es\<rparr> \<and>
     rs_settled st = length (filter settled es) \<and>
     rs_anomalies st = length (filter (\<lambda>e. anomaly_fired (d_checks (e_decision e))) es) \<and>
     rs_first st = grouped (\<lambda>es. Min (e_timestamp ` set es)) es \<and>
     rs_last st = grouped (\<lambda>es. Max (e_timestamp ` set es)) es \<and>
     distinct (map fst (rs_spend st)) \<and> distinct (map fst (rs_counterparties st)) \<and>
     (\<forall>k. map_of (rs_spend st) k = grouped spend_of (settled_to r_token k es)) \<and>
     (\<forall>k. map_of (rs_counterparties st) k = grouped (\<lambda>es. (length es, spend_of es)) (settled_to r_recipient k es))"

lemma pass_inv_start: "pass_inv [] report_start"
  by (simp add: pass_inv_def report_start_def grouped_def verdict_total_def settled_to_def)

lemma report_step_fields [simp]:
  "rs_verdicts (report_step e st) = count_verdict (d_verdict (e_decision e)) (rs_verdicts st)"
  "rs_settled (report_step e st) = rs_settled st + (if settled e then 1 else 0)"
  "rs_anomalies (report_step e st) = rs_anomalies st + (if anomaly_fired (d_checks (e_decision e)) then 1 else 0)"
  "rs_first (report_step e st) = Some (case rs_first st of None \<Rightarrow> e_timestamp e | Some t \<Rightarrow> min t (e_timestamp e))"
  "rs_last (report_step e st) = Some (case rs_last st of None \<Rightarrow> e_timestamp e | Some t \<Rightarrow> max t (e_timestamp e))"
  "rs_spend (report_step e st) =
     (if settled e then bump 0 (\<lambda>v. v + r_amount (e_request e)) (lower (r_token (e_request e))) (rs_spend st) else rs_spend st)"
  "rs_counterparties (report_step e st) =
     (if settled e then bump (0, 0) (\<lambda>(n, v). (n + 1, v + r_amount (e_request e))) (lower (r_recipient (e_request e)))
        (rs_counterparties st) else rs_counterparties st)"
  by (simp_all add: report_step_def report_settled_def Let_def)

lemma verdict_total_append [simp]:
  "verdict_total v (es @ [e]) = verdict_total v es + (if d_verdict (e_decision e) = v then 1 else 0)"
  by (simp add: verdict_total_def)

lemma grouped_snoc:
  "grouped f (xs @ [x]) = Some (f (xs @ [x]))" "grouped f [x] = Some (f [x])" "grouped f [] = None"
  by (simp_all add: grouped_def)

lemma grouped_Min: "(case grouped (\<lambda>es. Min (t ` set es)) es of None \<Rightarrow> t e | Some m \<Rightarrow> min m (t e)) = Min (t ` set (es @ [e]))"
  for t :: "'a \<Rightarrow> int"
  by (cases "es = []") (simp_all add: grouped_def min.commute)

lemma grouped_Max: "(case grouped (\<lambda>es. Max (t ` set es)) es of None \<Rightarrow> t e | Some m \<Rightarrow> max m (t e)) = Max (t ` set (es @ [e]))"
  for t :: "'a \<Rightarrow> int"
  by (cases "es = []") (simp_all add: grouped_def max.commute)

text \<open>Adding an entry to its group.\<close>

lemma grouped_bump:
  assumes "\<And>k. map_of m k = grouped f (settled_to part k es)"
    and "\<And>xs. f (xs @ [e]) = g (f xs)" "f [] = d"
  shows "map_of (if settled e then bump d g (lower (part (e_request e))) m else m) k = grouped f (settled_to part k (es @ [e]))"
  using assms(2) [of "[]"] by (auto simp: assms grouped_def)

lemma pass_inv_step:
  assumes "pass_inv es st"
  shows "pass_inv (es @ [e]) (report_step e st)"
proof -
  note inv = assms [unfolded pass_inv_def]
  have "\<forall>k. map_of (rs_spend (report_step e st)) k = grouped spend_of (settled_to r_token k (es @ [e]))"
    unfolding report_step_fields by (intro allI grouped_bump) (use inv in auto)
  moreover have "\<forall>k. map_of (rs_counterparties (report_step e st)) k =
      grouped (\<lambda>es. (length es, spend_of es)) (settled_to r_recipient k (es @ [e]))"
    unfolding report_step_fields by (intro allI grouped_bump) (use inv in auto)
  moreover have "rs_first (report_step e st) = grouped (\<lambda>es. Min (e_timestamp ` set es)) (es @ [e])"
    "rs_last (report_step e st) = grouped (\<lambda>es. Max (e_timestamp ` set es)) (es @ [e])"
    unfolding report_step_fields grouped_snoc using inv grouped_Min grouped_Max by metis+
  moreover have "rs_verdicts (report_step e st) = \<lparr>vc_allow = verdict_total Allow (es @ [e]),
      vc_block = verdict_total Block (es @ [e]), vc_escalate = verdict_total Escalate (es @ [e])\<rparr>"
    using inv by (cases "d_verdict (e_decision e)") simp_all
  ultimately show ?thesis using inv unfolding pass_inv_def by simp
qed

lemma pass_inv_report: "pass_inv es (fold report_step es report_start)"
proof (induction es rule: rev_induct)
  case (snoc e es)
  then show ?case by (simp add: pass_inv_step)
qed (simp add: pass_inv_start)

section \<open>The ranking\<close>

definition spend_key :: "counterparty_stat \<Rightarrow> int" where
  "spend_key c = the (bigint_of_string (cp_totalSpend c))"

definition stats_of :: "(string \<times> nat \<times> int) list \<Rightarrow> counterparty_stat list" where
  "stats_of cps = map (\<lambda>(r, n, v). \<lparr>cp_recipient = r, cp_count = n, cp_totalSpend = bigint_to_string v\<rparr>) cps"

definition ranked :: "(string \<times> nat \<times> int) list \<Rightarrow> counterparty_stat list" where
  "ranked cps = sort_key (\<lambda>c. - spend_key c) (stats_of cps)"

lemma top_counterparties_ranked: "top_counterparties n cps = slice_to n (ranked cps)"
  by (simp add: top_counterparties_def ranked_def stats_of_def spend_key_def)

lemma distinct_slice_to: "distinct (map f xs) \<Longrightarrow> distinct (map f (slice_to n xs))"
  by (simp add: slice_to_def flip: take_map)

lemma sorted_slice_to: "sorted_wrt P xs \<Longrightarrow> sorted_wrt P (slice_to n xs)"
  by (simp add: slice_to_def sorted_wrt_take)

lemma set_slice_to: "x \<in> set (slice_to n xs) \<Longrightarrow> x \<in> set xs"
  by (auto simp: slice_to_def dest: in_set_takeD)

lemma ranked_props:
  assumes "distinct (map fst cps)"
  shows "c \<in> set (ranked cps) \<longleftrightarrow> (\<exists>n v. map_of cps (cp_recipient c) = Some (n, v) \<and> cp_count c = n \<and> cp_totalSpend c = bigint_to_string v)"
    and "distinct (map cp_recipient (ranked cps))"
    and "sorted_wrt (\<lambda>a b. spend_key a \<ge> spend_key b) (ranked cps)"
proof -
  show "c \<in> set (ranked cps) \<longleftrightarrow> (\<exists>n v. map_of cps (cp_recipient c) = Some (n, v) \<and> cp_count c = n \<and> cp_totalSpend c = bigint_to_string v)"
    using assms by (cases c) (force simp: ranked_def stats_of_def map_of_eq_Some_iff)
  have "map cp_recipient (stats_of cps) = map fst cps" by (simp add: stats_of_def split_beta)
  then have "distinct (map cp_recipient (stats_of cps))" using assms by simp
  then show "distinct (map cp_recipient (ranked cps))"
    unfolding ranked_def distinct_map set_sort distinct_sort .
  have "sorted (map (\<lambda>c. - spend_key c) (ranked cps))" by (simp add: ranked_def)
  then show "sorted_wrt (\<lambda>a b. spend_key a \<ge> spend_key b) (ranked cps)"
    by (simp add: sorted_wrt_map)
qed

text \<open>What a prefix of a list sorted downwards leaves out is not larger than what it keeps.\<close>

lemma slice_to_keeps_largest:
  assumes "sorted_wrt (\<lambda>a b. f a \<ge> f b) xs" "0 \<le> n" "x \<in> set xs" "x \<notin> set (slice_to n xs)"
  shows "length (slice_to n xs) = nat n" "\<And>c. c \<in> set (slice_to n xs) \<Longrightarrow> f x \<le> f c"
proof -
  have x: "x \<in> set (drop (nat n) xs)"
    using assms(2-4) by (metis slice_to_def not_less append_take_drop_id Un_iff set_append)
  then show "length (slice_to n xs) = nat n" using assms(2) by (auto simp: slice_to_def) (metis length_pos_if_in_set length_drop zero_less_diff less_imp_le min.absorb2)
  have "sorted_wrt (\<lambda>a b. f a \<ge> f b) (take (nat n) xs @ drop (nat n) xs)" using assms(1) by simp
  then show "f x \<le> f c" if "c \<in> set (slice_to n xs)" for c
    using that x assms(2) unfolding sorted_wrt_append by (auto simp: slice_to_def)
qed

section \<open>Properties\<close>

definition recipient_total :: "string \<Rightarrow> audit_entry list \<Rightarrow> int" where
  "recipient_total k es = spend_of (settled_to r_recipient k es)"

lemma verdict_totals: "length es = verdict_total Allow es + verdict_total Block es + verdict_total Escalate es"
proof (induction es rule: rev_induct)
  case (snoc e es)
  then show ?case by (cases "d_verdict (e_decision e)") simp_all
qed (simp add: verdict_total_def)

text \<open>The counterparties of the pass, ranked.\<close>

lemma ranked_pass:
  assumes "pass_inv es st"
  shows "c \<in> set (ranked (rs_counterparties st)) \<longleftrightarrow>
       settled_to r_recipient (cp_recipient c) es \<noteq> [] \<and>
       cp_count c = length (settled_to r_recipient (cp_recipient c) es) \<and>
       cp_totalSpend c = bigint_to_string (recipient_total (cp_recipient c) es)"
    and "c \<in> set (ranked (rs_counterparties st)) \<Longrightarrow> spend_key c = recipient_total (cp_recipient c) es"
    and "distinct (map cp_recipient (ranked (rs_counterparties st)))"
    and "sorted_wrt (\<lambda>a b. spend_key a \<ge> spend_key b) (ranked (rs_counterparties st))"
proof -
  have d: "distinct (map fst (rs_counterparties st))"
    and m: "map_of (rs_counterparties st) k = grouped (\<lambda>es. (length es, spend_of es)) (settled_to r_recipient k es)" for k
    using assms by (simp_all add: pass_inv_def)
  show mem: "c \<in> set (ranked (rs_counterparties st)) \<longleftrightarrow>
       settled_to r_recipient (cp_recipient c) es \<noteq> [] \<and>
       cp_count c = length (settled_to r_recipient (cp_recipient c) es) \<and>
       cp_totalSpend c = bigint_to_string (recipient_total (cp_recipient c) es)"
    unfolding ranked_props(1) [OF d] m by (auto simp: grouped_def recipient_total_def)
  show "spend_key c = recipient_total (cp_recipient c) es" if "c \<in> set (ranked (rs_counterparties st))"
    using that unfolding mem by (simp add: spend_key_def bigint_of_string_to_string)
  show "distinct (map cp_recipient (ranked (rs_counterparties st)))"
    "sorted_wrt (\<lambda>a b. spend_key a \<ge> spend_key b) (ranked (rs_counterparties st))"
    by (rule ranked_props [OF d])+
qed

lemma top_covers:
  assumes "pass_inv es st" "0 \<le> n" "settled_to r_recipient k es \<noteq> []"
    "k \<notin> cp_recipient ` set (top_counterparties n (rs_counterparties st))"
  shows "length (top_counterparties n (rs_counterparties st)) = nat n \<and>
    (\<forall>c \<in> set (top_counterparties n (rs_counterparties st)). recipient_total k es \<le> recipient_total (cp_recipient c) es)"
proof -
  let ?c = "\<lparr>cp_recipient = k, cp_count = length (settled_to r_recipient k es), cp_totalSpend = bigint_to_string (recipient_total k es)\<rparr>"
  have c: "?c \<in> set (ranked (rs_counterparties st))" using assms(3) by (simp add: ranked_pass(1) [OF assms(1)])
  have out: "?c \<notin> set (slice_to n (ranked (rs_counterparties st)))"
    using assms(4) unfolding top_counterparties_ranked by force
  show ?thesis
    using slice_to_keeps_largest [OF ranked_pass(4) [OF assms(1)] assms(2) c out] ranked_pass(2) [OF assms(1)] c
      set_slice_to [of _ n "ranked (rs_counterparties st)"]
    unfolding top_counterparties_ranked by (simp only:) fastforce
qed


definition ex_paid :: "string \<Rightarrow> int \<Rightarrow> int \<Rightarrow> audit_entry" where
  "ex_paid to amount t = \<lparr>e_id = ''e'', e_timestamp = t, e_agentId = ''a'',
     e_request = \<lparr>r_intent = ''i'', r_amount = amount, r_token = ''t'', r_recipient = to, r_chain = ''c'', r_agentId = ''a'',
       r_resourceUrl = None\<rparr>,
     e_decision = \<lparr>d_verdict = Allow, d_riskScore = 0, d_checks = [], d_reason = R_allowed 0, d_escalation = None\<rparr>,
     e_settlement = Some \<lparr>s_txHash = None, s_nonce = None, s_facilitator = None, s_success = True\<rparr>, e_entryHash = []\<rparr>"

definition ex_log :: "audit_entry list" where
  "ex_log = [ex_paid ''p'' 3 20, ex_paid ''q'' 9 10]"

lemma ex_report: "rp_topCounterparties (report ex_log (Some 1)) =
    [\<lparr>cp_recipient = ''q'', cp_count = 1, cp_totalSpend = ''9''\<rparr>]"
  by code_simp

lemma ex_settled_to: "settled_to r_recipient ''p'' ex_log = [ex_paid ''p'' 3 20]" "settled_to r_recipient ''q'' ex_log = [ex_paid ''q'' 9 10]"
  by code_simp+


end
