(* ===== verification/Server.thy ===== *)
theory Server
  imports Hydration Analytics
begin

text \<open>
  The control plane (\<open>packages/server/src/index.ts\<close>): the rate limiter and the handler of a
  request over a guard, its approval queue and its breaker. The path of a URL is the argument
  \<open>pathname\<close> (\<open>None\<close> if the parser throws), \<open>rd\<close> reads a number literal (\<open>None\<close> for the
  infinities). The body of a request is its text; the code casts the fields of an \<open>/evaluate\<close>
  body to their types, and a body whose fields have other types is outside the model (the
  answer \<open>None\<close>). Sockets and the rendering of the answers are left out.
\<close>

section \<open>The rate limiter\<close>

record rate_limit_options =
  rl_windowMs :: int
  rl_max :: int

record rate_hit =
  ht_count :: int
  ht_resetAt :: int

type_synonym limiter = "string \<rightharpoonup> rate_hit"

definition DEFAULT_RATE_LIMIT :: rate_limit_options where
  "DEFAULT_RATE_LIMIT = \<lparr>rl_windowMs = 60000, rl_max = 60\<rparr>"

definition RateLimiter_allow :: "rate_limit_options \<Rightarrow> string \<Rightarrow> int \<Rightarrow> limiter \<Rightarrow> bool \<times> limiter" where
  "RateLimiter_allow opts key now hits =
     (let fresh = hits(key \<mapsto> \<lparr>ht_count = 1, ht_resetAt = now + rl_windowMs opts\<rparr>)
      in case hits key of
           None \<Rightarrow> (True, fresh)
         | Some entry \<Rightarrow>
             if now \<ge> ht_resetAt entry then (True, fresh)
             else if ht_count entry \<ge> rl_max opts then (False, hits)
             else (True, hits(key \<mapsto> entry\<lparr>ht_count := ht_count entry + 1\<rparr>)))"

section \<open>Requests and answers\<close>

record http_request =
  hr_method :: "string option"
  hr_url :: "string option"
  hr_remoteAddress :: "string option"
  hr_authorization :: "string option"
  hr_body :: string

datatype answer_body =
    B_ok
  | B_error string
  | B_thrown
  | B_decision policy_decision
  | B_pending "pending_approval list"
  | B_resolved bool
  | B_breaker bool breaker_counts
  | B_state bool
  | B_disabled
  | B_report analytics_report

type_synonym answer = "nat \<times> answer_body"

datatype rate_limit_choice = RL_default | RL_off | RL_limit rate_limit_options

record control_options =
  co_token :: "string option"
  co_rateLimit :: rate_limit_choice

record 's control =
  ct_guard :: "'s guard_state"
  ct_queue :: "approval_queue option"
  ct_hits :: limiter

text \<open>\<open>createControlPlaneHandler\<close>: the limiter in use; a request that throws is answered with 400.\<close>

fun limiter_options :: "rate_limit_choice \<Rightarrow> rate_limit_options option" where
  "limiter_options RL_off = None"
| "limiter_options RL_default = Some DEFAULT_RATE_LIMIT"
| "limiter_options (RL_limit opts) = Some opts"

text \<open>\<open>/^\/approvals\/([^/]+)\/(approve|deny)$/\<close>\<close>

definition approval_route :: "string \<Rightarrow> (string \<times> bool) option" where
  "approval_route path =
     (case split_on (CHR ''/'') path of
        [[], a, i, act] \<Rightarrow>
          if a = ''approvals'' \<and> i \<noteq> [] \<and> (act = ''approve'' \<or> act = ''deny'') then Some (i, act = ''approve'') else None
      | _ \<Rightarrow> None)"

section \<open>The body of an evaluation\<close>

definition readJson :: "string \<Rightarrow> json option" where
  "readJson raw = (if trim raw = [] then Some (JObj []) else json_parse (trim raw))"

text \<open>A value that is read, one of another type than the cast says, or an exception.\<close>

datatype 'a field = Field 'a | Untyped | Throws

definition bigint_of_json :: "(string \<Rightarrow> real option) \<Rightarrow> json option \<Rightarrow> int field" where
  "bigint_of_json rd j =
     (case j of
        None \<Rightarrow> Throws
      | Some JNull \<Rightarrow> Throws
      | Some (JStr s) \<Rightarrow> (case bigint_of_string s of None \<Rightarrow> Throws | Some n \<Rightarrow> Field n)
      | Some (JNum l) \<Rightarrow>
          (case rd l of None \<Rightarrow> Throws | Some v \<Rightarrow> if v = of_int \<lfloor>v\<rfloor> then Field \<lfloor>v\<rfloor> else Throws)
      | Some (JObj ms) \<Rightarrow> Throws
      | Some (JBool b) \<Rightarrow> Field (if b then 1 else 0)
      | Some (JArr vs) \<Rightarrow> Untyped)"

definition string_field :: "json \<Rightarrow> string \<Rightarrow> string option" where
  "string_field j k = (case json_get j k of Some (JStr s) \<Rightarrow> Some s | _ \<Rightarrow> None)"

definition string_field_or :: "string \<Rightarrow> json \<Rightarrow> string \<Rightarrow> string option" where
  "string_field_or d j k =
     (case json_get j k of None \<Rightarrow> Some d | Some JNull \<Rightarrow> Some d | Some (JStr s) \<Rightarrow> Some s | _ \<Rightarrow> None)"

definition optional_field :: "json \<Rightarrow> string \<Rightarrow> string option option" where
  "optional_field j k =
     (case json_get j k of None \<Rightarrow> Some None | Some (JStr s) \<Rightarrow> Some (Some s) | _ \<Rightarrow> None)"

text \<open>\<open>resourceUrl\<close>: every use of it has \<open>??\<close> or tests for a falsy value, so \<open>null\<close> is as good as absent.\<close>

definition nullish_field :: "json \<Rightarrow> string \<Rightarrow> string option option" where
  "nullish_field j k =
     (case json_get j k of None \<Rightarrow> Some None | Some JNull \<Rightarrow> Some None | Some (JStr s) \<Rightarrow> Some (Some s) | _ \<Rightarrow> None)"

definition payment_of_json :: "(string \<Rightarrow> real option) \<Rightarrow> string \<Rightarrow> json \<Rightarrow> payment_request field" where
  "payment_of_json rd agentId r =
     (case bigint_of_json rd (json_get r ''amount'') of
        Throws \<Rightarrow> Throws
      | Untyped \<Rightarrow> Untyped
      | Field n \<Rightarrow>
          (case (string_field_or [] r ''intent'', string_field r ''token'', string_field r ''recipient'',
                 string_field_or ''eip155:84532'' r ''chain'', string_field_or agentId r ''agentId'',
                 nullish_field r ''resourceUrl'') of
             (Some i, Some t, Some p, Some c, Some a, Some u) \<Rightarrow>
               Field \<lparr>r_intent = i, r_amount = n, r_token = t, r_recipient = p, r_chain = c, r_agentId = a,
                      r_resourceUrl = u\<rparr>
           | _ \<Rightarrow> Untyped))"

definition payment_of_body :: "(string \<Rightarrow> real option) \<Rightarrow> agent_guard \<Rightarrow> json \<Rightarrow> payment_request field" where
  "payment_of_body rd g body =
     payment_of_json rd (ag_agentId g)
       (case json_get body ''request'' of None \<Rightarrow> body | Some JNull \<Rightarrow> body | Some j \<Rightarrow> j)"

section \<open>The handler\<close>

definition handle_evaluate ::
  "externals \<Rightarrow> (string \<Rightarrow> real option) \<Rightarrow> agent_guard \<Rightarrow> clock \<Rightarrow> string \<Rightarrow> 's control \<Rightarrow> answer option \<times> 's control" where
  "handle_evaluate x rd g clock raw st =
     (case readJson raw of
        None \<Rightarrow> (Some (400, B_thrown), st)
      | Some body \<Rightarrow>
          (case payment_of_body rd g body of
             Throws \<Rightarrow> (Some (400, B_thrown), st)
           | Untyped \<Rightarrow> (None, st)
           | Field req \<Rightarrow>
               (let (d, gs) = AgentGuard_evaluate x g clock req (ct_guard st)
                in (Some (200, B_decision d), st\<lparr>ct_guard := gs\<rparr>))))"

definition handle_resolve :: "string \<Rightarrow> bool \<Rightarrow> 's control \<Rightarrow> answer option \<times> 's control" where
  "handle_resolve i approved st =
     (case ct_queue st of
        None \<Rightarrow> (Some (404, B_resolved False), st)
      | Some q \<Rightarrow>
          (let (resolved, q') = ApprovalQueue_resolve i approved q
           in (Some (if resolved then 200 else 404, B_resolved resolved), st\<lparr>ct_queue := Some q'\<rparr>)))"

definition set_breaker :: "breaker \<Rightarrow> 's control \<Rightarrow> 's control" where
  "set_breaker b st = st\<lparr>ct_guard := (ct_guard st)\<lparr>gs_breaker := b\<rparr>\<rparr>"

definition handle_breaker :: "agent_guard \<Rightarrow> clock \<Rightarrow> 's control \<Rightarrow> answer option \<times> 's control" where
  "handle_breaker g clock st =
     (case ag_breaker g of
        None \<Rightarrow> (Some (200, B_disabled), st)
      | Some cfg \<Rightarrow>
          (let (opened, b1) = CircuitBreaker_state cfg (clock 0) (gs_breaker (ct_guard st));
               (counts, b2) = CircuitBreaker_counts cfg (clock 1) b1
           in (Some (200, B_breaker opened counts), set_breaker b2 st)))"

definition handle_reset :: "agent_guard \<Rightarrow> clock \<Rightarrow> 's control \<Rightarrow> answer option \<times> 's control" where
  "handle_reset g clock st =
     (let st1 = st\<lparr>ct_guard := AgentGuard_resetCircuitBreaker g (ct_guard st)\<rparr>
      in case ag_breaker g of
           None \<Rightarrow> (Some (200, B_disabled), st1)
         | Some cfg \<Rightarrow>
             (let (opened, b) = CircuitBreaker_state cfg (clock 0) (gs_breaker (ct_guard st1))
              in (Some (200, B_state opened), set_breaker b st1)))"

text \<open>The routes behind the limiter and the token.\<close>

definition handle_route ::
  "externals \<Rightarrow> (string \<Rightarrow> real option) \<Rightarrow> 's store_ops \<Rightarrow> agent_guard \<Rightarrow> clock \<Rightarrow> string \<Rightarrow> string \<Rightarrow> string \<Rightarrow>
     's control \<Rightarrow> answer option \<times> 's control" where
  "handle_route x rd ops g clock meth path body st =
     (if meth = ''POST'' \<and> path = ''/evaluate'' then handle_evaluate x rd g clock body st
      else if meth = ''GET'' \<and> path = ''/approvals'' then
        (Some (200, B_pending (case ct_queue st of None \<Rightarrow> [] | Some q \<Rightarrow> ApprovalQueue_list q)), st)
      else if meth = ''POST'' \<and> approval_route path \<noteq> None then
        (case the (approval_route path) of (i, approved) \<Rightarrow> handle_resolve i approved st)
      else if meth = ''GET'' \<and> path = ''/breaker'' then handle_breaker g clock st
      else if meth = ''POST'' \<and> path = ''/breaker/reset'' then handle_reset g clock st
      else if meth = ''GET'' \<and> path = ''/report'' then
        (Some (200, B_report (report (AuditLogger_list ops None (gs_store (ct_guard st))) None)), st)
      else (Some (404, B_error ''not found''), st))"

definition token_ok :: "string option \<Rightarrow> string option \<Rightarrow> bool" where
  "token_ok token authorization = (\<not> truthy token \<or> authorization = Some (''Bearer '' @ the token))"

definition limit_request :: "control_options \<Rightarrow> int \<Rightarrow> http_request \<Rightarrow> limiter \<Rightarrow> bool \<times> limiter" where
  "limit_request opts now req hits =
     (case limiter_options (co_rateLimit opts) of
        None \<Rightarrow> (True, hits)
      | Some lo \<Rightarrow> RateLimiter_allow lo (case hr_remoteAddress req of None \<Rightarrow> ''unknown'' | Some a \<Rightarrow> a) now hits)"

definition request_method :: "http_request \<Rightarrow> string" where
  "request_method req = (case hr_method req of None \<Rightarrow> ''GET'' | Some m \<Rightarrow> m)"

definition request_path :: "(string \<Rightarrow> string option) \<Rightarrow> http_request \<Rightarrow> string option" where
  "request_path pathname req = pathname (case hr_url req of None \<Rightarrow> ''/'' | Some u \<Rightarrow> u)"

definition handle ::
  "externals \<Rightarrow> (string \<Rightarrow> real option) \<Rightarrow> (string \<Rightarrow> string option) \<Rightarrow> 's store_ops \<Rightarrow> agent_guard \<Rightarrow> control_options \<Rightarrow>
     clock \<Rightarrow> int \<Rightarrow> http_request \<Rightarrow> 's control \<Rightarrow> answer option \<times> 's control" where
  "handle x rd pathname ops g opts clock now req st =
     (case request_path pathname req of
        None \<Rightarrow> (Some (400, B_thrown), st)
      | Some path \<Rightarrow>
          if request_method req = ''GET'' \<and> path = ''/health'' then (Some (200, B_ok), st)
          else
            (case limit_request opts now req (ct_hits st) of
               (allowed, hits) \<Rightarrow>
                 if \<not> allowed then (Some (429, B_error ''rate limit exceeded''), st\<lparr>ct_hits := hits\<rparr>)
                 else if \<not> token_ok (co_token opts) (hr_authorization req) then
                   (Some (401, B_error ''unauthorized''), st\<lparr>ct_hits := hits\<rparr>)
                 else handle_route x rd ops g clock (request_method req) path (hr_body req) (st\<lparr>ct_hits := hits\<rparr>)))"

section \<open>What a request can change\<close>

lemma split_on_pieces: "w \<in> set (split_on c s) \<Longrightarrow> c \<notin> set w"
  by (induction s arbitrary: w) (fastforce split: if_splits list.splits)+

lemma approval_route_iff:
  "approval_route path = Some (i, a) \<longleftrightarrow>
     path = ''/approvals/'' @ i @ (if a then ''/approve'' else ''/deny'') \<and> i \<noteq> [] \<and> CHR ''/'' \<notin> set i"
proof
  assume r: "approval_route path = Some (i, a)"
  then obtain act where s: "split_on (CHR ''/'') path = [[], ''approvals'', i, act]"
    and act: "act = (if a then ''approve'' else ''deny'')" "i \<noteq> []"
    by (auto simp: approval_route_def split: list.splits if_splits)
  have "path = ''/approvals/'' @ i @ (if a then ''/approve'' else ''/deny'')"
    using arg_cong [OF s, of "join_on (CHR ''/'')"] act by simp
  moreover have "CHR ''/'' \<notin> set i" using split_on_pieces [of i "CHR ''/''" path] s by simp
  ultimately show "path = ''/approvals/'' @ i @ (if a then ''/approve'' else ''/deny'') \<and> i \<noteq> [] \<and> CHR ''/'' \<notin> set i"
    using act by simp
next
  assume r: "path = ''/approvals/'' @ i @ (if a then ''/approve'' else ''/deny'') \<and> i \<noteq> [] \<and> CHR ''/'' \<notin> set i"
  have "path = [] @ CHR ''/'' # (''approvals'' @ CHR ''/'' # (i @ CHR ''/'' # (if a then ''approve'' else ''deny'')))"
    using r by simp
  moreover have "split_on (CHR ''/'') i = [i]" using r by (simp add: split_on_no_sep)
  ultimately have "split_on (CHR ''/'') path = [[], ''approvals'', i, if a then ''approve'' else ''deny'']"
    by (simp only: split_on_append_sep) simp
  then show "approval_route path = Some (i, a)" using r by (simp add: approval_route_def)
qed

lemma evaluate_breaker_only: "\<exists>b. snd (AgentGuard_evaluate x g clock req gs) = gs\<lparr>gs_breaker := b\<rparr>"
  by (auto simp: AgentGuard_evaluate_def Let_def split: prod.splits option.splits)

text \<open>A step that changes nothing but the breaker of the guard.\<close>

definition breaker_step :: "'s control \<Rightarrow> 's control \<Rightarrow> bool" where
  "breaker_step st st' \<longleftrightarrow> ct_hits st' = ct_hits st \<and> ct_queue st' = ct_queue st \<and>
     (\<exists>b. ct_guard st' = (ct_guard st)\<lparr>gs_breaker := b\<rparr>)"

lemma breaker_step_refl [simp]: "breaker_step st st"
  unfolding breaker_step_def by (metis guard_state.surjective guard_state.update_convs(4))

lemma breaker_step_handlers:
  "breaker_step st (snd (handle_evaluate x rd g clock raw st))"
  "breaker_step st (snd (handle_breaker g clock st))"
  "breaker_step st (snd (handle_reset g clock st))"
proof -
  show "breaker_step st (snd (handle_evaluate x rd g clock raw st))"
    using evaluate_breaker_only [of x g clock _ "ct_guard st"]
    by (auto simp: handle_evaluate_def Let_def split_beta breaker_step_refl split: option.splits field.splits)
       (simp add: breaker_step_def)
  show "breaker_step st (snd (handle_breaker g clock st))"
    by (auto simp: handle_breaker_def Let_def split_beta set_breaker_def breaker_step_def split: option.splits
        intro: breaker_step_refl [unfolded breaker_step_def, THEN conjunct2, THEN conjunct2])
  show "breaker_step st (snd (handle_reset g clock st))"
    by (auto simp: handle_reset_def AgentGuard_resetCircuitBreaker_def Let_def split_beta set_breaker_def breaker_step_def
        split: option.splits intro: breaker_step_refl [unfolded breaker_step_def, THEN conjunct2, THEN conjunct2])
qed

lemma handle_resolve_frame:
  "ct_hits (snd (handle_resolve i a st)) = ct_hits st" "ct_guard (snd (handle_resolve i a st)) = ct_guard st"
  "ct_queue (snd (handle_resolve i a st)) \<noteq> ct_queue st \<Longrightarrow>
     \<exists>q. ct_queue st = Some q \<and> ct_queue (snd (handle_resolve i a st)) = Some (snd (ApprovalQueue_resolve i a q)) \<and>
        fst (handle_resolve i a st) = Some (200, B_resolved True)"
  by (auto simp: handle_resolve_def ApprovalQueue_resolve_def Let_def split_beta split: option.splits)

definition breaker_routes :: "(string \<times> string) set" where
  "breaker_routes = {(''POST'', ''/evaluate''), (''GET'', ''/breaker''), (''POST'', ''/breaker/reset'')}"

lemma route_frame:
  assumes "handle_route x rd ops g clock meth path body st = (res, st')"
  shows "breaker_step st st' \<and> ((meth, path) \<in> breaker_routes \<or> st' = st) \<or>
     (\<exists>i a. meth = ''POST'' \<and> approval_route path = Some (i, a) \<and> handle_resolve i a st = (res, st'))"
proof -
  have "breaker_step st st'"
    if "(res, st') \<in> {handle_evaluate x rd g clock body st, handle_breaker g clock st, handle_reset g clock st}"
    using that breaker_step_handlers [of st] by (metis empty_iff insert_iff snd_conv)
  then show ?thesis
    using assms unfolding handle_route_def breaker_routes_def
    by (auto split: if_splits prod.splits)
qed

section \<open>Properties\<close>

text \<open>
  C16. Only an authorised request acts: a request that changes anything but the limiter's counters
  carries the token, when one is configured, and was admitted by the limiter; of the guard it changes
  the breaker at most, over one of three routes; and of the approval queue it changes the one payment
  named in an \<open>/approvals/<id>/approve\<close> or \<open>/deny\<close> path, as the queue's own \<open>resolve\<close> does.
\<close>

theorem control_plane_authority:
  assumes "handle x rd pathname ops g opts clock now req st = (res, st')"
    and "ct_guard st' \<noteq> ct_guard st \<or> ct_queue st' \<noteq> ct_queue st"
  shows "(\<forall>t. co_token opts = Some t \<longrightarrow> t \<noteq> [] \<longrightarrow> hr_authorization req = Some (''Bearer '' @ t)) \<and>
     fst (limit_request opts now req (ct_hits st)) \<and>
     (\<exists>path. request_path pathname req = Some path \<and>
        ((\<exists>b. ct_queue st' = ct_queue st \<and> ct_guard st' = (ct_guard st)\<lparr>gs_breaker := b\<rparr> \<and>
            (request_method req, path) \<in> breaker_routes) \<or>
         (\<exists>i a q. request_method req = ''POST'' \<and> i \<noteq> [] \<and> CHR ''/'' \<notin> set i \<and>
            path = ''/approvals/'' @ i @ (if a then ''/approve'' else ''/deny'') \<and> ct_queue st = Some q \<and>
            ct_guard st' = ct_guard st \<and> ct_queue st' = Some (snd (ApprovalQueue_resolve i a q)) \<and>
            res = Some (200, B_resolved True))))"
proof -
  obtain path hits where path: "request_path pathname req = Some path"
    and limit: "limit_request opts now req (ct_hits st) = (True, hits)"
    and token: "token_ok (co_token opts) (hr_authorization req)"
    and route: "handle_route x rd ops g clock (request_method req) path (hr_body req) (st\<lparr>ct_hits := hits\<rparr>) = (res, st')"
    using assms by (auto simp: handle_def split: option.splits prod.splits if_splits)
  have "\<forall>t. co_token opts = Some t \<longrightarrow> t \<noteq> [] \<longrightarrow> hr_authorization req = Some (''Bearer '' @ t)"
    using token by (auto simp: token_ok_def truthy_def)
  moreover consider
      (breaker) "breaker_step (st\<lparr>ct_hits := hits\<rparr>) st'" "(request_method req, path) \<in> breaker_routes"
    | (resolve) i a where "request_method req = ''POST''" "approval_route path = Some (i, a)"
        "handle_resolve i a (st\<lparr>ct_hits := hits\<rparr>) = (res, st')"
    using route_frame [OF route] assms(2) by auto
  then have "(\<exists>b. ct_queue st' = ct_queue st \<and> ct_guard st' = (ct_guard st)\<lparr>gs_breaker := b\<rparr> \<and>
            (request_method req, path) \<in> breaker_routes) \<or>
         (\<exists>i a q. request_method req = ''POST'' \<and> i \<noteq> [] \<and> CHR ''/'' \<notin> set i \<and>
            path = ''/approvals/'' @ i @ (if a then ''/approve'' else ''/deny'') \<and> ct_queue st = Some q \<and>
            ct_guard st' = ct_guard st \<and> ct_queue st' = Some (snd (ApprovalQueue_resolve i a q)) \<and>
            res = Some (200, B_resolved True))"
  proof cases
    case breaker
    then show ?thesis by (auto simp: breaker_step_def)
  next
    case resolve
    then obtain q where "ct_queue st = Some q" "ct_guard st' = ct_guard st"
      "ct_queue st' = Some (snd (ApprovalQueue_resolve i a q))" "res = Some (200, B_resolved True)"
      using handle_resolve_frame [of i a "st\<lparr>ct_hits := hits\<rparr>"] assms(2) by auto
    then show ?thesis using resolve(1) resolve(2) [unfolded approval_route_iff] by blast
  qed
  ultimately show ?thesis using path limit by simp
qed

text \<open>An operator with the token approves the one pending payment.\<close>

definition ex_control :: "sqlite control" where
  "ex_control = \<lparr>ct_guard = snd (snd (AgentGuard_new (fst ex_policy_config) (snd ex_policy_config) [])),
     ct_queue = Some (ApprovalQueue_enqueue ''7'' (e_request (ex_audited 5 True)) (e_decision (ex_audited 5 True)) None 0
       (new_queue None)), ct_hits = Map.empty\<rparr>"

definition ex_approve :: http_request where
  "ex_approve = \<lparr>hr_method = Some ''POST'', hr_url = Some ''/approvals/7/approve'', hr_remoteAddress = None,
     hr_authorization = Some ''Bearer s'', hr_body = []\<rparr>"

definition ex_control_options :: control_options where
  "ex_control_options = \<lparr>co_token = Some ''s'', co_rateLimit = RL_default\<rparr>"

definition ex_answer :: "answer option \<times> sqlite control" where
  "ex_answer = handle ex_externals (\<lambda>_. None) Some (sqlite_ops (\<lambda>n. ''?'')) ex_guard ex_control_options (\<lambda>_. 0) 0 ex_approve
     ex_control"

lemma ex_answer_eq:
  "fst ex_answer = Some (200, B_resolved True)"
  "ct_queue (snd ex_answer) = map_option (\<lambda>q. snd (ApprovalQueue_resolve ''7'' True q)) (ct_queue ex_control)"
proof -
  have "approval_route ''/approvals/7/approve'' = Some (''7'', True)"
    by code_simp
  then show "fst ex_answer = Some (200, B_resolved True)"
    "ct_queue (snd ex_answer) = map_option (\<lambda>q. snd (ApprovalQueue_resolve ''7'' True q)) (ct_queue ex_control)"
    by (simp_all add: ex_answer_def handle_def request_path_def request_method_def limit_request_def ex_approve_def
        ex_control_options_def RateLimiter_allow_def Let_def token_ok_def truthy_def handle_route_def handle_resolve_def
        ex_control_def ApprovalQueue_enqueue_def ApprovalQueue_resolve_def new_queue_def)
qed

theorem control_plane_authority_witness:
  "ct_queue (snd ex_answer) \<noteq> ct_queue ex_control \<and> fst (limit_request ex_control_options 0 ex_approve (ct_hits ex_control))"
proof -
  have changed: "ct_queue (snd ex_answer) \<noteq> ct_queue ex_control"
  proof -
    have "map_option aq_pending (ct_queue (snd ex_answer)) = Some []" "map_option aq_pending (ct_queue ex_control) \<noteq> Some []"
      by (simp_all add: ex_answer_eq ex_control_def ApprovalQueue_enqueue_def ApprovalQueue_resolve_def new_queue_def
          settle_promise_def)
    then show ?thesis by metis
  qed
  have "handle ex_externals (\<lambda>_. None) Some (sqlite_ops (\<lambda>n. ''?'')) ex_guard ex_control_options (\<lambda>_. 0) 0 ex_approve
     ex_control = (fst ex_answer, snd ex_answer)"
    by (simp add: ex_answer_def)
  from control_plane_authority [OF this] changed show ?thesis by simp
qed

section \<open>Bursts\<close>

text \<open>The answers of a limiter to the requests \<open>(key, time)\<close>, one after the other.\<close>

fun limiter_run :: "rate_limit_options \<Rightarrow> limiter \<Rightarrow> (string \<times> int) list \<Rightarrow> (string \<times> int \<times> bool) list" where
  "limiter_run opts hits [] = []"
| "limiter_run opts hits ((k, t) # rs) =
     (case RateLimiter_allow opts k t hits of (ok, hits') \<Rightarrow> (k, t, ok) # limiter_run opts hits' rs)"

definition admitted :: "string \<Rightarrow> int \<Rightarrow> int \<Rightarrow> (string \<times> int \<times> bool) list \<Rightarrow> int" where
  "admitted k a b rs = int (length (filter (\<lambda>(k', t, ok). k' = k \<and> ok \<and> a \<le> t \<and> t < b) rs))"

lemma admitted_simps [simp]:
  "admitted k a b [] = 0"
  "admitted k a b ((k', t, ok) # rs) = (if k' = k \<and> ok \<and> a \<le> t \<and> t < b then 1 else 0) + admitted k a b rs"
  by (simp_all add: admitted_def)

lemma admitted_late: "\<forall>r \<in> set rs. b \<le> snd r \<Longrightarrow> admitted k a b (limiter_run opts hits rs) = 0"
proof (induction rs arbitrary: hits)
  case (Cons r rs)
  then show ?case by (cases r) (auto split: prod.splits)
qed simp

text \<open>In the window of a counter no more is admitted than it has left.\<close>

lemma allow_cases:
  assumes "RateLimiter_allow opts k' t hits = (ok, hits')"
  obtains (other) "k' \<noteq> k" "hits' k = hits k"
  | (fresh) "k' = k" "ok" "hits' k = Some \<lparr>ht_count = 1, ht_resetAt = t + rl_windowMs opts\<rparr>"
      "\<And>h. hits k = Some h \<Longrightarrow> ht_resetAt h \<le> t"
  | (refused) h where "k' = k" "\<not> ok" "hits k = Some h" "hits' k = Some h" "t < ht_resetAt h" "ht_count h \<ge> rl_max opts"
  | (counted) h where "k' = k" "ok" "hits k = Some h" "hits' k = Some (h\<lparr>ht_count := ht_count h + 1\<rparr>)"
      "t < ht_resetAt h" "ht_count h < rl_max opts"
  using assms by (cases "k' = k") (auto simp: RateLimiter_allow_def Let_def split: option.splits if_splits)

lemma admitted_in_window:
  assumes "sorted (map snd rs)" "hits k = Some h" "b \<le> ht_resetAt h"
  shows "admitted k a b (limiter_run opts hits rs) \<le> max 0 (rl_max opts - ht_count h)"
  using assms
proof (induction rs arbitrary: hits h)
  case (Cons r rs)
  obtain k' t ok hits' where r: "r = (k', t)" and st: "RateLimiter_allow opts k' t hits = (ok, hits')"
    by (cases r, cases "RateLimiter_allow opts (fst r) (snd r) hits") simp
  from st show ?case
  proof (cases rule: allow_cases [where k = k])
    case other
    then show ?thesis using Cons.IH [of hits' h] Cons.prems by (simp add: r st)
  next
    case fresh
    then have "admitted k a b (limiter_run opts hits' rs) = 0"
      using Cons.prems by (intro admitted_late) (fastforce simp: r)
    then show ?thesis using fresh Cons.prems st by (fastforce simp: r)
  next
    case (refused h')
    then show ?thesis using Cons.IH [of hits' h] Cons.prems st by (simp add: r)
  next
    case (counted h')
    then show ?thesis using Cons.IH [of hits' "h\<lparr>ht_count := ht_count h + 1\<rparr>"] Cons.prems st by (simp add: r)
  qed
qed simp

definition room :: "rate_limit_options \<Rightarrow> rate_hit option \<Rightarrow> int" where
  "room opts h = (case h of None \<Rightarrow> 0 | Some h \<Rightarrow> max 0 (rl_max opts - ht_count h))"

text \<open>From the window's start on: what the running counter has left, and one full counter.\<close>

lemma admitted_from_start:
  assumes "sorted (map snd rs)" "\<forall>r \<in> set rs. a \<le> snd r"
  shows "admitted k a (a + rl_windowMs opts) (limiter_run opts hits rs) \<le> room opts (hits k) + max 1 (rl_max opts)"
  using assms
proof (induction rs arbitrary: hits)
  case (Cons r rs)
  obtain k' t ok hits' where r: "r = (k', t)" and st: "RateLimiter_allow opts k' t hits = (ok, hits')"
    by (cases r, cases "RateLimiter_allow opts (fst r) (snd r) hits") simp
  have ih: "admitted k a (a + rl_windowMs opts) (limiter_run opts hits' rs) \<le> room opts (hits' k) + max 1 (rl_max opts)"
    using Cons.IH [of hits'] Cons.prems by simp
  from st show ?case
  proof (cases rule: allow_cases [where k = k])
    case other
    then show ?thesis using ih by (simp add: r st)
  next
    case fresh
    have "admitted k a (a + rl_windowMs opts) (limiter_run opts hits' rs) \<le> max 0 (rl_max opts - 1)"
      using admitted_in_window [where hits = hits' and k = k, OF _ fresh(3), of rs "a + rl_windowMs opts" a opts] Cons.prems by (simp add: r)
    moreover have "0 \<le> room opts (hits k)" by (simp add: room_def split: option.splits)
    ultimately show ?thesis using fresh st by (auto simp: r)
  next
    case (refused h')
    then show ?thesis using ih st by (simp add: r)
  next
    case (counted h')
    then show ?thesis using ih st by (auto simp: r room_def)
  qed
qed (simp add: room_def split: option.splits)

lemma admitted_bound:
  assumes "sorted (map snd rs)" "\<And>h. hits k = Some h \<Longrightarrow> 1 \<le> ht_count h"
  shows "admitted k a (a + rl_windowMs opts) (limiter_run opts hits rs) \<le> 2 * max 1 (rl_max opts) - 1"
  using assms
proof (induction rs arbitrary: hits)
  case (Cons r rs)
  obtain k' t ok hits' where r: "r = (k', t)" and st: "RateLimiter_allow opts k' t hits = (ok, hits')"
    by (cases r, cases "RateLimiter_allow opts (fst r) (snd r) hits") simp
  show ?case
  proof (cases "a \<le> t")
    case True
    have "room opts (hits k) \<le> max 1 (rl_max opts) - 1" using Cons.prems(2) by (fastforce simp: room_def split: option.splits)
    moreover have "\<forall>q \<in> set (r # rs). a \<le> snd q" using True Cons.prems(1) by (fastforce simp: r)
    note admitted_from_start [OF Cons.prems(1) this, of k opts hits]
    ultimately show ?thesis by linarith
  next
    case False
    have "1 \<le> ht_count h" if "hits' k = Some h" for h
      using st that Cons.prems(2) by (cases rule: allow_cases [where k = k]) fastforce+
    then have "admitted k a (a + rl_windowMs opts) (limiter_run opts hits' rs) \<le> 2 * max 1 (rl_max opts) - 1"
      using Cons.prems(1) by (intro Cons.IH) simp_all
    then show ?thesis using False by (simp add: r st)
  qed
qed simp

text \<open>
  C38. Bursts are bounded: whatever requests arrive at the limiter of a fresh control plane, in the
  order of their times, no client is admitted more than \<open>2 * max - 1\<close> times in any interval as
  long as the window (\<open>max\<close> taken as at least 1: the first request of a window is always admitted).
\<close>

theorem burst_bounded:
  assumes "sorted (map snd rs)"
  shows "admitted k a (a + rl_windowMs opts) (limiter_run opts Map.empty rs) \<le> 2 * max 1 (rl_max opts) - 1"
  using admitted_bound [OF assms, of Map.empty] by simp

text \<open>The bound is reached, and a limit of 0 still admits one request a window.\<close>

theorem burst_bounded_witness:
  "admitted ''a'' 1 11 (limiter_run \<lparr>rl_windowMs = 10, rl_max = 2\<rparr> Map.empty [(''a'', 0), (''a'', 9), (''a'', 10), (''a'', 10)]) = 3 \<and>
   admitted ''a'' 1 11 (limiter_run \<lparr>rl_windowMs = 10, rl_max = 2\<rparr> Map.empty [(''a'', 0), (''a'', 9), (''a'', 10), (''a'', 10)]) \<le> 3"
proof -
  have "sorted (map snd [(''a'', 0), (''a'', 9), (''a'', 10), (''a'', 10 :: int)])" by simp
  from burst_bounded [OF this, of "''a''" 1 "\<lparr>rl_windowMs = 10, rl_max = 2\<rparr>"] show ?thesis
    by (simp add: RateLimiter_allow_def Let_def)
qed

lemma limit_zero_admits: "fst (RateLimiter_allow \<lparr>rl_windowMs = 60000, rl_max = 0\<rparr> k now Map.empty)"
  by (simp add: RateLimiter_allow_def Let_def)

end
