(* ===== verification/Layout.thy ===== *)
theory Layout
  imports Json
begin

text \<open>
  JSON texts with white space and other escapes: what \<open>JSON.stringify\<close> prints with an indentation and what Python's
  \<open>json.dumps\<close> prints. A layout is the white space after an opening and before a closing bracket, that after a
  comma, and the text of a character; a printed text is read back by the parser of \<open>Json\<close>.
\<close>

section \<open>Printing\<close>

definition quote_with :: "(char \<Rightarrow> string) \<Rightarrow> string \<Rightarrow> string" where
  "quote_with esc s = CHR 0x22 # concat (map esc s) @ [CHR 0x22]"

fun json_laid :: "(nat \<Rightarrow> string) \<Rightarrow> (nat \<Rightarrow> string) \<Rightarrow> (char \<Rightarrow> string) \<Rightarrow> nat \<Rightarrow> json \<Rightarrow> string" where
  "json_laid brk gap esc d (JArr vs) =
     (if vs = [] then ''[]''
      else CHR ''['' # brk (d + 2) @ join_with (CHR '','' # gap (d + 2)) (map (json_laid brk gap esc (d + 2)) vs) @ brk d @ '']'')"
| "json_laid brk gap esc d (JObj ms) =
     (if ms = [] then ''{}''
      else CHR ''{'' # brk (d + 2) @
        join_with (CHR '','' # gap (d + 2)) (map (\<lambda>(k, v). quote_with esc k @ '': '' @ json_laid brk gap esc (d + 2) v) ms) @
        brk d @ ''}'')"
| "json_laid brk gap esc d (JStr s) = quote_with esc s"
| "json_laid brk gap esc d v = json_text v"

definition json_space :: "string \<Rightarrow> bool" where
  "json_space s \<longleftrightarrow> list_all (\<lambda>c. (of_char c :: nat) \<in> {32, 9, 10, 13}) s"

section \<open>White space\<close>

lemma skip_ws_space: "json_space w \<Longrightarrow> skip_ws (w @ s) = skip_ws s"
  by (induction w) (auto simp: json_space_def Let_def)

lemma parse_value_space: "json_space w \<Longrightarrow> parse_value n (w @ s) = parse_value n s"
  by (cases n) (simp_all add: skip_ws_space)

lemma parse_elems_space: "json_space w \<Longrightarrow> parse_elems n (w @ s) = parse_elems n s"
  by (cases n) (simp_all add: parse_value_space)

lemma parse_members_space: "json_space w \<Longrightarrow> parse_members n (w @ s) = parse_members n s"
  by (cases n) (simp_all add: skip_ws_space)

lemma delimited_space: "json_space w \<Longrightarrow> delimited s \<Longrightarrow> delimited (w @ s)"
  by (cases w) (auto simp: json_space_def delimited_def number_char_def is_digit_def)

lemma parse_value_colon: "parse_value n (CHR '' '' # s) = parse_value n s"
  using parse_value_space [of "'' ''" n s] by (simp add: json_space_def)

section \<open>Layouts that are read back\<close>

locale json_layout =
  fixes brk gap :: "nat \<Rightarrow> string" and esc :: "char \<Rightarrow> string"
  assumes brk_space: "json_space (brk d)"
    and gap_space: "json_space (gap d)"
    and parse_esc: "parse_chars (Suc n) (esc c @ t) = map_option (apfst (Cons c)) (parse_chars n t)"
    and esc_nonempty: "esc c \<noteq> []"
begin

lemmas space_simps = skip_ws_space [OF brk_space] parse_elems_space [OF gap_space] parse_members_space [OF gap_space]
  parse_elems_space [OF brk_space] parse_members_space [OF brk_space] delimited_space [OF brk_space]

lemma parse_quoted:
  "length s < n \<Longrightarrow> parse_chars n (concat (map esc s) @ CHR 0x22 # rest) = Some (s, rest)"
proof (induction s arbitrary: n)
  case Nil
  then show ?case by (cases n) simp_all
next
  case (Cons c s)
  then obtain m where "n = Suc m" "length s < m" by (cases n) auto
  then show ?case using Cons.IH [of m] by (simp add: parse_esc)
qed

lemma length_quoted: "length s \<le> length (concat (map esc s))"
proof (induction s)
  case (Cons c s)
  then show ?case using esc_nonempty [of c] by (cases "esc c") auto
qed simp

fun laid_elems :: "nat \<Rightarrow> nat \<Rightarrow> json list \<Rightarrow> string \<Rightarrow> string" where
  "laid_elems d e [] rest = brk e @ CHR '']'' # rest"
| "laid_elems d e [v] rest = json_laid brk gap esc d v @ brk e @ CHR '']'' # rest"
| "laid_elems d e (v # w # vs) rest = json_laid brk gap esc d v @ CHR '','' # gap d @ laid_elems d e (w # vs) rest"

lemma laid_elems:
  "join_with (CHR '','' # gap d) (map (json_laid brk gap esc d) vs) @ brk e @ CHR '']'' # rest = laid_elems d e vs rest"
  by (induction d e vs rest rule: laid_elems.induct) auto

fun laid_members :: "nat \<Rightarrow> nat \<Rightarrow> (string \<times> json) list \<Rightarrow> string \<Rightarrow> string" where
  "laid_members d e [] rest = brk e @ CHR ''}'' # rest"
| "laid_members d e [(k, v)] rest = quote_with esc k @ '': '' @ json_laid brk gap esc d v @ brk e @ CHR ''}'' # rest"
| "laid_members d e ((k, v) # m # ms) rest =
     quote_with esc k @ '': '' @ json_laid brk gap esc d v @ CHR '','' # gap d @ laid_members d e (m # ms) rest"

lemma laid_members:
  "join_with (CHR '','' # gap d) (map (\<lambda>(k, v). quote_with esc k @ '': '' @ json_laid brk gap esc d v) ms) @ brk e @ CHR ''}'' # rest =
   laid_members d e ms rest"
  by (induction d e ms rest rule: laid_members.induct) auto

definition laid_back :: "json \<Rightarrow> bool" where
  "laid_back v \<longleftrightarrow> (\<forall>d n rest. delimited rest \<longrightarrow> 2 * length (json_laid brk gap esc d v @ rest) < n \<longrightarrow>
     parse_value n (json_laid brk gap esc d v @ rest) = Some (v, rest))"

lemma laid_backD:
  "laid_back v \<Longrightarrow> delimited rest \<Longrightarrow> 2 * length (json_laid brk gap esc d v @ rest) < n \<Longrightarrow>
     parse_value n (json_laid brk gap esc d v @ rest) = Some (v, rest)"
  by (simp add: laid_back_def)

lemma parse_laid_elems:
  assumes "\<forall>v \<in> set vs. laid_back v" "vs \<noteq> []" "2 * length (laid_elems d e vs rest) + 1 < n"
  shows "parse_elems n (laid_elems d e vs rest) = Some (vs, rest)"
  using assms
proof (induction d e vs rest arbitrary: n rule: laid_elems.induct)
  case (2 d e v rest)
  then obtain m where n: "n = Suc m" by (cases n) auto
  then have "parse_value m (json_laid brk gap esc d v @ brk e @ CHR '']'' # rest) = Some (v, brk e @ CHR '']'' # rest)"
    using 2 by (intro laid_backD) (auto simp: space_simps)
  then show ?case by (simp add: n space_simps)
next
  case (3 d e v w vs rest)
  then obtain m where n: "n = Suc m" by (cases n) auto
  let ?r = "gap d @ laid_elems d e (w # vs) rest"
  have "parse_value m (json_laid brk gap esc d v @ CHR '','' # ?r) = Some (v, CHR '','' # ?r)"
    using 3 n by (intro laid_backD) simp_all
  moreover have "parse_elems m (laid_elems d e (w # vs) rest) = Some (w # vs, rest)"
    using 3 n by (intro "3.IH") simp_all
  ultimately show ?case by (simp add: n space_simps)
qed simp

lemma parse_laid_member:
  assumes "laid_back v" "delimited (w @ c # rest)" "skip_ws (w @ c # rest) = c # rest" "c = CHR '','' \<or> c = CHR ''}''"
    "2 * length (quote_with esc k @ '': '' @ json_laid brk gap esc d v @ w @ c # rest) < Suc m"
  shows "parse_members (Suc m) (quote_with esc k @ '': '' @ json_laid brk gap esc d v @ w @ c # rest) =
     (if c = CHR ''}'' then Some ([(k, v)], rest)
      else map_option (apfst (Cons (k, v))) (parse_members m rest))"
proof -
  have "parse_value m (json_laid brk gap esc d v @ w @ c # rest) = Some (v, w @ c # rest)"
    using assms by (intro laid_backD) (simp_all add: quote_with_def)
  moreover have "parse_chars (Suc m) (concat (map esc k) @ CHR 0x22 # '': '' @ json_laid brk gap esc d v @ w @ c # rest)
      = Some (k, '': '' @ json_laid brk gap esc d v @ w @ c # rest)"
    using assms(5) length_quoted [of k] by (intro parse_quoted) (simp add: quote_with_def)
  ultimately show ?thesis
    using assms(3,4) by (auto simp: quote_with_def parse_value_colon)
qed

lemma parse_laid_members:
  assumes "\<forall>(k, v) \<in> set ms. laid_back v" "ms \<noteq> []" "2 * length (laid_members d e ms rest) < n"
  shows "parse_members n (laid_members d e ms rest) = Some (ms, rest)"
  using assms
proof (induction d e ms rest arbitrary: n rule: laid_members.induct)
  case (2 d e k v rest)
  then obtain m where n: "n = Suc m" by (cases n) auto
  then show ?case
    using 2 parse_laid_member [of v "brk e" "CHR ''}''" rest k d m] by (simp add: space_simps)
next
  case (3 d e k v x ms rest)
  then obtain m where n: "n = Suc m" by (cases n) auto
  have "parse_members m (laid_members d e (x # ms) rest) = Some (x # ms, rest)"
    using 3 n by (intro "3.IH") simp_all
  then show ?case
    using 3 n parse_laid_member [of v "[]" "CHR '',''" "gap d @ laid_members d e (x # ms) rest" k d m] by (simp add: space_simps)
qed simp

lemma laid_head:
  assumes "json_ok v"
  obtains c cs where "json_laid brk gap esc d v = c # cs" "c \<noteq> CHR '']''" "\<And>r. skip_ws (c # r) = c # r"
proof -
  obtain c cs where "json_text v = c # cs" "c \<noteq> CHR '']''" "\<And>r. skip_ws (c # r) = c # r"
    using json_text_head [OF assms] by blast
  then have "\<exists>c cs. json_laid brk gap esc d v = c # cs \<and> c \<noteq> CHR '']'' \<and> (\<forall>r. skip_ws (c # r) = c # r)"
    by (cases v) (auto simp: quote_with_def)
  then show thesis using that by blast
qed

lemma laid_append:
  "json_laid brk gap esc d (JArr vs) @ rest = (if vs = [] then ''[]'' @ rest else CHR ''['' # brk (d + 2) @ laid_elems (d + 2) d vs rest)"
  "json_laid brk gap esc d (JObj ms) @ rest = (if ms = [] then ''{}'' @ rest else CHR ''{'' # brk (d + 2) @ laid_members (d + 2) d ms rest)"
  by (simp_all add: laid_elems [symmetric] laid_members [symmetric])

lemma laid_atom:
  assumes "json_ok v" "\<And>d. json_laid brk gap esc d v = json_text v"
  shows "laid_back v"
  using json_reads_back [OF assms(1)] by (simp add: laid_back_def reads_back_def assms(2))

lemma laid_reads: "json_ok v \<Longrightarrow> laid_back v"
proof (induction v)
  case (JStr s)
  have "parse_value n (quote_with esc s @ rest) = Some (JStr s, rest)" if "2 * length (quote_with esc s @ rest) < n" for n rest
    using that length_quoted [of s] parse_quoted [of s n rest] by (cases n) (simp_all add: quote_with_def)
  then show ?case by (simp add: laid_back_def)
next
  case (JArr vs)
  have all: "\<forall>v \<in> set vs. laid_back v" "\<forall>v \<in> set vs. json_ok v" using JArr by (auto simp: list_all_iff)
  have "parse_value n (json_laid brk gap esc d (JArr vs) @ rest) = Some (JArr vs, rest)"
    if len: "2 * length (json_laid brk gap esc d (JArr vs) @ rest) < n" for d n rest
  proof (cases vs)
    case Nil
    then show ?thesis using len by (cases n) simp_all
  next
    case (Cons v ws)
    obtain m where n: "n = Suc m" using len by (cases n) simp_all
    have "parse_elems m (laid_elems (d + 2) d vs rest) = Some (vs, rest)"
      using all(1) len unfolding laid_append by (intro parse_laid_elems) (simp_all add: n Cons)
    moreover obtain c cs where c: "json_laid brk gap esc (d + 2) v = c # cs" "c \<noteq> CHR '']''" "\<And>r. skip_ws (c # r) = c # r"
      using laid_head [of v] all(2) Cons by auto
    moreover have "\<exists>r. laid_elems (d + 2) d vs rest = c # r"
      using c(1) by (cases ws) (simp_all add: Cons)
    ultimately show ?thesis unfolding laid_append by (auto simp: n Cons space_simps)
  qed
  then show ?case by (simp add: laid_back_def del: json_laid.simps)
next
  case (JObj ms)
  have all: "\<forall>(k, v) \<in> set ms. laid_back v" and d: "distinct (map fst ms)"
    using JObj by (fastforce simp: list_all_iff snds.simps)+
  have "parse_value n (json_laid brk gap esc d (JObj ms) @ rest) = Some (JObj ms, rest)"
    if len: "2 * length (json_laid brk gap esc d (JObj ms) @ rest) < n" for d n rest
  proof (cases ms)
    case Nil
    then show ?thesis using len by (cases n) simp_all
  next
    case (Cons e es)
    obtain m where n: "n = Suc m" using len by (cases n) simp_all
    have "parse_members m (laid_members (d + 2) d ms rest) = Some (ms, rest)"
      using all len unfolding laid_append by (intro parse_laid_members) (simp_all add: n Cons)
    moreover have "\<exists>r. laid_members (d + 2) d ms rest = CHR 0x22 # r"
      using Cons by (cases e; cases es) (simp_all add: quote_with_def)
    ultimately show ?thesis using d unfolding laid_append by (auto simp: n Cons obj_of_distinct space_simps)
  qed
  then show ?case by (simp add: laid_back_def del: json_laid.simps)
qed (auto intro: laid_atom)

lemma parse_laid: "json_ok v \<Longrightarrow> json_parse (json_laid brk gap esc d v) = Some v"
  using laid_reads [of v, THEN laid_backD, of "[]" d "2 * length (json_laid brk gap esc d v) + 1"]
  by (simp add: json_parse_def)

end

section \<open>JSON.stringify with an indentation of two\<close>

definition nl :: "nat \<Rightarrow> string" where
  "nl d = CHR 0x0A # replicate d (CHR '' '')"

definition json_pretty :: "nat \<Rightarrow> json \<Rightarrow> string" where
  "json_pretty d v = json_laid nl nl escape_char d v"

interpretation pretty: json_layout nl nl escape_char
  by unfold_locales (simp_all add: json_space_def nl_def list_all_iff parse_chars_escape escape_char_nonempty)

lemma json_parse_pretty: "json_ok v \<Longrightarrow> json_parse (json_pretty d v) = Some v"
  unfolding json_pretty_def by (rule pretty.parse_laid)

section \<open>json.dumps\<close>

text \<open>Python escapes every character outside the printable ones of ASCII; characters are code points below 256.\<close>

definition python_escape :: "char \<Rightarrow> string" where
  "python_escape c =
     (let n = (of_char c :: nat)
      in if n \<ge> 127 then [CHR 0x5C, CHR ''u'', CHR ''0'', CHR ''0'', hex_digit (n div 16), hex_digit (n mod 16)]
         else escape_char c)"

definition json_dumps :: "json \<Rightarrow> string" where
  "json_dumps v = json_laid (\<lambda>d. []) (\<lambda>d. '' '') python_escape 0 v"

lemma hex4_byte: "n < 256 \<Longrightarrow> hex4 (CHR ''0'') (CHR ''0'') (hex_digit (n div 16)) (hex_digit (n mod 16)) = Some n"
  by (simp add: hex4_def hex_value_digit) (simp add: hex_value_def)

interpretation python: json_layout "\<lambda>d. []" "\<lambda>d. '' ''" python_escape
proof unfold_locales
  fix n c t
  show "parse_chars (Suc n) (python_escape c @ t) = map_option (apfst (Cons c)) (parse_chars n t)"
  proof (cases "(of_char c :: nat) \<ge> 127")
    case True
    then show ?thesis using of_char_nat_bound [of c]
      by (simp add: python_escape_def Let_def hex4_byte)
  qed (simp add: python_escape_def parse_chars_escape)
qed (simp_all add: json_space_def python_escape_def Let_def escape_char_nonempty)

lemma json_parse_dumps: "json_ok v \<Longrightarrow> json_parse (json_dumps v) = Some v"
  unfolding json_dumps_def by (rule python.parse_laid)

end
