(* ===== verification/Serde.thy ===== *)
theory Serde
  imports Store Layout
begin

text \<open>
  Policies as JSON (\<open>packages/core/src/policy/serde.ts\<close>): \<open>JSON.stringify\<close> with two spaces of
  indentation and a replacer that tags bigints, and \<open>JSON.parse\<close> with the reviver that reads the
  tags. JavaScript values are JSON values and bigints. Number literals are printed by \<open>num\<close> and
  read by \<open>rd\<close>. The code's cast of the parsed value to \<open>Policy\<close> is \<open>policy_of_value\<close>, \<open>None\<close>
  where the value does not have the asserted type.
\<close>

section \<open>Values with bigints\<close>

datatype jsvalue =
    VNull
  | VBool bool
  | VNum string
  | VBig int
  | VStr string
  | VArr "jsvalue list"
  | VObj "(string \<times> jsvalue) list"

text \<open>The replacer, applied to every value, and the text.\<close>

fun tag_bigints :: "jsvalue \<Rightarrow> json" where
  "tag_bigints VNull = JNull"
| "tag_bigints (VBool b) = JBool b"
| "tag_bigints (VNum l) = JNum l"
| "tag_bigints (VBig n) = JObj [(''__bigint'', JStr (bigint_to_string n))]"
| "tag_bigints (VStr s) = JStr s"
| "tag_bigints (VArr vs) = JArr (map tag_bigints vs)"
| "tag_bigints (VObj ms) = JObj (map (\<lambda>(k, v). (k, tag_bigints v)) ms)"

definition isBigIntTag :: "(string \<times> jsvalue) list \<Rightarrow> bool" where
  "isBigIntTag ms \<longleftrightarrow> map_of ms ''__bigint'' \<noteq> None"

text \<open>\<open>BigInt(v)\<close>; an array, which is read as its joined text, is not modelled and refused.\<close>

definition bigint_of_value :: "(string \<Rightarrow> real) \<Rightarrow> jsvalue \<Rightarrow> int option" where
  "bigint_of_value rd v =
     (case v of
        VStr s \<Rightarrow> bigint_of_string s
      | VBig n \<Rightarrow> Some n
      | VBool b \<Rightarrow> Some (if b then 1 else 0)
      | VNum l \<Rightarrow> if rd l = of_int \<lfloor>rd l\<rfloor> then Some \<lfloor>rd l\<rfloor> else None
      | _ \<Rightarrow> None)"

text \<open>The reviver, which \<open>JSON.parse\<close> applies to the members before the object; \<open>None\<close> if it throws.\<close>

fun revive :: "(string \<Rightarrow> real) \<Rightarrow> json \<Rightarrow> jsvalue option" where
  "revive rd JNull = Some VNull"
| "revive rd (JBool b) = Some (VBool b)"
| "revive rd (JNum l) = Some (VNum l)"
| "revive rd (JStr s) = Some (VStr s)"
| "revive rd (JArr vs) = map_option VArr (all_some (map (revive rd) vs))"
| "revive rd (JObj ms) =
     (case all_some (map (\<lambda>(k, v). map_option (Pair k) (revive rd v)) ms) of
        None \<Rightarrow> None
      | Some vs \<Rightarrow>
          if isBigIntTag vs then map_option VBig (bigint_of_value rd (the (map_of vs ''__bigint'')))
          else Some (VObj vs))"

section \<open>Policies\<close>

fun window_value :: "spend_window \<Rightarrow> string" where
  "window_value Transaction = ''transaction''"
| "window_value Session = ''session''"
| "window_value Hour = ''hour''"
| "window_value Day = ''day''"

fun action_value :: "rule_action \<Rightarrow> string" where
  "action_value RBlock = ''block''"
| "action_value REscalate = ''escalate''"
| "action_value RWarn = ''warn''"

fun mode_value :: "allowlist_mode \<Rightarrow> string" where
  "mode_value Recipients = ''recipients''"
| "mode_value Resources = ''resources''"

fun anomaly_value :: "anomaly_action \<Rightarrow> string" where
  "anomaly_value ABlock = ''block''"
| "anomaly_value AEscalate = ''escalate''"

fun rule_value :: "policy_rule \<Rightarrow> jsvalue" where
  "rule_value (SpendCap r) =
     VObj ([(''type'', VStr ''spend-cap''), (''window'', VStr (window_value (sc_window r))),
            (''maxAmount'', VBig (sc_maxAmount r))] @
           (case sc_escalateAbove r of None \<Rightarrow> [] | Some n \<Rightarrow> [(''escalateAbove'', VBig n)]) @
           [(''token'', VStr (sc_token r))])"
| "rule_value (Allowlist r) =
     VObj [(''type'', VStr ''allowlist''), (''mode'', VStr (mode_value (al_mode r))),
           (''entries'', VArr (map VStr (al_entries r))), (''enforce'', VBool (al_enforce r))]"
| "rule_value (RateLimit r) =
     VObj [(''type'', VStr ''rate-limit''), (''maxPayments'', VNum (bigint_to_string (rl_maxPayments r))),
           (''windowSeconds'', VNum (bigint_to_string (rl_windowSeconds r)))]"
| "rule_value (Counterparty r) =
     VObj [(''type'', VStr ''counterparty''), (''flagNewRecipients'', VBool (cp_flagNewRecipients r)),
           (''action'', VStr (action_value (cp_action r)))]"
| "rule_value (TimeWindow r) =
     VObj [(''type'', VStr ''time-window''),
           (''allowedHours'', VArr [VNum (bigint_to_string (fst (tw_allowedHours r))),
              VNum (bigint_to_string (snd (tw_allowedHours r)))]),
           (''action'', VStr (action_value (tw_action r)))]"

definition policy_value :: "(real \<Rightarrow> string) \<Rightarrow> policy \<Rightarrow> jsvalue" where
  "policy_value num p =
     VObj ([(''agentId'', VStr (p_agentId p)), (''rules'', VArr (map rule_value (p_rules p))),
            (''anomalyThreshold'', VNum (num (p_anomalyThreshold p))),
            (''anomalyAction'', VStr (anomaly_value (p_anomalyAction p)))] @
           (case p_sourceText p of None \<Rightarrow> [] | Some t \<Rightarrow> [(''sourceText'', VStr t)]))"

definition policyToJSON :: "(real \<Rightarrow> string) \<Rightarrow> policy \<Rightarrow> string" where
  "policyToJSON num p = json_pretty 0 (tag_bigints (policy_value num p))"

definition policyFromJSON :: "(string \<Rightarrow> real) \<Rightarrow> string \<Rightarrow> jsvalue option" where
  "policyFromJSON rd s = Option.bind (json_parse s) (revive rd)"

text \<open>The members of a value, and the type that the cast to \<open>Policy\<close> asserts.\<close>

definition member :: "jsvalue \<Rightarrow> string \<Rightarrow> jsvalue option" where
  "member v k = (case v of VObj ms \<Rightarrow> map_of ms k | _ \<Rightarrow> None)"

definition str_member :: "jsvalue \<Rightarrow> string \<Rightarrow> string option" where
  "str_member v k = (case member v k of Some (VStr s) \<Rightarrow> Some s | _ \<Rightarrow> None)"

definition bool_member :: "jsvalue \<Rightarrow> string \<Rightarrow> bool option" where
  "bool_member v k = (case member v k of Some (VBool b) \<Rightarrow> Some b | _ \<Rightarrow> None)"

definition big_member :: "jsvalue \<Rightarrow> string \<Rightarrow> int option" where
  "big_member v k = (case member v k of Some (VBig n) \<Rightarrow> Some n | _ \<Rightarrow> None)"

definition int_value :: "jsvalue \<Rightarrow> int option" where
  "int_value v = (case v of VNum l \<Rightarrow> bigint_of_string l | _ \<Rightarrow> None)"

definition str_value :: "jsvalue \<Rightarrow> string option" where
  "str_value v = (case v of VStr s \<Rightarrow> Some s | _ \<Rightarrow> None)"

definition int_member :: "jsvalue \<Rightarrow> string \<Rightarrow> int option" where
  "int_member v k = Option.bind (member v k) int_value"

definition window_of :: "string \<Rightarrow> spend_window option" where
  "window_of s = map_of [(''transaction'', Transaction), (''session'', Session), (''hour'', Hour), (''day'', Day)] s"

definition action_of :: "string \<Rightarrow> rule_action option" where
  "action_of s = map_of [(''block'', RBlock), (''escalate'', REscalate), (''warn'', RWarn)] s"

definition mode_of :: "string \<Rightarrow> allowlist_mode option" where
  "mode_of s = map_of [(''recipients'', Recipients), (''resources'', Resources)] s"

definition anomaly_of :: "string \<Rightarrow> anomaly_action option" where
  "anomaly_of s = map_of [(''block'', ABlock), (''escalate'', AEscalate)] s"

definition hours_of :: "jsvalue option \<Rightarrow> (int \<times> int) option" where
  "hours_of v = (case v of Some (VArr [a, b]) \<Rightarrow>
       (case (int_value a, int_value b) of (Some x, Some y) \<Rightarrow> Some (x, y) | _ \<Rightarrow> None) | _ \<Rightarrow> None)"

definition rule_of_value :: "jsvalue \<Rightarrow> policy_rule option" where
  "rule_of_value v =
     (case str_member v ''type'' of
        None \<Rightarrow> None
      | Some ty \<Rightarrow>
          if ty = ''spend-cap'' then
            (case (Option.bind (str_member v ''window'') window_of, big_member v ''maxAmount'', str_member v ''token'') of
               (Some w, Some m, Some t) \<Rightarrow>
                 Some (SpendCap \<lparr>sc_window = w, sc_maxAmount = m, sc_token = t, sc_escalateAbove = big_member v ''escalateAbove''\<rparr>)
             | _ \<Rightarrow> None)
          else if ty = ''allowlist'' then
            (case (Option.bind (str_member v ''mode'') mode_of, member v ''entries'', bool_member v ''enforce'') of
               (Some m, Some (VArr es), Some b) \<Rightarrow>
                 map_option (\<lambda>es. Allowlist \<lparr>al_mode = m, al_entries = es, al_enforce = b\<rparr>) (all_some (map str_value es))
             | _ \<Rightarrow> None)
          else if ty = ''rate-limit'' then
            (case (int_member v ''maxPayments'', int_member v ''windowSeconds'') of
               (Some m, Some w) \<Rightarrow> Some (RateLimit \<lparr>rl_maxPayments = m, rl_windowSeconds = w\<rparr>)
             | _ \<Rightarrow> None)
          else if ty = ''counterparty'' then
            (case (bool_member v ''flagNewRecipients'', Option.bind (str_member v ''action'') action_of) of
               (Some b, Some a) \<Rightarrow> Some (Counterparty \<lparr>cp_flagNewRecipients = b, cp_action = a\<rparr>)
             | _ \<Rightarrow> None)
          else if ty = ''time-window'' then
            (case (hours_of (member v ''allowedHours''), Option.bind (str_member v ''action'') action_of) of
               (Some hs, Some a) \<Rightarrow> Some (TimeWindow \<lparr>tw_allowedHours = hs, tw_action = a\<rparr>)
             | _ \<Rightarrow> None)
          else None)"

definition policy_of_value :: "(string \<Rightarrow> real) \<Rightarrow> jsvalue \<Rightarrow> policy option" where
  "policy_of_value rd v =
     (case (str_member v ''agentId'', member v ''rules'', member v ''anomalyThreshold'',
            Option.bind (str_member v ''anomalyAction'') anomaly_of) of
        (Some a, Some (VArr rs), Some (VNum l), Some act) \<Rightarrow>
          map_option (\<lambda>rules. \<lparr>p_agentId = a, p_rules = rules, p_anomalyThreshold = rd l, p_anomalyAction = act,
              p_sourceText = str_member v ''sourceText''\<rparr>)
            (all_some (map rule_of_value rs))
      | _ \<Rightarrow> None)"

section \<open>The round trip\<close>

text \<open>Values whose objects neither repeat a key nor look like a tag.\<close>

fun value_ok :: "jsvalue \<Rightarrow> bool" where
  "value_ok (VNum l) = number_ok l"
| "value_ok (VArr vs) = list_all value_ok vs"
| "value_ok (VObj ms) = (distinct (map fst ms) \<and> ''__bigint'' \<notin> fst ` set ms \<and> list_all (\<lambda>(k, v). value_ok v) ms)"
| "value_ok v = True"

lemma all_some_pointwise: "(\<And>x. x \<in> set xs \<Longrightarrow> f x = Some (g x)) \<Longrightarrow> all_some (map f xs) = Some (map g xs)"
  by (induction xs) auto

lemma tag_ok: "value_ok v \<Longrightarrow> json_ok (tag_bigints v)"
proof (induction v)
  case (VObj ms)
  have "fst \<circ> (\<lambda>(k :: string, v). (k, tag_bigints v)) = fst" by auto
  moreover have "json_ok (tag_bigints v)" if "(k, v) \<in> set ms" for k v
    using VObj that by (fastforce simp: list_all_iff snds.simps)
  ultimately show ?case using VObj.prems by (auto simp: list_all_iff)
qed (auto simp: list_all_iff)

lemma revive_tag: "value_ok v \<Longrightarrow> revive rd (tag_bigints v) = Some v"
proof (induction v)
  case (VBig n)
  show ?case by (simp add: isBigIntTag_def bigint_of_value_def bigint_of_string_to_string)
next
  case (VArr vs)
  then have "all_some (map (\<lambda>v. revive rd (tag_bigints v)) vs) = Some (map (\<lambda>v. v) vs)"
    by (intro all_some_pointwise) (auto simp: list_all_iff)
  then show ?case by (simp add: comp_def)
next
  case (VObj ms)
  have "all_some (map (\<lambda>(k, v). map_option (Pair k) (revive rd (tag_bigints v))) ms) = Some (map (\<lambda>m. m) ms)"
    using VObj by (intro all_some_pointwise) (fastforce simp: list_all_iff snds.simps)
  moreover have "\<not> isBigIntTag ms" using VObj.prems by (simp add: isBigIntTag_def map_of_eq_None_iff)
  moreover have "(\<lambda>(k, v). map_option (Pair k) (revive rd v)) \<circ> (\<lambda>(k :: string, v). (k, tag_bigints v)) =
      (\<lambda>(k, v). map_option (Pair k) (revive rd (tag_bigints v)))"
    by auto
  ultimately show ?case by simp
qed simp_all

lemma rule_value_ok: "value_ok (rule_value r)"
  by (cases r rule: rule_value.cases) (auto simp: number_ok_bigint list_all_iff split: option.splits)

lemma policy_value_ok: "number_ok (num (p_anomalyThreshold p)) \<Longrightarrow> value_ok (policy_value num p)"
  by (auto simp: policy_value_def rule_value_ok list_all_iff split: option.splits)

lemma word_roundtrips [simp]:
  "window_of (window_value w) = Some w" "action_of (action_value a) = Some a" "mode_of (mode_value m) = Some m"
  "anomaly_of (anomaly_value x) = Some x"
proof -
  show "window_of (window_value w) = Some w" by (cases w) (simp_all add: window_of_def)
  show "action_of (action_value a) = Some a" by (cases a) (simp_all add: action_of_def)
  show "mode_of (mode_value m) = Some m" by (cases m) (simp_all add: mode_of_def)
  show "anomaly_of (anomaly_value x) = Some x" by (cases x) (simp_all add: anomaly_of_def)
qed

lemmas member_defs = str_member_def bool_member_def big_member_def int_member_def member_def int_value_def str_value_def
  bigint_of_string_to_string

lemma rule_of_rule_value: "rule_of_value (rule_value r) = Some r"
proof (cases r)
  case (Allowlist a)
  have "all_some (map str_value (map VStr (al_entries a))) = Some (al_entries a)"
    using all_some_pointwise [of "al_entries a" "\<lambda>s. str_value (VStr s)" "\<lambda>s. s"] by (simp add: comp_def str_value_def)
  then show ?thesis by (simp add: Allowlist rule_of_value_def member_defs)
qed (auto simp: rule_of_value_def member_defs hours_of_def split: option.splits)

lemma policy_of_policy_value: "rd (num (p_anomalyThreshold p)) = p_anomalyThreshold p \<Longrightarrow> policy_of_value rd (policy_value num p) = Some p"
  using all_some_pointwise [of "p_rules p" "\<lambda>r. rule_of_value (rule_value r)" "\<lambda>r. r"]
  by (auto simp: policy_of_value_def policy_value_def member_defs comp_def rule_of_rule_value split: option.splits)

lemma policy_value_read:
  assumes "number_ok (num (p_anomalyThreshold p))"
  shows "policyFromJSON rd (policyToJSON num p) = Some (policy_value num p)"
proof -
  have ok: "value_ok (policy_value num p)" by (rule policy_value_ok [of num p, OF assms])
  show ?thesis
    by (simp add: policyFromJSON_def policyToJSON_def json_parse_pretty [OF tag_ok [OF ok]] revive_tag [OF ok])
qed

lemma policy_reads_back:
  "number_ok (num (p_anomalyThreshold p)) \<and> rd (num (p_anomalyThreshold p)) = p_anomalyThreshold p \<Longrightarrow>
     Option.bind (policyFromJSON rd (policyToJSON num p)) (policy_of_value rd) = Some p"
  by (simp add: policy_value_read policy_of_policy_value)

text \<open>
  C30. A policy survives serialisation: reading back what \<open>policyToJSON\<close> writes gives the policy's own
  value, every bigint restored and no other object taken for a tag, and the cast to \<open>Policy\<close> holds
  and yields the policy. The hypotheses: the threshold is printed as a number and read back as itself.
\<close>

theorem policy_json_roundtrip:
  assumes "number_ok (num (p_anomalyThreshold p))" "rd (num (p_anomalyThreshold p)) = p_anomalyThreshold p"
  shows "policyFromJSON rd (policyToJSON num p) = Some (policy_value num p) \<and>
     policy_of_value rd (policy_value num p) = Some p"
  using assms by (simp add: policy_value_read policy_of_policy_value)

definition ex_capped :: policy where
  "ex_capped = \<lparr>p_agentId = ''a'', p_rules = [SpendCap \<lparr>sc_window = Day, sc_maxAmount = 10 ^ 20, sc_token = ''t'', sc_escalateAbove = Some 5\<rparr>,
      TimeWindow \<lparr>tw_allowedHours = (9, 17), tw_action = RWarn\<rparr>], p_anomalyThreshold = 1, p_anomalyAction = ABlock,
      p_sourceText = None\<rparr>"

theorem policy_json_roundtrip_witness:
  "Option.bind (policyFromJSON (\<lambda>l. 1) (policyToJSON (\<lambda>x. ''1'') ex_capped)) (policy_of_value (\<lambda>l. 1)) = Some ex_capped"
proof -
  have "number_ok ''1''" by code_simp
  then show ?thesis
    using policy_json_roundtrip [of "\<lambda>x. ''1''" ex_capped "\<lambda>l. 1"] by (simp add: ex_capped_def)
qed

end
