(* ===== verification/Compiler.thy ===== *)
theory Compiler
  imports Intent Evaluator Constants
begin

text \<open>
  The policy compiler (\<open>packages/core/src/policy/compiler.ts\<close>), the schemas of its input
  (\<open>policy/schema.ts\<close>) and \<open>usdToTokenUnits\<close> (\<open>constants.ts\<close>). The schemas are functions from
  JSON to typed inputs, \<open>None\<close> where zod rejects. \<open>coerce\<close> is \<open>Number(v)\<close>, \<open>None\<close> for the values
  that are not finite, which zod rejects as well. A number is the real that its decimal text
  denotes. The model's answer comes from \<open>callLLM\<close>.
\<close>

section \<open>Amounts\<close>

text \<open>Six decimals, half away from zero, as \<open>toLocaleString\<close> rounds; \<open>parseUnits\<close> then is exact.\<close>

definition usd_units :: "real \<Rightarrow> int" where
  "usd_units x = (if x \<ge> 0 then \<lfloor>x * 1000000 + 1 / 2\<rfloor> else - \<lfloor>- x * 1000000 + 1 / 2\<rfloor>)"

definition usdToTokenUnits :: "(json \<Rightarrow> real option) \<Rightarrow> real + string \<Rightarrow> int option" where
  "usdToTokenUnits coerce usd =
     (case usd of Inl x \<Rightarrow> Some (usd_units x) | Inr s \<Rightarrow> map_option usd_units (coerce (JStr s)))"

section \<open>The schemas\<close>

datatype rule_input =
    RI_spend_cap spend_window real "real option"
  | RI_allowlist allowlist_mode "string list" bool
  | RI_rate_limit int int
  | RI_counterparty bool rule_action
  | RI_time_window "int \<times> int" rule_action

record compiler_output =
  co_rules :: "rule_input list"
  co_anomalyThreshold :: real
  co_anomalyAction :: anomaly_action

text \<open>Combinators: a coerced number with a test, the safe integers, enumerations and defaults.\<close>

definition z_number :: "(json \<Rightarrow> real option) \<Rightarrow> (real \<Rightarrow> bool) \<Rightarrow> json option \<Rightarrow> real option" where
  "z_number coerce ok j =
     (case j of None \<Rightarrow> None | Some v \<Rightarrow> (case coerce v of None \<Rightarrow> None | Some x \<Rightarrow> if ok x then Some x else None))"

definition z_int :: "(json \<Rightarrow> real option) \<Rightarrow> (int \<Rightarrow> bool) \<Rightarrow> json option \<Rightarrow> int option" where
  "z_int coerce ok j =
     (case z_number coerce (\<lambda>x. x = of_int \<lfloor>x\<rfloor> \<and> \<bar>x\<bar> \<le> 9007199254740991) j of
        None \<Rightarrow> None | Some x \<Rightarrow> if ok \<lfloor>x\<rfloor> then Some \<lfloor>x\<rfloor> else None)"

definition z_enum :: "(string \<times> 'a) list \<Rightarrow> json option \<Rightarrow> 'a option" where
  "z_enum names j = (case j of Some (JStr s) \<Rightarrow> map_of names s | _ \<Rightarrow> None)"

definition z_bool :: "json option \<Rightarrow> bool option" where
  "z_bool j = (case j of Some (JBool b) \<Rightarrow> Some b | _ \<Rightarrow> None)"

definition z_optional :: "(json option \<Rightarrow> 'a option) \<Rightarrow> json option \<Rightarrow> 'a option option" where
  "z_optional f j = (case j of None \<Rightarrow> Some None | Some v \<Rightarrow> map_option Some (f j))"

definition z_default :: "'a \<Rightarrow> (json option \<Rightarrow> 'a option) \<Rightarrow> json option \<Rightarrow> 'a option" where
  "z_default d f j = (case j of None \<Rightarrow> Some d | Some v \<Rightarrow> f j)"

fun z_all :: "('a \<Rightarrow> 'b option) \<Rightarrow> 'a list \<Rightarrow> 'b list option" where
  "z_all f [] = Some []"
| "z_all f (x # xs) =
     (case f x of None \<Rightarrow> None | Some y \<Rightarrow> (case z_all f xs of None \<Rightarrow> None | Some ys \<Rightarrow> Some (y # ys)))"

definition z_array :: "(json \<Rightarrow> 'a option) \<Rightarrow> json option \<Rightarrow> 'a list option" where
  "z_array f j = (case j of Some (JArr vs) \<Rightarrow> z_all f vs | _ \<Rightarrow> None)"

definition z_string :: "json \<Rightarrow> string option" where
  "z_string j = (case j of JStr s \<Rightarrow> Some s | _ \<Rightarrow> None)"

definition z_pair :: "(json option \<Rightarrow> 'a option) \<Rightarrow> json option \<Rightarrow> ('a \<times> 'a) option" where
  "z_pair f j =
     (case j of Some (JArr [a, b]) \<Rightarrow>
         (case (f (Some a), f (Some b)) of (Some x, Some y) \<Rightarrow> Some (x, y) | _ \<Rightarrow> None)
      | _ \<Rightarrow> None)"

definition window_names :: "(string \<times> spend_window) list" where
  "window_names = [(''transaction'', Transaction), (''session'', Session), (''hour'', Hour), (''day'', Day)]"

definition mode_names :: "(string \<times> allowlist_mode) list" where
  "mode_names = [(''recipients'', Recipients), (''resources'', Resources)]"

definition action_names :: "(string \<times> rule_action) list" where
  "action_names = [(''block'', RBlock), (''escalate'', REscalate), (''warn'', RWarn)]"

definition anomaly_names :: "(string \<times> anomaly_action) list" where
  "anomaly_names = [(''block'', ABlock), (''escalate'', AEscalate)]"

definition spendCapInput :: "(json \<Rightarrow> real option) \<Rightarrow> json \<Rightarrow> rule_input option" where
  "spendCapInput coerce j =
     (case (z_enum window_names (json_get j ''window''), z_number coerce (\<lambda>x. x > 0) (json_get j ''maxAmount''),
            z_optional (z_number coerce (\<lambda>x. x > 0)) (json_get j ''escalateAbove'')) of
        (Some w, Some m, Some e) \<Rightarrow> Some (RI_spend_cap w m e)
      | _ \<Rightarrow> None)"

definition allowlistInput :: "json \<Rightarrow> rule_input option" where
  "allowlistInput j =
     (case (z_enum mode_names (json_get j ''mode''), z_default [] (z_array z_string) (json_get j ''entries''),
            z_default True z_bool (json_get j ''enforce'')) of
        (Some m, Some es, Some b) \<Rightarrow> Some (RI_allowlist m es b)
      | _ \<Rightarrow> None)"

definition rateLimitInput :: "(json \<Rightarrow> real option) \<Rightarrow> json \<Rightarrow> rule_input option" where
  "rateLimitInput coerce j =
     (case (z_int coerce (\<lambda>n. n > 0) (json_get j ''maxPayments''), z_int coerce (\<lambda>n. n > 0) (json_get j ''windowSeconds'')) of
        (Some m, Some w) \<Rightarrow> Some (RI_rate_limit m w)
      | _ \<Rightarrow> None)"

definition counterpartyInput :: "json \<Rightarrow> rule_input option" where
  "counterpartyInput j =
     (case (z_default True z_bool (json_get j ''flagNewRecipients''),
            z_default REscalate (z_enum action_names) (json_get j ''action'')) of
        (Some b, Some a) \<Rightarrow> Some (RI_counterparty b a)
      | _ \<Rightarrow> None)"

definition timeWindowInput :: "(json \<Rightarrow> real option) \<Rightarrow> json \<Rightarrow> rule_input option" where
  "timeWindowInput coerce j =
     (case (z_pair (z_int coerce (\<lambda>n. 0 \<le> n \<and> n \<le> 24)) (json_get j ''allowedHours''),
            z_default REscalate (z_enum action_names) (json_get j ''action'')) of
        (Some hs, Some a) \<Rightarrow> Some (RI_time_window hs a)
      | _ \<Rightarrow> None)"

definition ruleInputSchema :: "(json \<Rightarrow> real option) \<Rightarrow> json \<Rightarrow> rule_input option" where
  "ruleInputSchema coerce j =
     (case json_get j ''type'' of
        Some (JStr ty) \<Rightarrow>
          if ty = ''spend-cap'' then spendCapInput coerce j
          else if ty = ''allowlist'' then allowlistInput j
          else if ty = ''rate-limit'' then rateLimitInput coerce j
          else if ty = ''counterparty'' then counterpartyInput j
          else if ty = ''time-window'' then timeWindowInput coerce j
          else None
      | _ \<Rightarrow> None)"

definition compilerOutputSchema :: "(json \<Rightarrow> real option) \<Rightarrow> json \<Rightarrow> compiler_output option" where
  "compilerOutputSchema coerce j =
     (case j of
        JObj ms \<Rightarrow>
          (case (z_default [] (z_array (ruleInputSchema coerce)) (json_get j ''rules''),
                 z_default (8 / 10) (z_number coerce (\<lambda>x. 0 \<le> x \<and> x \<le> 1)) (json_get j ''anomalyThreshold''),
                 z_default AEscalate (z_enum anomaly_names) (json_get j ''anomalyAction'')) of
             (Some rs, Some t, Some a) \<Rightarrow> Some \<lparr>co_rules = rs, co_anomalyThreshold = t, co_anomalyAction = a\<rparr>
           | _ \<Rightarrow> None)
      | _ \<Rightarrow> None)"

section \<open>Compilation\<close>

datatype compile_error =
    LLM_failed string
  | Not_json
  | Invalid_policy
  | Bad_chain chain_error

fun toPolicyRule :: "address \<Rightarrow> rule_input \<Rightarrow> policy_rule" where
  "toPolicyRule usdc (RI_spend_cap w m e) =
     SpendCap \<lparr>sc_window = w, sc_maxAmount = usd_units m, sc_token = usdc, sc_escalateAbove = map_option usd_units e\<rparr>"
| "toPolicyRule usdc (RI_allowlist m es b) =
     Allowlist \<lparr>al_mode = m, al_entries = filter (\<lambda>e. length e > 0) (map (\<lambda>e. trim (lower e)) es), al_enforce = b\<rparr>"
| "toPolicyRule usdc (RI_rate_limit m w) = RateLimit \<lparr>rl_maxPayments = m, rl_windowSeconds = w\<rparr>"
| "toPolicyRule usdc (RI_counterparty b a) = Counterparty \<lparr>cp_flagNewRecipients = b, cp_action = a\<rparr>"
| "toPolicyRule usdc (RI_time_window hs a) = TimeWindow \<lparr>tw_allowedHours = (fst hs, snd hs), tw_action = a\<rparr>"

definition compilePolicyObject ::
  "(json \<Rightarrow> real option) \<Rightarrow> json \<Rightarrow> string \<Rightarrow> string option \<Rightarrow> string option \<Rightarrow> compile_error + policy" where
  "compilePolicyObject coerce input agentId sourceText chain =
     (case compilerOutputSchema coerce input of
        None \<Rightarrow> Inl Invalid_policy
      | Some out \<Rightarrow>
          (case getChain (case chain of None \<Rightarrow> ''eip155:84532'' | Some c \<Rightarrow> c) of
             Inl e \<Rightarrow> Inl (Bad_chain e)
           | Inr cfg \<Rightarrow>
               Inr \<lparr>p_agentId = agentId, p_rules = map (toPolicyRule (cc_usdc cfg)) (co_rules out),
                    p_anomalyThreshold = co_anomalyThreshold out, p_anomalyAction = co_anomalyAction out,
                    p_sourceText = sourceText\<rparr>))"

text \<open>\<open>cleaned.slice(start, end + 1)\<close> from the first \<open>{\<close> to the last \<open>}\<close>, where they are in order.\<close>

definition braces_slice :: "string \<Rightarrow> string" where
  "braces_slice cleaned =
     (let start = length (takeWhile (\<lambda>c. c \<noteq> CHR ''{'') cleaned);
          after = length (takeWhile (\<lambda>c. c \<noteq> CHR ''}'') (rev cleaned));
          fin = length cleaned - after
      in if start < length cleaned \<and> after < length cleaned \<and> start + 1 < fin
         then take (fin - start) (drop start cleaned) else cleaned)"

definition extractJson :: "string \<Rightarrow> json option" where
  "extractJson txt = json_parse (braces_slice (trim (strip_fences txt)))"

datatype llm_argument = No_llm | Api_key string | Llm_config llm_config

fun llm_config_of :: "llm_argument \<Rightarrow> llm_config" where
  "llm_config_of No_llm = \<lparr>lc_provider = None, lc_apiKey = None, lc_baseUrl = None, lc_model = None\<rparr>"
| "llm_config_of (Api_key k) = \<lparr>lc_provider = None, lc_apiKey = Some k, lc_baseUrl = None, lc_model = None\<rparr>"
| "llm_config_of (Llm_config c) = c"

definition COMPILER_SYSTEM_PROMPT :: string where
  \<open>COMPILER_SYSTEM_PROMPT = join_with [CHR 0x0A]
     [''You are a policy compiler for AI agent payments.'',
      ''Convert the user's natural-language spending policy into a strict JSON structure.'',
      ''Output ONLY valid JSON (no markdown fences, no prose) matching this schema:'',
      ''{'',
      ''  "rules": ['',
      ''    { "type": "spend-cap", "window": "transaction"|"session"|"hour"|"day", "maxAmount": <USD number>, "escalateAbove": <USD number, optional> },'',
      ''    { "type": "allowlist", "mode": "recipients"|"resources", "entries": [<string>...], "enforce": <bool> },'',
      ''    { "type": "rate-limit", "maxPayments": <int>, "windowSeconds": <int> },'',
      ''    { "type": "counterparty", "flagNewRecipients": <bool>, "action": "block"|"escalate"|"warn" },'',
      ''    { "type": "time-window", "allowedHours": [<startHourUTC>, <endHourUTC>], "action": "block"|"escalate"|"warn" }'',
      ''  ],'',
      ''  "anomalyThreshold": <0-1>,'',
      ''  "anomalyAction": "block"|"escalate"'',
      ''}'',
      ''Amounts are in USD. Be conservative: if the user says "small payments only", set a low'',
      ''spend-cap. If they mention human approval for large amounts, use escalateAbove. If they say'',
      ''"only known/used-before services", add a counterparty rule with action "escalate". If they'',
      ''mention night/business hours, add a time-window rule.'']\<close>

definition compilePolicy ::
  "(json \<Rightarrow> real option) \<Rightarrow> environment \<Rightarrow> http \<Rightarrow> string \<Rightarrow> string \<Rightarrow> llm_argument \<Rightarrow> string option \<Rightarrow>
     compile_error + policy" where
  "compilePolicy coerce env http naturalLanguage agentId llm chain =
     (case callLLM env http (llm_config_of llm)
             \<lparr>lp_system = Some COMPILER_SYSTEM_PROMPT, lp_prompt = naturalLanguage, lp_maxTokens = Some 1500, lp_json = True\<rparr> of
        Inl e \<Rightarrow> Inl (LLM_failed e)
      | Inr txt \<Rightarrow>
          (case extractJson txt of
             None \<Rightarrow> Inl Not_json
           | Some j \<Rightarrow> compilePolicyObject coerce j agentId (Some naturalLanguage) chain))"

section \<open>What a compiled policy satisfies\<close>

lemma z_number_Some: "z_number coerce ok j = Some x \<Longrightarrow> ok x"
  by (auto simp: z_number_def split: option.splits if_splits)

lemma z_int_Some: "z_int coerce ok j = Some n \<Longrightarrow> ok n"
  by (auto simp: z_int_def split: option.splits if_splits)

lemma z_pair_Some: "z_pair f j = Some (x, y) \<Longrightarrow> \<exists>a b. f a = Some x \<and> f b = Some y"
  by (auto simp: z_pair_def split: option.splits json.splits list.splits)

lemma z_optional_Some: "z_optional f j = Some (Some x) \<Longrightarrow> \<exists>v. f v = Some x"
  by (auto simp: z_optional_def split: option.splits)

lemma z_default_Some: "z_default d f j = Some x \<Longrightarrow> x = d \<or> (\<exists>v. f v = Some x)"
  by (auto simp: z_default_def split: option.splits)

lemma z_array_Some: "z_array f j = Some xs \<Longrightarrow> x \<in> set xs \<Longrightarrow> \<exists>v. f v = Some x"
proof -
  have "z_all f vs = Some xs \<Longrightarrow> x \<in> set xs \<Longrightarrow> \<exists>v. f v = Some x" for vs
    by (induction vs arbitrary: xs) (auto split: option.splits)
  then show "z_array f j = Some xs \<Longrightarrow> x \<in> set xs \<Longrightarrow> \<exists>v. f v = Some x"
    by (auto simp: z_array_def split: option.splits json.splits)
qed

text \<open>What the schema guarantees of a rule.\<close>

fun input_ok :: "rule_input \<Rightarrow> bool" where
  "input_ok (RI_spend_cap w m e) \<longleftrightarrow> m > 0 \<and> (\<forall>x. e = Some x \<longrightarrow> x > 0)"
| "input_ok (RI_allowlist m es b) \<longleftrightarrow> True"
| "input_ok (RI_rate_limit m w) \<longleftrightarrow> m > 0 \<and> w > 0"
| "input_ok (RI_counterparty b a) \<longleftrightarrow> True"
| "input_ok (RI_time_window hs a) \<longleftrightarrow> 0 \<le> fst hs \<and> fst hs \<le> 24 \<and> 0 \<le> snd hs \<and> snd hs \<le> 24"

lemma ruleInputSchema_ok: "ruleInputSchema coerce j = Some r \<Longrightarrow> input_ok r"
  by (auto simp: ruleInputSchema_def spendCapInput_def allowlistInput_def rateLimitInput_def counterpartyInput_def
      timeWindowInput_def split: option.splits json.splits if_splits
      dest!: z_pair_Some dest: z_number_Some z_int_Some z_optional_Some)
     (use z_number_Some z_int_Some in \<open>fastforce dest!: z_optional_Some\<close>)+

lemma usd_units_close: "\<bar>real_of_int (usd_units x) - x * 1000000\<bar> \<le> 1 / 2"
proof -
  have half: "\<bar>real_of_int \<lfloor>y + 1 / 2\<rfloor> - y\<bar> \<le> 1 / 2" for y :: real
    using floor_correct [of "y + 1 / 2"] by linarith
  show ?thesis
  proof (cases "0 \<le> x")
    case True
    then show ?thesis using half [of "x * 1000000"] by (simp only: usd_units_def if_True)
  next
    case False
    have "real_of_int (- \<lfloor>- x * 1000000 + 1 / 2\<rfloor>) - x * 1000000 = - (real_of_int \<lfloor>- x * 1000000 + 1 / 2\<rfloor> - - x * 1000000)"
      by simp
    then show ?thesis using half [of "- x * 1000000"] False by (simp only: usd_units_def if_False abs_minus_cancel)
  qed
qed

lemma usd_units_nonneg: "x \<ge> 0 \<Longrightarrow> 0 \<le> usd_units x"
  by (simp add: usd_units_def)

lemma usd_units_mono: "0 \<le> x \<Longrightarrow> x \<le> y \<Longrightarrow> usd_units x \<le> usd_units y"
  by (simp add: usd_units_def floor_mono)

lemma trim_trim [simp]: "trim (trim s) = trim s"
proof -
  define t where "t = dropWhile is_space s"
  define u where "u = dropWhile is_space (rev t)"
  have "dropWhile is_space (rev u) = rev u"
  proof (cases "u = []")
    case False
    have "rev t = takeWhile is_space (rev t) @ u" by (simp add: u_def)
    then have "last (rev t) = last u" using False by (metis last_appendR)
    then have "hd (rev u) = hd t" using False by (cases t) (simp_all add: hd_rev last_rev u_def)
    moreover have "t \<noteq> []" using False by (auto simp: u_def)
    ultimately show ?thesis using hd_dropWhile [of is_space s] by (simp add: dropWhile_eq_self_iff t_def)
  qed simp
  moreover have "trim s = rev u" by (simp add: trim_def t_def u_def)
  ultimately show ?thesis by (simp add: trim_def u_def)
qed

lemma set_trim: "c \<in> set (trim s) \<Longrightarrow> c \<in> set s"
  unfolding trim_def set_rev by (metis set_dropWhileD set_rev)

lemma lower_trim_lower [simp]: "lower (trim (lower s)) = trim (lower s)"
proof -
  have "lower_char c = c" if "c \<in> set (trim (lower s))" for c
    using set_trim [OF that] by (auto simp: lower_def)
  then show ?thesis by (simp add: lower_def map_idI)
qed

lemma normalize_normalized: "normalize_entries (filter (\<lambda>e. e \<noteq> []) (map (\<lambda>e. trim (lower e)) es)) =
    filter (\<lambda>e. e \<noteq> []) (map (\<lambda>e. trim (lower e)) es)"
  by (induction es) (auto simp: normalize_entries_def)

text \<open>A well-formed rule: the evaluator normalises its entries to themselves.\<close>

fun rule_wf :: "address \<Rightarrow> policy_rule \<Rightarrow> bool" where
  "rule_wf usdc (SpendCap r) \<longleftrightarrow> sc_token r = usdc \<and> 0 \<le> sc_maxAmount r \<and> (\<forall>n. sc_escalateAbove r = Some n \<longrightarrow> 0 \<le> n)"
| "rule_wf usdc (Allowlist r) \<longleftrightarrow> normalize_entries (al_entries r) = al_entries r"
| "rule_wf usdc (RateLimit r) \<longleftrightarrow> 0 < rl_maxPayments r \<and> 0 < rl_windowSeconds r"
| "rule_wf usdc (Counterparty r) \<longleftrightarrow> True"
| "rule_wf usdc (TimeWindow r) \<longleftrightarrow> fst (tw_allowedHours r) \<in> {0..24} \<and> snd (tw_allowedHours r) \<in> {0..24}"

lemma toPolicyRule_wf: "input_ok r \<Longrightarrow> rule_wf usdc (toPolicyRule usdc r)"
  by (cases r) (auto simp: usd_units_nonneg normalize_normalized)

lemma compilePolicyObject_Inr:
  assumes "compilePolicyObject coerce input agentId src chain = Inr p"
    and "getChain (case chain of None \<Rightarrow> ''eip155:84532'' | Some c \<Rightarrow> c) = Inr cfg"
  obtains out where "compilerOutputSchema coerce input = Some out" "list_all input_ok (co_rules out)"
    "0 \<le> co_anomalyThreshold out" "co_anomalyThreshold out \<le> 1"
    "p = \<lparr>p_agentId = agentId, p_rules = map (toPolicyRule (cc_usdc cfg)) (co_rules out),
          p_anomalyThreshold = co_anomalyThreshold out, p_anomalyAction = co_anomalyAction out, p_sourceText = src\<rparr>"
proof -
  obtain out where out: "compilerOutputSchema coerce input = Some out"
    and p: "p = \<lparr>p_agentId = agentId, p_rules = map (toPolicyRule (cc_usdc cfg)) (co_rules out),
          p_anomalyThreshold = co_anomalyThreshold out, p_anomalyAction = co_anomalyAction out, p_sourceText = src\<rparr>"
    using assms by (auto simp: compilePolicyObject_def split: option.splits sum.splits)
  have "list_all input_ok (co_rules out)"
    using out by (auto simp: compilerOutputSchema_def list_all_iff split: json.splits option.splits
        dest!: z_default_Some dest: z_array_Some ruleInputSchema_ok)
  moreover have "0 \<le> co_anomalyThreshold out \<and> co_anomalyThreshold out \<le> 1"
    using out by (auto simp: compilerOutputSchema_def split: json.splits option.splits
        dest!: z_default_Some dest: z_number_Some)
  ultimately show thesis using that out p by blast
qed

section \<open>Properties\<close>


definition ex_coerce :: "json \<Rightarrow> real option" where
  "ex_coerce j = (if j = JNum ''5'' then Some 5 else if j = JNum ''0.2'' then Some (1 / 5) else None)"

definition ex_compiler_input :: json where
  "ex_compiler_input = JObj [(''rules'', JArr [JObj [(''type'', JStr ''spend-cap''), (''window'', JStr ''transaction''),
      (''maxAmount'', JNum ''0.2'')], JObj [(''type'', JStr ''time-window''), (''allowedHours'', JArr [JNum ''5'', JNum ''5''])]]),
     (''anomalyAction'', JStr ''block'')]"

definition ex_compiled :: policy where
  "ex_compiled = \<lparr>p_agentId = ''a'', p_rules = [SpendCap \<lparr>sc_window = Transaction, sc_maxAmount = 200000,
      sc_token = ''0x833589fCD6eDb6E08f4c7C32D4f71b54bdA02913'', sc_escalateAbove = None\<rparr>,
      TimeWindow \<lparr>tw_allowedHours = (5, 5), tw_action = REscalate\<rparr>], p_anomalyThreshold = 8 / 10,
      p_anomalyAction = ABlock, p_sourceText = None\<rparr>"

lemma ex_compiles:
  "compilePolicyObject ex_coerce ex_compiler_input ''a'' None (Some ''eip155:8453'') = Inr ex_compiled"
proof -
  have "\<lfloor>5 :: real\<rfloor> = 5" by simp
  then show ?thesis
    by (simp add: compilePolicyObject_def compilerOutputSchema_def ex_compiler_input_def json_get_def z_default_def z_array_def
        ruleInputSchema_def spendCapInput_def timeWindowInput_def z_enum_def z_number_def z_optional_def z_pair_def z_int_def
        window_names_def anomaly_names_def ex_coerce_def getChain_def CHAINS_def usd_units_def ex_compiled_def)
qed


text \<open>Hours that pass the schema and allow no time at all: no hour is 24 or later.\<close>

lemma never_allowed: "\<not> in_hours 24 0 (utc_hours now)"
  by (simp add: in_hours_def utc_hours_def not_le pos_mod_bound)

text \<open>A positive amount below half a token unit becomes a cap of 0.\<close>

lemma tiny_cap_is_zero: "0 < x \<Longrightarrow> x < 1 / 2000000 \<Longrightarrow> usd_units x = 0"
  by (simp add: usd_units_def floor_eq_iff)

end
