(* ===== verification/Integrations.thy ===== *)
theory Integrations
  imports Execute Compiler
begin

text \<open>
  Payment tools of an agent framework (\<open>packages/core/src/integrations.ts\<close>): the request built from
  the arguments of a tool call, and the wrapper that runs the tool only after the guard has paid.
\<close>

datatype tool_amount = Usd "real + string" | Token_units int

record tool_input =
  ti_intent :: "string option"
  ti_reason :: "string option"
  ti_amount :: tool_amount
  ti_token :: "string option"
  ti_recipient :: string
  ti_chain :: "string option"

datatype tool_error =
    Te_chain chain_error
  | Te_amount
  | Te_guard guard_error

definition upper_char :: "char \<Rightarrow> char" where
  "upper_char c = (let n = (of_char c :: nat) in if 97 \<le> n \<and> n \<le> 122 then char_of (n - 32) else c)"

definition tool_units :: "(json \<Rightarrow> real option) \<Rightarrow> tool_amount \<Rightarrow> int option" where
  "tool_units coerce a = (case a of Token_units n \<Rightarrow> Some n | Usd u \<Rightarrow> usdToTokenUnits coerce u)"

definition toPaymentRequest :: "(json \<Rightarrow> real option) \<Rightarrow> tool_input \<Rightarrow> string \<Rightarrow> tool_error + payment_request" where
  "toPaymentRequest coerce input agentId =
     (let chain = (case ti_chain input of None \<Rightarrow> ''eip155:84532'' | Some c \<Rightarrow> c)
      in case getChain chain of
           Inl e \<Rightarrow> Inl (Te_chain e)
         | Inr cfg \<Rightarrow>
             (let token = (case ti_token input of None \<Rightarrow> cc_usdc cfg
                           | Some t \<Rightarrow> if t = [] \<or> map upper_char t = ''USDC'' then cc_usdc cfg else t)
              in case tool_units coerce (ti_amount input) of
                   None \<Rightarrow> Inl Te_amount
                 | Some amount \<Rightarrow>
                     Inr \<lparr>r_intent = (case ti_intent input of Some i \<Rightarrow> i
                            | None \<Rightarrow> (case ti_reason input of Some r \<Rightarrow> r | None \<Rightarrow> ''tool payment'')),
                          r_amount = amount, r_token = token, r_recipient = ti_recipient input, r_chain = chain,
                          r_agentId = agentId, r_resourceUrl = None\<rparr>))"

datatype 'r tool_result = Tool_ran 'r | Tool_blocked "string option" policy_decision

definition wrapPaymentTool ::
  "(json \<Rightarrow> real option) \<Rightarrow> externals \<Rightarrow> 's store_ops \<Rightarrow> agent_guard \<Rightarrow> 's call_env \<Rightarrow> (tool_input \<Rightarrow> execute_result \<Rightarrow> 'r) \<Rightarrow>
     tool_input \<Rightarrow> 's guard_state \<Rightarrow> (tool_error + 'r tool_result) \<times> handed_over list \<times> 's guard_state" where
  "wrapPaymentTool coerce x ops g ce run args st =
     (case toPaymentRequest coerce args (ag_agentId g) of
        Inl e \<Rightarrow> (Inl e, [], st)
      | Inr req \<Rightarrow>
          (case AgentGuard_execute x ops g ce req st of
             (Inl e, handed, st') \<Rightarrow> (Inl (Te_guard e), handed, st')
           | (Inr r, handed, st') \<Rightarrow>
               (Inr (if \<not> ex_executed r then Tool_blocked (ex_reason r) (ex_decision r) else Tool_ran (run args r)),
                handed, st')))"

section \<open>Properties\<close>

text \<open>An executed payment was approved, handed over and settled.\<close>

lemma executed_settled:
  assumes "AgentGuard_execute x ops g ce req st = (Inr r, handed, st')"
  shows "ex_executed r \<longleftrightarrow> (\<exists>s. ex_settlement r = Some s \<and> s_success s)"
    "ex_executed r \<Longrightarrow> approved g ce req (ex_decision r)"
    "ex_decision r = fst (AgentGuard_evaluate x g (ce_clock ce) req st)"
  using assms by (cases rule: execute_cases; auto simp: settlement_of_def dest: runGuard_Inr)+

text \<open>
  C39. A wrapped tool runs only after the payment: when the tool of \<open>wrapPaymentTool\<close> has run, its
  arguments made a request on a supported chain that the guard approved and that settled successfully,
  and the tool was given that settlement; when it answers that it was blocked, nothing settled.
\<close>

theorem tool_runs_only_paid:
  assumes "wrapPaymentTool coerce x ops g ce run args st = (Inr out, handed, st')"
  shows "\<exists>req r. toPaymentRequest coerce args (ag_agentId g) = Inr req \<and> r_agentId req = ag_agentId g \<and>
     r_recipient req = ti_recipient args \<and> (\<forall>n. ti_amount args = Token_units n \<longrightarrow> r_amount req = n) \<and>
     AgentGuard_execute x ops g ce req st = (Inr r, handed, st') \<and>
     (case out of
        Tool_ran v \<Rightarrow> v = run args r \<and> approved g ce req (fst (AgentGuard_evaluate x g (ce_clock ce) req st)) \<and>
          (\<exists>s. ex_settlement r = Some s \<and> s_success s)
      | Tool_blocked why d \<Rightarrow> d = fst (AgentGuard_evaluate x g (ce_clock ce) req st) \<and>
          \<not> (\<exists>s. ex_settlement r = Some s \<and> s_success s))"
proof -
  obtain req r where req: "toPaymentRequest coerce args (ag_agentId g) = Inr req"
    and r: "AgentGuard_execute x ops g ce req st = (Inr r, handed, st')"
    and out: "out = (if \<not> ex_executed r then Tool_blocked (ex_reason r) (ex_decision r) else Tool_ran (run args r))"
    using assms by (auto simp: wrapPaymentTool_def split: sum.splits prod.splits)
  have "r_agentId req = ag_agentId g" "r_recipient req = ti_recipient args" "\<forall>n. ti_amount args = Token_units n \<longrightarrow> r_amount req = n"
    using req by (auto simp: toPaymentRequest_def tool_units_def Let_def split: sum.splits option.splits)
  then show ?thesis using req r out executed_settled [OF r] by (auto split: tool_result.splits if_splits)
qed

definition ex_tool :: tool_input where
  "ex_tool = \<lparr>ti_intent = Some (r_intent ex_order), ti_reason = None, ti_amount = Token_units (r_amount ex_order),
     ti_token = Some (r_token ex_order), ti_recipient = r_recipient ex_order, ti_chain = Some (r_chain ex_order)\<rparr>"

lemma ex_tool_request: "toPaymentRequest (\<lambda>_. None) ex_tool (ag_agentId ex_agent) = Inr ex_order"
proof -
  have "map upper_char ''0xt'' \<noteq> ''USDC''" by code_simp
  then show ?thesis
    by (simp add: toPaymentRequest_def ex_tool_def ex_order_def getChain_def CHAINS_def tool_units_def ex_agent_def ex_guard_def
        AgentGuard_new_def ex_policy_config_def)
qed

theorem tool_runs_only_paid_witness:
  "\<exists>st'. wrapPaymentTool (\<lambda>_. None) ex_externals (sqlite_ops (\<lambda>n. ''?'')) ex_agent (ex_call ex_failover)
       (\<lambda>args r. ex_settlement r) ex_tool ex_state = st' \<and>
     (\<exists>s. fst st' = Inr (Tool_ran (Some s)) \<and> s_success s)"
proof -
  obtain r handed st' where r: "AgentGuard_execute ex_externals (sqlite_ops (\<lambda>n. ''?'')) ex_agent (ex_call ex_failover)
      ex_order ex_state = (Inr r, handed, st')" "ex_executed r"
    using ex_settled_by_fallback by blast
  then have w: "wrapPaymentTool (\<lambda>_. None) ex_externals (sqlite_ops (\<lambda>n. ''?'')) ex_agent (ex_call ex_failover)
       (\<lambda>args r. ex_settlement r) ex_tool ex_state = (Inr (Tool_ran (ex_settlement r)), handed, st')"
    by (simp add: wrapPaymentTool_def ex_tool_request)
  from tool_runs_only_paid [OF w] obtain s where "ex_settlement r = Some s" "s_success s" by (auto simp: r)
  then show ?thesis using w by simp
qed

end
