(* ===== verification/Cli.thy ===== *)
theory Cli
  imports Integrations Verify Server
begin

text \<open>
  The commands of \<open>packages/cli/src/cli.ts\<close> on requests and the log: \<open>check\<close>, \<open>demo\<close>,
  \<open>audit\<close> and \<open>watch\<close>. What they print is left out; the exit code is \<open>None\<close> where it stays unset.
  \<open>parseUnits(s, 6)\<close> is the argument \<open>pu\<close> (\<open>None\<close> if it throws). A guard of a command signs
  nothing, so its wallet is its chain.
\<close>

section \<open>Guards and requests\<close>

definition DEFAULT_CHAIN :: string where
  "DEFAULT_CHAIN = ''eip155:84532''"

record cli_llm_options =
  cl_provider :: "llm_provider option"
  cl_ollamaUrl :: "string option"
  cl_model :: "string option"

definition resolveCliLLM :: "cli_llm_options \<Rightarrow> llm_config" where
  "resolveCliLLM opts =
     \<lparr>lc_provider = cl_provider opts, lc_apiKey = None, lc_baseUrl = cl_ollamaUrl opts, lc_model = cl_model opts\<rparr>"

definition cli_guard_config :: "string \<Rightarrow> llm_config option \<Rightarrow> bool option \<Rightarrow> guard_config" where
  "cli_guard_config chain llm hydrate =
     \<lparr>gc_walletChain = chain, gc_llmApiKey = None, gc_llm = llm, gc_anchor = None, gc_anchorIntervalMs = None,
      gc_facilitatorUrl = None, gc_facilitatorFallbackUrls = None, gc_onEscalation = False, gc_escalationWebhook = False,
      gc_approvalQueue = False, gc_circuitBreaker = None,
      gc_behavioral = \<lparr>bo_forestMinObservations = None, bo_forestRetrainInterval = None, bo_forestTrees = None,
        bo_forestSampleSize = None, bo_forestSeed = None, bo_ewmaAlpha = None, bo_zWarnThreshold = None,
        bo_zCriticalThreshold = None, bo_forestWarnThreshold = None, bo_forestCriticalThreshold = None\<rparr>,
      gc_hydrate = hydrate, gc_hydrateLookbackMs = None\<rparr>"

definition demo_usdc :: address where
  "demo_usdc = (case getChain DEFAULT_CHAIN of Inl e \<Rightarrow> [] | Inr cfg \<Rightarrow> cc_usdc cfg)"

definition demoPolicy :: "(string \<Rightarrow> int option) \<Rightarrow> string \<Rightarrow> policy option" where
  "demoPolicy pu agentId =
     (case (pu ''20'', pu ''2'') of
        (Some m, Some e) \<Rightarrow>
          Some \<lparr>p_agentId = agentId,
            p_rules = [SpendCap \<lparr>sc_window = Day, sc_maxAmount = m, sc_token = demo_usdc, sc_escalateAbove = Some e\<rparr>,
              Counterparty \<lparr>cp_flagNewRecipients = True, cp_action = REscalate\<rparr>],
            p_anomalyThreshold = 8 / 10, p_anomalyAction = AEscalate, p_sourceText = None\<rparr>
      | _ \<Rightarrow> None)"

definition mkReq :: "(string \<Rightarrow> int option) \<Rightarrow> string \<Rightarrow> address \<Rightarrow> string \<Rightarrow> payment_request option" where
  "mkReq pu amountUsd recipient intent =
     map_option (\<lambda>n. \<lparr>r_intent = intent, r_amount = n, r_token = demo_usdc, r_recipient = recipient, r_chain = DEFAULT_CHAIN,
        r_agentId = ''research-agent-1'', r_resourceUrl = None\<rparr>) (pu amountUsd)"

section \<open>check\<close>

record check_options =
  ck_amount :: string
  ck_recipient :: address
  ck_intent :: string
  ck_token :: string
  ck_chain :: string
  ck_history :: bool
  ck_llm :: "llm_config option"

definition check_request :: "(string \<Rightarrow> int option) \<Rightarrow> check_options \<Rightarrow> string \<Rightarrow> payment_request option" where
  "check_request pu opts agentId =
     (case (getChain (ck_chain opts), pu (ck_amount opts)) of
        (Inr cfg, Some n) \<Rightarrow>
          Some \<lparr>r_intent = ck_intent opts, r_amount = n,
            r_token = (if map upper_char (ck_token opts) = ''USDC'' then cc_usdc cfg else ck_token opts),
            r_recipient = ck_recipient opts, r_chain = ck_chain opts, r_agentId = agentId, r_resourceUrl = None\<rparr>
      | _ \<Rightarrow> None)"

text \<open>\<open>renderDecision\<close> sets the exit code; an exception ends with 1.\<close>

definition decision_exit :: "policy_decision \<Rightarrow> nat option" where
  "decision_exit d = (if d_verdict d = Block then Some 2 else None)"

definition check_command ::
  "externals \<Rightarrow> 's store_ops \<Rightarrow> thrown option \<Rightarrow> clock \<Rightarrow> clock \<Rightarrow> (string \<Rightarrow> int option) \<Rightarrow> policy \<Rightarrow> check_options \<Rightarrow> 's \<Rightarrow>
     policy_decision option \<times> nat option" where
  "check_command x ops failure clock clock' pu pol opts s =
     (case check_request pu opts (p_agentId pol) of
        None \<Rightarrow> (None, Some 1)
      | Some req \<Rightarrow>
          (case AgentGuard_create x ops failure clock pol
                  (cli_guard_config (ck_chain opts) (ck_llm opts) (Some (ck_history opts))) s of
             (g, lg, st, anchoring) \<Rightarrow>
               (let d = fst (AgentGuard_evaluate x g clock' req st) in (Some d, decision_exit d))))"

section \<open>demo\<close>

definition demo_known :: address where
  "demo_known = ''0x000000000000000000000000000000000000beef''"

definition demo_attacker :: address where
  "demo_attacker = ''0x00000000000000000000000000000000dEadDEaD''"

definition demo_policy :: "(string \<Rightarrow> int option) \<Rightarrow> policy option" where
  "demo_policy pu =
     (case (pu ''20'', pu ''2'') of
        (Some m, Some e) \<Rightarrow>
          Some \<lparr>p_agentId = ''research-agent-1'',
            p_rules = [SpendCap \<lparr>sc_window = Day, sc_maxAmount = m, sc_token = demo_usdc, sc_escalateAbove = Some e\<rparr>,
              Allowlist \<lparr>al_mode = Recipients, al_entries = [lower demo_known], al_enforce = True\<rparr>],
            p_anomalyThreshold = 8 / 10, p_anomalyAction = AEscalate,
            p_sourceText = Some ''max $20/day, escalate anything over $2, only pay services you've used before''\<rparr>
      | _ \<Rightarrow> None)"

definition demo_scenarios :: "(string \<Rightarrow> int option) \<Rightarrow> payment_request option list" where
  "demo_scenarios pu =
     [mkReq pu ''0.50'' demo_known ''weather data for trip'', mkReq pu ''15'' demo_known ''bulk compute'',
      mkReq pu ''15'' demo_attacker ''weather data'']"

text \<open>
  The loop over the scenarios: each is evaluated by the guard and recorded in the log \<open>s\<close>, whose
  ids and times are \<open>uuid i\<close> and \<open>now i\<close>. The guard is hydrated from the default store, with content \<open>sg\<close> (or
  \<open>failure\<close> if it cannot be read), which is not read again.
\<close>

fun demo_loop ::
  "externals \<Rightarrow> 's store_ops \<Rightarrow> agent_guard \<Rightarrow> (nat \<Rightarrow> clock) \<Rightarrow> (nat \<Rightarrow> string) \<Rightarrow> (nat \<Rightarrow> int) \<Rightarrow> nat \<Rightarrow>
     payment_request list \<Rightarrow> sqlite guard_state \<Rightarrow> 's \<Rightarrow> (policy_decision list \<times> 's) option" where
  "demo_loop x ops g clock uuid now i [] st s = Some ([], s)"
| "demo_loop x ops g clock uuid now i (req # reqs) st s =
     (case AgentGuard_evaluate x g (clock i) req st of
        (d, st') \<Rightarrow>
          (case AuditLogger_record (x_kec x) (x_num x) ops (uuid i) (now i) req d None s of
             None \<Rightarrow> None
           | Some (e, s') \<Rightarrow>
               map_option (\<lambda>(ds, t). (d # ds, t)) (demo_loop x ops g clock uuid now (i + 1) reqs st' s')))"

definition demo_command ::
  "externals \<Rightarrow> (int \<Rightarrow> string) \<Rightarrow> 's store_ops \<Rightarrow> (string \<Rightarrow> int option) \<Rightarrow> (nat \<Rightarrow> clock) \<Rightarrow> (nat \<Rightarrow> string) \<Rightarrow> (nat \<Rightarrow> int) \<Rightarrow>
     thrown option \<Rightarrow> sqlite \<Rightarrow> 's \<Rightarrow> (policy_decision list \<times> 's) option" where
  "demo_command x fu ops pu clock uuid now failure sg s =
     (case demo_policy pu of
        None \<Rightarrow> None
      | Some pol \<Rightarrow>
          (case AgentGuard_create x (sqlite_ops fu) failure (clock 0) pol (cli_guard_config DEFAULT_CHAIN None None) sg of
             (g, lg, st, anchoring) \<Rightarrow>
               (case those (demo_scenarios pu) of
                  None \<Rightarrow> None
                | Some reqs \<Rightarrow> demo_loop x ops g clock uuid now 1 reqs st s)))"

section \<open>audit\<close>

datatype audit_outcome = No_entries | Listed nat "verify_outcome option"

definition audit_command ::
  "merkle_lib \<Rightarrow> (string \<Rightarrow> hex) \<Rightarrow> (real \<Rightarrow> string) \<Rightarrow> 's store_ops \<Rightarrow> (string \<Rightarrow> string option) \<Rightarrow> (rpc_call \<Rightarrow> string option) \<Rightarrow>
     int \<Rightarrow> address option \<Rightarrow> bool \<Rightarrow> string \<Rightarrow> string option \<Rightarrow> address option \<Rightarrow> anchor \<Rightarrow> 's \<Rightarrow> audit_outcome" where
  "audit_command lib kec num ops env rpc chainid committer verify chain agent operator ch s =
     (let entries = AuditLogger_list ops agent s
      in if length entries = 0 then No_entries
         else Listed (length entries)
           (if verify then Some (verifyEntries lib kec num ops env rpc chainid committer chain agent operator ch s) else None))"

fun audit_exit :: "audit_outcome \<Rightarrow> nat option" where
  "audit_exit No_entries = None"
| "audit_exit (Listed n None) = None"
| "audit_exit (Listed n (Some Not_configured)) = None"
| "audit_exit (Listed n (Some (Unreachable e))) = Some 2"
| "audit_exit (Listed n (Some (Rejected e))) = Some 1"
| "audit_exit (Listed n (Some (Checked u ty code))) = code"

text \<open>
  A log that was emptied passes: \<open>audit --verify\<close> answers \<open>no audit entries\<close> with the exit code unset,
  however many entries the operator has committed, because it returns before it verifies.
\<close>

lemma emptied_log_passes:
  "audit_exit (audit_command lib kec num (sqlite_ops fu) env rpc chainid committer True chain None operator ch []) = None"
  by (simp add: audit_command_def sqlite_listed)

text \<open>Otherwise a verification that was configured and leaves the exit code unset is clean.\<close>

lemma audit_exit_clean:
  assumes "audit_exit (audit_command lib kec num (sqlite_ops fu) env rpc chainid committer True chain None operator ch s) = None"
    and "s \<noteq> []"
  shows "verifyEntries lib kec num (sqlite_ops fu) env rpc chainid committer chain None operator ch s = Not_configured \<or>
     (\<exists>u ty. verifyEntries lib kec num (sqlite_ops fu) env rpc chainid committer chain None operator ch s = Checked u ty None)"
  using assms
  by (cases "verifyEntries lib kec num (sqlite_ops fu) env rpc chainid committer chain None operator ch s")
     (auto simp: audit_command_def sqlite_listed Let_def)

section \<open>watch\<close>

text \<open>One poll: the entries that are new are printed, in the order of the log.\<close>

fun watch_poll :: "audit_entry list \<Rightarrow> string set \<Rightarrow> string list \<times> string set" where
  "watch_poll [] seen = ([], seen)"
| "watch_poll (e # es) seen =
     (if e_id e \<in> seen then watch_poll es seen
      else (case watch_poll es (insert (e_id e) seen) of (printed, seen') \<Rightarrow> (e_id e # printed, seen')))"

fun watch_polls :: "audit_entry list list \<Rightarrow> string set \<Rightarrow> string list" where
  "watch_polls [] seen = []"
| "watch_polls (es # ess) seen = (case watch_poll es seen of (printed, seen') \<Rightarrow> printed @ watch_polls ess seen')"

lemma watch_poll_props:
  "watch_poll es seen = (printed, seen') \<Longrightarrow>
     distinct printed \<and> set printed = e_id ` set es - seen \<and> seen' = seen \<union> e_id ` set es"
  by (induction es seen arbitrary: printed seen' rule: watch_poll.induct) (auto split: if_splits prod.splits)

text \<open>Over all polls every entry that was ever listed is printed exactly once.\<close>

lemma watch_prints_once:
  "distinct (watch_polls ess seen) \<and> set (watch_polls ess seen) = (\<Union>es \<in> set ess. e_id ` set es) - seen"
proof (induction ess arbitrary: seen)
  case (Cons es ess)
  obtain printed seen' where p: "watch_poll es seen = (printed, seen')" by force
  from watch_poll_props [OF p] Cons.IH [of seen'] show ?case by (auto simp: p)
qed simp

section \<open>Properties\<close>

lemma evaluate_no_breaker:
  assumes "ag_breaker g = None" "validateRequest x req = None"
  shows "AgentGuard_evaluate x g clock req st = (layered_decision x g clock req st, st)"
  using assms by (simp add: AgentGuard_evaluate_def breaker_open_def)

lemma evaluate_state_no_breaker: "ag_breaker g = None \<Longrightarrow> snd (AgentGuard_evaluate x g clock req st) = st"
  by (simp add: AgentGuard_evaluate_def breaker_open_def split: option.splits)

text \<open>
  A guard that starts from a log without settled and without edited rows is the guard of a cold start.
\<close>

definition nothing_spent :: "externals \<Rightarrow> (int \<Rightarrow> string) \<Rightarrow> int \<Rightarrow> sqlite \<Rightarrow> bool" where
  "nothing_spent x fu now sg \<longleftrightarrow> list_all (\<lambda>e. \<not> settled e \<and> entry_intact x e)
     (AuditLogger_listSince (sqlite_ops fu) ''research-agent-1'' (now - DEFAULT_HYDRATE_LOOKBACK_MS) sg)"

definition cold_guard :: "policy \<Rightarrow> agent_guard \<times> sqlite guard_state \<Rightarrow> bool" where
  "cold_guard pol gst \<longleftrightarrow> ag_breaker (fst gst) = None \<and> gs_evaluator (snd gst) = new_evaluator pol \<and>
     gs_behavioral (snd gst) = new_scorer (gc_behavioral (cli_guard_config DEFAULT_CHAIN None None)) \<and>
     gs_resources (snd gst) = [] \<and> ag_intent (fst gst) = IntentReconciler_new no_llm None None None None"

lemma hydrate_nothing:
  "sort_key f [] = []" "PolicyEvaluator_hydrate [] now (new_evaluator pol) = new_evaluator pol"
  "BehavioralScorer_hydrate [] sc = sc" "ResourceRegistry_hydrate url [] reg = reg"
  by (simp_all add: PolicyEvaluator_hydrate_def new_evaluator_def BehavioralScorer_hydrate_def scorer_replay_order_def
      slice_last_def ResourceRegistry_hydrate_def)

lemma hydrate_state_nothing:
  assumes "list_all (\<lambda>e. \<not> settled e \<and> entry_intact x e) es" "ag_breaker g = None" "gs_evaluator st = new_evaluator pol"
  shows "gs_evaluator (snd (hydrate_state x g clock es st)) = new_evaluator pol"
    "gs_behavioral (snd (hydrate_state x g clock es st)) = gs_behavioral st"
    "gs_resources (snd (hydrate_state x g clock es st)) = gs_resources st"
proof -
  have "filter settled (filter (entry_intact x) es) = []" "filter (\<lambda>e. \<not> entry_intact x e) es = []"
    using assms(1) by (auto simp: list_all_iff filter_empty_conv)
  then show "gs_evaluator (snd (hydrate_state x g clock es st)) = new_evaluator pol"
    "gs_behavioral (snd (hydrate_state x g clock es st)) = gs_behavioral st"
    "gs_resources (snd (hydrate_state x g clock es st)) = gs_resources st"
    using assms(2,3) by (simp_all add: hydrate_state_def Let_def hydrate_nothing)
qed

lemma demo_created:
  assumes "AgentGuard_create x (sqlite_ops fu) failure clock pol (cli_guard_config DEFAULT_CHAIN None None) sg = (g, lg, st, anchoring)"
    and "nothing_spent x fu (clock 0) sg" "p_agentId pol = ''research-agent-1''"
  shows "cold_guard pol (g, st)"
proof -
  define es where "es = AuditLogger_listSince (sqlite_ops fu) ''research-agent-1'' (clock 0 - DEFAULT_HYDRATE_LOOKBACK_MS) sg"
  have es: "list_all (\<lambda>e. \<not> settled e \<and> entry_intact x e) es" using assms(2) by (simp add: nothing_spent_def es_def)
  obtain g0 lg0 st0 where new: "AgentGuard_new pol (cli_guard_config DEFAULT_CHAIN None None) sg = (g0, lg0, st0)"
    by (rule prod_cases3)
  have cold: "cold_guard pol (g0, st0)" "ag_agentId g0 = ''research-agent-1''" "gs_store st0 = sg"
    using new assms(3)
    by (auto simp: AgentGuard_new_def cold_guard_def resolveGuardLLMConfig_def cli_guard_config_def truthy_def)
  have g: "g = g0" "st = snd (AgentGuard_hydrate x (sqlite_ops fu) failure g0 clock DEFAULT_HYDRATE_LOOKBACK_MS st0)"
    using assms(1) new by (auto simp: AgentGuard_create_def cli_guard_config_def)
  show ?thesis
    using cold(1) hydrate_state_nothing [OF es, of g0 st0 pol clock]
    by (auto simp: g AgentGuard_hydrate_def cold cold_guard_def es_def [symmetric] Let_def split: option.splits prod.splits)
qed

lemma demo_layers:
  assumes "cold_guard pol (g, st)" and "resolveLLMConfig (x_env x) no_llm = None" "r_resourceUrl req = None" "p_anomalyThreshold pol > 0"
  shows "d_verdict (layered_decision x g clock req st) =
     (if blocks (PolicyEvaluator_evaluate (x_url x) (new_evaluator pol) req (clock 1)) then Block
      else if er_escalate (PolicyEvaluator_evaluate (x_url x) (new_evaluator pol) req (clock 1)) then Escalate else Allow)"
proof -
  note cold [simp] = assms(1) [unfolded cold_guard_def, simplified]
  have "ir_llmConfig (IntentReconciler_new no_llm None None None None) = no_llm"
    by (simp add: IntentReconciler_new_def no_llm_def or_else_def)
  then have "\<not> failed_critical (IntentReconciler_check (x_env x) (x_http x) (ag_intent g) req)"
    using assms(2) by (simp add: failed_critical_def IntentReconciler_check_def intent_info_def)
  moreover have "\<not> failed_critical (ResourceRegistry_check (x_url x) (gs_resources st) req)"
    using assms(3) by (simp add: failed_critical_def ResourceRegistry_check_def hostOf_def binding_check_def)
  moreover have "\<not> anomalous (ev_policy (gs_evaluator st)) (BehavioralScorer_score (gs_behavioral st) req (clock 2))"
    using assms(4)
    by (simp add: anomalous_def BehavioralScorer_score_def Let_def new_scorer_def new_baseline_def EWMABaseline_zScore_def
        opt_default_def cli_guard_config_def new_evaluator_def)
  ultimately have "d_verdict (layered_decision x g clock req st) = Block \<longleftrightarrow>
      blocks (PolicyEvaluator_evaluate (x_url x) (new_evaluator pol) req (clock 1))"
    "d_verdict (layered_decision x g clock req st) = Escalate \<longleftrightarrow>
      d_verdict (layered_decision x g clock req st) \<noteq> Block \<and>
      er_escalate (PolicyEvaluator_evaluate (x_url x) (new_evaluator pol) req (clock 1))"
    by (simp_all add: layered_verdict [of x g])
  then show ?thesis by (cases "d_verdict (layered_decision x g clock req st)") auto
qed

definition demo_numbers :: "(string \<Rightarrow> int option) \<Rightarrow> bool" where
  "demo_numbers pu \<longleftrightarrow> pu ''20'' = Some 20000000 \<and> pu ''2'' = Some 2000000 \<and> pu ''0.50'' = Some 500000 \<and> pu ''15'' = Some 15000000"

definition demo_pay :: "int \<Rightarrow> address \<Rightarrow> string \<Rightarrow> payment_request" where
  "demo_pay n recipient intent = \<lparr>r_intent = intent, r_amount = n, r_token = demo_usdc, r_recipient = recipient,
     r_chain = DEFAULT_CHAIN, r_agentId = ''research-agent-1'', r_resourceUrl = None\<rparr>"

text \<open>The demo policy on a cold start: cap, approval line and allowlist.\<close>

lemma demo_policy_verdicts:
  assumes "demo_numbers pu" "demo_policy pu = Some pol" "0 < n" "n \<le> 20000000"
  shows "er_escalate (PolicyEvaluator_evaluate url (new_evaluator pol) (demo_pay n r i) now) \<longleftrightarrow> n > 2000000"
    "blocks (PolicyEvaluator_evaluate url (new_evaluator pol) (demo_pay n r i) now) \<longleftrightarrow> lower r \<noteq> demo_known"
proof -
  have known: "normalize_entries [lower demo_known] = [demo_known]" by code_simp
  note defs = PolicyEvaluator_evaluate_def demo_policy_def demo_numbers_def demo_pay_def new_evaluator_def
    rule_context_of_def windowedSpend_def checkSpendCap_def checkAllowlist_def no_result_def pass_def failing_def Let_def
    blocks_def
  show "er_escalate (PolicyEvaluator_evaluate url (new_evaluator pol) (demo_pay n r i) now) \<longleftrightarrow> n > 2000000"
    "blocks (PolicyEvaluator_evaluate url (new_evaluator pol) (demo_pay n r i) now) \<longleftrightarrow> lower r \<noteq> demo_known"
    using assms by (cases "lower r = demo_known"; cases "2000000 < n"; auto simp: defs known)+
qed

lemma demo_valid:
  assumes "0 < n" "x_isAddress x r" "x_isAddressStrict x r" "x_isAddress x demo_usdc" "x_isAddressStrict x demo_usdc"
  shows "validateRequest x (demo_pay n r i) = None"
proof -
  have "caip2_ok DEFAULT_CHAIN" by code_simp
  moreover have "first_address_problem x [(''recipient'', r), (''token'', demo_usdc)] = None"
    using assms by (simp add: first_address_problem_None)
  ultimately show ?thesis
    using assms(1) by (simp add: validateRequest_def demo_pay_def)
qed

lemma demo_verdict:
  assumes "demo_numbers pu" "demo_policy pu = Some pol" "0 < n" "n \<le> 20000000"
    and "resolveLLMConfig (x_env x) no_llm = None"
    and "x_isAddress x demo_known" "x_isAddressStrict x demo_known" "x_isAddress x demo_usdc" "x_isAddressStrict x demo_usdc"
    and cold: "cold_guard pol (g, st)"
  shows "d_verdict (fst (AgentGuard_evaluate x g clock (demo_pay n demo_known i) st)) =
       (if n > 2000000 then Escalate else Allow)"
    and "lower r \<noteq> demo_known \<Longrightarrow>
       d_verdict (fst (AgentGuard_evaluate x g clock (demo_pay n r i) st)) = Block"
proof -
  have "p_anomalyThreshold pol > 0" using assms(1,2) by (auto simp: demo_policy_def demo_numbers_def)
  note layers = demo_layers [OF cold assms(5) _ this, of "demo_pay n r i" clock for r]
  have breaker: "ag_breaker g = None" using cold by (simp add: cold_guard_def)
  have url: "r_resourceUrl (demo_pay n r i) = None" for r by (simp add: demo_pay_def)
  have "lower demo_known = demo_known" by code_simp
  then show "d_verdict (fst (AgentGuard_evaluate x g clock (demo_pay n demo_known i) st)) =
       (if n > 2000000 then Escalate else Allow)"
    using layers [OF url, of demo_known] demo_policy_verdicts [OF assms(1-4), of "x_url x"]
      evaluate_no_breaker [of g x _ _ st, OF breaker demo_valid [OF assms(3,6-9)]]
    by simp
  show "d_verdict (fst (AgentGuard_evaluate x g clock (demo_pay n r i) st)) = Block"
    if "lower r \<noteq> demo_known"
  proof (cases "validateRequest x (demo_pay n r i)")
    case None
    then show ?thesis
      using layers [OF url, of r] demo_policy_verdicts [OF assms(1-4), of "x_url x"] that
        evaluate_no_breaker [of g x _ _ st, OF breaker None]
      by simp
  next
    case (Some c)
    then show ?thesis by (simp add: AgentGuard_evaluate_def breaker_open_def breaker blocked_decision_def)
  qed
qed

text \<open>
  The demo shows what its description announces: without an LLM, on any clock, the known payee's
  small payment is allowed, the large one escalated, and the attacker's blocked. The hypotheses: the
  amounts parse, the payee and the token are well-formed addresses, and the default store holds no
  settled and no edited payment of the demo's agent.
\<close>

theorem demo_decides:
  assumes "demo_command x fu ops pu clock uuid now failure sg s = Some (ds, s')"
    and "demo_numbers pu" "resolveLLMConfig (x_env x) no_llm = None"
    and "x_isAddress x demo_known" "x_isAddressStrict x demo_known" "x_isAddress x demo_usdc" "x_isAddressStrict x demo_usdc"
    and "nothing_spent x fu (clock 0 0) sg"
  shows "map d_verdict ds = [Allow, Escalate, Block]"
proof -
  obtain pol where pol: "demo_policy pu = Some pol" "p_agentId pol = ''research-agent-1''"
    using assms(2) by (simp add: demo_policy_def demo_numbers_def)
  obtain g lg st anchoring where create: "AgentGuard_create x (sqlite_ops fu) failure (clock 0) pol
      (cli_guard_config DEFAULT_CHAIN None None) sg = (g, lg, st, anchoring)"
    by (rule prod_cases4)
  note cold = demo_created [OF create assms(8) pol(2)]
  have reqs: "those (demo_scenarios pu) =
      Some [demo_pay 500000 demo_known ''weather data for trip'', demo_pay 15000000 demo_known ''bulk compute'',
        demo_pay 15000000 demo_attacker ''weather data'']"
    using assms(2) by (simp add: demo_scenarios_def demo_numbers_def mkReq_def demo_pay_def)
  have attacker: "lower demo_attacker \<noteq> demo_known" by code_simp
  note v = demo_verdict [OF assms(2) pol(1) _ _ assms(3-7) cold]
  note same = evaluate_state_no_breaker [of g x _ _ st]
  have "ag_breaker g = None" using cold by (simp add: cold_guard_def)
  then show ?thesis
    using assms(1) v(1) [of 500000] v(1) [of 15000000] v(2) [of 15000000 demo_attacker] attacker
    by (auto simp: demo_command_def pol create reqs case_prod_beta same split: option.splits)
qed

end
