(* ===== verification/Commands.thy ===== *)
theory Commands
  imports Cli Serde Compiler Simulate
begin

text \<open>
  The commands of \<open>packages/cli/src/cli.ts\<close> that build on a policy of the user: \<open>policy create\<close>, \<open>report\<close>,
  \<open>simulate\<close>, \<open>serve\<close> and \<open>eval\<close>. Files are a map from paths to texts, the audit databases a function from
  paths to stores. Number literals are read by \<open>rd\<close> (of policies) and \<open>rdn\<close> (of requests, \<open>None\<close> for one that is not
  finite); \<open>coerce\<close> is \<open>Number(v)\<close>. Numeric options are integers.
\<close>

section \<open>Policy files\<close>

datatype command_error = Ce_compile compile_error | Ce_no_file | Ce_syntax

text \<open>
  \<open>policy create\<close>: the file that is written, and the number of rules that is printed. \<open>read_policy\<close> is
  \<open>policyFromJSON(readFileSync(path))\<close> with the cast to \<open>Policy\<close>.
\<close>

definition policy_create ::
  "(json \<Rightarrow> real option) \<Rightarrow> environment \<Rightarrow> http \<Rightarrow> (real \<Rightarrow> string) \<Rightarrow> string \<Rightarrow> string \<Rightarrow> cli_llm_options \<Rightarrow> string \<Rightarrow> string option \<Rightarrow>
     (string \<rightharpoonup> string) \<Rightarrow> command_error + nat \<times> (string \<rightharpoonup> string)" where
  "policy_create coerce env http num txt agent llm chain path files =
     (case compilePolicy coerce env http txt agent (Llm_config (resolveCliLLM llm)) (Some chain) of
        Inl e \<Rightarrow> Inl (Ce_compile e)
      | Inr policy \<Rightarrow>
          (let file = (case path of Some p \<Rightarrow> p | None \<Rightarrow> agent @ ''.policy.json'')
           in Inr (length (p_rules policy), files(file \<mapsto> policyToJSON num policy))))"

definition read_policy :: "(string \<Rightarrow> real) \<Rightarrow> (string \<rightharpoonup> string) \<Rightarrow> string \<Rightarrow> command_error + policy" where
  "read_policy rd files path =
     (case files path of
        None \<Rightarrow> Inl Ce_no_file
      | Some s \<Rightarrow>
          (case Option.bind (policyFromJSON rd s) (policy_of_value rd) of None \<Rightarrow> Inl Ce_syntax | Some p \<Rightarrow> Inr p))"

section \<open>report and simulate\<close>

text \<open>\<open>None\<close>: there are no entries.\<close>

definition report_command :: "'s store_ops \<Rightarrow> string option \<Rightarrow> int \<Rightarrow> 's \<Rightarrow> analytics_report option" where
  "report_command ops agent topN s =
     (let r = report (AuditLogger_list ops agent s) (Some topN) in if rp_total r = 0 then None else Some r)"

text \<open>The result and the changed payments that are listed.\<close>

definition simulate_command ::
  "(string \<Rightarrow> url option) \<Rightarrow> clock \<Rightarrow> clock \<Rightarrow> (string \<Rightarrow> real) \<Rightarrow> 's store_ops \<Rightarrow> string option \<Rightarrow> string \<Rightarrow> (string \<rightharpoonup> string) \<Rightarrow> 's \<Rightarrow>
     command_error + (simulation_result \<times> simulation_entry list) option" where
  "simulate_command url clk obs_clk rd ops agent path files s =
     (let history = AuditLogger_list ops agent s
      in if length history = 0 then Inr None
         else (case read_policy rd files path of
                 Inl e \<Rightarrow> Inl e
               | Inr candidate \<Rightarrow>
                   (let result = simulatePolicy url clk obs_clk history candidate
                    in Inr (Some (result, take 15 (filter se_changed (sr_entries result)))))))"

section \<open>serve\<close>

record serve_options =
  sv_policy :: string
  sv_token :: "string option"
  sv_rateLimitMax :: int
  sv_rateLimitWindowMs :: int
  sv_breakerWindow :: int
  sv_breakerMaxBlocks :: int
  sv_breakerMaxAnomalies :: int

definition serve_config :: "serve_options \<Rightarrow> guard_config" where
  "serve_config opts =
     (cli_guard_config DEFAULT_CHAIN None None)
       \<lparr>gc_approvalQueue := True,
        gc_circuitBreaker := Some \<lparr>bc_windowSeconds = sv_breakerWindow opts, bc_maxBlocks = Some (sv_breakerMaxBlocks opts),
          bc_maxEscalations = None, bc_maxAnomalies = Some (sv_breakerMaxAnomalies opts), bc_cooldownSeconds = None\<rparr>\<rparr>"

definition serve_control_options :: "serve_options \<Rightarrow> control_options" where
  "serve_control_options opts =
     \<lparr>co_token = sv_token opts,
      co_rateLimit = RL_limit \<lparr>rl_windowMs = sv_rateLimitWindowMs opts, rl_max = sv_rateLimitMax opts\<rparr>\<rparr>"

text \<open>
  The guard is created over the default store, with content \<open>sg\<close> (or \<open>failure\<close> if it cannot be read), and served.
\<close>

definition serve_command ::
  "externals \<Rightarrow> (int \<Rightarrow> string) \<Rightarrow> thrown option \<Rightarrow> clock \<Rightarrow> (string \<Rightarrow> real) \<Rightarrow> (string \<rightharpoonup> string) \<Rightarrow> serve_options \<Rightarrow> sqlite \<Rightarrow>
     command_error + agent_guard \<times> control_options \<times> sqlite control" where
  "serve_command x fu failure clock rd files opts sg =
     (case read_policy rd files (sv_policy opts) of
        Inl e \<Rightarrow> Inl e
      | Inr policy \<Rightarrow>
          (case AgentGuard_create x (sqlite_ops fu) failure clock policy (serve_config opts) sg of
             (g, lg, st, anchoring) \<Rightarrow>
               Inr (g, serve_control_options opts,
                    \<lparr>ct_guard = st, ct_queue = Some (new_queue None), ct_hits = Map.empty\<rparr>)))"

text \<open>What happens to the server: a request, with its clock and arrival, or another process writes the log.\<close>

datatype 's serve_event = Served clock int http_request | Log_written 's

fun serve_run ::
  "externals \<Rightarrow> (string \<Rightarrow> real option) \<Rightarrow> (string \<Rightarrow> string option) \<Rightarrow> 's store_ops \<Rightarrow> agent_guard \<Rightarrow> control_options \<Rightarrow>
     's serve_event list \<Rightarrow> 's control \<Rightarrow> answer option list \<times> 's control" where
  "serve_run x rdn pathname ops g opts [] st = ([], st)"
| "serve_run x rdn pathname ops g opts (Served clock now req # events) st =
     (case handle x rdn pathname ops g opts clock now req st of
        (answer, st') \<Rightarrow> apfst (Cons answer) (serve_run x rdn pathname ops g opts events st'))"
| "serve_run x rdn pathname ops g opts (Log_written s # events) st =
     serve_run x rdn pathname ops g opts events (st\<lparr>ct_guard := (ct_guard st)\<lparr>gs_store := s\<rparr>\<rparr>)"

section \<open>eval\<close>

text \<open>
  The command parses a policy and a request from its input. \<open>Failed\<close> ends with exit code 1;
  \<open>Untyped_input\<close> is an input whose members have other types than the casts say, which is outside the model.
\<close>

datatype eval_outcome = Printed string | Failed | Untyped_input

definition json_truthy :: "(string \<Rightarrow> real option) \<Rightarrow> json option \<Rightarrow> bool" where
  "json_truthy rdn j =
     (case j of
        None \<Rightarrow> False
      | Some JNull \<Rightarrow> False
      | Some (JBool b) \<Rightarrow> b
      | Some (JNum l) \<Rightarrow> rdn l \<noteq> Some 0
      | Some (JStr s) \<Rightarrow> s \<noteq> []
      | _ \<Rightarrow> True)"

text \<open>The cast of an object to \<open>LLMConfig\<close>, \<open>None\<close> where it does not hold.\<close>

definition llm_of_json :: "json \<Rightarrow> llm_config option" where
  "llm_of_json j =
     (case (optional_field j ''provider'', optional_field j ''apiKey'', optional_field j ''baseUrl'', optional_field j ''model'') of
        (Some p, Some k, Some b, Some m) \<Rightarrow>
          (case p of
             None \<Rightarrow> Some \<lparr>lc_provider = None, lc_apiKey = k, lc_baseUrl = b, lc_model = m\<rparr>
           | Some s \<Rightarrow>
               if s = ''anthropic'' then Some \<lparr>lc_provider = Some Anthropic, lc_apiKey = k, lc_baseUrl = b, lc_model = m\<rparr>
               else if s = ''ollama'' then Some \<lparr>lc_provider = Some Ollama, lc_apiKey = k, lc_baseUrl = b, lc_model = m\<rparr>
               else None)
      | _ \<Rightarrow> None)"

definition eval_llm :: "(string \<Rightarrow> real option) \<Rightarrow> json \<Rightarrow> llm_config option option" where
  "eval_llm rdn request =
     (case json_get request ''llm'' of
        Some (JObj ms) \<Rightarrow> map_option Some (llm_of_json (JObj ms))
      | j \<Rightarrow> Some (if json_truthy rdn j then Some no_llm else None))"

text \<open>\<open>request.db\<close>: the audit store; without it nothing is hydrated, and the default store is not read.\<close>

definition eval_store :: "(string \<Rightarrow> real option) \<Rightarrow> (string \<Rightarrow> sqlite) \<Rightarrow> json \<Rightarrow> (sqlite \<times> bool option) option" where
  "eval_store rdn dbs request =
     (if json_truthy rdn (json_get request ''db'')
      then map_option (\<lambda>p. (dbs p, None)) (string_field request ''db'')
      else Some ([], Some False))"

text \<open>\<open>request.chain\<close> as an argument of \<open>compilePolicyObject\<close>: a value other than a string is no chain.\<close>

definition eval_chain :: "json \<Rightarrow> string option field" where
  "eval_chain request =
     (case json_get request ''chain'' of
        None \<Rightarrow> Field None
      | Some (JStr c) \<Rightarrow> Field (Some c)
      | Some (JArr vs) \<Rightarrow> Untyped
      | Some j \<Rightarrow> Throws)"

definition eval_json :: "(int \<Rightarrow> string) \<Rightarrow> (real \<Rightarrow> string) \<Rightarrow> policy_decision \<Rightarrow> json" where
  "eval_json fu num d =
     JObj [(''verdict'', JStr (verdict_text (d_verdict d))), (''riskScore'', JNum (num (d_riskScore d))),
       (''reason'', JStr (reason_text fu (d_reason d))), (''checks'', JArr (map (check_json fu) (d_checks d)))]"

text \<open>The policy and the payment that the input asks for.\<close>

definition eval_input ::
  "(json \<Rightarrow> real option) \<Rightarrow> (string \<Rightarrow> real option) \<Rightarrow> json \<Rightarrow> (policy \<times> payment_request) field" where
  "eval_input coerce rdn input =
     (case (json_get input ''request'', json_get input ''policy'') of
        (None, _) \<Rightarrow> Throws
      | (Some JNull, _) \<Rightarrow> Throws
      | (_, None) \<Rightarrow> Throws
      | (Some request, Some policyInput) \<Rightarrow>
          (case (string_field_or ''bridge-agent'' request ''agentId'', eval_chain request) of
             (None, _) \<Rightarrow> Untyped
           | (_, Throws) \<Rightarrow> Throws
           | (_, Untyped) \<Rightarrow> Untyped
           | (Some agentId, Field chain) \<Rightarrow>
               (case compilePolicyObject coerce policyInput agentId None chain of
                  Inl e \<Rightarrow> Throws
                | Inr policy \<Rightarrow>
                    (case payment_of_json rdn agentId request of
                       Throws \<Rightarrow> Throws
                     | Untyped \<Rightarrow> Untyped
                     | Field req \<Rightarrow> Field (policy, req)))))"

definition eval_command ::
  "externals \<Rightarrow> (json \<Rightarrow> real option) \<Rightarrow> (string \<Rightarrow> real option) \<Rightarrow> (int \<Rightarrow> string) \<Rightarrow> thrown option \<Rightarrow> (string \<Rightarrow> sqlite) \<Rightarrow>
     clock \<Rightarrow> clock \<Rightarrow> string \<Rightarrow> eval_outcome" where
  "eval_command x coerce rdn fu failure dbs clock clock' raw =
     (case json_parse raw of
        None \<Rightarrow> Failed
      | Some input \<Rightarrow>
          (case eval_input coerce rdn input of
             Throws \<Rightarrow> Failed
           | Untyped \<Rightarrow> Untyped_input
           | Field (policy, req) \<Rightarrow>
               (let request = the (json_get input ''request'')
                in case (eval_llm rdn request, eval_store rdn dbs request) of
                     (Some llm, Some (store, hydrate)) \<Rightarrow>
                       (case AgentGuard_create x (sqlite_ops fu) failure clock policy
                               (cli_guard_config (r_chain req) llm hydrate) store of
                          (g, lg, st, anchoring) \<Rightarrow>
                            Printed (json_text (eval_json fu (x_num x) (fst (AgentGuard_evaluate x g clock' req st))) @ [CHR 0x0A]))
                   | _ \<Rightarrow> Untyped_input)))"

section \<open>Properties\<close>

text \<open>
  What \<open>policy create\<close> writes is what the other commands read: the one file that changes holds the
  policy that was compiled, with as many rules as were announced, for the agent and with the text it was compiled
  from, and it is read back as that policy where the policy's threshold is printed as a number and read as
  itself. It fails only as the compilation fails.
\<close>

theorem created_policy_is_read_back:
  "case policy_create coerce env http num txt agent llm chain path files of
     Inl e \<Rightarrow> \<exists>ce. e = Ce_compile ce \<and> compilePolicy coerce env http txt agent (Llm_config (resolveCliLLM llm)) (Some chain) = Inl ce
   | Inr (n, files') \<Rightarrow>
       \<exists>p target. compilePolicy coerce env http txt agent (Llm_config (resolveCliLLM llm)) (Some chain) = Inr p \<and>
         target = (case path of Some f \<Rightarrow> f | None \<Rightarrow> agent @ ''.policy.json'') \<and>
         files' = files(target \<mapsto> policyToJSON num p) \<and>
         n = length (p_rules p) \<and> p_agentId p = agent \<and> p_sourceText p = Some txt \<and>
         (if number_ok (num (p_anomalyThreshold p)) \<and> rd (num (p_anomalyThreshold p)) = p_anomalyThreshold p
          then read_policy rd files' target = Inr p else True)"
proof (cases "compilePolicy coerce env http txt agent (Llm_config (resolveCliLLM llm)) (Some chain)")
  case (Inr p)
  then have "p_agentId p = agent \<and> p_sourceText p = Some txt"
    by (auto simp: compilePolicy_def compilePolicyObject_def split: sum.splits option.splits)
  then show ?thesis by (simp add: policy_create_def Inr Let_def read_policy_def policy_reads_back)
qed (simp add: policy_create_def)

lemma empty_queue [simp]: "ApprovalQueue_list (new_queue d) = []" "ApprovalQueue_resolve i a (new_queue d) = (False, new_queue d)"
  by (simp_all add: ApprovalQueue_list_def ApprovalQueue_resolve_def new_queue_def)

text \<open>A breaker that only reads, resets and forgets: it neither records nor trips.\<close>

definition shrinks :: "breaker \<Rightarrow> breaker \<Rightarrow> bool" where
  "shrinks b b' \<longleftrightarrow> (bk_openedAt b' = None \<or> bk_openedAt b' = bk_openedAt b) \<and> set (bk_events b') \<subseteq> set (bk_events b)"

lemma shrinks_refl [simp]: "shrinks b b"
  by (simp add: shrinks_def)

lemma shrinks_trans: "shrinks a b \<Longrightarrow> shrinks b c \<Longrightarrow> shrinks a c"
  by (auto simp: shrinks_def)

lemma shrinks_ops:
  "shrinks b (CircuitBreaker_reset b)" "shrinks b (snd (CircuitBreaker_isOpen cfg now b))"
  "shrinks b (snd (CircuitBreaker_state cfg now b))" "shrinks b (snd (CircuitBreaker_counts cfg now b))"
  "shrinks b (snd (breaker_open g now b))"
  by (auto simp: shrinks_def CircuitBreaker_reset_def CircuitBreaker_isOpen_def CircuitBreaker_state_def CircuitBreaker_counts_def
      CircuitBreaker_prune_def breaker_open_def Let_def split: option.splits)

text \<open>The part of the state that a request to this server cannot change.\<close>

definition served :: "'s control \<Rightarrow> 's control \<Rightarrow> bool" where
  "served st st' \<longleftrightarrow> ct_queue st = Some (new_queue None) \<and> ct_queue st' = Some (new_queue None) \<and>
     gs_evaluator (ct_guard st') = gs_evaluator (ct_guard st) \<and> gs_behavioral (ct_guard st') = gs_behavioral (ct_guard st) \<and>
     gs_resources (ct_guard st') = gs_resources (ct_guard st) \<and>
     shrinks (gs_breaker (ct_guard st)) (gs_breaker (ct_guard st'))"

lemma served_trans: "served a b \<Longrightarrow> served b c \<Longrightarrow> served a c"
  by (auto simp: served_def intro: shrinks_trans)

lemma evaluate_shrinks:
  "\<exists>b. snd (AgentGuard_evaluate x g clock req gs) = gs\<lparr>gs_breaker := b\<rparr> \<and> shrinks (gs_breaker gs) b"
  using shrinks_ops(5) [of "gs_breaker gs" g "clock 0"]
  by (auto simp: AgentGuard_evaluate_def Let_def split: prod.splits option.splits)

lemma served_handlers:
  assumes q: "ct_queue st = Some (new_queue None)"
  shows "served st (snd (handle_evaluate x rdn g clock raw st))" "served st (snd (handle_resolve i a st))"
    "served st (snd (handle_breaker g clock st))" "served st (snd (handle_reset g clock st))"
proof -
  show "served st (snd (handle_evaluate x rdn g clock raw st))"
    using evaluate_shrinks [of x g clock _ "ct_guard st"] q
    by (auto simp: handle_evaluate_def served_def Let_def split_beta split: option.splits field.splits)
       (metis guard_state.select_convs guard_state.surjective guard_state.update_convs(4))+
  show "served st (snd (handle_resolve i a st))" using q by (simp add: handle_resolve_def served_def)
  show "served st (snd (handle_breaker g clock st))"
    using q shrinks_trans [OF shrinks_ops(3) shrinks_ops(4)]
    by (auto simp: handle_breaker_def served_def set_breaker_def Let_def split_beta split: option.splits)
  show "served st (snd (handle_reset g clock st))"
    using q shrinks_trans [OF shrinks_ops(1) shrinks_ops(3)] shrinks_ops(1)
    by (auto simp: handle_reset_def AgentGuard_resetCircuitBreaker_def served_def set_breaker_def Let_def split_beta split: option.splits)
qed

lemma served_refl: "ct_queue st = Some (new_queue None) \<Longrightarrow> served st st"
  by (simp add: served_def)

lemma served_route:
  "ct_queue st = Some (new_queue None) \<Longrightarrow> served st (snd (handle_route x rdn ops g clock meth path body st))"
  unfolding handle_route_def by (simp add: served_handlers served_refl split_beta)

lemma served_handle:
  assumes "ct_queue st = Some (new_queue None)"
  shows "served st (snd (handle x rdn pathname ops g opts clock now req st))"
proof -
  have hits: "served st (st\<lparr>ct_hits := h\<rparr>)" "ct_queue (st\<lparr>ct_hits := h\<rparr>) = Some (new_queue None)" for h
    using assms by (simp_all add: served_def)
  show ?thesis
    unfolding handle_def
    by (auto simp: hits served_refl [OF assms] split: option.splits prod.splits
        intro: served_trans [OF hits(1) served_route [OF hits(2)]])
qed

lemma served_run: "ct_queue st = Some (new_queue None) \<Longrightarrow> served st (snd (serve_run x rdn pathname ops g opts events st))"
proof (induction x rdn pathname ops g opts events st rule: serve_run.induct)
  case (2 x rdn pathname ops g opts clock now req events st)
  obtain answer st' where h: "handle x rdn pathname ops g opts clock now req st = (answer, st')" by fastforce
  have "served st st'" using served_handle [OF 2(2)] h by (metis snd_conv)
  then have "served st' (snd (serve_run x rdn pathname ops g opts events st'))"
    by (intro 2(1) [OF h [symmetric]]) (simp add: served_def)
  from served_trans [OF \<open>served st st'\<close> this] show ?case by (simp add: h)
qed (auto simp: served_def)

text \<open>
  The control plane of \<open>agentctl serve\<close> has nothing to control: whatever it is asked, and whatever other
  processes write to the log meanwhile, no payment is ever pending, so every approval and denial is refused; nothing is
  counted or learned, so the caps, the rate limits and the score are judged on the state of the start for ever; and the
  breaker never trips, whatever its limits: it is closed, or as it was at the start.
\<close>

theorem serve_has_nothing_to_control:
  "case serve_command x fu failure clock rd files opts sg of
     Inl e \<Rightarrow> read_policy rd files (sv_policy opts) = Inl e
   | Inr (g, copts, st0) \<Rightarrow>
       (case serve_run x rdn pathname (sqlite_ops fu) g copts events st0 of
          (replies, st) \<Rightarrow>
            gs_evaluator (ct_guard st) = gs_evaluator (ct_guard st0) \<and>
            gs_behavioral (ct_guard st) = gs_behavioral (ct_guard st0) \<and>
            gs_resources (ct_guard st) = gs_resources (ct_guard st0) \<and>
            bk_openedAt (gs_breaker (ct_guard st)) \<in> {None, bk_openedAt (gs_breaker (ct_guard st0))} \<and>
            handle_route x rdn (sqlite_ops fu) g c ''GET'' ''/approvals'' body st = (Some (200, B_pending []), st) \<and>
            (if i \<noteq> [] \<and> CHR ''/'' \<notin> set i
             then handle_route x rdn (sqlite_ops fu) g c ''POST''
                    (''/approvals/'' @ i @ (if a then ''/approve'' else ''/deny'')) body st = (Some (404, B_resolved False), st)
             else True))"
proof (cases "serve_command x fu failure clock rd files opts sg")
  case (Inr r)
  obtain g copts st0 where r: "r = (g, copts, st0)" by (cases r) auto
  obtain replies st where run: "serve_run x rdn pathname (sqlite_ops fu) g copts events st0 = (replies, st)" by fastforce
  have "ct_queue st0 = Some (new_queue None)"
    using Inr r by (auto simp: serve_command_def split: sum.splits prod.splits)
  from served_run [OF this, of x rdn pathname "sqlite_ops fu" g copts events] have st: "served st0 st" by (simp add: run)
  have "approval_route (''/approvals/'' @ i @ (if a then ''/approve'' else ''/deny'')) = Some (i, a)"
    if "i \<noteq> []" "CHR ''/'' \<notin> set i"
    using that by (simp only: approval_route_iff) simp
  then show ?thesis
    using st by (auto simp: Inr r run served_def shrinks_def handle_route_def handle_resolve_def)
qed (auto simp: serve_command_def split: sum.splits prod.splits)

text \<open>The line that \<open>eval\<close> prints.\<close>

lemma json_parse_line: "json_ok v \<Longrightarrow> json_parse (json_text v @ [CHR 0x0A]) = Some v"
  using json_reads_back [of v, THEN reads_backD, of "[CHR 0x0A]" "2 * length (json_text v @ [CHR 0x0A]) + 1"]
  by (simp add: json_parse_def delimited_def number_char_def is_digit_def)

lemma eval_json_ok: "number_ok (num (d_riskScore d)) \<Longrightarrow> json_ok (eval_json fu num d)"
  by (auto simp: eval_json_def check_json_def list_all_iff)

lemma payment_of_json_Field:
  assumes "payment_of_json rdn a r = Field req"
  shows "string_field_or a r ''agentId'' = Some (r_agentId req)" "string_field_or ''eip155:84532'' r ''chain'' = Some (r_chain req)"
  using assms by (auto simp: payment_of_json_def split: field.splits option.splits)

lemma compiled_agent_chain:
  assumes "compilePolicyObject coerce j agentId src chain = Inr p"
  shows "p_agentId p = agentId \<and> (\<exists>cfg. getChain (case chain of None \<Rightarrow> ''eip155:84532'' | Some c \<Rightarrow> c) = Inr cfg)"
  using assms by (auto simp: compilePolicyObject_def split: option.splits sum.splits)

lemma eval_chain_Field:
  "eval_chain r = Field chain \<Longrightarrow> string_field_or ''eip155:84532'' r ''chain'' = Some (case chain of None \<Rightarrow> ''eip155:84532'' | Some c \<Rightarrow> c)"
  by (auto simp: eval_chain_def string_field_or_def split: option.splits json.splits)

lemma string_field_or_twice: "string_field_or d r k = Some v \<Longrightarrow> string_field_or v r k = Some w \<Longrightarrow> w = v"
  by (auto simp: string_field_or_def split: option.splits json.splits)

lemma eval_input_Field:
  assumes "eval_input coerce rdn input = Field (policy, req)"
  shows "p_agentId policy = r_agentId req \<and> (\<exists>cfg. getChain (r_chain req) = Inr cfg)"
proof -
  obtain request pol agentId chain where a: "string_field_or ''bridge-agent'' request ''agentId'' = Some agentId"
    and c: "eval_chain request = Field chain" and p: "compilePolicyObject coerce pol agentId None chain = Inr policy"
    and r: "payment_of_json rdn agentId request = Field req"
    using assms by (auto simp: eval_input_def split: option.splits json.splits field.splits sum.splits)
  show ?thesis
    using compiled_agent_chain [OF p] payment_of_json_Field [OF r] eval_chain_Field [OF c] string_field_or_twice [OF a] by auto
qed

lemma eval_printed:
  assumes "eval_command x coerce rdn fu failure dbs clock clock' raw = Printed out"
  obtains input policy req llm hydrate store g lg st anchoring where
    "json_parse raw = Some input" "eval_input coerce rdn input = Field (policy, req)"
    "AgentGuard_create x (sqlite_ops fu) failure clock policy (cli_guard_config (r_chain req) llm hydrate) store = (g, lg, st, anchoring)"
    "out = json_text (eval_json fu (x_num x) (fst (AgentGuard_evaluate x g clock' req st))) @ [CHR 0x0A]"
  using assms unfolding eval_command_def Let_def by (auto split: option.splits field.splits prod.splits)

text \<open>
  What the bridge prints is the guard's decision: a line that parses to the verdict, the score, the reason and the
  checks of \<open>evaluate\<close> on the payment of the input, by a guard made for the policy compiled from the input, for
  the payment's agent and on its chain, which is supported. The command fails only on an input that is no
  JSON, or from which no policy and payment can be built.
\<close>

theorem eval_prints_the_decision:
  "case eval_command x coerce rdn fu failure dbs clock clock' raw of
     Printed out \<Rightarrow>
       \<exists>input policy req llm hydrate store g lg st anchoring d.
         json_parse raw = Some input \<and> eval_input coerce rdn input = Field (policy, req) \<and>
         p_agentId policy = r_agentId req \<and> (\<exists>cfg. getChain (r_chain req) = Inr cfg) \<and>
         AgentGuard_create x (sqlite_ops fu) failure clock policy (cli_guard_config (r_chain req) llm hydrate) store =
           (g, lg, st, anchoring) \<and>
         d = fst (AgentGuard_evaluate x g clock' req st) \<and>
         (if number_ok (x_num x (d_riskScore d))
          then \<exists>j. json_parse out = Some j \<and> get_str j ''verdict'' = Some (verdict_text (d_verdict d)) \<and>
            get_str j ''reason'' = Some (reason_text fu (d_reason d)) \<and>
            json_get j ''checks'' = Some (JArr (map (check_json fu) (d_checks d)))
          else True)
   | Failed \<Rightarrow>
       (case json_parse raw of None \<Rightarrow> True | Some input \<Rightarrow> eval_input coerce rdn input = Throws)
   | Untyped_input \<Rightarrow> \<exists>input. json_parse raw = Some input"
proof -
  have line: "\<exists>j. json_parse (json_text (eval_json fu (x_num x) d) @ [CHR 0x0A]) = Some j \<and>
      get_str j ''verdict'' = Some (verdict_text (d_verdict d)) \<and> get_str j ''reason'' = Some (reason_text fu (d_reason d)) \<and>
      json_get j ''checks'' = Some (JArr (map (check_json fu) (d_checks d)))"
    if "number_ok (x_num x (d_riskScore d))" for d
    using json_parse_line [OF eval_json_ok [where num = "x_num x", OF that]]
    by (simp add: eval_json_def get_str_def json_get_def)
  show ?thesis
  proof (cases "eval_command x coerce rdn fu failure dbs clock clock' raw")
    case (Printed out)
    then obtain input policy req llm hydrate store g lg st anchoring where
      f: "json_parse raw = Some input" "eval_input coerce rdn input = Field (policy, req)"
      "AgentGuard_create x (sqlite_ops fu) failure clock policy (cli_guard_config (r_chain req) llm hydrate) store = (g, lg, st, anchoring)"
      and out: "out = json_text (eval_json fu (x_num x) (fst (AgentGuard_evaluate x g clock' req st))) @ [CHR 0x0A]"
      by (rule eval_printed)
    obtain cfg where c: "p_agentId policy = r_agentId req" "getChain (r_chain req) = Inr cfg"
      using eval_input_Field [OF f(2)] by blast
    show ?thesis
      unfolding Printed eval_outcome.case
      by (intro exI conjI) (rule f(1), rule f(2), rule c(1), rule c(2), rule f(3), rule refl, simp add: out line)
  qed (auto simp: eval_command_def Let_def split: option.splits field.splits prod.splits)
qed

end
