(* ===== verification/Terminal.thy ===== *)
theory Terminal
  imports Commands Integrations
begin

text \<open>
  What the commands of \<open>packages/cli/src/cli.ts\<close> print. The output of a command is the list of the texts it hands
  to \<open>console.log\<close>, each of which ends with a newline on the terminal. The marks, arrows, bullets, dashes and the
  ellipsis of the sources are written in ASCII. \<open>formatUnits\<close> at 6 decimals is the argument \<open>fu\<close>,
  \<open>toISOString\<close> of a time the argument \<open>iso_time\<close>. The theory also shows how far a reader can rely on that output.
\<close>

section \<open>Texts\<close>

definition newline :: char where
  "newline = CHR 0x0A"

text \<open>The texts on the terminal, and the lines a reader sees.\<close>

definition console_text :: "string list \<Rightarrow> string" where
  "console_text ls = concat (map (\<lambda>l. l @ [newline]) ls)"

definition terminal_lines :: "string list \<Rightarrow> string list" where
  "terminal_lines ls = split_on newline (console_text ls)"

definition pad_end :: "nat \<Rightarrow> string \<Rightarrow> string" where
  "pad_end n s = s @ replicate (n - length s) (CHR '' '')"

definition plural :: "nat \<Rightarrow> string \<Rightarrow> string \<Rightarrow> string" where
  "plural n one many = (if n = 1 then one else many)"

definition upper :: "string \<Rightarrow> string" where
  "upper s = map upper_char s"

text \<open>\<open>${(n * 100).toFixed(1)}%\<close>, \<open>formatUnits(BigInt(units), 6)\<close>, and \<open>address.slice(0, n)\<close> with its ellipsis.\<close>

definition pct :: "real \<Rightarrow> string" where
  "pct n = to_fixed 1 (n * 100) @ ''%''"

definition units_text :: "(int \<Rightarrow> string) \<Rightarrow> string \<Rightarrow> string option" where
  "units_text fu units = map_option fu (bigint_of_string units)"

definition short :: "nat \<Rightarrow> string \<Rightarrow> string" where
  "short n a = take n a @ ''...''"

section \<open>check and demo\<close>

fun verdict_tag :: "verdict \<Rightarrow> string" where
  "verdict_tag Allow = ''+ ALLOW   ''"
| "verdict_tag Escalate = ''! ESCALATE''"
| "verdict_tag Block = ''x BLOCK   ''"

definition check_line :: "(int \<Rightarrow> string) \<Rightarrow> policy_check \<Rightarrow> string" where
  "check_line fu c =
     (let label = (if c_passed c then ''PASS'' else if c_severity c = Critical then ''FAIL'' else ''WARN'')
      in ''  * '' @ pad_end 28 (c_id c) @ '' '' @ pad_end 5 label @ '' '' @ message_text fu (c_message c))"

definition renderDecision :: "(int \<Rightarrow> string) \<Rightarrow> payment_request \<Rightarrow> policy_decision \<Rightarrow> string list" where
  "renderDecision fu req d =
     [newline # ''  '' @ verdict_tag (d_verdict d) @ ''  (risk score: '' @ to_fixed 2 (d_riskScore d) @ '')'',
      ''  Payment: '' @ usdc fu (r_amount req) @ '' -> '' @ short 12 (r_recipient req) @ ''  on '' @ r_chain req,
      ''  Intent:  '' @ [CHR 0x22] @ r_intent req @ [CHR 0x22],
      ''  Checks:''] @
     (if length (d_checks d) = 0 then [''  * (no rules fired)''] else []) @
     map (check_line fu) (d_checks d) @
     [''  -> '' @ reason_text fu (d_reason d) @ [newline]]"

definition demo_labels :: "string list" where
  "demo_labels =
     [''normal - pay the known weather API $0.50'', ''large - pay the known API $15 (over $2 approval line)'',
      ''prompt-injected - send $15 to a fresh attacker address'']"

definition demo_lines :: "(int \<Rightarrow> string) \<Rightarrow> string \<Rightarrow> payment_request list \<Rightarrow> policy_decision list \<Rightarrow> string list" where
  "demo_lines fu db reqs ds =
     concat (map (\<lambda>(label, req, d). (newline # ''-- '' @ label @ '' --'') # renderDecision fu req d)
       (zip demo_labels (zip reqs ds))) @
     [''recorded to '' @ db @ '' - run `agentctl audit` to see the trail.'' @ [newline]]"

section \<open>policy create, serve\<close>

fun rule_type :: "policy_rule \<Rightarrow> string" where
  "rule_type (SpendCap r) = ''spend-cap''"
| "rule_type (Allowlist r) = ''allowlist''"
| "rule_type (RateLimit r) = ''rate-limit''"
| "rule_type (Counterparty r) = ''counterparty''"
| "rule_type (TimeWindow r) = ''time-window''"

definition created_lines :: "string \<Rightarrow> policy \<Rightarrow> string list" where
  "created_lines out p =
     (''+ wrote '' @ out @ '' ('' @ nat_to_string (length (p_rules p)) @ '' rules)'') #
     map (\<lambda>r. ''  * '' @ rule_type r) (p_rules p)"

text \<open>The warning before the server starts, the announcement once it listens, and the text of a signal.\<close>

definition serve_warnings :: "string option \<Rightarrow> string list" where
  "serve_warnings token =
     (if truthy token then [] else [''warning: --token not set - the control plane is unauthenticated''])"

definition serve_lines :: "string \<Rightarrow> string option \<Rightarrow> string \<Rightarrow> string option \<Rightarrow> string list" where
  "serve_lines host listening port token =
     [''agentctl control plane -> http://'' @ host @ '':'' @ (case listening of Some p \<Rightarrow> p | None \<Rightarrow> port),
      ''  POST /evaluate * GET /approvals * POST /approvals/:id/(approve|deny) * GET+POST /breaker * GET /report''] @
     (if truthy token then [''  (auth: Authorization: Bearer <token>)''] else [])"

definition shutdown_line :: "string \<Rightarrow> string" where
  "shutdown_line signal = newline # signal @ '' received, closing control plane...''"

text \<open>The handler of \<open>parseAsync\<close>: the message of what an action throws, and the exit code.\<close>

definition uncaught :: "string \<Rightarrow> string \<times> nat" where
  "uncaught msg = (''error: '' @ msg, 1)"

section \<open>audit, report, watch, simulate\<close>

definition settle_text :: "settlement option \<Rightarrow> string" where
  "settle_text s =
     (case s of
        None \<Rightarrow> ''-''
      | Some st \<Rightarrow>
          if truthy (s_txHash st) then ''tx '' @ short 12 (the (s_txHash st))
          else if s_success st then ''settled'' else ''settle-failed'')"

definition payment_text :: "(int \<Rightarrow> string) \<Rightarrow> payment_request \<Rightarrow> string" where
  "payment_text fu req = usdc fu (r_amount req) @ '' -> '' @ short 10 (r_recipient req)"

definition audit_line :: "(int \<Rightarrow> string) \<Rightarrow> (int \<Rightarrow> string) \<Rightarrow> audit_entry \<Rightarrow> string" where
  "audit_line iso_time fu e =
     iso_time (e_timestamp e) @ ''  '' @ pad_end 8 (upper (verdict_text (d_verdict (e_decision e)))) @ '' '' @
     payment_text fu (e_request e) @ ''  '' @ settle_text (e_settlement e) @ ''  ['' @ take 8 (e_id e) @ '']''"

definition audit_lines :: "(int \<Rightarrow> string) \<Rightarrow> (int \<Rightarrow> string) \<Rightarrow> audit_entry list \<Rightarrow> string list" where
  "audit_lines iso_time fu entries =
     (if length entries = 0 then [''no audit entries''] else map (audit_line iso_time fu) entries)"

text \<open>\<open>None\<close>: \<open>BigInt\<close> throws.\<close>

definition report_lines :: "(int \<Rightarrow> string) \<Rightarrow> analytics_report option \<Rightarrow> string list option" where
  "report_lines fu outcome =
     (case outcome of
        None \<Rightarrow> Some [''no audit entries'']
      | Some r \<Rightarrow>
          (let spend = those (map (\<lambda>(token, units).
                 map_option (\<lambda>t. ''    '' @ t @ ''  ('' @ short 10 token @ '')'') (units_text fu units)) (rp_totalSpendByToken r));
               payees = those (map (\<lambda>c. map_option (\<lambda>t. ''    '' @ short 12 (cp_recipient c) @ ''  '' @ nat_to_string (cp_count c) @
                 '' payments  '' @ t @ '' USDC'') (units_text fu (cp_totalSpend c))) (rp_topCounterparties r))
           in case (spend, payees) of
                (Some spend, Some payees) \<Rightarrow>
                  Some ([newline # ''  '' @ nat_to_string (rp_total r) @ '' payments - '' @ nat_to_string (rp_settled r) @ '' settled'',
                    ''  allow '' @ nat_to_string (vc_allow (rp_verdicts r)) @ ''  escalate '' @ nat_to_string (vc_escalate (rp_verdicts r)) @
                      '' ('' @ pct (rp_escalateRate r) @ '')  block '' @ nat_to_string (vc_block (rp_verdicts r)) @ '' ('' @
                      pct (rp_blockRate r) @ '')  anomalies '' @ nat_to_string (rp_anomalies r),
                    ''  settled spend:''] @ spend @
                    (if payees = [] then [] else ''  top counterparties:'' # payees) @ [''''])
              | _ \<Rightarrow> None))"

definition watch_line :: "(int \<Rightarrow> string) \<Rightarrow> (int \<Rightarrow> string) \<Rightarrow> audit_entry \<Rightarrow> string" where
  "watch_line iso_time fu e =
     iso_time (e_timestamp e) @ '' '' @ verdict_text (d_verdict (e_decision e)) @ '' '' @ payment_text fu (e_request e)"

definition watch_banner :: "string option \<Rightarrow> string" where
  "watch_banner agent = ''watching '' @ (case agent of Some a \<Rightarrow> a | None \<Rightarrow> ''all agents'') @ ''... (ctrl-C to stop)''"

definition changed_line :: "(int \<Rightarrow> string) \<Rightarrow> simulation_entry \<Rightarrow> string" where
  "changed_line fu e =
     ''  * '' @ payment_text fu (se_request e) @ ''  '' @ upper (verdict_text (se_recordedVerdict e)) @ '' -> '' @
     upper (verdict_text (se_simulatedVerdict e))"

definition simulate_lines ::
  "(int \<Rightarrow> string) \<Rightarrow> string \<Rightarrow> (simulation_result \<times> simulation_entry list) option \<Rightarrow> string list" where
  "simulate_lines fu path outcome =
     (case outcome of
        None \<Rightarrow> [''no audit history to simulate against'']
      | Some (r, shown) \<Rightarrow>
          [newline # ''  Backtest of '' @ path @ '' over '' @ nat_to_string (sr_total r) @ '' recorded payments:'',
           ''  changed '' @ nat_to_string (sr_changed r) @ ''  -  newly blocked '' @ nat_to_string (sr_newlyBlocked r) @
             '', newly escalated '' @ nat_to_string (sr_newlyEscalated r) @ '', newly allowed '' @
             nat_to_string (sr_newlyAllowed r) @ [newline]] @
          map (changed_line fu) shown @
          (if sr_changed r = 0 then [''  (no verdicts would change)''] else []))"

section \<open>audit --verify\<close>

fun problem_text :: "problem \<Rightarrow> string" where
  "problem_text (P_not_on_chain i n) =
     ''batch#'' @ int_text i @ '' is not on chain ('' @ nat_to_string n @ '' entries affected)''"
| "problem_text (P_root_differs i) = ''batch#'' @ int_text i @ '' local root does not match the committed root''"
| "problem_text (P_count i held committed) =
     (let missing = int committed - int held; off = nat \<bar>missing\<bar>
      in ''batch#'' @ int_text i @ '' holds '' @ nat_to_string held @ '' '' @ plural held ''entry'' ''entries'' @
         '' locally but '' @ nat_to_string committed @ '' '' @ (if committed = 1 then ''was'' else ''were'') @
         '' committed - '' @ nat_to_string off @ '' '' @ plural off ''entry is'' ''entries are'' @ '' '' @
         (if missing > 0 then ''missing from the local log'' else ''present locally but never committed''))"
| "problem_text (P_after_batch e i) = e @ '' claims a timestamp after batch#'' @ int_text i"
| "problem_text (P_edited e) =
     e @ '' was EDITED after it was recorded - its contents no longer match the hash committed on-chain''"
| "problem_text (P_total committed held) =
     ''operator committed '' @ nat_to_string committed @ '' entries on chain but the local log holds '' @
     nat_to_string held @ '' anchored entries''"
| "problem_text P_no_batch_list = ''could not read the operator's full batch list for a completeness check''"

text \<open>The messages that \<open>assertChainId\<close> throws; of every other error \<open>other\<close> gives the message.\<close>

fun client_error_text :: "(client_error \<Rightarrow> string) \<Rightarrow> client_error \<Rightarrow> string" where
  "client_error_text other (Client_chain (Unsupported_chain caip2 supported)) =
     ''Unsupported chain '' @ [CHR 0x22] @ caip2 @ [CHR 0x22] @ ''. Supported: '' @ list_text '', '' supported"
| "client_error_text other (Client_chain_mismatch chain expected actual) =
     ''RPC chain mismatch: configured chain '' @ chain @ '' expects chain id '' @ int_text expected @
     '', but the RPC reports '' @ int_text actual @ ''. Check the RPC URL for this chain.''"
| "client_error_text other e = other e"

definition entry_line :: "string \<Rightarrow> int \<Rightarrow> string \<Rightarrow> string" where
  "entry_line e i outcome = ''  '' @ take 8 e @ ''  batch#'' @ int_text i @ ''  '' @ outcome"

text \<open>The lines for the entries of a batch, with the error that ended them.\<close>

fun group_lines ::
  "(rpc_call \<Rightarrow> string option) \<Rightarrow> (entry_proof \<Rightarrow> bool) \<Rightarrow> int \<Rightarrow> nat \<Rightarrow> (string \<times> entry_proof) list \<Rightarrow>
     audit_entry list \<Rightarrow> string list \<times> string option" where
  "group_lines rpc ok i time proofs [] = ([], None)"
| "group_lines rpc ok i time proofs (e # es) =
     (case map_of proofs (e_id e) of
        None \<Rightarrow> apfst (Cons (''  '' @ take 8 (e_id e) @ ''  ! not present in its own batch'')) (group_lines rpc ok i time proofs es)
      | Some p \<Rightarrow>
          (case rpc (Rpc_verify (e_id e)) of
             Some err \<Rightarrow> ([], Some err)
           | None \<Rightarrow>
               (let good = (ok p \<and> e_timestamp e \<le> int time * 1000 \<and> ep_storedHashMatches p)
                in apfst (Cons (entry_line (e_id e) i
                     (if good then ''+ verified on-chain'' else if ep_storedHashMatches p then ''x MISMATCH'' else ''x EDITED'')))
                     (group_lines rpc ok i time proofs es))))"

definition batch_lines ::
  "(rpc_call \<Rightarrow> string option) \<Rightarrow> (entry_proof \<Rightarrow> bool) \<Rightarrow> anchor \<Rightarrow> address \<Rightarrow> (int \<Rightarrow> (string \<times> entry_proof) list) \<Rightarrow>
     (int \<Rightarrow> audit_entry list) \<Rightarrow> int \<Rightarrow> string list" where
  "batch_lines rpc ok ch operator proofs_of group_of i =
     (let failed = (\<lambda>err. ''  batch#'' @ int_text i @ ''  ! could not verify: '' @ err)
      in case batch_call rpc i of
           Some err \<Rightarrow> [failed err]
         | None \<Rightarrow>
             (case AuditAnchorClient_getBatch ch operator (nat i) of
                (found, mr, time, entryCount) \<Rightarrow>
                  if \<not> found then [''  batch#'' @ int_text i @ ''  x NOT ON CHAIN'']
                  else (case group_lines rpc ok i time (proofs_of i) (group_of i) of
                          (ls, None) \<Rightarrow> ls
                        | (ls, Some err) \<Rightarrow> ls @ [failed err])))"

definition summary_line :: "nat \<Rightarrow> tally \<Rightarrow> string" where
  "summary_line unanchored ty =
     newline # ''  '' @ nat_to_string (ty_verified ty) @ '' verified, '' @ nat_to_string (ty_failed ty) @ '' mismatched, '' @
     nat_to_string unanchored @ '' not yet anchored, '' @ nat_to_string (ty_errored ty) @ '' errored''"

definition closing_lines :: "string option \<Rightarrow> nat \<Rightarrow> tally \<Rightarrow> string list" where
  "closing_lines agent unanchored ty =
     (if agent = None then [] else [''  (completeness check skipped - it needs the full log, not --agent)'']) @
     [summary_line unanchored ty] @ map (\<lambda>p. ''  ! '' @ problem_text p) (ty_problems ty)"

text \<open>What \<open>verifyEntries\<close> prints. Nothing follows on an error that it throws.\<close>

definition verify_lines ::
  "(client_error \<Rightarrow> string) \<Rightarrow> merkle_lib \<Rightarrow> (string \<Rightarrow> hex) \<Rightarrow> (real \<Rightarrow> string) \<Rightarrow> 's store_ops \<Rightarrow> (string \<Rightarrow> string option) \<Rightarrow>
     (rpc_call \<Rightarrow> string option) \<Rightarrow> int \<Rightarrow> address option \<Rightarrow> string \<Rightarrow> string option \<Rightarrow> address option \<Rightarrow> anchor \<Rightarrow> 's \<Rightarrow> string list" where
  "verify_lines other lib kec num ops env rpc chainid committer chain agent operatorOverride ch s =
     (let operator = (case operatorOverride of Some a \<Rightarrow> Some a | None \<Rightarrow> committer);
          client = \<lparr>ac_chain = chain, ac_contractAddress = the (env ''AUDIT_ANCHOR_ADDRESS''), ac_committer = None,
                    ac_confirmationTag = None\<rparr>;
          entries = AuditLogger_list ops agent s
      in if \<not> truthy (env ''AUDIT_ANCHOR_ADDRESS'') then [newline # ''(--verify needs AUDIT_ANCHOR_ADDRESS in env)'']
         else if \<not> truthy operator then
           [newline # ''(--verify needs --operator <address>, or ANCHOR_COMMITTER_KEY in env)'']
         else (case verifyEntries lib kec num ops env rpc chainid committer chain agent operatorOverride ch s of
                 Unreachable e \<Rightarrow> [newline # ''x '' @ client_error_text other e]
               | Checked unanchored ty code \<Rightarrow>
                   (case AuditAnchorClient_leafContext client (the operator) of
                      Inl e \<Rightarrow> []
                    | Inr ctx \<Rightarrow>
                        (newline # ''verification (operator '' @ the operator @ '' on '' @ chain @ ''):'') #
                        concat (map (batch_lines rpc (proof_accepted lib chainid client ch (the operator)) ch (the operator)
                            (\<lambda>i. AuditLogger_proofsForBatch lib kec num ops i ctx s) (batch_group ops s entries))
                          (sort (remdups (List.map_filter (batch_index_of ops s) entries)))) @
                        closing_lines agent unanchored ty)
               | _ \<Rightarrow> []))"

section \<open>What a reader can rely on\<close>

lemma console_text_Nil [simp]: "console_text [] = []"
  by (simp add: console_text_def)

lemma console_text_append [simp]: "console_text (xs @ ys) = console_text xs @ console_text ys"
  by (simp add: console_text_def)

lemma console_text_Cons [simp]: "console_text (l # ls) = l @ newline # console_text ls"
  by (simp add: console_text_def)

lemma console_text_ends:
  assumes "ls \<noteq> []"
  obtains body where "console_text ls = body @ [newline]"
  using assms by (cases ls rule: rev_cases) (auto simp: console_text_def)

lemma rendered_intent:
  obtains above below where
    "\<And>i. console_text (renderDecision fu (req\<lparr>r_intent := i\<rparr>) d) = above @ i @ below"
proof -
  let ?ls = "renderDecision fu (req\<lparr>r_intent := []\<rparr>) d"
  have "console_text (renderDecision fu (req\<lparr>r_intent := i\<rparr>) d) =
      (console_text (take 2 ?ls) @ ''  Intent:  '' @ [CHR 0x22]) @ i @ [CHR 0x22] @ newline # console_text (drop 3 ?ls)" for i
    by (simp add: renderDecision_def del: List.list.map)
  then show thesis by (rule that)
qed

text \<open>
  The intent of a payment is printed as it is. Whoever writes it can make any lines appear below the payment, those of
  an approval included, whatever the verdict.
\<close>

theorem intent_forges_lines:
  "\<exists>above below. terminal_lines (renderDecision fu (req\<lparr>r_intent := newline # console_text forged\<rparr>) d) =
     above @ butlast (terminal_lines forged) @ below"
proof (cases "forged = []")
  case True
  then show ?thesis by (simp add: terminal_lines_def) (metis append_Nil)
next
  case False
  then obtain body where body: "console_text forged = body @ [newline]" by (rule console_text_ends)
  obtain above below where
    "console_text (renderDecision fu (req\<lparr>r_intent := newline # console_text forged\<rparr>) d) =
       above @ (newline # console_text forged) @ below"
    using rendered_intent by metis
  then have "terminal_lines (renderDecision fu (req\<lparr>r_intent := newline # console_text forged\<rparr>) d) =
      split_on newline above @ split_on newline body @ split_on newline below"
    by (simp add: terminal_lines_def body split_on_append_sep)
  moreover have "butlast (terminal_lines forged) = split_on newline body"
    using split_on_append_sep [of newline body "[]"] by (simp add: terminal_lines_def body)
  ultimately show ?thesis by metis
qed

text \<open>\<open>eval\<close> quotes every text, so that its output is one line whatever the texts contain.\<close>

lemma hex_digit_no_newline: "d < 16 \<Longrightarrow> newline \<noteq> hex_digit d"
proof
  assume d: "d < 16" and eq: "newline = hex_digit d"
  have "hex_value newline = None" by code_simp
  then show False using hex_value_digit [OF d] eq by simp
qed

lemma escaped_no_newline: "newline \<notin> set (escape_char c)"
proof -
  have "newline \<noteq> hex_digit (of_char c div 16)" "newline \<noteq> hex_digit (of_char c mod 16)" if "(of_char c :: nat) < 32"
    using that by (intro hex_digit_no_newline; simp)+
  then show ?thesis
    using char_eq_char_of [of c 10] by (auto simp: escape_char_def Let_def newline_def)
qed

lemma quoted_no_newline: "newline \<notin> set (json_quote s)"
  using escaped_no_newline by (auto simp: json_quote_def newline_def)

lemma joined_no_newline: "\<lbrakk>newline \<notin> set sep; \<And>x. x \<in> set xs \<Longrightarrow> newline \<notin> set x\<rbrakk> \<Longrightarrow> newline \<notin> set (join_with sep xs)"
  by (induction sep xs rule: join_with.induct) auto

lemma number_no_newline: "number_ok l \<Longrightarrow> newline \<notin> set l"
  using number_ok_chars [of l] by (auto simp: list_all_iff number_char_def is_digit_def newline_def)

lemma json_no_newline: "json_ok j \<Longrightarrow> newline \<notin> set (json_text j)"
proof (induction j rule: json_text.induct)
  case (3 l)
  then show ?case by (simp add: number_no_newline)
next
  case (4 s)
  then show ?case by (simp add: quoted_no_newline)
next
  case (5 vs)
  have "newline \<notin> set (join_with '','' (map json_text vs))"
    using 5 by (intro joined_no_newline) (auto simp: list_all_iff newline_def)
  then show ?case by (simp add: newline_def)
next
  case (6 ms)
  have "newline \<notin> set (join_with '','' (map (\<lambda>(k, v). json_quote k @ '':'' @ json_text v) ms))"
    using 6 quoted_no_newline by (intro joined_no_newline) (auto simp: list_all_iff newline_def)
  then show ?case by (simp add: newline_def)
qed (simp_all add: newline_def)

lemma eval_prints_one_line:
  assumes "eval_command x coerce rdn fu failure dbs clock clock' raw = Printed t" "\<And>v. number_ok (x_num x v)"
  obtains j where "t = console_text [json_text j]" "terminal_lines [json_text j] = [json_text j, []]" "json_parse (json_text j) = Some j"
proof -
  from assms(1) obtain d where t: "t = json_text (eval_json fu (x_num x) d) @ [newline]"
    by (auto simp: eval_command_def newline_def Let_def split: option.splits field.splits prod.splits)
  have "json_ok (eval_json fu (x_num x) d)" using eval_json_ok [where num = "x_num x", OF assms(2)] by (simp add: eval_json_def)
  then show thesis
    using that [of "eval_json fu (x_num x) d"] json_no_newline t
      split_on_append_sep [of newline "json_text (eval_json fu (x_num x) d)" "[]"]
    by (simp add: terminal_lines_def split_on_no_sep json_parse_text)
qed

text \<open>
  The column of a settlement: with a transaction hash only where the payment settled, as the guard records it, the four
  texts tell apart whether it was attempted, failed or settled.
\<close>

lemma settle_text_tells:
  assumes "\<And>st. s = Some st \<Longrightarrow> truthy (s_txHash st) \<Longrightarrow> s_success st"
  shows "(settle_text s = ''-'') = (s = None)"
    "(settle_text s = ''settle-failed'') = (\<exists>st. s = Some st \<and> \<not> s_success st)"
  using assms by (auto simp: settle_text_def short_def split: option.splits)

text \<open>Amounts are printed as USDC whatever the token: two payments in different tokens give the same line.\<close>

lemma audit_line_ignores_token:
  "audit_line iso_time fu (e\<lparr>e_request := (e_request e)\<lparr>r_token := t\<rparr>\<rparr>) = audit_line iso_time fu e"
  by (simp add: audit_line_def payment_text_def)

text \<open>The report of a log always prints: its units are numerals.\<close>

lemma units_text_numeral [simp]: "units_text fu (bigint_to_string n) = Some (fu n)"
  by (simp add: units_text_def bigint_of_string_to_string)

section \<open>What a verification prints\<close>

lemma add_problem_counts [simp]:
  "ty_verified (add_problem b p ty) = ty_verified ty" "ty_failed (add_problem b p ty) = ty_failed ty"
  "ty_errored (add_problem b p ty) = ty_errored ty"
  by (simp_all add: add_problem_def)

text \<open>The lines agree with the counts: one line per entry, the verified ones marked.\<close>

lemma group_lines_counts:
  assumes "group_lines rpc ok i time proofs es = (ls, err)" "verify_group rpc ok i time proofs es ty = (ty', err')"
  shows "err' = err \<and> (err = None \<longrightarrow> length ls = length es) \<and>
     ty_verified ty' + ty_failed ty' + ty_errored ty' = ty_verified ty + ty_failed ty + ty_errored ty + length ls"
  using assms
proof (induction es arbitrary: ls ty)
  case (Cons e es)
  show ?case
  proof (cases "map_of proofs (e_id e)")
    case None
    then show ?thesis using Cons.prems Cons.IH [of _ "ty\<lparr>ty_errored := ty_errored ty + 1\<rparr>"]
      by (cases "group_lines rpc ok i time proofs es") auto
  next
    case (Some p)
    show ?thesis
    proof (cases "rpc (Rpc_verify (e_id e))")
      case None
      let ?ty2 = "add_problem (\<not> ep_storedHashMatches p) (P_edited (take 8 (e_id e)))
         (add_problem (\<not> e_timestamp e \<le> int time * 1000) (P_after_batch (take 8 (e_id e)) i) ty)"
      let ?good = "ok p \<and> e_timestamp e \<le> int time * 1000 \<and> ep_storedHashMatches p"
      let ?next = "if ?good then ?ty2\<lparr>ty_verified := ty_verified ?ty2 + 1\<rparr> else ?ty2\<lparr>ty_failed := ty_failed ?ty2 + 1\<rparr>"
      obtain ls1 where ls1: "group_lines rpc ok i time proofs es = (ls1, err)" "length ls = Suc (length ls1)"
        using Cons.prems(1) Some None by (cases "group_lines rpc ok i time proofs es") (auto simp: Let_def)
      have "verify_group rpc ok i time proofs es ?next = (ty', err')"
        using Cons.prems(2) Some None by (simp add: Let_def)
      from Cons.IH [OF ls1(1) this] ls1(2) show ?thesis
        by (auto simp: add_problem_def split: if_splits)
    next
      case failed: (Some msg)
      show ?thesis using Cons.prems by (auto simp: Some failed)
    qed
  qed
qed simp

lemma group_lines_clean:
  assumes "list_all (entry_good ok time proofs) es" "group_lines rpc ok i time proofs es = (ls, None)"
  shows "ls = map (\<lambda>e. entry_line (e_id e) i ''+ verified on-chain'') es"
  using assms
  by (induction es arbitrary: ls)
     (auto simp: entry_good_def Let_def apfst_def map_prod_def split: option.splits if_splits prod.splits)

text \<open>A batch that adds nothing bad has each of its entries verified, and says so.\<close>

definition verified_lines :: "audit_entry list \<Rightarrow> int \<Rightarrow> string list" where
  "verified_lines es i = map (\<lambda>e. entry_line (e_id e) i ''+ verified on-chain'') es"

lemma verify_batch_clean:
  assumes "group_of i \<noteq> []" "badness ty = 0" "badness (verify_batch rpc ok ch operator proofs_of group_of i ty) = 0"
  shows "ty_verified (verify_batch rpc ok ch operator proofs_of group_of i ty) = ty_verified ty + length (group_of i)"
    "batch_lines rpc ok ch operator proofs_of group_of i = verified_lines (group_of i) i"
proof -
  have call: "batch_call rpc i = None"
    using assms by (cases "batch_call rpc i") (simp_all add: verify_batch_def)
  have "batch_good ok ch operator proofs_of group_of i"
    using verify_batch_bad [where group_of = group_of and i = i, OF assms(1)] assms(2,3) by metis
  then obtain mr time where batch: "AuditAnchorClient_getBatch ch operator (nat i) = (True, mr, time, length (proofs_of i))"
    and good: "list_all (entry_good ok time (proofs_of i)) (group_of i)"
    by (auto simp: batch_good_def)
  let ?ty1 = "add_problem (case proofs_of i of [] \<Rightarrow> False
        | (k, p) # _ \<Rightarrow> ep_localRoot p \<noteq> [] \<and> lower (ep_localRoot p) \<noteq> lower mr) (P_root_differs i) ty"
  obtain ls err where ls: "group_lines rpc ok i time (proofs_of i) (group_of i) = (ls, err)" by force
  obtain ty' err' where ty': "verify_group rpc ok i time (proofs_of i) (group_of i) ?ty1 = (ty', err')" by force
  note counts = group_lines_counts [OF ls ty']
  have out: "verify_batch rpc ok ch operator proofs_of group_of i ty =
      (case err of None \<Rightarrow> ty' | Some e \<Rightarrow> ty'\<lparr>ty_errored := ty_errored ty' + length (group_of i)\<rparr>)"
    using call batch ty' counts by (simp add: verify_batch_def Let_def add_problem_def [of False] split: option.split)
  then have err: "err = None" using assms(1,3) by (cases err) (simp_all add: badness_def)
  then have ls': "ls = verified_lines (group_of i) i"
    using group_lines_clean [OF good] ls by (simp add: verified_lines_def)
  then show "batch_lines rpc ok ch operator proofs_of group_of i = verified_lines (group_of i) i"
    using call batch ls err by (simp add: batch_lines_def Let_def)
  show "ty_verified (verify_batch rpc ok ch operator proofs_of group_of i ty) = ty_verified ty + length (group_of i)"
    using counts assms(2,3) ls' unfolding out err by (simp add: badness_def add_problem_def verified_lines_def split: if_splits)
qed

lemma verify_batches_clean:
  assumes "\<And>i. i \<in> set idxs \<Longrightarrow> group_of i \<noteq> []" "badness ty = 0"
    and "badness (fold (verify_batch rpc ok ch operator proofs_of group_of) idxs ty) = 0"
  shows "ty_verified (fold (verify_batch rpc ok ch operator proofs_of group_of) idxs ty) =
      ty_verified ty + sum_list (map (\<lambda>i. length (group_of i)) idxs) \<and>
    map (batch_lines rpc ok ch operator proofs_of group_of) idxs = map (\<lambda>i. verified_lines (group_of i) i) idxs"
  using assms
proof (induction idxs arbitrary: ty)
  case (Cons i idxs)
  let ?ty = "verify_batch rpc ok ch operator proofs_of group_of i ty"
  have "badness ?ty \<le> badness (fold (verify_batch rpc ok ch operator proofs_of group_of) idxs ?ty)"
    using verify_batches_bad [where group_of = group_of and idxs = idxs and ty = ?ty] Cons.prems(1) by auto
  then have zero: "badness ?ty = 0" using Cons.prems(3) by simp
  have "group_of i \<noteq> []" using Cons.prems(1) by simp
  note one = verify_batch_clean [where group_of = group_of and i = i, OF this Cons.prems(2) zero]
  from Cons.IH [OF _ zero] Cons.prems(1,3) one show ?case by simp
qed simp

text \<open>
  When a call fails in the middle of a batch, the whole batch is counted as errored, also the entries that were
  already counted and printed: the counts of the summary then exceed the number of entries.
\<close>

lemma failed_batch_counts_twice:
  assumes "batch_call rpc i = None" "AuditAnchorClient_getBatch ch operator (nat i) = (True, mr, time, n)"
    and "group_lines rpc ok i time (proofs_of i) (group_of i) = (ls, Some err)"
  shows "ty_verified (verify_batch rpc ok ch operator proofs_of group_of i ty) +
      ty_failed (verify_batch rpc ok ch operator proofs_of group_of i ty) +
      ty_errored (verify_batch rpc ok ch operator proofs_of group_of i ty) =
    ty_verified ty + ty_failed ty + ty_errored ty + length ls + length (group_of i)"
proof -
  let ?ty2 = "add_problem (length (proofs_of i) \<noteq> n) (P_count i (length (proofs_of i)) n)
      (add_problem (case proofs_of i of [] \<Rightarrow> False
        | (k, p) # _ \<Rightarrow> ep_localRoot p \<noteq> [] \<and> lower (ep_localRoot p) \<noteq> lower mr) (P_root_differs i) ty)"
  obtain ty' err' where ty': "verify_group rpc ok i time (proofs_of i) (group_of i) ?ty2 = (ty', err')" by force
  note counts = group_lines_counts [OF assms(3) ty']
  have "verify_batch rpc ok ch operator proofs_of group_of i ty = ty'\<lparr>ty_errored := ty_errored ty' + length (group_of i)\<rparr>"
    using assms(1,2) ty' counts by (simp add: verify_batch_def Let_def)
  then show ?thesis using counts by simp
qed

text \<open>Two entries, of which the second cannot be read: the first is verified and errored as well.\<close>

lemma counted_twice:
  assumes "e_id e \<noteq> e_id f" "ok p" "ep_storedHashMatches p" "e_timestamp e \<le> int time * 1000"
    and "rpc (Rpc_verify (e_id e)) = None" "rpc (Rpc_verify (e_id f)) = Some err"
  shows "group_lines rpc ok i time [(e_id e, p), (e_id f, p)] [e, f] =
      ([entry_line (e_id e) i ''+ verified on-chain''], Some err)"
  using assms by simp

lemma map_filter_map_cong:
  "(\<And>x. x \<in> set xs \<Longrightarrow> f (h x) = g x) \<Longrightarrow> List.map_filter f (map h xs) = List.map_filter g xs"
  by (induction xs) (auto simp: map_filter_simps split: option.split)

lemma groups_total:
  assumes "sqlite_inv s"
  shows "sum_list (map (\<lambda>i. length (batch_group (sqlite_ops fu) s (map sr_entry s) i))
      (sort (remdups (List.map_filter (batch_index_of (sqlite_ops fu) s) (map sr_entry s))))) =
    length (filter (\<lambda>r. sr_batchIndex r \<noteq> None) s)"
proof -
  let ?idxs = "sort (remdups (List.map_filter (batch_index_of (sqlite_ops fu) s) (map sr_entry s)))"
  have group: "length (batch_group (sqlite_ops fu) s (map sr_entry s) i) = length (filter (\<lambda>r. sr_batchIndex r = Some i) s)" for i
    unfolding sqlite_group [OF assms] by (simp add: sqlite_ops_def Sqlite_entriesInBatch_def)
  have "sum_list (map (\<lambda>i. length (filter (\<lambda>r. sr_batchIndex r = Some i) s)) ?idxs) =
      (\<Sum>i\<in>set ?idxs. length (filter (\<lambda>r. sr_batchIndex r = Some i) s))"
    by (intro sum_list_distinct_conv_sum_set) simp
  also have "\<dots> = length (filter (\<lambda>r. sr_batchIndex r \<noteq> None) s)"
    unfolding sqlite_indices [OF assms] by (rule count_by_batch [symmetric]) (auto simp: finite_indices)
  finally show ?thesis by (simp add: group)
qed

lemma total_check_verified:
  assumes "exit_code (total_check rpc ch operator None n ty) = None"
  shows "total_check rpc ch operator None n ty = ty"
  using assms by (auto simp: exit_code_clean total_check_def Let_def add_problem_def badness_def split: option.splits if_splits)

lemma zero_text [simp]: "nat_to_string 0 = ''0''"
  by code_simp

lemma clean_closing:
  assumes "badness ty = 0"
  shows "closing_lines None u ty = [newline # ''  '' @ nat_to_string (ty_verified ty) @ '' verified, 0 mismatched, '' @
     nat_to_string u @ '' not yet anchored, 0 errored'']"
  using assms by (simp add: closing_lines_def summary_line_def badness_def)

theorem clean_verification_prints:
  assumes "verifyEntries lib kec num (sqlite_ops fu) env rpc chainid committer chain None operatorOverride ch s = Checked u ty None"
    and "sqlite_inv s"
  shows "verify_lines other lib kec num (sqlite_ops fu) env rpc chainid committer chain None operatorOverride ch s =
     (newline # ''verification (operator '' @ the (case operatorOverride of None \<Rightarrow> committer | Some a \<Rightarrow> Some a) @ '' on '' @ chain @ ''):'') #
     concat (map (\<lambda>i. verified_lines (so_entriesInBatch (sqlite_ops fu) i s) i)
       (sort (remdups (List.map_filter sr_batchIndex s)))) @
     [newline # ''  '' @ nat_to_string (length (filter (\<lambda>r. sr_batchIndex r \<noteq> None) s)) @ '' verified, 0 mismatched, '' @
      nat_to_string (length (filter (\<lambda>r. sr_batchIndex r = None) s)) @ '' not yet anchored, 0 errored'']"
proof -
  let ?ops = "sqlite_ops fu :: (sqlite) store_ops"
  let ?idxs = "sort (remdups (List.map_filter (batch_index_of ?ops s) (map sr_entry s)))"
  let ?zero = "\<lparr>ty_verified = 0, ty_failed = 0, ty_errored = 0, ty_problems = []\<rparr>"
  obtain this operator ctx where addr: "env ''AUDIT_ANCHOR_ADDRESS'' = Some this" "this \<noteq> []"
    "(case operatorOverride of None \<Rightarrow> committer | Some a \<Rightarrow> Some a) = Some operator" "operator \<noteq> []"
    and ctx: "AuditAnchorClient_leafContext \<lparr>ac_chain = chain, ac_contractAddress = this, ac_committer = None,
        ac_confirmationTag = None\<rparr> operator = Inr ctx"
    and u: "u = length (filter (\<lambda>e. batch_index_of ?ops s e = None) (map sr_entry s))"
    and ty: "ty = total_check rpc ch operator None (length s - u)
       (fold (verify_batch rpc (proof_accepted lib chainid
            \<lparr>ac_chain = chain, ac_contractAddress = this, ac_committer = None, ac_confirmationTag = None\<rparr> ch operator)
          ch operator (\<lambda>i. AuditLogger_proofsForBatch lib kec num ?ops i ctx s)
          (batch_group ?ops s (map sr_entry s))) ?idxs ?zero)"
    and code: "exit_code ty = None"
    using assms(1)
    by (auto simp: verifyEntries_def Let_def sqlite_listed split: option.splits if_splits sum.splits)
  let ?c = "\<lparr>ac_chain = chain, ac_contractAddress = this, ac_committer = None, ac_confirmationTag = None\<rparr>"
  note fold = ty [unfolded total_check_verified [OF code [unfolded ty]]]
  have zero: "badness ty = 0" "badness ?zero = 0" using code by (simp_all add: exit_code_clean) (simp add: badness_def)
  have nonempty: "\<And>i. i \<in> set ?idxs \<Longrightarrow> batch_group ?ops s (map sr_entry s) i \<noteq> []"
    using sqlite_indices [OF assms(2)] sqlite_group_nonempty [OF assms(2)] by blast
  note clean = verify_batches_clean [where group_of = "batch_group ?ops s (map sr_entry s)" and idxs = ?idxs,
      OF nonempty zero(2) zero(1) [unfolded fold]]
  have verified: "ty_verified ty = length (filter (\<lambda>r. sr_batchIndex r \<noteq> None) s)"
    using clean [THEN conjunct1] unfolding fold [symmetric] groups_total [OF assms(2)] by simp
  have unanchored: "u = length (filter (\<lambda>r. sr_batchIndex r = None) s)"
    using sqlite_batch_index [OF assms(2)] unfolding u by (simp add: filter_map comp_def cong: filter_cong)
  have idxs: "?idxs = sort (remdups (List.map_filter sr_batchIndex s))"
    using sqlite_batch_index [OF assms(2)] by (simp only: map_filter_map_cong [where h = sr_entry and g = sr_batchIndex])
  show ?thesis
    unfolding verify_lines_def Let_def assms(1)
    using addr ctx clean [THEN conjunct2] zero(1)
    by (simp add: truthy_def sqlite_listed idxs clean_closing verified unanchored sqlite_group [OF assms(2)] del: map_eq_conv)
qed

end
