(* ===== verification/Options.thy ===== *)
theory Options
  imports Terminal
begin

text \<open>
  The options that the commands of \<open>packages/cli/src/cli.ts\<close> declare, and the commands as they run from the command
  line. \<open>commander\<close> is used as its declarations say: a required option that is missing, or an option that is not
  declared, ends the program before the action runs; an option that is not given has its default. \<open>Number\<close> of an
  option is read by \<open>BigInt\<close>, with which it agrees on whole numbers; another number is outside the model.
\<close>

section \<open>Declarations\<close>

text \<open>\<open>Switch\<close> takes no value; \<open>Negated\<close> is \<open>--no-f\<close>, which leaves \<open>f\<close> true when it is not given.\<close>

datatype cli_option =
    RequiredOption string
  | Option string "string option"
  | Switch string
  | Negated string

definition DEFAULT_DB :: string where
  "DEFAULT_DB = ''./agentctl.sqlite''"

definition provider_options :: "cli_option list" where
  "provider_options = [Option ''provider'' None, Option ''ollama-url'' None, Option ''model'' None]"

definition check_declared :: "cli_option list" where
  "check_declared =
     [RequiredOption ''amount'', RequiredOption ''recipient'', Option ''intent'' (Some ''''), Option ''token'' (Some ''USDC''),
      Option ''chain'' (Some DEFAULT_CHAIN), Option ''policy'' None, Option ''agent'' (Some ''cli-agent''),
      Option ''db'' (Some DEFAULT_DB), Negated ''history'', Switch ''llm''] @ provider_options"

definition create_declared :: "cli_option list" where
  "create_declared =
     [RequiredOption ''agent'', RequiredOption ''text'', Option ''out'' None] @ provider_options @
     [Option ''chain'' (Some DEFAULT_CHAIN)]"

definition audit_declared :: "cli_option list" where
  "audit_declared =
     [Option ''agent'' None, Option ''db'' (Some DEFAULT_DB), Option ''chain'' (Some DEFAULT_CHAIN), Switch ''verify'',
      Option ''operator'' None]"

definition report_declared :: "cli_option list" where
  "report_declared = [Option ''agent'' None, Option ''db'' (Some DEFAULT_DB), Option ''top'' (Some ''5'')]"

definition watch_declared :: "cli_option list" where
  "watch_declared = [Option ''agent'' None, Option ''db'' (Some DEFAULT_DB)]"

definition demo_declared :: "cli_option list" where
  "demo_declared = [Option ''db'' (Some DEFAULT_DB)]"

definition simulate_declared :: "cli_option list" where
  "simulate_declared = [RequiredOption ''policy'', Option ''agent'' None, Option ''db'' (Some DEFAULT_DB)]"

definition serve_declared :: "cli_option list" where
  "serve_declared =
     [RequiredOption ''policy'', Option ''port'' (Some ''8787''), Option ''host'' (Some ''127.0.0.1''), Option ''token'' None,
      Option ''rate-limit-max'' (Some ''60''), Option ''rate-limit-window-ms'' (Some ''60000''),
      Option ''breaker-window'' (Some ''3600''), Option ''breaker-max-blocks'' (Some ''10''),
      Option ''breaker-max-anomalies'' (Some ''5'')]"

section \<open>Reading the command line\<close>

text \<open>The arguments: a value for each option that is given, the empty text for a switch.\<close>

type_synonym arguments = "(string \<times> string) list"

fun option_flag :: "cli_option \<Rightarrow> string" where
  "option_flag (RequiredOption f) = f"
| "option_flag (Option f d) = f"
| "option_flag (Switch f) = f"
| "option_flag (Negated f) = ''no-'' @ f"

fun option_default :: "cli_option \<Rightarrow> string option" where
  "option_default (Option f d) = d"
| "option_default _ = None"

fun option_missing :: "arguments \<Rightarrow> cli_option \<Rightarrow> bool" where
  "option_missing args (RequiredOption f) = (map_of args f = None)"
| "option_missing args _ = False"

definition accepted :: "cli_option list \<Rightarrow> arguments \<Rightarrow> bool" where
  "accepted decl args \<longleftrightarrow> \<not> list_ex (option_missing args) decl \<and> set (map fst args) \<subseteq> set (map option_flag decl)"

definition opt :: "cli_option list \<Rightarrow> arguments \<Rightarrow> string \<Rightarrow> string option" where
  "opt decl args f =
     (case map_of args f of
        Some v \<Rightarrow> Some v
      | None \<Rightarrow> Option.bind (find (\<lambda>d. option_flag d = f) decl) option_default)"

text \<open>The cast \<open>opts.provider as LLMProvider\<close>: \<open>None\<close> for a text that is no provider.\<close>

definition cli_llm_of :: "cli_option list \<Rightarrow> arguments \<Rightarrow> cli_llm_options option" where
  "cli_llm_of decl args =
     (case opt decl args ''provider'' of
        None \<Rightarrow> Some \<lparr>cl_provider = None, cl_ollamaUrl = opt decl args ''ollama-url'', cl_model = opt decl args ''model''\<rparr>
      | Some p \<Rightarrow>
          if p = ''anthropic'' \<or> p = ''ollama'' then
            Some \<lparr>cl_provider = Some (if p = ''ollama'' then Ollama else Anthropic),
              cl_ollamaUrl = opt decl args ''ollama-url'', cl_model = opt decl args ''model''\<rparr>
          else None)"

definition check_options_of :: "arguments \<Rightarrow> check_options option" where
  "check_options_of args =
     (if accepted check_declared args then
        (case (opt check_declared args ''amount'', opt check_declared args ''recipient'', opt check_declared args ''intent'',
               opt check_declared args ''token'', opt check_declared args ''chain'',
               if map_of args ''llm'' = None then Some None
               else map_option (\<lambda>llm. Some (resolveCliLLM llm)) (cli_llm_of check_declared args)) of
           (Some amount, Some recipient, Some intent, Some token, Some chain, Some llm) \<Rightarrow>
             Some \<lparr>ck_amount = amount, ck_recipient = recipient, ck_intent = intent, ck_token = token, ck_chain = chain,
               ck_history = (map_of args ''no-history'' = None), ck_llm = llm\<rparr>
         | _ \<Rightarrow> None)
      else None)"

definition number_option :: "cli_option list \<Rightarrow> arguments \<Rightarrow> string \<Rightarrow> int option" where
  "number_option decl args f = Option.bind (opt decl args f) bigint_of_string"

definition serve_options_of :: "arguments \<Rightarrow> serve_options option" where
  "serve_options_of args =
     (if accepted serve_declared args then
        (case (opt serve_declared args ''policy'', number_option serve_declared args ''rate-limit-max'',
               number_option serve_declared args ''rate-limit-window-ms'', number_option serve_declared args ''breaker-window'',
               number_option serve_declared args ''breaker-max-blocks'', number_option serve_declared args ''breaker-max-anomalies'') of
           (Some policy, Some lmax, Some ms, Some win, Some bmax, Some amax) \<Rightarrow>
             Some \<lparr>sv_policy = policy, sv_token = opt serve_declared args ''token'', sv_rateLimitMax = lmax,
               sv_rateLimitWindowMs = ms, sv_breakerWindow = win, sv_breakerMaxBlocks = bmax,
               sv_breakerMaxAnomalies = amax\<rparr>
         | _ \<Rightarrow> None)
      else None)"

section \<open>The commands from their arguments\<close>

text \<open>\<open>check\<close>: the policy of the file or the built-in one, over the audit database.\<close>

definition check_policy ::
  "(string \<Rightarrow> real) \<Rightarrow> (string \<Rightarrow> int option) \<Rightarrow> (string \<rightharpoonup> string) \<Rightarrow> arguments \<Rightarrow> policy option" where
  "check_policy rd pu files args =
     (case opt check_declared args ''policy'' of
        Some path \<Rightarrow> if path \<noteq> [] then (case read_policy rd files path of Inl e \<Rightarrow> None | Inr p \<Rightarrow> Some p)
                     else Option.bind (opt check_declared args ''agent'') (demoPolicy pu)
      | None \<Rightarrow> Option.bind (opt check_declared args ''agent'') (demoPolicy pu))"

text \<open>What is printed and the exit code; \<open>None\<close> for a provider that the cast does not cover.\<close>

definition run_check ::
  "externals \<Rightarrow> (int \<Rightarrow> string) \<Rightarrow> (string \<Rightarrow> sqlite) \<Rightarrow> thrown option \<Rightarrow> clock \<Rightarrow> clock \<Rightarrow> (string \<Rightarrow> real) \<Rightarrow>
     (string \<Rightarrow> int option) \<Rightarrow> (string \<rightharpoonup> string) \<Rightarrow> arguments \<Rightarrow> (string list \<times> nat option) option" where
  "run_check x fu dbs failure clk clk' rd pu files args =
     (if \<not> accepted check_declared args then Some ([], Some 1)
      else
        (case (check_options_of args, opt check_declared args ''db'') of
           (Some opts, Some db) \<Rightarrow>
             (case check_policy rd pu files args of
                None \<Rightarrow> Some ([], Some 1)
              | Some pol \<Rightarrow>
                  (case (check_request pu opts (p_agentId pol), check_command x (sqlite_ops fu) failure clk clk' pu pol opts (dbs db)) of
                     (Some req, (Some d, code)) \<Rightarrow> Some (renderDecision fu req d, code)
                   | (_, (_, code)) \<Rightarrow> Some ([], code)))
         | _ \<Rightarrow> None))"

text \<open>\<open>audit\<close>: the entries, and below them the verification.\<close>

definition run_audit ::
  "(int \<Rightarrow> string) \<Rightarrow> (client_error \<Rightarrow> string) \<Rightarrow> merkle_lib \<Rightarrow> (string \<Rightarrow> hex) \<Rightarrow> (real \<Rightarrow> string) \<Rightarrow> (int \<Rightarrow> string) \<Rightarrow>
     (string \<Rightarrow> string option) \<Rightarrow> (rpc_call \<Rightarrow> string option) \<Rightarrow> int \<Rightarrow> address option \<Rightarrow> anchor \<Rightarrow> (string \<Rightarrow> sqlite) \<Rightarrow> arguments \<Rightarrow>
     (string list \<times> nat option) option" where
  "run_audit iso_time other lib kec num fu env rpc chainid committer ch dbs args =
     (case (accepted audit_declared args, opt audit_declared args ''chain'', opt audit_declared args ''db'') of
        (True, Some chain, Some db) \<Rightarrow>
          (let ops = sqlite_ops fu; s = dbs db; agent = opt audit_declared args ''agent'';
               operator = opt audit_declared args ''operator''; verify = (map_of args ''verify'' \<noteq> None);
               entries = AuditLogger_list ops agent s
           in Some (audit_lines iso_time fu entries @
                      (if verify \<and> entries \<noteq> [] then verify_lines other lib kec num ops env rpc chainid committer chain agent operator ch s
                       else []),
                    audit_exit (audit_command lib kec num ops env rpc chainid committer verify chain agent operator ch s)))
      | _ \<Rightarrow> None)"

text \<open>\<open>serve\<close>: the warning, and the guard with its options.\<close>

definition run_serve ::
  "externals \<Rightarrow> (int \<Rightarrow> string) \<Rightarrow> thrown option \<Rightarrow> clock \<Rightarrow> (string \<Rightarrow> real) \<Rightarrow> (string \<rightharpoonup> string) \<Rightarrow> arguments \<Rightarrow> sqlite \<Rightarrow>
     (string list \<times> (command_error + agent_guard \<times> control_options \<times> sqlite control)) option" where
  "run_serve x fu failure clk rd files args sg =
     map_option (\<lambda>opts. (serve_warnings (sv_token opts), serve_command x fu failure clk rd files opts sg)) (serve_options_of args)"

section \<open>What the commands do from their arguments\<close>

lemmas declared_defs = check_declared_def create_declared_def audit_declared_def report_declared_def watch_declared_def
  demo_declared_def simulate_declared_def serve_declared_def provider_options_def

text \<open>\<open>serve\<close> with nothing but a policy: no token, on the loopback address, with the limits of the declarations.\<close>

lemma serve_defaults:
  "serve_options_of [(''policy'', path)] = Some \<lparr>sv_policy = path, sv_token = None, sv_rateLimitMax = 60,
     sv_rateLimitWindowMs = 60000, sv_breakerWindow = 3600, sv_breakerMaxBlocks = 10, sv_breakerMaxAnomalies = 5\<rparr>"
  "opt serve_declared [(''policy'', path)] ''host'' = Some ''127.0.0.1''"
proof -
  have digits: "char_of (48 :: nat) = CHR ''0''" "char_of (49 :: nat) = CHR ''1''" "char_of (51 :: nat) = CHR ''3''"
    "char_of (53 :: nat) = CHR ''5''" "char_of (54 :: nat) = CHR ''6''"
    by code_simp+
  have numbers: "bigint_of_string ''60'' = Some 60" "bigint_of_string ''60000'' = Some 60000" "bigint_of_string ''3600'' = Some 3600"
    "bigint_of_string ''10'' = Some 10" "bigint_of_string ''5'' = Some 5"
    using bigint_of_string_to_string [of 60] bigint_of_string_to_string [of 60000] bigint_of_string_to_string [of 3600]
      bigint_of_string_to_string [of 10] bigint_of_string_to_string [of 5]
    by (simp_all add: bigint_to_string_def nat_to_string.simps digit_char_def digits)
  have opts: "opt serve_declared [(''policy'', path)] ''policy'' = Some path"
    "opt serve_declared [(''policy'', path)] ''token'' = None"
    "opt serve_declared [(''policy'', path)] ''rate-limit-max'' = Some ''60''"
    "opt serve_declared [(''policy'', path)] ''rate-limit-window-ms'' = Some ''60000''"
    "opt serve_declared [(''policy'', path)] ''breaker-window'' = Some ''3600''"
    "opt serve_declared [(''policy'', path)] ''breaker-max-blocks'' = Some ''10''"
    "opt serve_declared [(''policy'', path)] ''breaker-max-anomalies'' = Some ''5''"
    by code_simp+
  have "accepted serve_declared [(''policy'', path)]" by code_simp
  then show "serve_options_of [(''policy'', path)] = Some \<lparr>sv_policy = path, sv_token = None, sv_rateLimitMax = 60,
     sv_rateLimitWindowMs = 60000, sv_breakerWindow = 3600, sv_breakerMaxBlocks = 10, sv_breakerMaxAnomalies = 5\<rparr>"
    by (simp only: serve_options_of_def number_option_def opts numbers if_True option.case prod.case Option.bind.simps bind.bind_lunit)
  show "opt serve_declared [(''policy'', path)] ''host'' = Some ''127.0.0.1''" by code_simp
qed

text \<open>The exit code of \<open>check\<close> is 2 exactly where it printed the tag of a blocked payment.\<close>

lemma check_exit_tells:
  assumes "run_check x fu dbs failure clk clk' rd pu files args = Some (ls, code)"
  shows "(code = Some 2) = (\<exists>req d. ls = renderDecision fu req d \<and> d_verdict d = Block)"
    "(ls = []) = (code = Some 1)"
proof -
  have cases: "(ls = [] \<and> code = Some 1) \<or> (\<exists>req d. ls = renderDecision fu req d \<and> code = decision_exit d)"
    using assms by (auto simp: run_check_def check_command_def Let_def split: if_splits option.splits prod.splits)
  have nonempty: "renderDecision fu req d \<noteq> []" for req d by (simp add: renderDecision_def)
  have tag: "d_verdict d = d_verdict d'" if "renderDecision fu req d = renderDecision fu req' d'" for req req' d d'
    using arg_cong [OF that, of "\<lambda>ls. take 4 (drop 3 (hd ls))"]
    by (cases "d_verdict d"; cases "d_verdict d'") (simp_all add: renderDecision_def)
  show "(code = Some 2) = (\<exists>req d. ls = renderDecision fu req d \<and> d_verdict d = Block)"
  proof
    assume "code = Some 2"
    then show "\<exists>req d. ls = renderDecision fu req d \<and> d_verdict d = Block"
      using cases by (auto simp: decision_exit_def split: if_splits)
  next
    assume "\<exists>req d. ls = renderDecision fu req d \<and> d_verdict d = Block"
    then obtain req d where d: "ls = renderDecision fu req d" "d_verdict d = Block" by blast
    then obtain req' d' where d': "ls = renderDecision fu req' d'" "code = decision_exit d'" using cases nonempty by metis
    have "d_verdict d' = Block" using tag [of req' d' req d] d d'(1) by simp
    then show "code = Some 2" by (simp add: d'(2) decision_exit_def)
  qed
  show "(ls = []) = (code = Some 1)"
    using cases nonempty by (auto simp: decision_exit_def split: if_splits)
qed

text \<open>
  \<open>audit --verify\<close>: without the contract's address nothing is verified, and the exit code is left unset, which a
  caller reads as success; the only trace is a line of text.
\<close>

lemma unconfigured_verification_passes:
  assumes "\<not> truthy (env ''AUDIT_ANCHOR_ADDRESS'')"
    and "run_audit iso_time other lib kec num fu env rpc chainid committer ch dbs args = Some (ls, code)"
  shows "code = None"
proof -
  have "verifyEntries lib kec num (sqlite_ops fu) env rpc chainid committer chain agent operator ch s = Not_configured"
    for chain agent operator s
    using assms(1) by (auto simp: verifyEntries_def truthy_def split: option.splits)
  then show ?thesis
    using assms(2) by (auto simp: run_audit_def audit_command_def Let_def split: bool.splits option.splits if_splits)
qed

text \<open>A verification that has an address and an operator is carried out.\<close>

lemma configured_verification:
  assumes "truthy (env ''AUDIT_ANCHOR_ADDRESS'')" "truthy (case operator of Some a \<Rightarrow> Some a | None \<Rightarrow> committer)"
  shows "verifyEntries lib kec num ops env rpc chainid committer chain agent operator ch s \<noteq> Not_configured"
  using assms by (auto simp: verifyEntries_def truthy_def Let_def split: option.splits if_splits sum.splits)

lemma clean_run_checked:
  assumes run: "run_audit iso_time other lib kec num fu env rpc chainid committer ch dbs args = Some (ls, None)"
    and verify: "map_of args ''verify'' \<noteq> None" "map_of args ''agent'' = None"
    and env: "truthy (env ''AUDIT_ANCHOR_ADDRESS'')"
      "truthy (case opt audit_declared args ''operator'' of Some a \<Rightarrow> Some a | None \<Rightarrow> committer)"
    and db: "opt audit_declared args ''db'' = Some db" "dbs db \<noteq> []"
  obtains chain u ty where "opt audit_declared args ''chain'' = Some chain"
    "verifyEntries lib kec num (sqlite_ops fu) env rpc chainid committer chain None (opt audit_declared args ''operator'') ch (dbs db) =
       Checked u ty None"
    "ls = map (audit_line iso_time fu \<circ> sr_entry) (dbs db) @
      verify_lines other lib kec num (sqlite_ops fu) env rpc chainid committer chain None (opt audit_declared args ''operator'') ch (dbs db)"
proof -
  obtain chain where chain: "opt audit_declared args ''chain'' = Some chain" and acc: "accepted audit_declared args"
    using run by (auto simp: run_audit_def split: bool.splits option.splits)
  have agent: "opt audit_declared args ''agent'' = None"
    using verify(2) by (simp add: opt_def audit_declared_def)
  let ?v = "verifyEntries lib kec num (sqlite_ops fu) env rpc chainid committer chain None (opt audit_declared args ''operator'') ch (dbs db)"
  have exit: "audit_exit (audit_command lib kec num (sqlite_ops fu) env rpc chainid committer True chain None
      (opt audit_declared args ''operator'') ch (dbs db)) = None"
    and ls: "ls = map (audit_line iso_time fu \<circ> sr_entry) (dbs db) @
      verify_lines other lib kec num (sqlite_ops fu) env rpc chainid committer chain None (opt audit_declared args ''operator'') ch (dbs db)"
    using run verify db by (auto simp: run_audit_def acc chain agent Let_def sqlite_listed audit_lines_def)
  have "?v \<noteq> Not_configured" using env by (rule configured_verification)
  with audit_exit_clean [OF exit db(2)] obtain u ty where "?v = Checked u ty None" by blast
  from that [OF chain this ls] show ?thesis .
qed

lemma empty_log_run:
  assumes "run_audit iso_time other lib kec num fu env rpc chainid committer ch dbs args = Some (ls, None)"
    and "map_of args ''agent'' = None" "opt audit_declared args ''db'' = Some db" "dbs db = []"
  shows "ls = [''no audit entries'']"
proof -
  have "opt audit_declared args ''agent'' = None" using assms(2) by (simp add: opt_def audit_declared_def)
  then show ?thesis
    using assms(1,3,4) by (auto simp: run_audit_def Let_def sqlite_listed audit_lines_def split: bool.splits option.splits)
qed

text \<open>
  C13. What success of \<open>audit --verify\<close> means: run over the whole log, with the contract's address in the environment
  and an operator given or derived, the command leaves the exit code unset only if the log is empty and it printed
  \<open>no audit entries\<close>, or the log is complete and unedited: every anchored row is in a batch that the operator
  committed, its contents match its hash, it is not later than the batch and the contract accepts a proof of it; and for
  every batch the operator ever committed, the log holds exactly as many rows as were committed, so that no
  anchored entry was deleted. An emptied log and a missing address also leave the exit code unset, as
  \<open>emptied_log_passes\<close> and \<open>unconfigured_verification_passes\<close> show: there it promises nothing.
\<close>

theorem clean_audit_means_complete_log:
  assumes run: "run_audit iso_time other lib kec num fu env rpc chainid committer ch dbs args = Some (ls, None)"
    and verify: "map_of args ''verify'' \<noteq> None" "map_of args ''agent'' = None"
    and env: "truthy (env ''AUDIT_ANCHOR_ADDRESS'')"
      "truthy (case opt audit_declared args ''operator'' of Some a \<Rightarrow> Some a | None \<Rightarrow> committer)"
    and db: "opt audit_declared args ''db'' = Some db" "sqlite_inv (dbs db)"
  shows "if dbs db = [] then ls = [''no audit entries''] else
     (\<exists>this operator. env ''AUDIT_ANCHOR_ADDRESS'' = Some this \<and>
        (case opt audit_declared args ''operator'' of None \<Rightarrow> committer | Some a \<Rightarrow> Some a) = Some operator \<and>
        (\<forall>r \<in> set (dbs db). \<forall>i. sr_batchIndex r = Some i \<longrightarrow> vouched lib kec num chainid this ch operator i (sr_entry r)) \<and>
        (\<forall>j < getBatchCount ch (lower operator).
           length (filter (\<lambda>r. sr_batchIndex r = Some (int j)) (dbs db)) = b_entryCount (an_batches ch (lower operator) ! j)))"
proof (cases "dbs db = []")
  case True
  then show ?thesis using empty_log_run [where dbs = dbs, OF run verify(2) db(1)] by simp
next
  case False
  obtain chain u ty where v: "verifyEntries lib kec num (sqlite_ops fu) env rpc chainid committer chain None
      (opt audit_declared args ''operator'') ch (dbs db) = Checked u ty None"
    using clean_run_checked [where dbs = dbs, OF run verify env db(1) False] by metis
  from checked_log_is_complete [OF this db(2)] show ?thesis unfolding if_not_P [OF False] .
qed

text \<open>
  C21. The report of \<open>audit --verify\<close> is genuine: run over the whole log with an address and an operator, when the command
  leaves the exit code unset it printed that there are no entries, and there are none; or it printed, below the entries,
  one line for each anchored entry, which says that it was verified, and closing counts without a mismatch, an error or
  a problem, which add up to the entries of the log.
\<close>

theorem clean_audit_report:
  assumes run: "run_audit iso_time other lib kec num fu env rpc chainid committer ch dbs args = Some (ls, None)"
    and verify: "map_of args ''verify'' \<noteq> None" "map_of args ''agent'' = None"
    and env: "truthy (env ''AUDIT_ANCHOR_ADDRESS'')"
      "truthy (case opt audit_declared args ''operator'' of Some a \<Rightarrow> Some a | None \<Rightarrow> committer)"
    and db: "opt audit_declared args ''db'' = Some db" "sqlite_inv (dbs db)"
  shows "ls = (if dbs db = [] then [''no audit entries''] else
     map (audit_line iso_time fu \<circ> sr_entry) (dbs db) @
     (newline # ''verification (operator '' @ the (case opt audit_declared args ''operator'' of None \<Rightarrow> committer | Some a \<Rightarrow> Some a) @
       '' on '' @ the (opt audit_declared args ''chain'') @ ''):'') #
     concat (map (\<lambda>i. verified_lines (so_entriesInBatch (sqlite_ops fu) i (dbs db)) i)
       (sort (remdups (List.map_filter sr_batchIndex (dbs db))))) @
     [newline # ''  '' @ nat_to_string (length (filter (\<lambda>r. sr_batchIndex r \<noteq> None) (dbs db))) @
      '' verified, 0 mismatched, '' @ nat_to_string (length (filter (\<lambda>r. sr_batchIndex r = None) (dbs db))) @
      '' not yet anchored, 0 errored''])"
proof (cases "dbs db = []")
  case True
  then show ?thesis using empty_log_run [where dbs = dbs, OF run verify(2) db(1)] by simp
next
  case False
  obtain chain u ty where chain: "opt audit_declared args ''chain'' = Some chain"
    and v: "verifyEntries lib kec num (sqlite_ops fu) env rpc chainid committer chain None
      (opt audit_declared args ''operator'') ch (dbs db) = Checked u ty None"
    and ls: "ls = map (audit_line iso_time fu \<circ> sr_entry) (dbs db) @
      verify_lines other lib kec num (sqlite_ops fu) env rpc chainid committer chain None (opt audit_declared args ''operator'') ch (dbs db)"
    using clean_run_checked [where dbs = dbs, OF run verify env db(1) False] by metis
  show ?thesis unfolding if_not_P [OF False] ls chain option.sel clean_verification_prints [OF v db(2)] by (rule refl)
qed

definition ex_audit_args :: arguments where
  "ex_audit_args = [(''verify'', ''''), (''operator'', ''0xop''), (''chain'', ''eip155:8453'')]"

definition ex_audit_run :: "(string list \<times> nat option) option" where
  "ex_audit_run = run_audit (\<lambda>t. ''2023'') (\<lambda>e. '''') ex_lib (\<lambda>s. s) (\<lambda>x. ''0'') (\<lambda>n. ''?'') ex_verify_env (\<lambda>c. None) 8453
     None ex_once (\<lambda>db. ex_kept) ex_audit_args"

lemma ex_audit_opts:
  "accepted audit_declared ex_audit_args" "opt audit_declared ex_audit_args ''chain'' = Some ''eip155:8453''"
  "opt audit_declared ex_audit_args ''db'' = Some DEFAULT_DB" "opt audit_declared ex_audit_args ''agent'' = None"
  "opt audit_declared ex_audit_args ''operator'' = Some ''0xop''" "map_of ex_audit_args ''verify'' = Some ''''"
  "map_of ex_audit_args ''agent'' = None"
  by code_simp+

lemma ex_audit_clean: "\<exists>ls. ex_audit_run = Some (ls, None)"
proof -
  have "length (AuditLogger_list (sqlite_ops (\<lambda>n. ''?'')) None ex_kept) \<noteq> 0" by (simp add: sqlite_listed ex_kept_def)
  then show ?thesis
    by (simp add: ex_audit_run_def run_audit_def ex_audit_opts audit_command_def ex_verified Let_def)
qed

lemma ex_audit_env:
  "truthy (ex_verify_env ''AUDIT_ANCHOR_ADDRESS'')"
  "truthy (case opt audit_declared ex_audit_args ''operator'' of Some a \<Rightarrow> Some a | None \<Rightarrow> None)"
  by (simp_all add: truthy_def ex_verify_env_def ex_audit_opts)

lemma ex_kept_inv: "sqlite_inv ex_kept"
  by (simp add: sqlite_inv_def ex_kept_def)

theorem clean_audit_means_complete_log_witness:
  "\<exists>ls. ex_audit_run = Some (ls, None) \<and>
     vouched ex_lib (\<lambda>s. s) (\<lambda>x. ''0'') 8453 ''0xc'' ex_once ''0xop'' 0 ex_kept_entry"
proof -
  obtain ls where run: "ex_audit_run = Some (ls, None)" using ex_audit_clean by blast
  from clean_audit_means_complete_log [OF run [unfolded ex_audit_run_def] _ ex_audit_opts(7) ex_audit_env ex_audit_opts(3)]
  have "vouched ex_lib (\<lambda>s. s) (\<lambda>x. ''0'') 8453 ''0xc'' ex_once ''0xop'' 0 ex_kept_entry"
    using ex_kept_inv by (simp add: ex_audit_opts ex_kept_def ex_verify_env_def)
  with run show ?thesis by blast
qed

theorem clean_audit_report_witness:
  "case ex_audit_run of None \<Rightarrow> False
   | Some (ls, code) \<Rightarrow> code = None \<and>
       last ls = newline # ''  1 verified, 0 mismatched, 0 not yet anchored, 0 errored''"
proof -
  obtain ls where run: "ex_audit_run = Some (ls, None)" using ex_audit_clean by blast
  have one: "nat_to_string (Suc 0) = ''1''" by code_simp
  from clean_audit_report [OF run [unfolded ex_audit_run_def] _ ex_audit_opts(7) ex_audit_env ex_audit_opts(3) ex_kept_inv]
  have "last ls = newline # ''  1 verified, 0 mismatched, 0 not yet anchored, 0 errored''"
    by (auto simp: ex_audit_opts ex_kept_def one)
  then show ?thesis unfolding run option.case prod.case by blast
qed

end
