(* ===== verification/Adapters.thy ===== *)
theory Adapters
  imports X402 Serde Intent
begin

text \<open>
  The wallets (\<open>packages/core/src/adapters/\<close>): \<open>viem.ts\<close>, \<open>cdp.ts\<close>, \<open>circle.ts\<close> and \<open>privy.ts\<close> behind
  the interface \<open>IWalletAdapter\<close> of \<open>types.ts\<close>, with the bridge of \<open>remote-signer.ts\<close> for wallets that sign
  at a provider, and \<open>base.ts\<close>. The providers' SDKs, the account of a private key and the chain's reads
  are arguments; a call that throws is a \<open>Inl\<close> with its message.
\<close>

section \<open>Typed data\<close>

text \<open>
  A \<open>TypedDataDefinition\<close> of viem. The domain is the object with its members in order; the types map the
  name of a struct to its members' names and types.
\<close>

record typed_data =
  td_domain :: "(string \<times> jsvalue) list option"
  td_types :: "(string \<times> (string \<times> string) list) list"
  td_primaryType :: string
  td_message :: jsvalue

definition TRANSFER_WITH_AUTHORIZATION_TYPES :: "(string \<times> (string \<times> string) list) list" where
  "TRANSFER_WITH_AUTHORIZATION_TYPES =
     [(''TransferWithAuthorization'',
       [(''from'', ''address''), (''to'', ''address''), (''value'', ''uint256''), (''validAfter'', ''uint256''),
        (''validBefore'', ''uint256''), (''nonce'', ''bytes32'')])]"

text \<open>What \<open>signEIP3009Authorization\<close> and \<open>signPermit2Authorization\<close> pass to the account.\<close>

definition transfer_typed_data :: "eip712_domain \<Rightarrow> authorization \<Rightarrow> typed_data" where
  "transfer_typed_data d a =
     \<lparr>td_domain = Some [(''name'', VStr (dm_name d)), (''version'', VStr (dm_version d)),
        (''chainId'', VNum (bigint_to_string (dm_chainId d))), (''verifyingContract'', VStr (dm_verifyingContract d))],
      td_types = TRANSFER_WITH_AUTHORIZATION_TYPES,
      td_primaryType = ''TransferWithAuthorization'',
      td_message = VObj [(''from'', VStr (au_from a)), (''to'', VStr (au_to a)), (''value'', VBig (au_value a)),
        (''validAfter'', VBig (au_validAfter a)), (''validBefore'', VBig (au_validBefore a)), (''nonce'', VStr (au_nonce a))]\<rparr>"

definition permit2_typed_data ::
  "(string \<times> (string \<times> string) list) list \<Rightarrow> permit2_domain \<Rightarrow> permit2_authorization \<Rightarrow> typed_data" where
  "permit2_typed_data witnessTypes d p =
     \<lparr>td_domain = Some [(''name'', VStr (pd_name d)), (''chainId'', VNum (bigint_to_string (pd_chainId d))),
        (''verifyingContract'', VStr (pd_verifyingContract d))],
      td_types = witnessTypes,
      td_primaryType = ''PermitWitnessTransferFrom'',
      td_message = VObj [(''permitted'', VObj [(''token'', VStr (pm_token p)), (''amount'', VBig (pm_amount p))]),
        (''spender'', VStr (pm_spender p)), (''nonce'', VBig (pm_nonce p)), (''deadline'', VBig (pm_deadline p)),
        (''witness'', VObj [(''to'', VStr (pm_to p)), (''validAfter'', VBig (pm_validAfter p))])]\<rparr>"

section \<open>The remote signer\<close>

text \<open>The replacer of \<open>eip712ToJson\<close>: a bigint becomes its decimal text.\<close>

fun stringify_bigints :: "jsvalue \<Rightarrow> json" where
  "stringify_bigints VNull = JNull"
| "stringify_bigints (VBool b) = JBool b"
| "stringify_bigints (VNum l) = JNum l"
| "stringify_bigints (VBig n) = JStr (bigint_to_string n)"
| "stringify_bigints (VStr s) = JStr s"
| "stringify_bigints (VArr vs) = JArr (map stringify_bigints vs)"
| "stringify_bigints (VObj ms) = JObj (map (\<lambda>(k, v). (k, stringify_bigints v)) ms)"

definition type_members :: "(string \<times> string) list \<Rightarrow> jsvalue" where
  "type_members ms = VArr (map (\<lambda>(n, t). VObj [(''name'', VStr n), (''type'', VStr t)]) ms)"

definition domain_types :: "(string \<times> jsvalue) list \<Rightarrow> (string \<times> string) list" where
  "domain_types d =
     (if map_of d ''name'' \<noteq> None then [(''name'', ''string'')] else []) @
     (if map_of d ''version'' \<noteq> None then [(''version'', ''string'')] else []) @
     (if map_of d ''chainId'' \<noteq> None then [(''chainId'', ''uint256'')] else []) @
     (if map_of d ''verifyingContract'' \<noteq> None then [(''verifyingContract'', ''address'')] else []) @
     (if map_of d ''salt'' \<noteq> None then [(''salt'', ''bytes32'')] else [])"

text \<open>The spread \<open>{ EIP712Domain: domainTypes, ...params.types }\<close>.\<close>

definition eip712_types :: "typed_data \<Rightarrow> (string \<times> (string \<times> string) list) list" where
  "eip712_types td =
     fold (\<lambda>(k, v) m. AList.update k v m) (td_types td)
       [(''EIP712Domain'', domain_types (case td_domain td of None \<Rightarrow> [] | Some d \<Rightarrow> d))]"

definition eip712_payload :: "typed_data \<Rightarrow> jsvalue" where
  "eip712_payload td =
     VObj [(''types'', VObj (map (\<lambda>(k, ms). (k, type_members ms)) (eip712_types td))),
       (''domain'', VObj (case td_domain td of None \<Rightarrow> [] | Some d \<Rightarrow> d)),
       (''primaryType'', VStr (td_primaryType td)), (''message'', td_message td)]"

definition eip712ToJson :: "typed_data \<Rightarrow> string" where
  "eip712ToJson td = json_text (stringify_bigints (eip712_payload td))"

text \<open>An account as viem builds it: its address and what it can sign.\<close>

record account =
  ac_address :: address
  ac_signTypedData :: "typed_data \<Rightarrow> string + hex"
  ac_signMessage :: "string \<Rightarrow> string + hex"
  ac_signTransaction :: "string \<Rightarrow> string + hex"

definition createRemoteSignerAccount :: "address \<Rightarrow> (typed_data \<Rightarrow> string + hex) \<Rightarrow> account" where
  "createRemoteSignerAccount address signTypedData =
     \<lparr>ac_address = address, ac_signTypedData = signTypedData,
      ac_signMessage = (\<lambda>m. Inl ''remote signer supports only signTypedData (used by EIP-3009 / Permit2)''),
      ac_signTransaction = (\<lambda>t. Inl ''remote signer does not sign raw transactions'')\<rparr>"

section \<open>Reading the chain\<close>

text \<open>\<open>read\<close> calls \<open>balanceOf\<close> of a token through a client.\<close>

definition erc20Balance ::
  "(public_client \<Rightarrow> address \<Rightarrow> address \<Rightarrow> string + int) \<Rightarrow> public_client \<Rightarrow> address \<Rightarrow> address \<Rightarrow> string + int" where
  "erc20Balance read client token owner = read client token owner"

section \<open>The adapters\<close>

text \<open>
  What a call to an adapter finds: the environment, the account of a private key, the providers, the
  chain's reads, and the constants of \<open>@x402/evm\<close>. Circle is given the API key, the entity secret, the wallet and
  the text to sign, and answers a signature or none; Privy is given its credentials, the wallet and the data.
\<close>

record wallet_env =
  we_env :: "string \<Rightarrow> string option"
  we_privateKeyToAccount :: "hex \<Rightarrow> account"
  we_cdp :: "string option \<times> string option \<times> string option \<Rightarrow> string \<Rightarrow> string + account"
  we_circle :: "string \<Rightarrow> string \<Rightarrow> string \<Rightarrow> string \<Rightarrow> string + string option"
  we_privy :: "string \<Rightarrow> string \<Rightarrow> string \<Rightarrow> json \<Rightarrow> string + hex"
  we_read :: "public_client \<Rightarrow> address \<Rightarrow> address \<Rightarrow> string + int"
  we_lib :: permit2_lib
  we_witnessTypes :: "(string \<times> (string \<times> string) list) list"

text \<open>The random values and the clock of one call.\<close>

record sign_call =
  sn_rnd :: "nat \<Rightarrow> hex"
  sn_permit2Nonce :: int
  sn_now :: int

datatype wallet_error = We_message string | We_sign sign_error | We_chain chain_error

text \<open>\<open>signEIP3009Authorization(req, account, { tracker })\<close> and \<open>signPermit2Authorization(req, account)\<close>.\<close>

definition sign_with ::
  "sign_call \<Rightarrow> account \<Rightarrow> payment_request \<Rightarrow> nonce_tracker \<Rightarrow> ((wallet_error + signed_authorization) \<times> nonce_tracker) option" where
  "sign_with c acc req t =
     (case signEIP3009Authorization (sn_rnd c) 0 (\<lambda>d a. ac_signTypedData acc (transfer_typed_data d a)) (ac_address acc) (sn_now c) req
             \<lparr>so_validForSeconds = None, so_nonce = None, so_tracker = Some t\<rparr> of
        None \<Rightarrow> None
      | Some (r, t') \<Rightarrow> Some (map_sum We_sign id r, case t' of None \<Rightarrow> t | Some u \<Rightarrow> u))"

definition sign_permit2_with :: "wallet_env \<Rightarrow> sign_call \<Rightarrow> account \<Rightarrow> payment_request \<Rightarrow> wallet_error + signed_permit2" where
  "sign_permit2_with w c acc req =
     map_sum We_sign id
       (signPermit2Authorization (we_lib w) (sn_permit2Nonce c)
          (\<lambda>d p. ac_signTypedData acc (permit2_typed_data (we_witnessTypes w) d p)) (sn_now c) req
          \<lparr>po_validForSeconds = None, po_validAfter = None, po_nonce = None, po_spender = None\<rparr>)"

definition adapter_balance ::
  "wallet_env \<Rightarrow> string \<Rightarrow> string option \<Rightarrow> address \<Rightarrow> string + address \<Rightarrow> wallet_error + int" where
  "adapter_balance w chain rpcUrl token owner =
     (case makePublicClient chain rpcUrl of
        Inl e \<Rightarrow> Inl (We_chain e)
      | Inr client \<Rightarrow>
          (case owner of
             Inl e \<Rightarrow> Inl (We_message e)
           | Inr address \<Rightarrow> map_sum We_message id (erc20Balance (we_read w) client token address)))"

subsection \<open>A local private key\<close>

record viem_config =
  vc_privateKey :: hex
  vc_chain :: "string option"
  vc_rpcUrl :: "string option"

record viem_adapter =
  va_chain :: string
  va_account :: account
  va_rpcUrl :: "string option"
  va_nonces :: nonce_tracker

definition default_chain :: "string option \<Rightarrow> string" where
  "default_chain chain = (case chain of Some c \<Rightarrow> c | None \<Rightarrow> ''eip155:84532'')"

definition ViemAdapter_new :: "wallet_env \<Rightarrow> viem_config \<Rightarrow> viem_adapter" where
  "ViemAdapter_new w cfg =
     \<lparr>va_chain = default_chain (vc_chain cfg), va_account = we_privateKeyToAccount w (vc_privateKey cfg),
      va_rpcUrl = vc_rpcUrl cfg, va_nonces = new_tracker\<rparr>"

definition ViemAdapter_getAddress :: "viem_adapter \<Rightarrow> address" where
  "ViemAdapter_getAddress a = ac_address (va_account a)"

definition ViemAdapter_getSigner :: "viem_adapter \<Rightarrow> account" where
  "ViemAdapter_getSigner a = va_account a"

definition ViemAdapter_getBalance :: "wallet_env \<Rightarrow> address \<Rightarrow> viem_adapter \<Rightarrow> wallet_error + int" where
  "ViemAdapter_getBalance w token a =
     adapter_balance w (va_chain a) (va_rpcUrl a) token (Inr (ac_address (va_account a)))"

definition ViemAdapter_authorizePayment ::
  "sign_call \<Rightarrow> payment_request \<Rightarrow> viem_adapter \<Rightarrow> ((wallet_error + signed_authorization) \<times> viem_adapter) option" where
  "ViemAdapter_authorizePayment c req a =
     map_option (\<lambda>(r, t). (r, a\<lparr>va_nonces := t\<rparr>)) (sign_with c (va_account a) req (va_nonces a))"

definition ViemAdapter_authorizePaymentPermit2 ::
  "wallet_env \<Rightarrow> sign_call \<Rightarrow> payment_request \<Rightarrow> viem_adapter \<Rightarrow> wallet_error + signed_permit2" where
  "ViemAdapter_authorizePaymentPermit2 w c req a = sign_permit2_with w c (va_account a) req"

definition ViemAdapter_releaseNonce :: "hex \<Rightarrow> viem_adapter \<Rightarrow> viem_adapter" where
  "ViemAdapter_releaseNonce nonce a = a\<lparr>va_nonces := InFlightNonceTracker_release nonce (va_nonces a)\<rparr>"

subsection \<open>Coinbase\<close>

record cdp_config =
  cf_apiKeyId :: "string option"
  cf_apiKeySecret :: "string option"
  cf_walletSecret :: "string option"
  cf_accountName :: "string option"
  cf_chain :: "string option"
  cf_rpcUrl :: "string option"

record cdp_adapter =
  ca_chain :: string
  ca_cfg :: cdp_config
  ca_signer :: "account option"
  ca_nonces :: nonce_tracker

definition CdpAdapter_new :: "cdp_config \<Rightarrow> cdp_adapter" where
  "CdpAdapter_new cfg =
     \<lparr>ca_chain = default_chain (cf_chain cfg), ca_cfg = cfg, ca_signer = None, ca_nonces = new_tracker\<rparr>"

definition CdpAdapter_ensureSigner :: "wallet_env \<Rightarrow> cdp_adapter \<Rightarrow> (string + account) \<times> cdp_adapter" where
  "CdpAdapter_ensureSigner w a =
     (case ca_signer a of
        Some acc \<Rightarrow> (Inr acc, a)
      | None \<Rightarrow>
          (case we_cdp w (or_else (cf_apiKeyId (ca_cfg a)) (we_env w ''CDP_API_KEY_ID''),
                          or_else (cf_apiKeySecret (ca_cfg a)) (we_env w ''CDP_API_KEY_SECRET''),
                          or_else (cf_walletSecret (ca_cfg a)) (we_env w ''CDP_WALLET_SECRET''))
                  (case or_else (cf_accountName (ca_cfg a)) (we_env w ''CDP_ACCOUNT_NAME'') of
                     Some n \<Rightarrow> n | None \<Rightarrow> ''agentctl-agent'') of
             Inl e \<Rightarrow> (Inl e, a)
           | Inr acc \<Rightarrow> (Inr acc, a\<lparr>ca_signer := Some acc\<rparr>)))"

definition CdpAdapter_getAddress :: "wallet_env \<Rightarrow> cdp_adapter \<Rightarrow> (string + address) \<times> cdp_adapter" where
  "CdpAdapter_getAddress w a = (case CdpAdapter_ensureSigner w a of (r, a') \<Rightarrow> (map_sum id ac_address r, a'))"

definition CdpAdapter_getSigner :: "wallet_env \<Rightarrow> cdp_adapter \<Rightarrow> (string + account) \<times> cdp_adapter" where
  "CdpAdapter_getSigner w a = CdpAdapter_ensureSigner w a"

text \<open>The client is made before the address is asked for.\<close>

definition CdpAdapter_getBalance :: "wallet_env \<Rightarrow> address \<Rightarrow> cdp_adapter \<Rightarrow> (wallet_error + int) \<times> cdp_adapter" where
  "CdpAdapter_getBalance w token a =
     (case makePublicClient (ca_chain a) (cf_rpcUrl (ca_cfg a)) of
        Inl e \<Rightarrow> (Inl (We_chain e), a)
      | Inr client \<Rightarrow>
          (case CdpAdapter_getAddress w a of
             (owner, a') \<Rightarrow> (adapter_balance w (ca_chain a) (cf_rpcUrl (ca_cfg a)) token owner, a')))"

definition CdpAdapter_authorizePayment ::
  "wallet_env \<Rightarrow> sign_call \<Rightarrow> payment_request \<Rightarrow> cdp_adapter \<Rightarrow> ((wallet_error + signed_authorization) \<times> cdp_adapter) option" where
  "CdpAdapter_authorizePayment w c req a =
     (case CdpAdapter_ensureSigner w a of
        (Inl e, a') \<Rightarrow> Some (Inl (We_message e), a')
      | (Inr acc, a') \<Rightarrow> map_option (\<lambda>(r, t). (r, a'\<lparr>ca_nonces := t\<rparr>)) (sign_with c acc req (ca_nonces a')))"

definition CdpAdapter_authorizePaymentPermit2 ::
  "wallet_env \<Rightarrow> sign_call \<Rightarrow> payment_request \<Rightarrow> cdp_adapter \<Rightarrow> (wallet_error + signed_permit2) \<times> cdp_adapter" where
  "CdpAdapter_authorizePaymentPermit2 w c req a =
     (case CdpAdapter_ensureSigner w a of
        (Inl e, a') \<Rightarrow> (Inl (We_message e), a')
      | (Inr acc, a') \<Rightarrow> (sign_permit2_with w c acc req, a'))"

definition CdpAdapter_releaseNonce :: "hex \<Rightarrow> cdp_adapter \<Rightarrow> cdp_adapter" where
  "CdpAdapter_releaseNonce nonce a = a\<lparr>ca_nonces := InFlightNonceTracker_release nonce (ca_nonces a)\<rparr>"

subsection \<open>Circle\<close>

record circle_config =
  ic_apiKey :: "string option"
  ic_entitySecret :: "string option"
  ic_walletId :: string
  ic_address :: address
  ic_chain :: "string option"
  ic_rpcUrl :: "string option"

record circle_adapter =
  ci_chain :: string
  ci_cfg :: circle_config
  ci_signer :: "account option"
  ci_nonces :: nonce_tracker

definition CircleAdapter_new :: "circle_config \<Rightarrow> circle_adapter" where
  "CircleAdapter_new cfg =
     \<lparr>ci_chain = default_chain (ic_chain cfg), ci_cfg = cfg, ci_signer = None, ci_nonces = new_tracker\<rparr>"

text \<open>Circle signs a text; an answer without a signature is an error.\<close>

definition circle_sign :: "wallet_env \<Rightarrow> string \<Rightarrow> string \<Rightarrow> string \<Rightarrow> typed_data \<Rightarrow> string + hex" where
  "circle_sign w apiKey entitySecret walletId params =
     (case we_circle w apiKey entitySecret walletId (eip712ToJson params) of
        Inl e \<Rightarrow> Inl e
      | Inr sig \<Rightarrow> if truthy sig then Inr (the sig) else Inl ''Circle signTypedData returned no signature'')"

definition CircleAdapter_ensureSigner :: "wallet_env \<Rightarrow> circle_adapter \<Rightarrow> (string + account) \<times> circle_adapter" where
  "CircleAdapter_ensureSigner w a =
     (case ci_signer a of
        Some acc \<Rightarrow> (Inr acc, a)
      | None \<Rightarrow>
          (let key = or_else (ic_apiKey (ci_cfg a)) (we_env w ''CIRCLE_API_KEY'');
               secret = or_else (ic_entitySecret (ci_cfg a)) (we_env w ''CIRCLE_ENTITY_SECRET'')
           in if \<not> truthy key then (Inl ''CircleAdapter: CIRCLE_API_KEY not set (config.apiKey or env)'', a)
              else if \<not> truthy secret then (Inl ''CircleAdapter: CIRCLE_ENTITY_SECRET not set (config.entitySecret or env)'', a)
              else (let acc = createRemoteSignerAccount (ic_address (ci_cfg a))
                          (\<lambda>params. circle_sign w (the key) (the secret) (ic_walletId (ci_cfg a)) params)
                    in (Inr acc, a\<lparr>ci_signer := Some acc\<rparr>))))"

definition CircleAdapter_getAddress :: "circle_adapter \<Rightarrow> address" where
  "CircleAdapter_getAddress a = ic_address (ci_cfg a)"

definition CircleAdapter_getSigner :: "wallet_env \<Rightarrow> circle_adapter \<Rightarrow> (string + account) \<times> circle_adapter" where
  "CircleAdapter_getSigner w a = CircleAdapter_ensureSigner w a"

definition CircleAdapter_getBalance :: "wallet_env \<Rightarrow> address \<Rightarrow> circle_adapter \<Rightarrow> wallet_error + int" where
  "CircleAdapter_getBalance w token a =
     adapter_balance w (ci_chain a) (ic_rpcUrl (ci_cfg a)) token (Inr (ic_address (ci_cfg a)))"

definition CircleAdapter_authorizePayment ::
  "wallet_env \<Rightarrow> sign_call \<Rightarrow> payment_request \<Rightarrow> circle_adapter \<Rightarrow> ((wallet_error + signed_authorization) \<times> circle_adapter) option" where
  "CircleAdapter_authorizePayment w c req a =
     (case CircleAdapter_ensureSigner w a of
        (Inl e, a') \<Rightarrow> Some (Inl (We_message e), a')
      | (Inr acc, a') \<Rightarrow> map_option (\<lambda>(r, t). (r, a'\<lparr>ci_nonces := t\<rparr>)) (sign_with c acc req (ci_nonces a')))"

definition CircleAdapter_authorizePaymentPermit2 ::
  "wallet_env \<Rightarrow> sign_call \<Rightarrow> payment_request \<Rightarrow> circle_adapter \<Rightarrow> (wallet_error + signed_permit2) \<times> circle_adapter" where
  "CircleAdapter_authorizePaymentPermit2 w c req a =
     (case CircleAdapter_ensureSigner w a of
        (Inl e, a') \<Rightarrow> (Inl (We_message e), a')
      | (Inr acc, a') \<Rightarrow> (sign_permit2_with w c acc req, a'))"

definition CircleAdapter_releaseNonce :: "hex \<Rightarrow> circle_adapter \<Rightarrow> circle_adapter" where
  "CircleAdapter_releaseNonce nonce a = a\<lparr>ci_nonces := InFlightNonceTracker_release nonce (ci_nonces a)\<rparr>"

subsection \<open>Privy\<close>

record privy_config =
  ip_appId :: "string option"
  ip_appSecret :: "string option"
  ip_walletId :: string
  ip_address :: address
  ip_chain :: "string option"
  ip_rpcUrl :: "string option"

record privy_adapter =
  py_chain :: string
  py_cfg :: privy_config
  py_signer :: "account option"
  py_nonces :: nonce_tracker

definition PrivyAdapter_new :: "privy_config \<Rightarrow> privy_adapter" where
  "PrivyAdapter_new cfg =
     \<lparr>py_chain = default_chain (ip_chain cfg), py_cfg = cfg, py_signer = None, py_nonces = new_tracker\<rparr>"

text \<open>Privy signs the data that the text is parsed to.\<close>

definition privy_sign :: "wallet_env \<Rightarrow> string \<Rightarrow> string \<Rightarrow> string \<Rightarrow> typed_data \<Rightarrow> string + hex" where
  "privy_sign w appId appSecret walletId params =
     (case json_parse (eip712ToJson params) of
        None \<Rightarrow> Inl ''SyntaxError''
      | Some typedData \<Rightarrow> we_privy w appId appSecret walletId typedData)"

definition PrivyAdapter_ensureSigner :: "wallet_env \<Rightarrow> privy_adapter \<Rightarrow> (string + account) \<times> privy_adapter" where
  "PrivyAdapter_ensureSigner w a =
     (case py_signer a of
        Some acc \<Rightarrow> (Inr acc, a)
      | None \<Rightarrow>
          (let key = or_else (ip_appId (py_cfg a)) (we_env w ''PRIVY_APP_ID'');
               secret = or_else (ip_appSecret (py_cfg a)) (we_env w ''PRIVY_APP_SECRET'')
           in if \<not> truthy key then (Inl ''PrivyAdapter: PRIVY_APP_ID not set (config.appId or env)'', a)
              else if \<not> truthy secret then (Inl ''PrivyAdapter: PRIVY_APP_SECRET not set (config.appSecret or env)'', a)
              else (let acc = createRemoteSignerAccount (ip_address (py_cfg a))
                          (\<lambda>params. privy_sign w (the key) (the secret) (ip_walletId (py_cfg a)) params)
                    in (Inr acc, a\<lparr>py_signer := Some acc\<rparr>))))"

definition PrivyAdapter_getAddress :: "privy_adapter \<Rightarrow> address" where
  "PrivyAdapter_getAddress a = ip_address (py_cfg a)"

definition PrivyAdapter_getSigner :: "wallet_env \<Rightarrow> privy_adapter \<Rightarrow> (string + account) \<times> privy_adapter" where
  "PrivyAdapter_getSigner w a = PrivyAdapter_ensureSigner w a"

definition PrivyAdapter_getBalance :: "wallet_env \<Rightarrow> address \<Rightarrow> privy_adapter \<Rightarrow> wallet_error + int" where
  "PrivyAdapter_getBalance w token a =
     adapter_balance w (py_chain a) (ip_rpcUrl (py_cfg a)) token (Inr (ip_address (py_cfg a)))"

definition PrivyAdapter_authorizePayment ::
  "wallet_env \<Rightarrow> sign_call \<Rightarrow> payment_request \<Rightarrow> privy_adapter \<Rightarrow> ((wallet_error + signed_authorization) \<times> privy_adapter) option" where
  "PrivyAdapter_authorizePayment w c req a =
     (case PrivyAdapter_ensureSigner w a of
        (Inl e, a') \<Rightarrow> Some (Inl (We_message e), a')
      | (Inr acc, a') \<Rightarrow> map_option (\<lambda>(r, t). (r, a'\<lparr>py_nonces := t\<rparr>)) (sign_with c acc req (py_nonces a')))"

definition PrivyAdapter_authorizePaymentPermit2 ::
  "wallet_env \<Rightarrow> sign_call \<Rightarrow> payment_request \<Rightarrow> privy_adapter \<Rightarrow> (wallet_error + signed_permit2) \<times> privy_adapter" where
  "PrivyAdapter_authorizePaymentPermit2 w c req a =
     (case PrivyAdapter_ensureSigner w a of
        (Inl e, a') \<Rightarrow> (Inl (We_message e), a')
      | (Inr acc, a') \<Rightarrow> (sign_permit2_with w c acc req, a'))"

definition PrivyAdapter_releaseNonce :: "hex \<Rightarrow> privy_adapter \<Rightarrow> privy_adapter" where
  "PrivyAdapter_releaseNonce nonce a = a\<lparr>py_nonces := InFlightNonceTracker_release nonce (py_nonces a)\<rparr>"

section \<open>The interface\<close>

text \<open>A value of type \<open>IWalletAdapter\<close> is one of the four; its methods are those of its class.\<close>

datatype wallet = Viem viem_adapter | Cdp cdp_adapter | Circle circle_adapter | Privy privy_adapter

fun wallet_authorizePayment ::
  "wallet_env \<Rightarrow> sign_call \<Rightarrow> payment_request \<Rightarrow> wallet \<Rightarrow> ((wallet_error + signed_authorization) \<times> wallet) option" where
  "wallet_authorizePayment w c req (Viem a) = map_option (map_prod id Viem) (ViemAdapter_authorizePayment c req a)"
| "wallet_authorizePayment w c req (Cdp a) = map_option (map_prod id Cdp) (CdpAdapter_authorizePayment w c req a)"
| "wallet_authorizePayment w c req (Circle a) = map_option (map_prod id Circle) (CircleAdapter_authorizePayment w c req a)"
| "wallet_authorizePayment w c req (Privy a) = map_option (map_prod id Privy) (PrivyAdapter_authorizePayment w c req a)"

fun wallet_releaseNonce :: "hex \<Rightarrow> wallet \<Rightarrow> wallet" where
  "wallet_releaseNonce n (Viem a) = Viem (ViemAdapter_releaseNonce n a)"
| "wallet_releaseNonce n (Cdp a) = Cdp (CdpAdapter_releaseNonce n a)"
| "wallet_releaseNonce n (Circle a) = Circle (CircleAdapter_releaseNonce n a)"
| "wallet_releaseNonce n (Privy a) = Privy (PrivyAdapter_releaseNonce n a)"

fun wallet_nonces :: "wallet \<Rightarrow> nonce_tracker" where
  "wallet_nonces (Viem a) = va_nonces a"
| "wallet_nonces (Cdp a) = ca_nonces a"
| "wallet_nonces (Circle a) = ci_nonces a"
| "wallet_nonces (Privy a) = py_nonces a"

text \<open>
  A run of a wallet: the authorisations it gave out and that were not released, oldest first. The
  result is \<open>None\<close> if a call never returns.
\<close>

datatype wallet_call = Authorize sign_call payment_request | Release hex

definition auth_nonce :: "signed_authorization \<Rightarrow> string" where
  "auth_nonce s = lower (au_nonce (sa_authorization s))"

fun wallet_run ::
  "(sign_call \<Rightarrow> payment_request \<Rightarrow> 'w \<Rightarrow> ((wallet_error + signed_authorization) \<times> 'w) option) \<Rightarrow> (hex \<Rightarrow> 'w \<Rightarrow> 'w) \<Rightarrow>
     wallet_call list \<Rightarrow> 'w \<Rightarrow> signed_authorization list \<Rightarrow> ('w \<times> signed_authorization list) option" where
  "wallet_run authorize release [] w given = Some (w, given)"
| "wallet_run authorize release (Authorize c req # calls) w given =
     (case authorize c req w of
        None \<Rightarrow> None
      | Some (Inl e, w') \<Rightarrow> wallet_run authorize release calls w' given
      | Some (Inr s, w') \<Rightarrow> wallet_run authorize release calls w' (given @ [s]))"
| "wallet_run authorize release (Release n # calls) w given =
     wallet_run authorize release calls (release n w) (filter (\<lambda>s. auth_nonce s \<noteq> lower n) given)"

text \<open>
  What the wallets promise: an authorisation pays what was asked with a nonce that was not in flight
  and is from then on, a call that fails gives no nonce back, and a release gives back that one nonce.
\<close>

definition pays :: "signed_authorization \<Rightarrow> payment_request \<Rightarrow> bool" where
  "pays s req \<longleftrightarrow> au_to (sa_authorization s) = r_recipient req \<and> au_value (sa_authorization s) = r_amount req"

definition held :: "('w \<Rightarrow> nonce_tracker) \<Rightarrow> 'w \<Rightarrow> signed_authorization list \<Rightarrow> bool" where
  "held nonces w given \<longleftrightarrow> distinct (map auth_nonce given) \<and> auth_nonce ` set given \<subseteq> nt_inflight (nonces w)"

locale nonce_wallet =
  fixes authorize :: "sign_call \<Rightarrow> payment_request \<Rightarrow> 'w \<Rightarrow> ((wallet_error + signed_authorization) \<times> 'w) option"
    and release :: "hex \<Rightarrow> 'w \<Rightarrow> 'w"
    and nonces :: "'w \<Rightarrow> nonce_tracker"
  assumes authorize_signs: "authorize c req w = Some (Inr s, w') \<Longrightarrow>
      pays s req \<and> auth_nonce s \<notin> nt_inflight (nonces w) \<and>
      nt_inflight (nonces w') = insert (auth_nonce s) (nt_inflight (nonces w))"
    and authorize_fails: "authorize c req w = Some (Inl e, w') \<Longrightarrow> nt_inflight (nonces w) \<subseteq> nt_inflight (nonces w')"
    and release_gives_back: "nt_inflight (nonces (release n w)) = nt_inflight (nonces w) - {lower n}"
begin

lemma run_keeps_held:
  assumes "wallet_run authorize release calls w given = Some (w', given')" "held nonces w given"
  shows "held nonces w' given'"
  using assms
proof (induction calls arbitrary: w given)
  case (Cons call calls)
  show ?case
  proof (cases call)
    case (Authorize c req)
    obtain r v where r: "authorize c req w = Some (r, v)"
      using Cons.prems(1) Authorize by (auto split: option.splits)
    show ?thesis
    proof (cases r)
      case (Inl e)
      then have "held nonces v given" using Cons.prems(2) authorize_fails r by (force simp: held_def)
      then show ?thesis using Cons.IH Cons.prems(1) Authorize r Inl by simp
    next
      case (Inr s)
      then have "held nonces v (given @ [s])"
        using Cons.prems(2) authorize_signs [of c req w s v] r by (auto simp: held_def)
      then show ?thesis using Cons.IH Cons.prems(1) Authorize r Inr by simp
    qed
  next
    case (Release n)
    have "held nonces (release n w) (filter (\<lambda>s. auth_nonce s \<noteq> lower n) given)"
      using Cons.prems(2) by (auto simp: held_def release_gives_back distinct_map_filter)
    then show ?thesis using Cons Release by simp
  qed
qed simp

lemma run_pays:
  assumes "wallet_run authorize release calls w given = Some (w', given')" "s \<in> set given'"
  shows "s \<in> set given \<or> (\<exists>c req. Authorize c req \<in> set calls \<and> pays s req)"
  using assms
proof (induction calls arbitrary: w given)
  case (Cons call calls)
  show ?case
  proof (cases call)
    case (Authorize c req)
    obtain r v where r: "authorize c req w = Some (r, v)"
      using Cons.prems(1) Authorize by (auto split: option.splits)
    show ?thesis
    proof (cases r)
      case (Inl e)
      then show ?thesis using Cons.IH [of v given] Cons.prems Authorize r by auto
    next
      case (Inr t)
      then have "pays t req" using authorize_signs r by blast
      then show ?thesis using Cons.IH [of v "given @ [t]"] Cons.prems Authorize r Inr by auto
    qed
  next
    case (Release n)
    then show ?thesis using Cons.IH [of "release n w" "filter (\<lambda>s. auth_nonce s \<noteq> lower n) given"] Cons.prems by auto
  qed
qed simp

end

lemma reserve_facts:
  assumes "InFlightNonceTracker_reserve rnd k nonce t = Some (n, k', t')"
  shows "lower n \<notin> nt_inflight t" "nt_inflight t' = insert (lower n) (nt_inflight t)"
  using assms reserve_loop_fresh
  by (auto simp: InFlightNonceTracker_reserve_def split: option.splits)

lemma sign_with_pays:
  assumes "sign_with c acc req t = Some (Inr s, t')"
  shows "pays s req \<and> auth_nonce s \<notin> nt_inflight t \<and> nt_inflight t' = insert (auth_nonce s) (nt_inflight t)"
  using assms reserve_facts
  by (auto simp: sign_with_def signEIP3009Authorization_def choose_nonce_def Let_def pays_def auth_nonce_def
      split: sum.splits option.splits)

lemma sign_with_keeps:
  assumes "x \<in> nt_inflight t" "sign_with c acc req t = Some (r, t')"
  shows "x \<in> nt_inflight t'"
  using assms reserve_facts(2)
  by (auto simp: sign_with_def signEIP3009Authorization_def choose_nonce_def Let_def split: sum.splits option.splits)

text \<open>Every wallet keeps the promises, whichever provider signs.\<close>

lemma ensureSigner_keeps_nonces:
  "CdpAdapter_ensureSigner w a = (r, a') \<Longrightarrow> ca_nonces a' = ca_nonces a"
  "CircleAdapter_ensureSigner w b = (r, b') \<Longrightarrow> ci_nonces b' = ci_nonces b"
  "PrivyAdapter_ensureSigner w d = (r, d') \<Longrightarrow> py_nonces d' = py_nonces d"
  by (auto simp: CdpAdapter_ensureSigner_def CircleAdapter_ensureSigner_def PrivyAdapter_ensureSigner_def Let_def
      split: option.splits sum.splits if_splits)

interpretation viem: nonce_wallet ViemAdapter_authorizePayment ViemAdapter_releaseNonce va_nonces
  by unfold_locales
    (auto simp: ViemAdapter_authorizePayment_def ViemAdapter_releaseNonce_def InFlightNonceTracker_release_def
      dest: sign_with_pays intro: sign_with_keeps)

interpretation cdp: nonce_wallet "CdpAdapter_authorizePayment w" CdpAdapter_releaseNonce ca_nonces for w
  by unfold_locales
    (auto simp: CdpAdapter_authorizePayment_def CdpAdapter_releaseNonce_def InFlightNonceTracker_release_def
      dest!: ensureSigner_keeps_nonces dest: sign_with_pays intro: sign_with_keeps split: prod.splits sum.splits)

interpretation circle: nonce_wallet "CircleAdapter_authorizePayment w" CircleAdapter_releaseNonce ci_nonces for w
  by unfold_locales
    (auto simp: CircleAdapter_authorizePayment_def CircleAdapter_releaseNonce_def InFlightNonceTracker_release_def
      dest!: ensureSigner_keeps_nonces dest: sign_with_pays intro: sign_with_keeps split: prod.splits sum.splits)

interpretation privy: nonce_wallet "PrivyAdapter_authorizePayment w" PrivyAdapter_releaseNonce py_nonces for w
  by unfold_locales
    (auto simp: PrivyAdapter_authorizePayment_def PrivyAdapter_releaseNonce_def InFlightNonceTracker_release_def
      dest!: ensureSigner_keeps_nonces dest: sign_with_pays intro: sign_with_keeps split: prod.splits sum.splits)

lemma wallet_authorize_cases:
  assumes "wallet_authorizePayment w c req v = Some (r, v')"
  obtains (Viem) a a' where "v = Viem a" "v' = Viem a'" "ViemAdapter_authorizePayment c req a = Some (r, a')"
    | (Cdp) a a' where "v = Cdp a" "v' = Cdp a'" "CdpAdapter_authorizePayment w c req a = Some (r, a')"
    | (Circle) a a' where "v = Circle a" "v' = Circle a'" "CircleAdapter_authorizePayment w c req a = Some (r, a')"
    | (Privy) a a' where "v = Privy a" "v' = Privy a'" "PrivyAdapter_authorizePayment w c req a = Some (r, a')"
  using assms by (cases v) auto

interpretation wallets: nonce_wallet "wallet_authorizePayment w" wallet_releaseNonce wallet_nonces for w
proof unfold_locales
  fix c req v s v'
  assume "wallet_authorizePayment w c req v = Some (Inr s, v')"
  then show "pays s req \<and> auth_nonce s \<notin> nt_inflight (wallet_nonces v) \<and>
      nt_inflight (wallet_nonces v') = insert (auth_nonce s) (nt_inflight (wallet_nonces v))"
    by (cases rule: wallet_authorize_cases)
      (simp_all add: viem.authorize_signs cdp.authorize_signs circle.authorize_signs privy.authorize_signs)
next
  fix c req v e v'
  assume "wallet_authorizePayment w c req v = Some (Inl e, v')"
  then show "nt_inflight (wallet_nonces v) \<subseteq> nt_inflight (wallet_nonces v')"
    by (cases rule: wallet_authorize_cases)
      (simp_all add: viem.authorize_fails cdp.authorize_fails circle.authorize_fails privy.authorize_fails)
next
  show "nt_inflight (wallet_nonces (wallet_releaseNonce n v)) = nt_inflight (wallet_nonces v) - {lower n}" for n v
    by (cases v) (simp_all add: viem.release_gives_back cdp.release_gives_back circle.release_gives_back privy.release_gives_back)
qed

section \<open>Properties\<close>

text \<open>
  C20. Whatever wallet is used and whatever its provider answers, the authorisations that are out at the same
  time never share a nonce (up to letter case), each pays the recipient and the amount of one of
  the requests, and their nonces are all in flight.
\<close>

theorem outstanding_authorizations_distinct:
  assumes "wallet_run (wallet_authorizePayment w) wallet_releaseNonce calls v [] = Some (v', given)"
  shows "distinct (map auth_nonce given) \<and> auth_nonce ` set given \<subseteq> nt_inflight (wallet_nonces v') \<and>
     list_all (\<lambda>s. \<exists>c req. Authorize c req \<in> set calls \<and> pays s req) given"
  using wallets.run_keeps_held [OF assms] wallets.run_pays [OF assms] by (auto simp: held_def list_all_iff)

lemma stringify_ok_members:
  "distinct (map fst ms) \<Longrightarrow> list_all (\<lambda>(k, v). json_ok (stringify_bigints v)) ms \<Longrightarrow> json_ok (stringify_bigints (VObj ms))"
  by (auto simp: list_all_iff comp_def case_prod_beta)

lemma type_members_ok: "json_ok (stringify_bigints (type_members ms))"
  by (auto simp: type_members_def list_all_iff)

lemma eip712_types_distinct: "distinct (map fst (eip712_types td))"
proof -
  have "distinct (map fst (fold (\<lambda>(k, v) m. AList.update k v m) kvs m))" if "distinct (map fst m)"
    for kvs :: "(string \<times> (string \<times> string) list) list" and m
    using that by (induction kvs arbitrary: m) (auto simp: distinct_update)
  then show ?thesis by (simp add: eip712_types_def)
qed

lemma payload_ok:
  assumes "json_ok (stringify_bigints (VObj (case td_domain td of None \<Rightarrow> [] | Some d \<Rightarrow> d)))"
    and "json_ok (stringify_bigints (td_message td))"
  shows "json_ok (stringify_bigints (eip712_payload td))"
proof -
  have "json_ok (stringify_bigints (VObj (map (\<lambda>(k, ms). (k, type_members ms)) (eip712_types td))))"
    using eip712_types_distinct [of td]
    by (intro stringify_ok_members) (auto simp: list_all_iff comp_def case_prod_beta type_members_ok)
  then show ?thesis using assms by (simp add: eip712_payload_def)
qed

lemma typed_data_ok:
  "json_ok (stringify_bigints (eip712_payload (transfer_typed_data d a)))"
  "json_ok (stringify_bigints (eip712_payload (permit2_typed_data types e p)))"
  by (rule payload_ok; simp add: transfer_typed_data_def permit2_typed_data_def number_ok_bigint)+

text \<open>
  C24. The text that a provider is asked to sign says everything: parsed, it is the typed data with its integers
  in decimal, and two EIP-3009 authorisations, or two Permit2 ones, have the same text only if their domains and every
  field agree. So Circle and Privy cannot be made to sign another payment than the one the wallet was asked for.
\<close>

theorem remote_text_determines_payment:
  "json_parse (eip712ToJson (transfer_typed_data d a)) = Some (stringify_bigints (eip712_payload (transfer_typed_data d a))) \<and>
   (eip712ToJson (transfer_typed_data d a) = eip712ToJson (transfer_typed_data d' a') \<longleftrightarrow> d = d' \<and> a = a') \<and>
   json_parse (eip712ToJson (permit2_typed_data types e p)) = Some (stringify_bigints (eip712_payload (permit2_typed_data types e p))) \<and>
   (eip712ToJson (permit2_typed_data types e p) = eip712ToJson (permit2_typed_data types e' p') \<longleftrightarrow> e = e' \<and> p = p')"
proof -
  have same: "json_text u = json_text v \<longleftrightarrow> u = v" if "json_ok u" "json_ok v" for u v
    using that json_parse_text by (metis option.inject)
  have "(eip712ToJson (transfer_typed_data d a) = eip712ToJson (transfer_typed_data d' a')) \<longleftrightarrow> d = d' \<and> a = a'"
    unfolding eip712ToJson_def same [OF typed_data_ok(1) typed_data_ok(1)]
    by (cases d; cases d'; cases a; cases a') (auto simp: eip712_payload_def transfer_typed_data_def)
  moreover have "(eip712ToJson (permit2_typed_data types e p) = eip712ToJson (permit2_typed_data types e' p')) \<longleftrightarrow> e = e' \<and> p = p'"
    unfolding eip712ToJson_def same [OF typed_data_ok(2) typed_data_ok(2)]
    by (cases e; cases e'; cases p; cases p') (auto simp: eip712_payload_def permit2_typed_data_def)
  ultimately show ?thesis by (simp add: eip712ToJson_def json_parse_text typed_data_ok)
qed

text \<open>A wallet that found its signer keeps it, whatever happens to the environment.\<close>

lemma signer_is_kept:
  "CdpAdapter_ensureSigner w a = (Inr acc, a') \<Longrightarrow> CdpAdapter_ensureSigner w' a' = (Inr acc, a')"
  "CircleAdapter_ensureSigner w b = (Inr acc, b') \<Longrightarrow> CircleAdapter_ensureSigner w' b' = (Inr acc, b')"
  "PrivyAdapter_ensureSigner w d = (Inr acc, d') \<Longrightarrow> PrivyAdapter_ensureSigner w' d' = (Inr acc, d')"
  by (auto simp: CdpAdapter_ensureSigner_def CircleAdapter_ensureSigner_def PrivyAdapter_ensureSigner_def Let_def
      split: option.splits sum.splits if_splits)

text \<open>
  A nonce is lost when the provider fails: it stays in flight although no authorisation was given out that
  a caller could release.
\<close>

lemma failed_signature_keeps_nonce:
  assumes "getChain (r_chain req) = Inr cfg" "\<And>td. ac_signTypedData (va_account a) td = Inl e" "nt_inflight (va_nonces a) = {}"
  shows "ViemAdapter_authorizePayment c req a =
     Some (Inl (We_sign (Se_signer e)), a\<lparr>va_nonces := \<lparr>nt_inflight = {lower (sn_rnd c 0)}\<rparr>\<rparr>)"
  using assms
  by (simp add: ViemAdapter_authorizePayment_def sign_with_def signEIP3009Authorization_def choose_nonce_def
      InFlightNonceTracker_reserve_def reserve_loop.simps)

section \<open>Witnesses\<close>

definition ex_key :: account where
  "ex_key = \<lparr>ac_address = ''0xme'', ac_signTypedData = (\<lambda>td. Inr ''0x5''), ac_signMessage = (\<lambda>m. Inr []), ac_signTransaction = (\<lambda>t. Inr [])\<rparr>"

definition ex_wallet_env :: wallet_env where
  "ex_wallet_env = \<lparr>we_env = (\<lambda>k. None), we_privateKeyToAccount = (\<lambda>k. ex_key), we_cdp = (\<lambda>c n. Inl ''offline''),
     we_circle = (\<lambda>k s w d. Inr None), we_privy = (\<lambda>i s w d. Inl ''offline''), we_read = (\<lambda>c t a. Inr 0),
     we_lib = \<lparr>p2_PERMIT2_ADDRESS = ''0xp'', p2_x402ExactPermit2ProxyAddress = ''0xq'', p2_approvalTx = (\<lambda>t. (t, ''0x''))\<rparr>,
     we_witnessTypes = []\<rparr>"

definition ex_sign_call :: sign_call where
  "ex_sign_call = \<lparr>sn_rnd = ex_nonces, sn_permit2Nonce = 1, sn_now = 9000\<rparr>"

definition ex_viem :: viem_adapter where
  "ex_viem = ViemAdapter_new ex_wallet_env \<lparr>vc_privateKey = ''0x1'', vc_chain = None, vc_rpcUrl = None\<rparr>"

text \<open>Two payments from the same random source: the second draws again.\<close>

theorem outstanding_authorizations_distinct_witness:
  "\<exists>v' given. wallet_run (wallet_authorizePayment ex_wallet_env) wallet_releaseNonce
       [Authorize ex_sign_call ex_order, Authorize ex_sign_call ex_order] (Viem ex_viem) [] = Some (v', given) \<and>
     length given = 2 \<and> distinct (map auth_nonce given)"
proof -
  have zero: "lower [] = []" "lower ''0'' = ''0''" by code_simp+
  have "\<exists>v' given. wallet_run (wallet_authorizePayment ex_wallet_env) wallet_releaseNonce
       [Authorize ex_sign_call ex_order, Authorize ex_sign_call ex_order] (Viem ex_viem) [] = Some (v', given) \<and> length given = 2"
    by (simp add: ViemAdapter_authorizePayment_def ex_viem_def ViemAdapter_new_def ex_wallet_env_def ex_key_def
        sign_with_def signEIP3009Authorization_def choose_nonce_def ex_sign_call_def ex_order_def getChain_def CHAINS_def
        InFlightNonceTracker_reserve_def reserve_loop.simps new_tracker_def ex_nonces_def zero numeral_2_eq_2 Let_def)
  then show ?thesis using outstanding_authorizations_distinct by metis
qed

end
