(* ===== verification/Bridge.thy ===== *)
theory Bridge
  imports Commands
begin

text \<open>
  The Python package \<open>src/packages/python/agentctl\<close>: the guard that asks \<open>agentctl eval\<close> (\<open>_bridge.py\<close>,
  \<open>guard.py\<close>) and the middleware that gates the tools of an agent (\<open>middleware.py\<close>). The subprocess is
  \<open>eval_command\<close>: its input is the text of \<open>json.dumps\<close> and its output is read by \<open>json.loads\<close>. A value that is
  raised is a result; \<open>Py_outside\<close> is a value of another type than the annotations say.
\<close>

section \<open>The guard\<close>

record py_request =
  py_intent :: string
  py_amount :: int
  py_token :: string
  py_recipient :: string
  py_chain :: string
  py_agent_id :: string
  py_resource_url :: "string option"

record py_check =
  pc_id :: string
  pc_passed :: bool
  pc_severity :: string
  pc_message :: string

text \<open>The risk score is the literal that was printed.\<close>

record py_decision =
  pd_verdict :: string
  pd_risk_score :: string
  pd_reason :: string
  pd_checks :: "py_check list"

record py_guard =
  pg_policy :: json
  pg_agent_id :: string

datatype py_exception =
    Bridge_failed
  | Bad_json
  | Bad_decision
  | Missing_arguments string "string list"
  | Bad_int
  | Escalate_is_async
  | Raised string

datatype 'a py_result = Py_value 'a | Py_raises py_exception | Py_outside

definition py_bind :: "'a py_result \<Rightarrow> ('a \<Rightarrow> 'b py_result) \<Rightarrow> 'b py_result" where
  "py_bind r f = (case r of Py_value v \<Rightarrow> f v | Py_raises e \<Rightarrow> Py_raises e | Py_outside \<Rightarrow> Py_outside)"

definition py_request_json :: "py_guard \<Rightarrow> py_request \<Rightarrow> json" where
  "py_request_json guard req =
     JObj [(''intent'', JStr (py_intent req)), (''amount'', JStr (bigint_to_string (py_amount req))),
       (''token'', JStr (py_token req)), (''recipient'', JStr (py_recipient req)), (''chain'', JStr (py_chain req)),
       (''agentId'', JStr (if py_agent_id req = [] then pg_agent_id guard else py_agent_id req)),
       (''resourceUrl'', case py_resource_url req of None \<Rightarrow> JNull | Some u \<Rightarrow> JStr u)]"

text \<open>\<open>PolicyCheck(**c)\<close> takes exactly the four fields.\<close>

definition py_check_of :: "json \<Rightarrow> py_check option" where
  "py_check_of j =
     (case j of
        JObj ms \<Rightarrow>
          (if set (map fst ms) \<noteq> {''id'', ''passed'', ''severity'', ''message''} then None
           else case (json_get j ''id'', json_get j ''passed'', json_get j ''severity'', json_get j ''message'') of
             (Some (JStr i), Some (JBool p), Some (JStr s), Some (JStr m)) \<Rightarrow>
               Some \<lparr>pc_id = i, pc_passed = p, pc_severity = s, pc_message = m\<rparr>
           | _ \<Rightarrow> None)
      | _ \<Rightarrow> None)"

definition py_decision_of :: "json \<Rightarrow> py_decision option" where
  "py_decision_of out =
     (case (json_get out ''verdict'', json_get out ''riskScore'', json_get out ''reason'',
            case json_get out ''checks'' of None \<Rightarrow> Some [] | Some (JArr cs) \<Rightarrow> all_some (map py_check_of cs) | _ \<Rightarrow> None) of
        (Some (JStr v), Some (JNum l), Some (JStr r), Some cs) \<Rightarrow>
          Some \<lparr>pd_verdict = v, pd_risk_score = l, pd_reason = r, pd_checks = cs\<rparr>
      | _ \<Rightarrow> None)"

definition py_space :: "char \<Rightarrow> bool" where
  "py_space c = (let n = (of_char c :: nat) in n \<in> {9, 10, 11, 12, 13, 28, 29, 30, 31, 32, 133, 160})"

definition py_strip :: "string \<Rightarrow> string" where
  "py_strip s = rev (dropWhile py_space (rev (dropWhile py_space s)))"

text \<open>The process of \<open>agentctl eval\<close>: its standard output, \<open>Failed\<close> with another return code than 0.\<close>

definition evaluate_via_bridge :: "(string \<Rightarrow> eval_outcome) \<Rightarrow> json \<Rightarrow> json \<Rightarrow> json py_result" where
  "evaluate_via_bridge process policy request =
     (case process (json_dumps (JObj [(''policy'', policy), (''request'', request)])) of
        Failed \<Rightarrow> Py_raises Bridge_failed
      | Untyped_input \<Rightarrow> Py_outside
      | Printed out \<Rightarrow> (case json_parse (py_strip out) of None \<Rightarrow> Py_raises Bad_json | Some j \<Rightarrow> Py_value j))"

text \<open>\<open>evaluate\<close> and, awaited, \<open>aevaluate\<close>.\<close>

definition py_evaluate :: "(string \<Rightarrow> eval_outcome) \<Rightarrow> py_guard \<Rightarrow> py_request \<Rightarrow> py_decision py_result" where
  "py_evaluate process guard req =
     py_bind (evaluate_via_bridge process (pg_policy guard) (py_request_json guard req)) (\<lambda>out.
       case py_decision_of out of None \<Rightarrow> Py_raises Bad_decision | Some d \<Rightarrow> Py_value d)"

section \<open>The middleware\<close>

datatype py_value = Py_int int | Py_float real | Py_str string | Py_none

type_synonym tool_args = "(string \<times> py_value) list"

text \<open>\<open>int(v)\<close>: a float is truncated; a text is a sign and digits, with single underscores between digits.\<close>

fun digits_of :: "bool \<Rightarrow> string \<Rightarrow> string option" where
  "digits_of after_digit [] = (if after_digit then Some [] else None)"
| "digits_of after_digit (c # cs) =
     (if digit_value c \<noteq> None then map_option (Cons c) (digits_of True cs)
      else if c = CHR ''_'' \<and> after_digit then digits_of False cs
      else None)"

definition py_int_of_string :: "string \<Rightarrow> int option" where
  "py_int_of_string s =
     (let t = py_strip s;
          (sign, ds) = (case t of c # cs \<Rightarrow> if c = CHR ''-'' then (-1, cs) else if c = CHR ''+'' then (1, cs) else (1, t) | [] \<Rightarrow> (1, []))
      in case digits_of False ds of
           None \<Rightarrow> None
         | Some digits \<Rightarrow> map_option (\<lambda>n. sign * int n) (digits_value 0 digits))"

definition py_int :: "py_value \<Rightarrow> int py_result" where
  "py_int v =
     (case v of
        Py_int n \<Rightarrow> Py_value n
      | Py_float x \<Rightarrow> Py_value (if x < 0 then \<lceil>x\<rceil> else \<lfloor>x\<rfloor>)
      | Py_str s \<Rightarrow> (case py_int_of_string s of None \<Rightarrow> Py_raises Bad_int | Some n \<Rightarrow> Py_value n)
      | Py_none \<Rightarrow> Py_raises Bad_int)"

fun py_string :: "py_value \<Rightarrow> string py_result" where
  "py_string (Py_str s) = Py_value s"
| "py_string v = Py_outside"

text \<open>The first text of \<open>reason\<close> and \<open>intent\<close> that is not empty.\<close>

definition py_intent_of :: "string \<Rightarrow> tool_args \<Rightarrow> string py_result" where
  "py_intent_of tool_name args =
     (let default = (case map_of args ''intent'' of
            None \<Rightarrow> Py_value (tool_name @ '' payment'')
          | Some Py_none \<Rightarrow> Py_value (tool_name @ '' payment'')
          | Some (Py_str s) \<Rightarrow> Py_value (if s = [] then tool_name @ '' payment'' else s)
          | Some v \<Rightarrow> Py_outside)
      in case map_of args ''reason'' of
           None \<Rightarrow> default
         | Some Py_none \<Rightarrow> default
         | Some (Py_str s) \<Rightarrow> if s = [] then default else Py_value s
         | Some v \<Rightarrow> Py_outside)"

definition py_to_request :: "py_guard \<Rightarrow> string \<Rightarrow> tool_args \<Rightarrow> py_request py_result" where
  "py_to_request guard tool_name args =
     (let missing = filter (\<lambda>k. map_of args k = None) [''amount'', ''token'', ''recipient'']
      in if missing \<noteq> [] then Py_raises (Missing_arguments tool_name missing)
         else
           py_bind (py_intent_of tool_name args) (\<lambda>intent.
           py_bind (py_int (the (map_of args ''amount''))) (\<lambda>amount.
           py_bind (py_string (the (map_of args ''token''))) (\<lambda>token.
           py_bind (py_string (the (map_of args ''recipient''))) (\<lambda>recipient.
           py_bind (case map_of args ''chain'' of None \<Rightarrow> Py_value ''eip155:84532'' | Some v \<Rightarrow> py_string v) (\<lambda>chain.
           py_bind (case map_of args ''resource_url'' of
               None \<Rightarrow> Py_value None | Some Py_none \<Rightarrow> Py_value None | Some (Py_str u) \<Rightarrow> Py_value (Some u) | Some v \<Rightarrow> Py_outside) (\<lambda>url.
             Py_value \<lparr>py_intent = intent, py_amount = amount, py_token = token, py_recipient = recipient, py_chain = chain,
               py_agent_id = pg_agent_id guard, py_resource_url = url\<rparr>)))))))"

text \<open>The answer of \<open>on_escalate\<close>, and of a call of a tool: refused with a text, or what the handler returned.\<close>

datatype py_approval = Answered bool | Awaitable "bool py_result"

datatype 'r tool_answer = Refused_by string | Handled 'r

definition py_refusal :: "py_decision \<Rightarrow> string" where
  "py_refusal d =
     (if pd_verdict d = ''block'' then ''Payment blocked by policy: '' @ pd_reason d
      else ''Payment requires human approval and was not approved: '' @ pd_reason d)"

record py_middleware =
  pm_guard :: py_guard
  pm_tools :: "string list"
  pm_on_escalate :: "(py_request \<Rightarrow> py_decision \<Rightarrow> py_approval py_result) option"

text \<open>
  \<open>wrap_tool_call\<close> and \<open>awrap_tool_call\<close>, which differ in an approval that has to be awaited: \<open>awaits\<close> says which.
\<close>

definition py_approved :: "bool \<Rightarrow> py_approval \<Rightarrow> bool py_result" where
  "py_approved awaits a =
     (case a of Answered b \<Rightarrow> Py_value b | Awaitable r \<Rightarrow> if awaits then r else Py_raises Escalate_is_async)"

definition wrap_tool_call ::
  "(string \<Rightarrow> eval_outcome) \<Rightarrow> bool \<Rightarrow> py_middleware \<Rightarrow> string \<Rightarrow> tool_args \<Rightarrow> (string \<Rightarrow> tool_args \<Rightarrow> 'r py_result) \<Rightarrow> 'r tool_answer py_result" where
  "wrap_tool_call process awaits mw tool_name args next_handler =
     (let run = py_bind (next_handler tool_name args) (\<lambda>r. Py_value (Handled r))
      in if tool_name \<notin> set (pm_tools mw) then run
         else
           py_bind (py_to_request (pm_guard mw) tool_name args) (\<lambda>req.
           py_bind (py_evaluate process (pm_guard mw) req) (\<lambda>decision.
             if pd_verdict decision = ''block'' then Py_value (Refused_by (py_refusal decision))
             else if pd_verdict decision = ''escalate'' then
               (case pm_on_escalate mw of
                  None \<Rightarrow> Py_value (Refused_by (py_refusal decision))
                | Some on_escalate \<Rightarrow>
                    py_bind (on_escalate req decision) (\<lambda>a.
                    py_bind (py_approved awaits a) (\<lambda>approved.
                      if approved then run else Py_value (Refused_by (py_refusal decision)))))
             else run)))"

section \<open>The request reaches the guard unchanged\<close>

text \<open>The payment that the Python request stands for, and the Python form of a decision.\<close>

definition payment_of_python :: "py_guard \<Rightarrow> py_request \<Rightarrow> payment_request" where
  "payment_of_python guard req =
     \<lparr>r_intent = py_intent req, r_amount = py_amount req, r_token = py_token req, r_recipient = py_recipient req,
      r_chain = py_chain req, r_agentId = (if py_agent_id req = [] then pg_agent_id guard else py_agent_id req),
      r_resourceUrl = py_resource_url req\<rparr>"

definition python_decision :: "(int \<Rightarrow> string) \<Rightarrow> (real \<Rightarrow> string) \<Rightarrow> policy_decision \<Rightarrow> py_decision" where
  "python_decision fu num d =
     \<lparr>pd_verdict = verdict_text (d_verdict d), pd_risk_score = num (d_riskScore d), pd_reason = reason_text fu (d_reason d),
      pd_checks = map (\<lambda>c. \<lparr>pc_id = c_id c, pc_passed = c_passed c, pc_severity = severity_text (c_severity c),
        pc_message = message_text fu (c_message c)\<rparr>) (d_checks d)\<rparr>"

lemma py_strip_line: "py_strip (json_text (JObj ms) @ [CHR 0x0A]) = json_text (JObj ms)"
proof -
  have "py_strip (CHR ''{'' # s @ [CHR ''}'', CHR 0x0A]) = CHR ''{'' # s @ [CHR ''}'']" for s
    by (simp add: py_strip_def py_space_def)
  then show ?thesis by simp
qed

lemma decision_reads_back: "py_decision_of (eval_json fu num d) = Some (python_decision fu num d)"
proof -
  have "all_some (map py_check_of (map (check_json fu) cs)) =
      Some (map (\<lambda>c. \<lparr>pc_id = c_id c, pc_passed = c_passed c, pc_severity = severity_text (c_severity c),
        pc_message = message_text fu (c_message c)\<rparr>) cs)" for cs
    unfolding map_map
    by (rule all_some_pointwise) (simp add: py_check_of_def check_json_def json_get_def)
  then show ?thesis
    by (simp add: py_decision_of_def eval_json_def json_get_def python_decision_def)
qed

lemma bridge_payload_ok: "json_ok policy \<Longrightarrow> json_ok (JObj [(''policy'', policy), (''request'', py_request_json g r)])"
  by (simp add: py_request_json_def split: option.split)

lemma eval_input_python:
  "eval_input coerce rdn (JObj [(''policy'', policy), (''request'', py_request_json g r)]) =
     (case compilePolicyObject coerce policy (r_agentId (payment_of_python g r)) None (Some (py_chain r)) of
        Inl e \<Rightarrow> Throws
      | Inr p \<Rightarrow> Field (p, payment_of_python g r))"
proof -
  have "payment_of_json rdn a (py_request_json g r) = Field (payment_of_python g r)" for a
    by (cases "py_resource_url r")
      (simp_all add: payment_of_json_def py_request_json_def json_get_def string_field_or_def string_field_def nullish_field_def
        bigint_of_json_def bigint_of_string_to_string payment_of_python_def)
  moreover have "eval_chain (py_request_json g r) = Field (Some (py_chain r))"
    by (simp add: eval_chain_def py_request_json_def json_get_def)
  moreover have "string_field_or ''bridge-agent'' (py_request_json g r) ''agentId'' = Some (r_agentId (payment_of_python g r))"
    by (simp add: string_field_or_def py_request_json_def json_get_def payment_of_python_def)
  moreover have "py_request_json g r \<noteq> JNull" by (simp add: py_request_json_def)
  ultimately show ?thesis
    by (cases "py_request_json g r") (simp_all add: eval_input_def json_get_def split: sum.splits)
qed

lemma eval_python:
  assumes "json_ok (pg_policy g)"
  shows "eval_command x coerce rdn fu failure dbs clock clock' (json_dumps (JObj [(''policy'', pg_policy g), (''request'', py_request_json g r)])) =
     (case compilePolicyObject coerce (pg_policy g) (r_agentId (payment_of_python g r)) None (Some (py_chain r)) of
        Inl e \<Rightarrow> Failed
      | Inr p \<Rightarrow>
          (case AgentGuard_create x (sqlite_ops fu) failure clock p (cli_guard_config (py_chain r) None (Some False)) [] of
             (gd, lg, st, anchoring) \<Rightarrow>
               Printed (json_text (eval_json fu (x_num x) (fst (AgentGuard_evaluate x gd clock' (payment_of_python g r) st))) @ [CHR 0x0A])))"
proof -
  have "eval_llm rdn (py_request_json g r) = Some None"
    by (simp add: eval_llm_def py_request_json_def json_get_def json_truthy_def)
  moreover have "eval_store rdn dbs (py_request_json g r) = Some ([], Some False)"
    by (simp add: eval_store_def py_request_json_def json_get_def json_truthy_def)
  moreover have "r_chain (payment_of_python g r) = py_chain r" by (simp add: payment_of_python_def)
  ultimately show ?thesis
    using json_parse_dumps [OF bridge_payload_ok [OF assms]]
    by (simp add: eval_command_def eval_input_python Let_def json_get_def split: sum.splits)
qed

text \<open>The guard that the process of one evaluation makes: without history, whatever stores exist.\<close>

definition bridge_guard :: "externals \<Rightarrow> (int \<Rightarrow> string) \<Rightarrow> thrown option \<Rightarrow> clock \<Rightarrow> policy \<Rightarrow> string \<Rightarrow> agent_guard \<times> sqlite guard_state" where
  "bridge_guard x fu failure clock p chain =
     (case AgentGuard_create x (sqlite_ops fu) failure clock p (cli_guard_config chain None (Some False)) [] of
        (gd, lg, st, anchoring) \<Rightarrow> (gd, st))"

definition bridge_decision ::
  "externals \<Rightarrow> (int \<Rightarrow> string) \<Rightarrow> thrown option \<Rightarrow> clock \<Rightarrow> clock \<Rightarrow> policy \<Rightarrow> payment_request \<Rightarrow> policy_decision" where
  "bridge_decision x fu failure clock clock' p req =
     (case bridge_guard x fu failure clock p (r_chain req) of (gd, st) \<Rightarrow> fst (AgentGuard_evaluate x gd clock' req st))"

lemma py_evaluate_eval:
  assumes "json_ok (pg_policy g)" "\<And>v. number_ok (x_num x v)"
  shows "py_evaluate (eval_command x coerce rdn fu failure dbs clock clock') g r =
     (case compilePolicyObject coerce (pg_policy g) (r_agentId (payment_of_python g r)) None (Some (py_chain r)) of
        Inl e \<Rightarrow> Py_raises Bridge_failed
      | Inr p \<Rightarrow> Py_value (python_decision fu (x_num x) (bridge_decision x fu failure clock clock' p (payment_of_python g r))))"
proof -
  have "json_parse (py_strip (json_text (eval_json fu (x_num x) d) @ [CHR 0x0A])) = Some (eval_json fu (x_num x) d)" for d
    using json_parse_text [OF eval_json_ok [where num = "x_num x", OF assms(2)], of fu d]
    unfolding eval_json_def py_strip_line .
  moreover have "r_chain (payment_of_python g r) = py_chain r" by (simp add: payment_of_python_def)
  ultimately show ?thesis
    by (simp add: py_evaluate_def evaluate_via_bridge_def eval_python [OF assms(1)] py_bind_def decision_reads_back
        bridge_decision_def bridge_guard_def split: sum.splits prod.splits)
qed

lemma bridge_guard_fresh: "gs_evaluator (snd (bridge_guard x fu failure clock p chain)) = new_evaluator p"
  by (simp add: bridge_guard_def AgentGuard_create_def cli_guard_config_def AgentGuard_new_def Let_def split: prod.splits)

lemma wrap_tool_call_handled:
  assumes "wrap_tool_call process awaits mw tool_name args next_handler = Py_value (Handled v)" "tool_name \<in> set (pm_tools mw)"
  obtains req d where "py_to_request (pm_guard mw) tool_name args = Py_value req" "py_evaluate process (pm_guard mw) req = Py_value d"
    "next_handler tool_name args = Py_value v" "pd_verdict d \<noteq> ''block''"
    "pd_verdict d = ''escalate'' \<longrightarrow> (\<exists>on_escalate a. pm_on_escalate mw = Some on_escalate \<and>
       on_escalate req d = Py_value a \<and> py_approved awaits a = Py_value True)"
  using assms by (auto simp: wrap_tool_call_def py_bind_def Let_def split: if_splits py_result.splits option.splits)

section \<open>Properties\<close>

text \<open>
  C25. The Python guard decides as the TypeScript guard does: what \<open>evaluate\<close> returns is, in every field, the decision of
  \<open>evaluate\<close> of a TypeScript guard made for the same policy, agent and chain on the payment of the request, in which no
  field is changed on the way; it raises only if the policy does not compile. The process remembers nothing:
  every payment is judged by a guard whose windows are empty, so no rolling cap and no rate limit accumulates.
\<close>

theorem python_decides_like_the_guard:
  assumes "json_ok (pg_policy g)" "\<And>v. number_ok (x_num x v)"
  shows "case py_evaluate (eval_command x coerce rdn fu failure dbs clock clock') g r of
     Py_value d \<Rightarrow>
       \<exists>p. compilePolicyObject coerce (pg_policy g) (r_agentId (payment_of_python g r)) None (Some (py_chain r)) = Inr p \<and>
         d = python_decision fu (x_num x) (bridge_decision x fu failure clock clock' p (payment_of_python g r)) \<and>
         (\<forall>w tok t. windowedSpend (gs_evaluator (snd (bridge_guard x fu failure clock p (py_chain r)))) w tok t = 0) \<and>
         (\<forall>t secs. recentPaymentCount (gs_evaluator (snd (bridge_guard x fu failure clock p (py_chain r)))) t secs = 0)
   | Py_raises e \<Rightarrow> e = Bridge_failed \<and>
       (\<exists>ce. compilePolicyObject coerce (pg_policy g) (r_agentId (payment_of_python g r)) None (Some (py_chain r)) = Inl ce)
   | Py_outside \<Rightarrow> False"
  unfolding py_evaluate_eval [OF assms] bridge_guard_fresh
  by (simp add: windowedSpend_eq recentPaymentCount_def new_evaluator_def split: sum.splits)

text \<open>
  A gated tool runs only with approval: when the middleware has called the handler of a payment tool, synchronously
  or awaited, the arguments of the call made a request, the policy compiled, and the TypeScript guard's decision on
  that request is to allow it, or to escalate it and the operator's callback approved.
\<close>

theorem tool_runs_only_with_approval:
  assumes "wrap_tool_call (eval_command x coerce rdn fu failure dbs clock clock') awaits mw tool_name args next_handler =
      Py_value (Handled v)"
    and "tool_name \<in> set (pm_tools mw)" "json_ok (pg_policy (pm_guard mw))" "\<And>v. number_ok (x_num x v)"
  shows "next_handler tool_name args = Py_value v \<and>
     (\<exists>req p D. py_to_request (pm_guard mw) tool_name args = Py_value req \<and>
        compilePolicyObject coerce (pg_policy (pm_guard mw)) (r_agentId (payment_of_python (pm_guard mw) req)) None
          (Some (py_chain req)) = Inr p \<and>
        D = bridge_decision x fu failure clock clock' p (payment_of_python (pm_guard mw) req) \<and>
        (d_verdict D = Allow \<or>
         d_verdict D = Escalate \<and>
           (\<exists>on_escalate a. pm_on_escalate mw = Some on_escalate \<and>
              on_escalate req (python_decision fu (x_num x) D) = Py_value a \<and> py_approved awaits a = Py_value True)))"
proof -
  obtain req d where req: "py_to_request (pm_guard mw) tool_name args = Py_value req"
    and d: "py_evaluate (eval_command x coerce rdn fu failure dbs clock clock') (pm_guard mw) req = Py_value d"
    and handled: "next_handler tool_name args = Py_value v" "pd_verdict d \<noteq> ''block''"
      "pd_verdict d = ''escalate'' \<longrightarrow> (\<exists>on_escalate a. pm_on_escalate mw = Some on_escalate \<and>
         on_escalate req d = Py_value a \<and> py_approved awaits a = Py_value True)"
    using assms(1,2) by (rule wrap_tool_call_handled)
  obtain p where p: "compilePolicyObject coerce (pg_policy (pm_guard mw)) (r_agentId (payment_of_python (pm_guard mw) req)) None
      (Some (py_chain req)) = Inr p"
    "d = python_decision fu (x_num x) (bridge_decision x fu failure clock clock' p (payment_of_python (pm_guard mw) req))"
    using d unfolding py_evaluate_eval [OF assms(3,4)] by (auto split: sum.splits)
  let ?D = "bridge_decision x fu failure clock clock' p (payment_of_python (pm_guard mw) req)"
  have v: "pd_verdict d = verdict_text (d_verdict ?D)" by (simp add: p(2) python_decision_def)
  show ?thesis using req p handled v by (cases "d_verdict ?D") auto
qed

section \<open>Examples\<close>

definition ex_python :: py_guard where
  "ex_python = \<lparr>pg_policy = JObj [(''anomalyThreshold'', JNum ''1'')], pg_agent_id = ''a''\<rparr>"

definition ex_tool_args :: tool_args where
  "ex_tool_args = [(''reason'', Py_str ''data''), (''amount'', Py_str '' 5 ''), (''token'', Py_str ''0xt''), (''recipient'', Py_str ''0xab''),
     (''chain'', Py_str ''eip155:8453'')]"

definition ex_python_request :: py_request where
  "ex_python_request = \<lparr>py_intent = ''data'', py_amount = 5, py_token = ''0xt'', py_recipient = ''0xab'', py_chain = ''eip155:8453'',
     py_agent_id = ''a'', py_resource_url = None\<rparr>"

definition ex_middleware :: py_middleware where
  "ex_middleware = \<lparr>pm_guard = ex_python, pm_tools = [''pay''], pm_on_escalate = None\<rparr>"

abbreviation ex_eval :: "string \<Rightarrow> eval_outcome" where
  "ex_eval \<equiv> eval_command ex_externals (\<lambda>j. Some 1) (\<lambda>s. None) (\<lambda>n. ''?'') None (\<lambda>p. []) (\<lambda>i. 1000) (\<lambda>i. 1000)"

lemma ex_python_payment: "payment_of_python ex_python ex_python_request = ex_order"
  by (simp add: payment_of_python_def ex_python_request_def ex_order_def)

lemma ex_python_ok: "json_ok (pg_policy ex_python)" "number_ok (x_num ex_externals v)"
  by (simp_all add: ex_python_def ex_externals_def number_ok_def is_digit_def drop_digits_def fraction_ok_def exponent_ok_def number_char_def)

lemma ex_to_request: "py_to_request ex_python ''pay'' ex_tool_args = Py_value ex_python_request"
proof -
  have "py_int_of_string '' 5 '' = Some 5" by code_simp
  then show ?thesis
    by (simp add: py_to_request_def ex_tool_args_def py_bind_def py_intent_of_def py_int_def ex_python_request_def ex_python_def Let_def)
qed

lemma ex_python_compiles:
  "compilePolicyObject (\<lambda>j. Some 1) (pg_policy ex_python) ''a'' None (Some ''eip155:8453'') =
     Inr \<lparr>p_agentId = ''a'', p_rules = [], p_anomalyThreshold = 1, p_anomalyAction = AEscalate, p_sourceText = None\<rparr>"
  by (simp add: compilePolicyObject_def compilerOutputSchema_def ex_python_def json_get_def z_default_def z_number_def getChain_def CHAINS_def)


lemma ex_bridge_allows:
  "d_verdict (bridge_decision ex_externals (\<lambda>n. ''?'') None (\<lambda>i. 1000) (\<lambda>i. 1000)
     \<lparr>p_agentId = ''a'', p_rules = [], p_anomalyThreshold = 1, p_anomalyAction = AEscalate, p_sourceText = None\<rparr> ex_order) = Allow"
proof -
  let ?p = "\<lparr>p_agentId = ''a'', p_rules = [], p_anomalyThreshold = 1, p_anomalyAction = AEscalate, p_sourceText = None\<rparr>"
  obtain gd st where b: "bridge_guard ex_externals (\<lambda>n. ''?'') None (\<lambda>i. 1000) ?p (r_chain ex_order) = (gd, st)" by force
  have "\<exists>d. AgentGuard_evaluate ex_externals gd (\<lambda>i. 1000) ex_order st = (d, st) \<and> d_verdict d = Allow"
    by (rule ex_allows)
      (use b in \<open>auto simp: bridge_guard_def AgentGuard_create_def cli_guard_config_def AgentGuard_new_def Let_def ex_agent_def
        ex_guard_def ex_policy_config_def ex_state_def fresh_guard_def blocks_def PolicyEvaluator_evaluate_def new_evaluator_def
        resolveGuardLLMConfig_def\<close>)
  then show ?thesis by (auto simp: bridge_decision_def b)
qed

theorem python_decides_like_the_guard_witness:
  "\<exists>d. py_evaluate ex_eval ex_python ex_python_request = Py_value d \<and> pd_verdict d = ''allow''"
  using python_decides_like_the_guard [OF ex_python_ok, where coerce = "\<lambda>j. Some 1" and rdn = "\<lambda>s. None" and
      fu = "\<lambda>n. ''?''" and failure = None and dbs = "\<lambda>p. []" and clock = "\<lambda>i. 1000" and clock' = "\<lambda>i. 1000" and r = ex_python_request] ex_python_compiles ex_bridge_allows
  by (cases "py_evaluate ex_eval ex_python ex_python_request")
    (auto simp: ex_python_payment python_decision_def ex_python_request_def [THEN arg_cong, of py_chain] ex_order_def [THEN arg_cong, of r_agentId])

theorem tool_runs_only_with_approval_witness:
  "\<exists>p. compilePolicyObject (\<lambda>j. Some 1) (pg_policy ex_python) ''a'' None (Some ''eip155:8453'') = Inr p \<and>
     d_verdict (bridge_decision ex_externals (\<lambda>n. ''?'') None (\<lambda>i. 1000) (\<lambda>i. 1000) p ex_order) = Allow"
proof -
  have "py_evaluate ex_eval ex_python ex_python_request = Py_value (python_decision (\<lambda>n. ''?'') (x_num ex_externals)
      (bridge_decision ex_externals (\<lambda>n. ''?'') None (\<lambda>i. 1000) (\<lambda>i. 1000)
        \<lparr>p_agentId = ''a'', p_rules = [], p_anomalyThreshold = 1, p_anomalyAction = AEscalate, p_sourceText = None\<rparr> ex_order))"
    using ex_python_compiles
    by (subst py_evaluate_eval [OF ex_python_ok])
      (simp add: ex_python_payment ex_python_request_def [THEN arg_cong, of py_chain] ex_order_def [THEN arg_cong, of r_agentId])
  then have "wrap_tool_call ex_eval False ex_middleware ''pay'' ex_tool_args (\<lambda>n a. Py_value n) = Py_value (Handled ''pay'')"
    by (simp add: wrap_tool_call_def ex_middleware_def ex_to_request py_bind_def python_decision_def ex_bridge_allows)
  from tool_runs_only_with_approval [OF this] ex_python_ok
  show ?thesis
    by (auto simp: ex_middleware_def ex_to_request ex_python_payment ex_python_request_def [THEN arg_cong, of py_chain]
        ex_order_def [THEN arg_cong, of r_agentId])
qed

end
