(* ===== verification/Engine.thy ===== *)
theory Engine
  imports Behavioral
begin

text \<open>
  The isolation forest of the Rust sidecar, \<open>src/crates/agentctl-engine/src/behavioral.rs\<close>, and the
  scoring of \<open>api.rs\<close>. A panic is \<open>None\<close>: an index out of range, and the capacity overflow of a vector that would
  take more than \<open>isize::MAX\<close> bytes. A \<open>usize\<close> of a request is a 64-bit word; the size of a \<open>Node\<close> in memory, which
  the language leaves to the compiler, is the argument \<open>node_bytes\<close>. An \<open>f64\<close> is a real number, as in \<open>Forest\<close>; an
  infinite start value of a minimum or maximum is \<open>None\<close>. The forest is shown to be that of the TypeScript scorer,
  draw by draw. Running out of memory or time on a vector that the address space could hold is not modelled.
\<close>

section \<open>The isolation forest\<close>

datatype node = Leaf_node nat | Internal_node nat real node node

definition next_f64 :: "32 word \<Rightarrow> real \<times> 32 word" where
  "next_f64 state =
     (let state = state + 0x6d2b79f5;
          t = (state XOR drop_bit 15 state) * (1 OR state);
          t = (t + (t XOR drop_bit 7 t) * (61 OR t)) XOR t
      in (real (unat (t XOR drop_bit 14 t)) / 4294967296, state))"

definition c_factor :: "nat \<Rightarrow> real" where
  "c_factor n =
     (if n \<le> 1 then 0
      else 2 * (ln (real n - 1) + 5772156649 / 10000000000) - (2 * (real n - 1)) / real n)"

text \<open>\<open>xs[i]\<close>, which panics out of range.\<close>

definition index :: "'a list \<Rightarrow> nat \<Rightarrow> 'a option" where
  "index xs i = (if i < length xs then Some (xs ! i) else None)"

fun engine_draws :: "real list list \<Rightarrow> nat \<Rightarrow> 32 word \<Rightarrow> (real list list \<times> 32 word) option" where
  "engine_draws data 0 rng = Some ([], rng)"
| "engine_draws data (Suc k) rng =
     (if data = [] then None
      else case next_f64 rng of
        (u, rng1) \<Rightarrow>
          (case index data (min (nat \<lfloor>u * real (length data)\<rfloor>) (length data - 1)) of
             None \<Rightarrow> None
           | Some row \<Rightarrow> map_option (apfst (Cons row)) (engine_draws data k rng1)))"

definition engine_subsample :: "real list list \<Rightarrow> nat \<Rightarrow> 32 word \<Rightarrow> (real list list \<times> 32 word) option" where
  "engine_subsample data k rng = (if length data \<le> k then Some (data, rng) else engine_draws data k rng)"

definition engine_range :: "real list list \<Rightarrow> nat \<Rightarrow> (nat \<times> real \<times> real) option" where
  "engine_range data f =
     (case (fold min_step (map (\<lambda>row. get0 row f) data) None, fold max_step (map (\<lambda>row. get0 row f) data) None) of
        (Some mn, Some mx) \<Rightarrow> if mx > mn then Some (f, mn, mx) else None
      | _ \<Rightarrow> None)"

function build_tree :: "real list list \<Rightarrow> nat \<Rightarrow> nat \<Rightarrow> 32 word \<Rightarrow> (node \<times> 32 word) option" where
  "build_tree data depth max_depth rng =
     (let n = length data; dims = (case data of [] \<Rightarrow> 0 | r # _ \<Rightarrow> length r)
      in if depth \<ge> max_depth \<or> n \<le> 1 \<or> dims = 0 then Some (Leaf_node n, rng)
         else
           let ranges = List.map_filter (engine_range data) [0..<dims]
           in if ranges = [] then Some (Leaf_node n, rng)
              else
                let (u1, rng1) = next_f64 rng
                in case index ranges (nat \<lfloor>u1 * real (length ranges)\<rfloor>) of
                     None \<Rightarrow> None
                   | Some (f, mn, mx) \<Rightarrow>
                       let (u2, rng2) = next_f64 rng1; v = mn + u2 * (mx - mn)
                       in case build_tree (filter (\<lambda>row. get0 row f < v) data) (depth + 1) max_depth rng2 of
                            None \<Rightarrow> None
                          | Some (left, rng3) \<Rightarrow>
                              (case build_tree (filter (\<lambda>row. \<not> get0 row f < v) data) (depth + 1) max_depth rng3 of
                                 None \<Rightarrow> None
                               | Some (right, rng4) \<Rightarrow> Some (Internal_node f v left right, rng4)))"
  by pat_completeness auto
termination
  by (relation "measure (\<lambda>(data, depth, max_depth, rng). max_depth - depth)") auto

declare build_tree.simps [simp del]

fun path_length :: "real list \<Rightarrow> node \<Rightarrow> nat \<Rightarrow> real" where
  "path_length x (Leaf_node n) depth = real depth + c_factor n"
| "path_length x (Internal_node f v left right) depth =
     path_length x (if get0 x f < v then left else right) (depth + 1)"

fun fit_trees :: "nat \<Rightarrow> real list list \<Rightarrow> nat \<Rightarrow> nat \<Rightarrow> 32 word \<Rightarrow> node list option" where
  "fit_trees 0 data sample_size max_depth rng = Some []"
| "fit_trees (Suc i) data sample_size max_depth rng =
     (case engine_subsample data sample_size rng of
        None \<Rightarrow> None
      | Some (sample, rng1) \<Rightarrow>
          (case build_tree sample 0 max_depth rng1 of
             None \<Rightarrow> None
           | Some (t, rng2) \<Rightarrow> map_option (Cons t) (fit_trees i data sample_size max_depth rng2)))"

record engine_forest =
  ef_trees :: "node list"
  ef_sample_size :: nat

text \<open>\<open>(0..trees).map(..).collect()\<close> first reserves the room of \<open>trees\<close> nodes, and panics when that is too much.\<close>

definition capacity_overflows :: "nat \<Rightarrow> 64 word \<Rightarrow> bool" where
  "capacity_overflows node_bytes trees \<longleftrightarrow> unat trees * node_bytes > 2 ^ 63 - 1"

definition engine_fit :: "nat \<Rightarrow> real list list \<Rightarrow> 64 word \<Rightarrow> 64 word \<Rightarrow> 32 word \<Rightarrow> engine_forest option" where
  "engine_fit node_bytes data trees sample_size seed =
     (let k = max (min (unat sample_size) (length data)) 1;
          max_depth = nat \<lceil>log 2 (real (max k 2))\<rceil>
      in if capacity_overflows node_bytes trees then None
         else map_option (\<lambda>ts. \<lparr>ef_trees = ts, ef_sample_size = k\<rparr>) (fit_trees (unat trees) data k max_depth seed))"

definition anomaly_score :: "engine_forest \<Rightarrow> real list \<Rightarrow> real" where
  "anomaly_score g x =
     (if ef_trees g = [] then 0
      else (let mean = sum_list (map (\<lambda>t. path_length x t 0) (ef_trees g)) / real (length (ef_trees g));
                cn = c_factor (ef_sample_size g)
            in if cn = 0 then 0 else 2 powr (- mean / cn)))"

section \<open>The same forest as the scorer's\<close>

fun tree_of :: "node \<Rightarrow> tree" where
  "tree_of (Leaf_node n) = Leaf n"
| "tree_of (Internal_node f v l r) = Branch f v (tree_of l) (tree_of r)"

lemma next_f64_mulberry32: "next_f64 = mulberry32"
  by (rule ext) (simp add: next_f64_def mulberry32_def Let_def)

lemma c_factor_avg_path: "c_factor = avg_path"
  by (rule ext) (auto simp: c_factor_def avg_path_def Let_def of_nat_diff)

lemma engine_range_feature: "engine_range = feature_range"
  by (intro ext) (simp add: engine_range_def feature_range_def Let_def)

lemma index_in_range: "i < length xs \<Longrightarrow> index xs i = Some (xs ! i)"
  by (simp add: index_def)

lemma engine_draws_rows: "data \<noteq> [] \<Longrightarrow> engine_draws data k rng = Some (draw_rows data k rng)"
proof (induction k arbitrary: rng)
  case (Suc k)
  obtain u rng1 where u: "mulberry32 rng = (u, rng1)" by force
  have i: "nat \<lfloor>u * real (length data)\<rfloor> < length data" by (rule draw_index [OF _ u]) (use Suc.prems in simp)
  then have "min (nat \<lfloor>u * real (length data)\<rfloor>) (length data - 1) = nat \<lfloor>u * real (length data)\<rfloor>" by simp
  then show ?case
    using i Suc by (simp add: next_f64_mulberry32 u index_in_range split: prod.splits)
qed simp

lemma engine_subsample_rows: "engine_subsample data k rng = Some (subsample data k rng)"
proof (cases "data = []")
  case True
  then show ?thesis by (simp add: engine_subsample_def subsample_def)
next
  case False
  then show ?thesis by (simp add: engine_subsample_def subsample_def engine_draws_rows)
qed

lemma build_tree_tree:
  "\<exists>t. build_tree data depth max_depth rng = Some (t, snd (buildTree data depth max_depth rng)) \<and>
     tree_of t = fst (buildTree data depth max_depth rng)"
proof (induction data depth max_depth rng rule: buildTree.induct)
  case (1 data depth max_depth rng)
  let ?dims = "case data of [] \<Rightarrow> 0 | r # _ \<Rightarrow> length r"
  let ?ranges = "List.map_filter (feature_range data) [0..<?dims]"
  show ?case
  proof (cases "depth \<ge> max_depth \<or> length data \<le> 1 \<or> ?dims = 0 \<or> ?ranges = []")
    case True
    then show ?thesis
      by (subst build_tree.simps, subst (1 2) buildTree.simps) (auto simp: Let_def engine_range_feature)
  next
    case False
    obtain u1 rng1 where u1: "mulberry32 rng = (u1, rng1)" by force
    obtain f mn mx where p: "?ranges ! nat \<lfloor>u1 * real (length ?ranges)\<rfloor> = (f, mn, mx)"
      using prod_cases3 by blast
    have i: "index ?ranges (nat \<lfloor>u1 * real (length ?ranges)\<rfloor>) = Some (f, mn, mx)"
      using draw_index [OF _ u1, of "length ?ranges"] False p by (simp add: index_in_range)
    obtain u2 rng2 where u2: "mulberry32 rng1 = (u2, rng2)" by force
    define v where "v = mn + u2 * (mx - mn)"
    let ?L = "filter (\<lambda>row. get0 row f < v) data" and ?R = "filter (\<lambda>row. \<not> get0 row f < v) data"
    obtain l rng3 where l: "buildTree ?L (depth + 1) max_depth rng2 = (l, rng3)" by force
    obtain r rng4 where r: "buildTree ?R (depth + 1) max_depth rng3 = (r, rng4)" by force
    obtain l' where l': "build_tree ?L (depth + 1) max_depth rng2 = Some (l', rng3)" "tree_of l' = l"
      using "1.IH"(1) [OF refl refl _ refl _ refl u1 [symmetric] refl p [symmetric] refl refl u2 [symmetric] v_def] False l
      by auto
    obtain r' where r': "build_tree ?R (depth + 1) max_depth rng3 = Some (r', rng4)" "tree_of r' = r"
      using "1.IH"(2) [OF refl refl _ refl _ refl u1 [symmetric] refl p [symmetric] refl refl u2 [symmetric] v_def refl l [symmetric]]
        False r by auto
    have "buildTree data depth max_depth rng = (Branch f v l r, rng4)"
      using False l r by (subst buildTree.simps) (simp add: u1 u2 p v_def)
    moreover have "build_tree data depth max_depth rng = Some (Internal_node f v l' r', rng4)"
      using False l' r' i
      by (subst build_tree.simps) (simp add: u1 u2 v_def next_f64_mulberry32 engine_range_feature)
    ultimately show ?thesis using l' r' by simp
  qed
qed

lemma path_length_tree: "path_length x t d = pathLength x (tree_of t) d"
  by (induction t arbitrary: d) (simp_all add: c_factor_avg_path)

lemma fit_trees_trees:
  "\<exists>ts. fit_trees n data k max_depth rng = Some ts \<and> map tree_of ts = build_trees n data k max_depth rng"
proof (induction n arbitrary: rng)
  case (Suc n)
  obtain sample rng1 where s: "subsample data k rng = (sample, rng1)" by force
  obtain t rng2 where t: "buildTree sample 0 max_depth rng1 = (t, rng2)" by force
  obtain t' where t': "build_tree sample 0 max_depth rng1 = Some (t', rng2)" "tree_of t' = t"
    using build_tree_tree [of sample 0 max_depth rng1] t by auto
  obtain ts where ts: "fit_trees n data k max_depth rng2 = Some ts" "map tree_of ts = build_trees n data k max_depth rng2"
    using Suc.IH by blast
  show ?case using t' ts by (simp add: engine_subsample_rows s t)
qed simp

text \<open>The engine's forest has the trees and the sample size of the scorer's, so it gives the same score to every point.\<close>

lemma engine_fit_forest:
  assumes "\<not> capacity_overflows node_bytes trees"
  shows "\<exists>g. engine_fit node_bytes data trees sample_size seed = Some g \<and>
     map tree_of (ef_trees g) = if_trees (new_forest data (Some (unat trees)) (Some (unat sample_size)) (Some (uint seed))) \<and>
     ef_sample_size g = if_sampleSize (new_forest data (Some (unat trees)) (Some (unat sample_size)) (Some (uint seed)))"
proof -
  let ?k = "max 1 (min (unat sample_size) (length data))"
  have k: "max (min (unat sample_size) (length data)) 1 = ?k" "max ?k 2 = max 2 ?k" by simp_all
  obtain ts where "fit_trees (unat trees) data ?k (nat \<lceil>log 2 (real (max 2 ?k))\<rceil>) seed = Some ts"
    "map tree_of ts = build_trees (unat trees) data ?k (nat \<lceil>log 2 (real (max 2 ?k))\<rceil>) seed"
    using fit_trees_trees by blast
  then show ?thesis using assms unfolding engine_fit_def new_forest_def Let_def k by simp
qed

lemma anomaly_score_forest:
  assumes "map tree_of (ef_trees g) = if_trees h" "ef_sample_size g = if_sampleSize h"
  shows "anomaly_score g x = anomalyScore h x"
proof -
  have "map (\<lambda>t. path_length x t 0) (ef_trees g) = map (\<lambda>t. pathLength x t 0) (if_trees h)"
    unfolding assms(1) [symmetric] by (simp add: path_length_tree)
  moreover have "length (ef_trees g) = length (if_trees h)" unfolding assms(1) [symmetric] by simp
  moreover from this have "ef_trees g = [] \<longleftrightarrow> if_trees h = []" by auto
  ultimately show ?thesis by (simp add: anomaly_score_def anomalyScore_def assms(2) c_factor_avg_path)
qed

section \<open>POST /score\<close>

record score_request =
  sq_vectors :: "real list list"
  sq_point :: "real list"
  sq_trees :: "64 word option"
  sq_sample_size :: "64 word option"
  sq_seed :: "32 word option"
  sq_anomaly_threshold :: "real option"

definition default_trees :: "64 word" where "default_trees = 100"
definition default_sample :: "64 word" where "default_sample = 256"
definition default_seed :: "32 word" where "default_seed = 1337"
definition default_anomaly_threshold :: real where "default_anomaly_threshold = 7 / 10"

record score_response =
  en_score :: real
  en_anomaly :: bool

text \<open>The fields of a request with the defaults that decoding gives them.\<close>

definition trees_of :: "score_request \<Rightarrow> 64 word" where
  "trees_of req = (case sq_trees req of Some t \<Rightarrow> t | None \<Rightarrow> default_trees)"

definition engine_score :: "nat \<Rightarrow> score_request \<Rightarrow> score_response option" where
  "engine_score node_bytes req =
     map_option
       (\<lambda>forest. let score = anomaly_score forest (sq_point req)
                 in \<lparr>en_score = score,
                     en_anomaly = (score > (case sq_anomaly_threshold req of Some t \<Rightarrow> t | None \<Rightarrow> default_anomaly_threshold))\<rparr>)
       (engine_fit node_bytes (sq_vectors req) (trees_of req)
          (case sq_sample_size req of Some k \<Rightarrow> k | None \<Rightarrow> default_sample)
          (case sq_seed req of Some s \<Rightarrow> s | None \<Rightarrow> default_seed))"

text \<open>
  C23. The sidecar scores like the scorer that it ports: whatever the vectors, ragged or empty, \<open>POST /score\<close>
  panics exactly if the trees asked for would not fit in the address space, which the handler does not check; on every
  other request it answers the score, between 0 and 1, that the forest of the TypeScript scorer gives the point
  with the same vectors, options and defaults, and it flags the point exactly if that score is above the threshold.
\<close>

theorem engine_scores_like_the_scorer:
  "case engine_score node_bytes req of
     None \<Rightarrow> (case sq_trees req of None \<Rightarrow> 100 | Some t \<Rightarrow> unat t) * node_bytes > 2 ^ 63 - 1
   | Some r \<Rightarrow>
       (case sq_trees req of None \<Rightarrow> 100 | Some t \<Rightarrow> unat t) * node_bytes \<le> 2 ^ 63 - 1 \<and>
       en_score r = anomalyScore
         (new_forest (sq_vectors req) (map_option unat (sq_trees req)) (map_option unat (sq_sample_size req))
            (map_option uint (sq_seed req))) (sq_point req) \<and>
       0 \<le> en_score r \<and> en_score r \<le> 1 \<and>
       en_anomaly r = (en_score r > (case sq_anomaly_threshold req of None \<Rightarrow> 7 / 10 | Some t \<Rightarrow> t))"
proof -
  let ?k = "case sq_sample_size req of Some k \<Rightarrow> k | None \<Rightarrow> default_sample"
    and ?s = "case sq_seed req of Some s \<Rightarrow> s | None \<Rightarrow> default_seed"
  have t: "(case sq_trees req of None \<Rightarrow> 100 | Some t \<Rightarrow> unat t) = unat (trees_of req)"
    by (simp add: trees_of_def default_trees_def split: option.split)
  have forest: "new_forest (sq_vectors req) (Some (unat (trees_of req))) (Some (unat ?k)) (Some (uint ?s)) =
      new_forest (sq_vectors req) (map_option unat (sq_trees req)) (map_option unat (sq_sample_size req))
        (map_option uint (sq_seed req))"
    by (simp add: new_forest_def trees_of_def default_trees_def default_sample_def default_seed_def split: option.split)
  show ?thesis
  proof (cases "capacity_overflows node_bytes (trees_of req)")
    case True
    then have "engine_score node_bytes req = None" by (simp add: engine_score_def engine_fit_def Let_def)
    then show ?thesis using True unfolding t by (simp add: capacity_overflows_def)
  next
    case False
    obtain g where g: "engine_fit node_bytes (sq_vectors req) (trees_of req) ?k ?s = Some g"
      "map tree_of (ef_trees g) = if_trees (new_forest (sq_vectors req) (Some (unat (trees_of req))) (Some (unat ?k)) (Some (uint ?s)))"
      "ef_sample_size g = if_sampleSize (new_forest (sq_vectors req) (Some (unat (trees_of req))) (Some (unat ?k)) (Some (uint ?s)))"
      using engine_fit_forest [OF False] by blast
    show ?thesis
      using anomaly_score_forest [OF g(2,3), of "sq_point req"] g(1) anomalyScore_bounds False unfolding t
      by (simp add: engine_score_def Let_def forest default_anomaly_threshold_def capacity_overflows_def split: option.splits)
  qed
qed

text \<open>
  The panic is within a client's reach: on a platform where a node takes 32 bytes, a request for
  \<open>2 ^ 60\<close> trees overflows the capacity, whatever its vectors.
\<close>

lemma too_many_trees_panic: "sq_trees req = Some 0x1000000000000000 \<Longrightarrow> engine_score 32 req = None"
  by (simp add: engine_score_def engine_fit_def capacity_overflows_def trees_of_def Let_def)

end
