(* ===== verification/Sidecar.thy ===== *)
theory Sidecar
  imports Engine
begin

text \<open>
  The rest of the Rust sidecar \<open>src/crates/agentctl-engine\<close>: the EIP-712 digests and the recovery of
  \<open>sig_inspect.rs\<close>, and the routes of \<open>api.rs\<close> behind the bearer token. Bytes are 8-bit words and a
  \<open>U256\<close> is a 256-bit word. The crates are arguments: keccak256, the curve, hex and the parser of
  integers. A request is one that axum has routed and decoded.
\<close>

type_synonym bytes = "8 word list"

record crates =
  cr_keccak :: "bytes \<Rightarrow> bytes"
  cr_recover :: "bytes \<Rightarrow> bytes \<Rightarrow> nat \<Rightarrow> bytes option"
  cr_hex_decode :: "string \<Rightarrow> string + bytes"
  cr_hex_encode :: "bytes \<Rightarrow> string"
  cr_u256_parse :: "string \<Rightarrow> 256 word option"

section \<open>Digests\<close>

record eip712_domain =
  ed_name :: string
  ed_version :: "string option"
  ed_chain_id :: "64 word"
  ed_verifying_contract :: bytes

record eip3009_auth =
  ea_from :: bytes
  ea_to :: bytes
  ea_value :: "256 word"
  ea_valid_after :: "256 word"
  ea_valid_before :: "256 word"
  ea_nonce :: bytes

record permit2_auth =
  pa_token :: bytes
  pa_amount :: "256 word"
  pa_spender :: bytes
  pa_nonce :: "256 word"
  pa_deadline :: "256 word"
  pa_witness_to :: bytes
  pa_witness_valid_after :: "256 word"

definition as_bytes :: "string \<Rightarrow> bytes" where
  "as_bytes s = map (\<lambda>c. of_nat (of_char c)) s"

definition addr_word :: "bytes \<Rightarrow> bytes" where
  "addr_word a = replicate 12 0 @ a"

text \<open>\<open>to_be_bytes\<close>: the most significant byte first.\<close>

definition u256_word :: "256 word \<Rightarrow> bytes" where
  "u256_word v = map (\<lambda>i. ucast (drop_bit (8 * (31 - i)) v)) [0..<32]"

definition eip712_digest :: "(bytes \<Rightarrow> bytes) \<Rightarrow> bytes \<Rightarrow> bytes \<Rightarrow> bytes" where
  "eip712_digest kec domain_separator struct_hash = kec ([0x19, 0x01] @ domain_separator @ struct_hash)"

definition domain_buf :: "(bytes \<Rightarrow> bytes) \<Rightarrow> eip712_domain \<Rightarrow> bytes" where
  "domain_buf kec d =
     (case ed_version d of
        Some version \<Rightarrow>
          kec (as_bytes ''EIP712Domain(string name,string version,uint256 chainId,address verifyingContract)'') @
          kec (as_bytes (ed_name d)) @ kec (as_bytes version)
      | None \<Rightarrow>
          kec (as_bytes ''EIP712Domain(string name,uint256 chainId,address verifyingContract)'') @
          kec (as_bytes (ed_name d))) @
     u256_word (ucast (ed_chain_id d)) @ addr_word (ed_verifying_contract d)"

definition domain_separator :: "(bytes \<Rightarrow> bytes) \<Rightarrow> eip712_domain \<Rightarrow> bytes" where
  "domain_separator kec d = kec (domain_buf kec d)"

definition eip3009_buf :: "(bytes \<Rightarrow> bytes) \<Rightarrow> eip3009_auth \<Rightarrow> bytes" where
  "eip3009_buf kec a =
     kec (as_bytes ''TransferWithAuthorization(address from,address to,uint256 value,uint256 validAfter,uint256 validBefore,bytes32 nonce)'') @
     addr_word (ea_from a) @ addr_word (ea_to a) @ u256_word (ea_value a) @ u256_word (ea_valid_after a) @
     u256_word (ea_valid_before a) @ ea_nonce a"

definition struct_hash_eip3009 :: "(bytes \<Rightarrow> bytes) \<Rightarrow> eip3009_auth \<Rightarrow> bytes" where
  "struct_hash_eip3009 kec a = kec (eip3009_buf kec a)"

definition token_permissions_buf :: "(bytes \<Rightarrow> bytes) \<Rightarrow> permit2_auth \<Rightarrow> bytes" where
  "token_permissions_buf kec a =
     kec (as_bytes ''TokenPermissions(address token,uint256 amount)'') @ addr_word (pa_token a) @ u256_word (pa_amount a)"

definition witness_buf :: "(bytes \<Rightarrow> bytes) \<Rightarrow> permit2_auth \<Rightarrow> bytes" where
  "witness_buf kec a =
     kec (as_bytes ''Witness(address to,uint256 validAfter)'') @ addr_word (pa_witness_to a) @ u256_word (pa_witness_valid_after a)"

definition permit2_buf :: "(bytes \<Rightarrow> bytes) \<Rightarrow> permit2_auth \<Rightarrow> bytes" where
  "permit2_buf kec a =
     kec (as_bytes ''PermitWitnessTransferFrom(TokenPermissions permitted,address spender,uint256 nonce,uint256 deadline,Witness witness)TokenPermissions(address token,uint256 amount)Witness(address to,uint256 validAfter)'') @
     kec (token_permissions_buf kec a) @ addr_word (pa_spender a) @ u256_word (pa_nonce a) @ u256_word (pa_deadline a) @
     kec (witness_buf kec a)"

definition struct_hash_permit2 :: "(bytes \<Rightarrow> bytes) \<Rightarrow> permit2_auth \<Rightarrow> bytes" where
  "struct_hash_permit2 kec a = kec (permit2_buf kec a)"

definition digest_eip3009 :: "(bytes \<Rightarrow> bytes) \<Rightarrow> eip712_domain \<Rightarrow> eip3009_auth \<Rightarrow> bytes" where
  "digest_eip3009 kec d a = eip712_digest kec (domain_separator kec d) (struct_hash_eip3009 kec a)"

definition digest_permit2 :: "(bytes \<Rightarrow> bytes) \<Rightarrow> eip712_domain \<Rightarrow> permit2_auth \<Rightarrow> bytes" where
  "digest_permit2 kec d a = eip712_digest kec (domain_separator kec d) (struct_hash_permit2 kec a)"

text \<open>
  The curve's recovery, with the byte of the recovery id, gives the encoded point \<open>0x04 || X || Y\<close>; the address
  is the end of the hash of its coordinates.
\<close>

definition ecrecover :: "crates \<Rightarrow> bytes \<Rightarrow> bytes \<Rightarrow> bytes option" where
  "ecrecover cr digest sig =
     (let v = unat (sig ! 64);
          recid = (if v \<ge> 27 then v - 27 else v)
      in map_option (\<lambda>encoded. drop 12 (cr_keccak cr (drop 1 encoded))) (cr_recover cr digest (take 64 sig) recid))"

section \<open>Routes\<close>

record domain_dto =
  dd_name :: string
  dd_version :: "string option"
  dd_chain_id :: "64 word"
  dd_verifying_contract :: string

record eip3009_dto =
  e3_from :: string
  e3_to :: string
  e3_value :: string
  e3_valid_after :: string
  e3_valid_before :: string
  e3_nonce :: string

record permit2_dto =
  p2_token :: string
  p2_amount :: string
  p2_spender :: string
  p2_nonce :: string
  p2_deadline :: string
  p2_witness_to :: string
  p2_witness_valid_after :: string

datatype bad_request =
    Bad_hex string
  | Bad_length nat nat
  | Bad_uint256 string
  | Recovery_failed

definition api_bind :: "bad_request + 'a \<Rightarrow> ('a \<Rightarrow> bad_request + 'b) \<Rightarrow> bad_request + 'b" where
  "api_bind r f = (case r of Inl e \<Rightarrow> Inl e | Inr v \<Rightarrow> f v)"

text \<open>\<open>trim_start_matches("0x")\<close> removes every leading \<open>0x\<close>.\<close>

fun trim_0x :: "string \<Rightarrow> string" where
  "trim_0x (a # b # s) = (if a = CHR ''0'' \<and> b = CHR ''x'' then trim_0x s else a # b # s)"
| "trim_0x s = s"

definition parse_fixed :: "crates \<Rightarrow> nat \<Rightarrow> string \<Rightarrow> bad_request + bytes" where
  "parse_fixed cr n s =
     (case cr_hex_decode cr (trim_0x s) of
        Inl e \<Rightarrow> Inl (Bad_hex e)
      | Inr v \<Rightarrow> if length v \<noteq> n then Inl (Bad_length n (length v)) else Inr v)"

definition parse_u256 :: "crates \<Rightarrow> string \<Rightarrow> bad_request + 256 word" where
  "parse_u256 cr s = (case cr_u256_parse cr s of None \<Rightarrow> Inl (Bad_uint256 s) | Some v \<Rightarrow> Inr v)"

definition hex_addr :: "crates \<Rightarrow> bytes \<Rightarrow> string" where
  "hex_addr cr a = ''0x'' @ cr_hex_encode cr a"

definition parse_domain :: "crates \<Rightarrow> domain_dto \<Rightarrow> bad_request + eip712_domain" where
  "parse_domain cr d =
     api_bind (parse_fixed cr 20 (dd_verifying_contract d)) (\<lambda>c.
       Inr \<lparr>ed_name = dd_name d, ed_version = dd_version d, ed_chain_id = dd_chain_id d, ed_verifying_contract = c\<rparr>)"

definition parse_eip3009 :: "crates \<Rightarrow> eip3009_dto \<Rightarrow> bad_request + eip3009_auth" where
  "parse_eip3009 cr a =
     api_bind (parse_fixed cr 20 (e3_from a)) (\<lambda>f.
     api_bind (parse_fixed cr 20 (e3_to a)) (\<lambda>t.
     api_bind (parse_u256 cr (e3_value a)) (\<lambda>v.
     api_bind (parse_u256 cr (e3_valid_after a)) (\<lambda>va.
     api_bind (parse_u256 cr (e3_valid_before a)) (\<lambda>vb.
     api_bind (parse_fixed cr 32 (e3_nonce a)) (\<lambda>n.
       Inr \<lparr>ea_from = f, ea_to = t, ea_value = v, ea_valid_after = va, ea_valid_before = vb, ea_nonce = n\<rparr>))))))"

definition parse_permit2 :: "crates \<Rightarrow> permit2_dto \<Rightarrow> bad_request + permit2_auth" where
  "parse_permit2 cr a =
     api_bind (parse_fixed cr 20 (p2_token a)) (\<lambda>t.
     api_bind (parse_u256 cr (p2_amount a)) (\<lambda>v.
     api_bind (parse_fixed cr 20 (p2_spender a)) (\<lambda>s.
     api_bind (parse_u256 cr (p2_nonce a)) (\<lambda>n.
     api_bind (parse_u256 cr (p2_deadline a)) (\<lambda>d.
     api_bind (parse_fixed cr 20 (p2_witness_to a)) (\<lambda>w.
     api_bind (parse_u256 cr (p2_witness_valid_after a)) (\<lambda>wv.
       Inr \<lparr>pa_token = t, pa_amount = v, pa_spender = s, pa_nonce = n, pa_deadline = d, pa_witness_to = w,
            pa_witness_valid_after = wv\<rparr>)))))))"

record eip3009_response =
  r3_signer :: string
  r3_signer_matches_from :: bool
  r3_recipient :: string
  r3_amount :: string
  r3_expired :: bool
  r3_not_yet_valid :: bool

definition inspect_eip3009 ::
  "crates \<Rightarrow> domain_dto \<Rightarrow> eip3009_dto \<Rightarrow> string \<Rightarrow> 64 word \<Rightarrow> bad_request + eip3009_response" where
  "inspect_eip3009 cr domain auth signature now =
     api_bind (parse_domain cr domain) (\<lambda>d.
     api_bind (parse_eip3009 cr auth) (\<lambda>a.
     api_bind (parse_fixed cr 65 signature) (\<lambda>sig.
       (case ecrecover cr (digest_eip3009 (cr_keccak cr) d a) sig of
          None \<Rightarrow> Inl Recovery_failed
        | Some signer \<Rightarrow>
            Inr \<lparr>r3_signer = hex_addr cr signer, r3_signer_matches_from = (signer = ea_from a),
              r3_recipient = hex_addr cr (ea_to a), r3_amount = nat_to_string (unat (ea_value a)),
              r3_expired = (now \<noteq> 0 \<and> ea_valid_before a < ucast now),
              r3_not_yet_valid = (now \<noteq> 0 \<and> ea_valid_after a > ucast now)\<rparr>))))"

record permit2_response =
  r2_signer :: string
  r2_token :: string
  r2_amount :: string
  r2_recipient :: string
  r2_spender :: string
  r2_expired :: bool

definition inspect_permit2 ::
  "crates \<Rightarrow> domain_dto \<Rightarrow> permit2_dto \<Rightarrow> string \<Rightarrow> 64 word \<Rightarrow> bad_request + permit2_response" where
  "inspect_permit2 cr domain auth signature now =
     api_bind (parse_domain cr domain) (\<lambda>d.
     api_bind (parse_permit2 cr auth) (\<lambda>a.
     api_bind (parse_fixed cr 65 signature) (\<lambda>sig.
       (case ecrecover cr (digest_permit2 (cr_keccak cr) d a) sig of
          None \<Rightarrow> Inl Recovery_failed
        | Some signer \<Rightarrow>
            Inr \<lparr>r2_signer = hex_addr cr signer, r2_token = hex_addr cr (pa_token a),
              r2_amount = nat_to_string (unat (pa_amount a)), r2_recipient = hex_addr cr (pa_witness_to a),
              r2_spender = hex_addr cr (pa_spender a), r2_expired = (now \<noteq> 0 \<and> pa_deadline a < ucast now)\<rparr>))))"

datatype engine_request =
    Health
  | Score score_request
  | Inspect_eip3009 domain_dto eip3009_dto string "64 word"
  | Inspect_permit2 domain_dto permit2_dto string "64 word"

datatype engine_body =
    Eb_ok
  | Eb_score score_response
  | Eb_eip3009 eip3009_response
  | Eb_permit2 permit2_response
  | Eb_bad bad_request
  | Eb_none

definition require_bearer_token :: "string option \<Rightarrow> string option \<Rightarrow> bool" where
  "require_bearer_token token authorization =
     (case token of
        None \<Rightarrow> True
      | Some expected \<Rightarrow> (case authorization of Some v \<Rightarrow> v | None \<Rightarrow> []) = ''Bearer '' @ expected)"

definition answered :: "('a \<Rightarrow> engine_body) \<Rightarrow> bad_request + 'a \<Rightarrow> nat \<times> engine_body" where
  "answered body r = (case r of Inl e \<Rightarrow> (400, Eb_bad e) | Inr v \<Rightarrow> (200, body v))"

fun engine_route :: "nat \<Rightarrow> crates \<Rightarrow> engine_request \<Rightarrow> (nat \<times> engine_body) option" where
  "engine_route node_bytes cr Health = Some (200, Eb_ok)"
| "engine_route node_bytes cr (Score req) = map_option (\<lambda>r. (200, Eb_score r)) (engine_score node_bytes req)"
| "engine_route node_bytes cr (Inspect_eip3009 d a sig now) = Some (answered Eb_eip3009 (inspect_eip3009 cr d a sig now))"
| "engine_route node_bytes cr (Inspect_permit2 d a sig now) = Some (answered Eb_permit2 (inspect_permit2 cr d a sig now))"

text \<open>The router: every route but \<open>/health\<close> is behind the token. \<open>None\<close> is a panic of the handler.\<close>

definition engine_app :: "nat \<Rightarrow> crates \<Rightarrow> string option \<Rightarrow> string option \<Rightarrow> engine_request \<Rightarrow> (nat \<times> engine_body) option" where
  "engine_app node_bytes cr token authorization req =
     (if req = Health \<or> require_bearer_token token authorization then engine_route node_bytes cr req else Some (401, Eb_none))"

section \<open>What a digest covers\<close>

lemma length_u256_word [simp]: "length (u256_word v) = 32"
  by (simp add: u256_word_def)

lemma u256_word_inj [simp]: "u256_word v = u256_word w \<longleftrightarrow> v = w"
proof
  assume "u256_word v = u256_word w"
  then have b: "(ucast (drop_bit (8 * (31 - i)) v) :: 8 word) = ucast (drop_bit (8 * (31 - i)) w)" if "i < 32" for i
    using that by (simp add: u256_word_def map_eq_conv)
  show "v = w"
  proof (rule bit_word_eqI)
    fix n assume n: "n < LENGTH(256)"
    let ?i = "31 - n div 8"
    have i: "?i < 32" "31 - ?i = n div 8" using n by auto
    have "bit (ucast (drop_bit (8 * (n div 8)) v) :: 8 word) (n mod 8) = bit (ucast (drop_bit (8 * (n div 8)) w) :: 8 word) (n mod 8)"
      using b [OF i(1)] unfolding i(2) by simp
    then show "bit v n = bit w n" by (simp add: bit_ucast_iff bit_drop_bit_eq)
  qed
qed simp

lemma as_bytes_inj [simp]: "as_bytes s = as_bytes t \<longleftrightarrow> s = t"
proof -
  have "inj (\<lambda>c :: char. of_nat (of_char c) :: 8 word)"
    by (rule injI) (simp add: word_of_nat_eq_iff take_bit_nat_eq_self of_char_nat_bound)
  then show ?thesis by (simp add: as_bytes_def inj_map_eq_map)
qed

lemma ucast_64_256_inj: "(ucast m :: 256 word) = ucast n \<longleftrightarrow> m = n" for m n :: "64 word"
proof
  assume e: "(ucast m :: 256 word) = ucast n"
  show "m = n"
  proof (rule bit_word_eqI)
    fix i assume "i < LENGTH(64)"
    then show "bit m i = bit n i" using arg_cong [OF e, of "\<lambda>w. bit w i"] by (simp add: bit_ucast_iff)
  qed
qed simp

definition domain_ok :: "eip712_domain \<Rightarrow> bool" where
  "domain_ok d \<longleftrightarrow> length (ed_verifying_contract d) = 20"

definition eip3009_ok :: "eip3009_auth \<Rightarrow> bool" where
  "eip3009_ok a \<longleftrightarrow> length (ea_from a) = 20 \<and> length (ea_to a) = 20 \<and> length (ea_nonce a) = 32"

definition permit2_ok :: "permit2_auth \<Rightarrow> bool" where
  "permit2_ok a \<longleftrightarrow> length (pa_token a) = 20 \<and> length (pa_spender a) = 20 \<and> length (pa_witness_to a) = 20"

fun auth_ok :: "eip3009_auth + permit2_auth \<Rightarrow> bool" where
  "auth_ok (Inl a) = eip3009_ok a"
| "auth_ok (Inr a) = permit2_ok a"

fun digest_of :: "(bytes \<Rightarrow> bytes) \<Rightarrow> eip712_domain \<Rightarrow> eip3009_auth + permit2_auth \<Rightarrow> bytes" where
  "digest_of kec d (Inl a) = digest_eip3009 kec d a"
| "digest_of kec d (Inr a) = digest_permit2 kec d a"

fun struct_buf :: "(bytes \<Rightarrow> bytes) \<Rightarrow> eip3009_auth + permit2_auth \<Rightarrow> bytes" where
  "struct_buf kec (Inl a) = eip3009_buf kec a"
| "struct_buf kec (Inr a) = permit2_buf kec a"

text \<open>The messages that are hashed on the way to a digest.\<close>

fun hashed_auth :: "(bytes \<Rightarrow> bytes) \<Rightarrow> eip3009_auth + permit2_auth \<Rightarrow> bytes list" where
  "hashed_auth kec (Inl a) = [eip3009_buf kec a]"
| "hashed_auth kec (Inr a) = [token_permissions_buf kec a, witness_buf kec a, permit2_buf kec a]"

definition hashed :: "(bytes \<Rightarrow> bytes) \<Rightarrow> eip712_domain \<Rightarrow> eip3009_auth + permit2_auth \<Rightarrow> bytes list" where
  "hashed kec d a =
     [as_bytes (ed_name d)] @ (case ed_version d of Some v \<Rightarrow> [as_bytes v] | None \<Rightarrow> []) @
     [domain_buf kec d] @ hashed_auth kec a @ [[0x19, 0x01] @ domain_separator kec d @ kec (struct_buf kec a)]"

lemma digest_of_kec: "digest_of kec d a = kec ([0x19, 0x01] @ domain_separator kec d @ kec (struct_buf kec a))"
  by (cases a) (simp_all add: digest_eip3009_def digest_permit2_def eip712_digest_def struct_hash_eip3009_def struct_hash_permit2_def)

lemma domain_buf_inj:
  assumes "\<And>m. length (kec m) = 32" "domain_ok d" "domain_ok d'" "domain_buf kec d = domain_buf kec d'"
  shows "kec (as_bytes (ed_name d)) = kec (as_bytes (ed_name d')) \<and> ed_chain_id d = ed_chain_id d' \<and>
    ed_verifying_contract d = ed_verifying_contract d' \<and>
    (case (ed_version d, ed_version d') of
       (Some v, Some v') \<Rightarrow> kec (as_bytes v) = kec (as_bytes v') | (None, None) \<Rightarrow> True | _ \<Rightarrow> False)"
proof -
  have "length (domain_buf kec d) = length (domain_buf kec d')" using assms(4) by simp
  then have "(ed_version d = None) = (ed_version d' = None)"
    using assms(1-3) by (auto simp: domain_buf_def domain_ok_def addr_word_def split: option.splits)
  then show ?thesis
    using assms by (auto simp: domain_buf_def domain_ok_def addr_word_def append_eq_append_conv ucast_64_256_inj split: option.splits)
qed

lemma eip3009_buf_inj:
  assumes "\<And>m. length (kec m) = 32" "eip3009_ok a" "eip3009_ok b" "eip3009_buf kec a = eip3009_buf kec b"
  shows "a = b"
  using assms by (cases a; cases b) (simp add: eip3009_buf_def eip3009_ok_def addr_word_def append_eq_append_conv)

lemma permit2_buf_inj:
  assumes "\<And>m. length (kec m) = 32" "permit2_ok a" "permit2_ok b" "permit2_buf kec a = permit2_buf kec b"
    and "kec (token_permissions_buf kec a) = kec (token_permissions_buf kec b) \<Longrightarrow> token_permissions_buf kec a = token_permissions_buf kec b"
    and "kec (witness_buf kec a) = kec (witness_buf kec b) \<Longrightarrow> witness_buf kec a = witness_buf kec b"
  shows "a = b"
proof -
  have "kec (token_permissions_buf kec a) = kec (token_permissions_buf kec b)" "kec (witness_buf kec a) = kec (witness_buf kec b)"
    and f: "pa_spender a = pa_spender b" "pa_nonce a = pa_nonce b" "pa_deadline a = pa_deadline b"
    using assms(1-4) by (simp_all add: permit2_buf_def permit2_ok_def addr_word_def append_eq_append_conv)
  then have "token_permissions_buf kec a = token_permissions_buf kec b" "witness_buf kec a = witness_buf kec b"
    using assms(5,6) by blast+
  then have "pa_token a = pa_token b" "pa_amount a = pa_amount b" "pa_witness_to a = pa_witness_to b"
    "pa_witness_valid_after a = pa_witness_valid_after b"
    using assms(1-3)
    by (simp_all add: token_permissions_buf_def witness_buf_def permit2_ok_def addr_word_def append_eq_append_conv)
  with f show ?thesis by (cases a; cases b) simp
qed

lemma struct_buf_inj:
  assumes "\<And>m. length (kec m) = 32" "auth_ok a" "auth_ok b" "struct_buf kec a = struct_buf kec b"
    and "inj_on kec (set (hashed_auth kec a @ hashed_auth kec b))"
  shows "a = b"
proof -
  have "length (struct_buf kec a) = length (struct_buf kec b)" using assms(4) by simp
  then consider (eip3009) x y where "a = Inl x" "b = Inl y" | (permit2) x y where "a = Inr x" "b = Inr y"
    using assms(1-3) by (cases a; cases b) (simp_all add: eip3009_buf_def permit2_buf_def eip3009_ok_def permit2_ok_def addr_word_def)
  then show ?thesis
  proof cases
    case eip3009
    then show ?thesis using assms(2-4) eip3009_buf_inj [OF assms(1)] by simp
  next
    case permit2
    then have p: "permit2_ok x" "permit2_ok y" "permit2_buf kec x = permit2_buf kec y"
      using assms(2-4) by simp_all
    have "x = y"
      by (rule permit2_buf_inj [OF assms(1) p]) (use assms(5) permit2 in \<open>auto dest: inj_onD\<close>)
    with permit2 show ?thesis by simp
  qed
qed

lemma struct_buf_hashed: "struct_buf kec a \<in> set (hashed kec d a)"
  by (cases a) (simp_all add: hashed_def)

lemma hashed_auth_hashed: "set (hashed_auth kec a) \<subseteq> set (hashed kec d a)"
  by (auto simp: hashed_def)

text \<open>A request that no handler survives: more trees than the address space holds.\<close>

definition panics :: "nat \<Rightarrow> engine_request \<Rightarrow> bool" where
  "panics node_bytes req \<longleftrightarrow> (\<exists>q. req = Score q \<and> capacity_overflows node_bytes (trees_of q))"

lemma engine_route_answers:
  "if panics node_bytes req then engine_route node_bytes cr req = None
   else \<exists>body. engine_route node_bytes cr req = Some (200, body) \<or> engine_route node_bytes cr req = Some (400, body)"
proof (cases req)
  case (Score q)
  show ?thesis
  proof (cases "capacity_overflows node_bytes (trees_of q)")
    case True
    then show ?thesis by (simp add: Score panics_def engine_score_def engine_fit_def Let_def)
  next
    case False
    from engine_fit_forest [OF this] have "\<exists>r. engine_score node_bytes q = Some r"
      by (metis (no_types, lifting) engine_score_def option.simps(9))
    then show ?thesis using False by (auto simp: Score panics_def)
  qed
qed (auto simp: panics_def answered_def split: sum.splits)

section \<open>Properties\<close>

text \<open>
  C26. What a signature that the sidecar inspects covers: two digests are equal only if the domains and the
  authorizations are, EIP-3009 or Permit2, in every field: the token contract and the chain, the payer, the payee, the
  amount, the validity, the nonce. So a signature over one payment is never read as one over another. The hash is
  32 bytes long and has no collision on the messages that are hashed.
\<close>

theorem digest_binds_payment:
  assumes "digest_of kec d a = digest_of kec d' a'"
    and "\<And>m. length (kec m) = 32" "inj_on kec (set (hashed kec d a @ hashed kec d' a'))"
    and "domain_ok d" "domain_ok d'" "auth_ok a" "auth_ok a'"
  shows "d = d' \<and> a = a'"
proof -
  note inj = inj_onD [OF assms(3)]
  have "[0x19, 0x01] @ domain_separator kec d @ kec (struct_buf kec a) =
      [0x19, 0x01] @ domain_separator kec d' @ kec (struct_buf kec a')"
    by (rule inj) (use assms(1) in \<open>simp_all add: digest_of_kec hashed_def\<close>)
  then have k: "kec (domain_buf kec d) = kec (domain_buf kec d')" "kec (struct_buf kec a) = kec (struct_buf kec a')"
    using assms(2) by (simp_all add: domain_separator_def append_eq_append_conv)
  have "domain_buf kec d = domain_buf kec d'" by (rule inj [OF k(1)]) (simp_all add: hashed_def)
  from domain_buf_inj [OF assms(2,4,5) this]
  have p: "kec (as_bytes (ed_name d)) = kec (as_bytes (ed_name d'))" "ed_chain_id d = ed_chain_id d'"
    "ed_verifying_contract d = ed_verifying_contract d'"
    "case (ed_version d, ed_version d') of
       (Some v, Some v') \<Rightarrow> kec (as_bytes v) = kec (as_bytes v') | (None, None) \<Rightarrow> True | _ \<Rightarrow> False" by blast+
  have "as_bytes (ed_name d) = as_bytes (ed_name d')" by (rule inj [OF p(1)]) (simp_all add: hashed_def)
  moreover have "ed_version d = ed_version d'"
  proof (cases "ed_version d")
    case None
    then show ?thesis using p(4) by (simp split: option.splits)
  next
    case (Some v)
    then obtain v' where v': "ed_version d' = Some v'" "kec (as_bytes v) = kec (as_bytes v')"
      using p(4) by (auto split: option.splits)
    have "as_bytes v = as_bytes v'" by (rule inj [OF v'(2)]) (simp_all add: hashed_def Some v'(1))
    then show ?thesis by (simp add: Some v'(1))
  qed
  ultimately have "d = d'" using p(2,3) by (cases d; cases d') simp
  moreover have "struct_buf kec a = struct_buf kec a'"
    by (rule inj [OF k(2)]) (use struct_buf_hashed in \<open>simp_all only: set_append Un_iff simp_thms\<close>)
  then have "a = a'"
    by (rule struct_buf_inj [OF assms(2,6,7)]) (rule inj_on_subset [OF assms(3)], use hashed_auth_hashed in auto)
  ultimately show ?thesis by blast
qed

text \<open>
  The sidecar's gate: with a token configured, a route other than the health check does anything only on a request
  that carries exactly that token; every other request is refused with 401. A request that passes makes the handler
  panic only if it asks for more trees than the address space holds.
\<close>

theorem engine_requires_token:
  "case engine_app node_bytes cr token authorization req of
     None \<Rightarrow> require_bearer_token token authorization \<and> panics node_bytes req
   | Some (status, body) \<Rightarrow>
       status \<in> {200, 400, 401} \<and>
       (status = 401) = (req \<noteq> Health \<and> (\<exists>t. token = Some t \<and> (case authorization of None \<Rightarrow> [] | Some v \<Rightarrow> v) \<noteq> ''Bearer '' @ t)) \<and>
       (if status = 401 then body = Eb_none else engine_route node_bytes cr req = Some (status, body))"
  using engine_route_answers [of node_bytes req cr]
  by (auto simp: engine_app_def require_bearer_token_def panics_def split: option.splits if_splits)

section \<open>An example\<close>

text \<open>Two payments of one payer, to different payees, and a hash that tells their messages apart.\<close>

definition ex_domain :: eip712_domain where
  "ex_domain = \<lparr>ed_name = ''USDC'', ed_version = Some ''2'', ed_chain_id = 84532, ed_verifying_contract = replicate 20 3\<rparr>"

definition ex_transfer :: "8 word \<Rightarrow> eip3009_auth" where
  "ex_transfer payee = \<lparr>ea_from = replicate 20 7, ea_to = replicate 19 0 @ [payee], ea_value = 100000, ea_valid_after = 0,
     ea_valid_before = 1924992000, ea_nonce = replicate 32 17\<rparr>"

definition ex_hash :: "bytes \<Rightarrow> bytes" where
  "ex_hash m = [of_nat (length m), if length m = 224 then m ! 95 else if length m = 66 then m ! 35 else 0] @ replicate 30 0"

lemma ex_lengths:
  "length (ex_hash m) = 32" "length (domain_buf ex_hash ex_domain) = 160" "length (eip3009_buf ex_hash (ex_transfer b)) = 224"
  by (simp_all add: ex_hash_def domain_buf_def eip3009_buf_def ex_domain_def ex_transfer_def addr_word_def)

lemma ex_payee: "eip3009_buf ex_hash (ex_transfer b) ! 95 = b"
  by (simp add: eip3009_buf_def nth_append ex_transfer_def addr_word_def ex_lengths(1))

lemma ex_hashes:
  "ex_hash (domain_buf ex_hash ex_domain) = [160, 0] @ replicate 30 0"
  "ex_hash (eip3009_buf ex_hash (ex_transfer b)) = [224, b] @ replicate 30 0"
  "ex_hash (as_bytes ''USDC'') = [4, 0] @ replicate 30 0" "ex_hash (as_bytes ''2'') = [1, 0] @ replicate 30 0"
  by (simp_all add: ex_hash_def [of "domain_buf ex_hash ex_domain"] ex_hash_def [of "eip3009_buf ex_hash (ex_transfer b)"]
      ex_hash_def [of "x # xs" for x xs] ex_lengths ex_payee as_bytes_def)

lemma ex_outer:
  "ex_hash ([0x19, 0x01] @ domain_separator ex_hash ex_domain @ ex_hash (eip3009_buf ex_hash (ex_transfer b))) = [66, b] @ replicate 30 0"
  by (subst ex_hash_def) (simp add: domain_separator_def ex_hashes nth_append)

theorem digest_binds_payment_witness:
  "digest_of ex_hash ex_domain (Inl (ex_transfer 1)) \<noteq> digest_of ex_hash ex_domain (Inl (ex_transfer 2))"
proof
  assume e: "digest_of ex_hash ex_domain (Inl (ex_transfer 1)) = digest_of ex_hash ex_domain (Inl (ex_transfer 2))"
  have "inj_on ex_hash (set (hashed ex_hash ex_domain (Inl (ex_transfer 1)) @ hashed ex_hash ex_domain (Inl (ex_transfer 2))))"
    using ex_hashes ex_outer by (auto simp: inj_on_def hashed_def ex_domain_def [THEN arg_cong, of ed_name] ex_domain_def [THEN arg_cong, of ed_version])
  from digest_binds_payment [OF e ex_lengths(1) this] have "ex_transfer 1 = ex_transfer 2"
    by (simp add: domain_ok_def eip3009_ok_def ex_domain_def ex_transfer_def)
  then show False by (simp add: ex_transfer_def)
qed

end
