(* ===== verification/Tracing.thy ===== *)
theory Tracing
  imports Execute
begin

text \<open>
  Tracing (\<open>packages/core/src/tracing.ts\<close>): the attributes of a payment and of a decision, and \<open>withSpan\<close>,
  which runs a function inside a span. A span is the record of what was done to it; the tracer that starts it and
  exports it is OpenTelemetry's.
\<close>

datatype attr_value = AStr string | ANum real

type_synonym span_attrs = "(string \<times> attr_value) list"

datatype span_status = Unset | Ok_status | Error_status string

record span =
  sp_name :: string
  sp_attrs :: span_attrs
  sp_status :: span_status
  sp_ended :: nat

text \<open>\<open>err.message\<close>, or the text of a value that is no error, which is the argument of \<open>Thrown_value\<close>.\<close>

datatype 'a outcome = Returned 'a | Thrown_error string | Thrown_value string

definition start_span :: "string \<Rightarrow> span" where
  "start_span name = \<lparr>sp_name = name, sp_attrs = [], sp_status = Unset, sp_ended = 0\<rparr>"

definition end_span :: "span \<Rightarrow> span" where
  "end_span s = s\<lparr>sp_ended := sp_ended s + 1\<rparr>"

text \<open>\<open>fn\<close> may change the span that it is given.\<close>

definition withSpan :: "string \<Rightarrow> span_attrs \<Rightarrow> (span \<Rightarrow> 'a outcome \<times> span) \<Rightarrow> 'a outcome \<times> span" where
  "withSpan name attrs fn =
     (case fn ((start_span name)\<lparr>sp_attrs := attrs\<rparr>) of
        (Returned r, s) \<Rightarrow> (Returned r, end_span (s\<lparr>sp_status := Ok_status\<rparr>))
      | (Thrown_error m, s) \<Rightarrow> (Thrown_error m, end_span (s\<lparr>sp_status := Error_status m\<rparr>))
      | (Thrown_value m, s) \<Rightarrow> (Thrown_value m, end_span (s\<lparr>sp_status := Error_status m\<rparr>)))"

definition paymentAttrs :: "payment_request \<Rightarrow> span_attrs" where
  "paymentAttrs req =
     [(''agentctl.agent_id'', AStr (r_agentId req)), (''agentctl.amount'', AStr (bigint_to_string (r_amount req))),
      (''agentctl.token'', AStr (r_token req)), (''agentctl.recipient'', AStr (r_recipient req)),
      (''agentctl.chain'', AStr (r_chain req))]"

text \<open>\<open>Number(v.toFixed(4))\<close> of a number that is not negative.\<close>

definition to_fixed_4 :: "real \<Rightarrow> real" where
  "to_fixed_4 v = real_of_int \<lfloor>v * 10000 + 1 / 2\<rfloor> / 10000"

definition decisionAttrs :: "policy_decision \<Rightarrow> span_attrs" where
  "decisionAttrs d =
     [(''agentctl.verdict'', AStr (verdict_text (d_verdict d))), (''agentctl.risk_score'', ANum (to_fixed_4 (d_riskScore d))),
      (''agentctl.checks_total'', ANum (real (length (d_checks d)))),
      (''agentctl.checks_failed'', ANum (real (length (filter (\<lambda>c. \<not> c_passed c) (d_checks d)))))]"

text \<open>Tracing is transparent: the outcome is the function's own, and the span ends once and tells success.\<close>

lemma withSpan_transparent:
  assumes "fn ((start_span name)\<lparr>sp_attrs := attrs\<rparr>) = (out, s)"
  shows "fst (withSpan name attrs fn) = out" "sp_ended (snd (withSpan name attrs fn)) = sp_ended s + 1"
    "sp_status (snd (withSpan name attrs fn)) = Ok_status \<longleftrightarrow> (\<exists>r. out = Returned r)"
  using assms by (cases out; simp add: withSpan_def end_span_def)+

text \<open>Rounding moves a score by half a ten-thousandth at most.\<close>

lemma to_fixed_4_close: "\<bar>to_fixed_4 v - v\<bar> \<le> 1 / 20000"
proof -
  have "real_of_int \<lfloor>v * 10000 + 1 / 2\<rfloor> \<le> v * 10000 + 1 / 2" "v * 10000 + 1 / 2 < real_of_int \<lfloor>v * 10000 + 1 / 2\<rfloor> + 1"
    by linarith+
  then show ?thesis unfolding to_fixed_4_def abs_le_iff by (simp add: field_simps)
qed

end
