(* ===== verification/Interleaving.thy ===== *)
theory Interleaving
  imports Execute
begin

text \<open>
  Payments in flight at the same time. \<open>execute\<close> of \<open>packages/core/src/index.ts\<close> gives up control at every
  \<open>await\<close>, so calls for several payments interleave on the one guard. A call is cut here into its
  stretches between two \<open>await\<close>s, one \<open>phase\<close> per stretch, and a run lets any call take its next step at any
  time. Run alone, a call is the function \<open>AgentGuard_execute\<close>; interleaved, its effects on the policy's
  windows are bounded by the number of payments in flight.
\<close>

section \<open>A call, step by step\<close>

text \<open>What a call holds while it waits: the results of the layers, then its decision, then the settlement.\<close>

datatype phase =
    Started
  | Rules_done evaluation_result
  | Scored evaluation_result behavioral_result
  | Bound evaluation_result behavioral_result policy_check
  | Decided policy_decision
  | Waiting escalation_handler policy_decision
  | Refused policy_decision
  | Allowed policy_decision
  | Settling policy_decision payload payment_requirements
  | Learning policy_decision settle_response
  | Recording policy_decision settle_response
  | Finished "guard_error + execute_result"

text \<open>The decision from the four results.\<close>

definition decision_of :: "policy \<Rightarrow> evaluation_result \<Rightarrow> behavioral_result \<Rightarrow> policy_check \<Rightarrow> policy_check \<Rightarrow> policy_decision" where
  "decision_of pol ev be bindingCheck intentCheck =
     (let checks = er_checks ev @ br_checks be @ [bindingCheck, intentCheck];
          verdict = aggregateVerdict checks (br_score be) (p_anomalyThreshold pol) (p_anomalyAction pol) (er_escalate ev)
      in \<lparr>d_verdict = verdict, d_riskScore = br_score be, d_checks = checks,
          d_reason = buildReason verdict checks (br_score be), d_escalation = None\<rparr>)"

fun call_step ::
  "externals \<Rightarrow> 's store_ops \<Rightarrow> agent_guard \<Rightarrow> 's call_env \<Rightarrow> payment_request \<Rightarrow> phase \<Rightarrow> 's guard_state \<Rightarrow>
     phase \<times> handed_over list \<times> 's guard_state" where
  "call_step x ops g ce req Started st =
     (case breaker_open g (ce_clock ce 0) (gs_breaker st) of
        (opened, b) \<Rightarrow>
          (if opened then Decided (blocked_decision breaker_check R_breaker_open)
           else case validateRequest x req of
                  Some c \<Rightarrow> Decided (blocked_decision c (R_invalid (c_message c)))
                | None \<Rightarrow> Rules_done (PolicyEvaluator_evaluate (x_url x) (gs_evaluator st) req (ce_clock ce 1)),
           [], st\<lparr>gs_breaker := b\<rparr>))"
| "call_step x ops g ce req (Rules_done ev) st =
     (Scored ev (BehavioralScorer_score (gs_behavioral st) req (ce_clock ce 2)), [], st)"
| "call_step x ops g ce req (Scored ev be) st =
     (Bound ev be (ResourceRegistry_check (x_url x) (gs_resources st) req), [], st)"
| "call_step x ops g ce req (Bound ev be bc) st =
     (Decided (decision_of (ev_policy (gs_evaluator st)) ev be bc
        (IntentReconciler_check (x_env x) (x_http x) (ag_intent g) req)), [], st)"
| "call_step x ops g ce req (Decided d) st =
     (if d_verdict d = Block then Refused d
      else if d_verdict d = Escalate then (case ag_onEscalation g of None \<Rightarrow> Refused d | Some h \<Rightarrow> Waiting h d)
      else Allowed d,
      [], record_on_breaker g d (ce_clock ce 3) st)"
| "call_step x ops g ce req (Waiting h d) st =
     (case ce_answer ce h req d of
        Inl e \<Rightarrow> Finished (Inl (Ge_thrown e))
      | Inr ok \<Rightarrow> if ok then Allowed d else Refused d,
      [], st)"
| "call_step x ops g ce req (Refused d) st =
     (case audit_record x ops ce req d None st of
        None \<Rightarrow> (Finished (Inl Ge_store), [], st)
      | Some st' \<Rightarrow>
          (Finished (Inr \<lparr>ex_executed = False, ex_decision = d, ex_settlement = None,
             ex_reason = Some (if d_verdict d = Block then ''blocked by policy'' else ''escalation denied/timed out'')\<rparr>),
           [], st'))"
| "call_step x ops g ce req (Allowed d) st =
     (case prepare_payment x ce req of Inl e \<Rightarrow> Finished (Inl e) | Inr (pl, rq) \<Rightarrow> Settling d pl rq, [], st)"
| "call_step x ops g ce req (Settling d pl rq) st =
     (case facilitator_settle g ce pl rq of
        (res, called) \<Rightarrow>
          (case res of
             Inl e \<Rightarrow> (Finished (Inl (Ge_thrown e)), map (\<lambda>u. (u, pl, rq)) called, st)
           | Inr r \<Rightarrow>
               if st_success r
               then (Learning d r, map (\<lambda>u. (u, pl, rq)) called,
                     st\<lparr>gs_behavioral := BehavioralScorer_observe req (ce_clock ce 4) (gs_behavioral st)\<rparr>)
               else (Recording d r, map (\<lambda>u. (u, pl, rq)) called, st)))"
| "call_step x ops g ce req (Learning d r) st =
     (Recording d r, [],
      st\<lparr>gs_evaluator := PolicyEvaluator_observe req (ce_clock ce 5) (gs_evaluator st),
         gs_resources := ResourceRegistry_bind (x_url x) (r_resourceUrl req) (r_recipient req) (gs_resources st)\<rparr>)"
| "call_step x ops g ce req (Recording d r) st =
     (case audit_record x ops ce req d (Some (settlement_of g r)) st of
        None \<Rightarrow> (Finished (Inl Ge_store), [], st)
      | Some st' \<Rightarrow>
          (Finished (Inr \<lparr>ex_executed = st_success r, ex_decision = d, ex_settlement = Some (settlement_of g r),
             ex_reason = st_errorReason r\<rparr>), [], st'))"
| "call_step x ops g ce req (Finished res) st = (Finished res, [], st)"

text \<open>The readings of the clock in a step.\<close>

fun reads :: "phase \<Rightarrow> nat list" where
  "reads Started = [0, 1]"
| "reads (Rules_done ev) = [2]"
| "reads (Decided d) = [3]"
| "reads (Settling d pl rq) = [4]"
| "reads (Learning d r) = [5]"
| "reads (Refused d) = [6]"
| "reads (Recording d r) = [6]"
| "reads _ = []"

section \<open>A call alone\<close>

fun call_run ::
  "externals \<Rightarrow> 's store_ops \<Rightarrow> agent_guard \<Rightarrow> 's call_env \<Rightarrow> payment_request \<Rightarrow> nat \<Rightarrow>
     phase \<times> handed_over list \<times> 's guard_state \<Rightarrow> phase \<times> handed_over list \<times> 's guard_state" where
  "call_run x ops g ce req 0 s = s"
| "call_run x ops g ce req (Suc n) (ph, handed, st) =
     (case call_step x ops g ce req ph st of
        (ph', hs, st') \<Rightarrow> call_run x ops g ce req n (ph', handed @ hs, st'))"

lemma call_run_finished: "call_run x ops g ce req n (Finished r, handed, st) = (Finished r, handed, st)"
  by (induction n) simp_all

lemma call_run_add: "call_run x ops g ce req (m + n) s = call_run x ops g ce req n (call_run x ops g ce req m s)"
  by (induction x ops g ce req m s rule: call_run.induct) (auto split: prod.splits)

lemma decision_of_layers:
  "layered_decision x g clock req st =
     decision_of (ev_policy (gs_evaluator st)) (PolicyEvaluator_evaluate (x_url x) (gs_evaluator st) req (clock 1))
       (BehavioralScorer_score (gs_behavioral st) req (clock 2)) (ResourceRegistry_check (x_url x) (gs_resources st) req)
       (IntentReconciler_check (x_env x) (x_http x) (ag_intent g) req)"
  by (simp add: layered_decision_def decision_of_def Let_def)

text \<open>The evaluation takes one or four steps.\<close>

lemma call_run_evaluates:
  assumes "AgentGuard_evaluate x g (ce_clock ce) req st = (d, st')"
  obtains n where "n \<le> 4" "call_run x ops g ce req n (Started, hs, st) = (Decided d, hs, st')"
proof -
  obtain opened b where b: "breaker_open g (ce_clock ce 0) (gs_breaker st) = (opened, b)" by fastforce
  show thesis
  proof (cases "opened \<or> validateRequest x req \<noteq> None")
    case True
    then have "call_run x ops g ce req 1 (Started, hs, st) = (Decided d, hs, st')"
      using assms b by (auto simp: AgentGuard_evaluate_def split: option.splits)
    then show ?thesis using that [of 1] by simp
  next
    case False
    then have "call_run x ops g ce req 4 (Started, hs, st) = (Decided d, hs, st')"
      using assms b by (auto simp: AgentGuard_evaluate_def eval_nat_numeral decision_of_layers)
    then show ?thesis using that [of 4] by simp
  qed
qed

lemma call_run_decides:
  assumes "AgentGuard_evaluate x g (ce_clock ce) req st = (d, st1)" "quiet ce"
  shows "call_run x ops g ce req 6 (Decided d, [], st1) =
     (case AgentGuard_execute x ops g ce req st of (res, handed, st') \<Rightarrow> (Finished res, handed, st'))"
proof -
  let ?st = "record_on_breaker g d (ce_clock ce 3) st1"
  let ?done = "case AgentGuard_execute x ops g ce req st of (res, handed, st') \<Rightarrow> (Finished res, handed, st')"
  have allowed: "call_run x ops g ce req 4 (Allowed d, [], ?st) = ?done"
    if "AgentGuard_runGuard x g ce req st = (Inr (d, True), ?st)"
    using that assms(2)
    by (auto simp: AgentGuard_execute_def quiet_def eval_nat_numeral Let_def observe_settled_def
        split: sum.splits prod.splits option.splits)
  have refused: "call_run x ops g ce req 4 (Refused d, [], ?st) = ?done"
    if "AgentGuard_runGuard x g ce req st = (Inr (d, False), ?st)"
    using that by (auto simp: AgentGuard_execute_def eval_nat_numeral split: option.splits)
  have end_reached: "call_run x ops g ce req 1 ?done = ?done"
    by (simp add: call_run_finished split: prod.splits)
  have later: "call_run x ops g ce req 6 s = call_run x ops g ce req 1 (call_run x ops g ce req 4 (call_run x ops g ce req 1 s))"
    "call_run x ops g ce req 6 s = call_run x ops g ce req 4 (call_run x ops g ce req 2 s)" for s
    by (simp_all flip: call_run_add)
  show ?thesis
  proof (cases "d_verdict d = Escalate \<and> ag_onEscalation g \<noteq> None")
    case True
    then obtain h where h: "ag_onEscalation g = Some h" by blast
    have "call_run x ops g ce req 2 (Decided d, [], st1) =
       (case ce_answer ce h req d of Inl e \<Rightarrow> Finished (Inl (Ge_thrown e)) | Inr ok \<Rightarrow> if ok then Allowed d else Refused d, [], ?st)"
      using True h by (simp add: eval_nat_numeral)
    moreover have "AgentGuard_runGuard x g ce req st =
       (case ce_answer ce h req d of Inl e \<Rightarrow> (Inl (Ge_thrown e), ?st) | Inr ok \<Rightarrow> (Inr (d, ok), ?st))"
      using True h assms by (simp add: AgentGuard_runGuard_def quiet_def Let_def split: sum.splits)
    ultimately show ?thesis
      using allowed refused
      by (cases "ce_answer ce h req d") (auto simp: later(2) AgentGuard_execute_def call_run_finished)
  next
    case False
    then have "call_run x ops g ce req 1 (Decided d, [], st1) = (if d_verdict d = Allow then Allowed d else Refused d, [], ?st)"
      by (cases "d_verdict d") auto
    moreover have "AgentGuard_runGuard x g ce req st = (Inr (d, d_verdict d = Allow), ?st)"
      using False assms by (cases "d_verdict d") (auto simp: AgentGuard_runGuard_def quiet_def Let_def)
    ultimately show ?thesis
      using allowed refused end_reached by (cases "d_verdict d = Allow") (auto simp: later(1))
  qed
qed

text \<open>
  A call that runs alone is the function \<open>AgentGuard_execute\<close>: its ten steps at most end with the
  result of the function, hand over the same payloads and leave the guard in the same state.
\<close>

theorem execute_alone_is_a_run:
  assumes "quiet ce"
  shows "call_run x ops g ce req 10 (Started, [], st) =
     (case AgentGuard_execute x ops g ce req st of (res, handed, st') \<Rightarrow> (Finished res, handed, st'))"
proof -
  obtain d st1 where e: "AgentGuard_evaluate x g (ce_clock ce) req st = (d, st1)" by fastforce
  obtain n where n: "n \<le> 4" "call_run x ops g ce req n (Started, [], st) = (Decided d, [], st1)"
    using call_run_evaluates [OF e] by blast
  have "call_run x ops g ce req 10 (Started, [], st) =
      call_run x ops g ce req (4 - n) (call_run x ops g ce req 6 (call_run x ops g ce req n (Started, [], st)))"
    using n(1) by (simp flip: call_run_add)
  also have "call_run x ops g ce req 6 (call_run x ops g ce req n (Started, [], st)) =
      (case AgentGuard_execute x ops g ce req st of (res, handed, st') \<Rightarrow> (Finished res, handed, st'))"
    using call_run_decides [OF e assms] n(2) by simp
  finally show ?thesis by (simp add: call_run_finished split: prod.splits)
qed

section \<open>Many calls on one guard\<close>

record call =
  cl_req :: payment_request
  cl_phase :: phase
  cl_handed :: "handed_over list"

record 's system =
  sy_guard :: "'s guard_state"
  sy_calls :: "call list"
  sy_now :: int

text \<open>A failed critical check of the policy: the decision will be to block, whatever the other layers say.\<close>

definition refuses :: "evaluation_result \<Rightarrow> bool" where
  "refuses ev \<longleftrightarrow> list_ex (\<lambda>c. failed_critical c \<and> \<not> behavioral_id (c_id c)) (er_checks ev)"

text \<open>The calls that the policy has admitted and whose payment is not yet observed.\<close>

fun commits :: "phase \<Rightarrow> bool" where
  "commits (Rules_done ev) = (\<not> refuses ev)"
| "commits (Scored ev be) = (\<not> refuses ev)"
| "commits (Bound ev be bc) = (\<not> refuses ev)"
| "commits (Decided d) = (d_verdict d \<noteq> Block)"
| "commits (Waiting h d) = True"
| "commits (Allowed d) = True"
| "commits (Settling d pl rq) = True"
| "commits (Learning d r) = True"
| "commits _ = False"

definition load :: "(payment_request \<Rightarrow> int) \<Rightarrow> call list \<Rightarrow> int" where
  "load w cs = sum_list (map (\<lambda>c. if commits (cl_phase c) then w (cl_req c) else 0) cs)"

definition in_flight :: "'s system \<Rightarrow> nat" where
  "in_flight s = length (filter (\<lambda>c. commits (cl_phase c)) (sy_calls s))"

text \<open>
  A run of the guard with at most \<open>k\<close> admitted payments in flight: calls arrive, any call takes its
  next step, and whatever else happens to the breaker, the baseline, the registry and the log leaves the
  evaluator's windows alone. The clock of the machine does not go backwards.
\<close>

inductive sys_run ::
  "externals \<Rightarrow> 's store_ops \<Rightarrow> agent_guard \<Rightarrow> (nat \<Rightarrow> 's call_env) \<Rightarrow> nat \<Rightarrow> 's system \<Rightarrow> 's system \<Rightarrow> bool"
  for x ops g envs k s0 where
  start: "sys_run x ops g envs k s0 s0"
| arrive: "sys_run x ops g envs k s0 s \<Longrightarrow>
     sys_run x ops g envs k s0
       (s\<lparr>sy_calls := sy_calls s @ [\<lparr>cl_req = req, cl_phase = Started, cl_handed = []\<rparr>]\<rparr>)"
| advance: "sys_run x ops g envs k s0 s \<Longrightarrow> i < length (sy_calls s) \<Longrightarrow> c = sy_calls s ! i \<Longrightarrow>
     call_step x ops g (envs i) (cl_req c) (cl_phase c) (sy_guard s) = (ph, hs, st) \<Longrightarrow>
     list_all (\<lambda>j. sy_now s \<le> ce_clock (envs i) j \<and> ce_clock (envs i) j \<le> t) (reads (cl_phase c)) \<Longrightarrow>
     sy_now s \<le> t \<Longrightarrow>
     s' = \<lparr>sy_guard = st, sy_calls = (sy_calls s)[i := c\<lparr>cl_phase := ph, cl_handed := cl_handed c @ hs\<rparr>], sy_now = t\<rparr> \<Longrightarrow>
     in_flight s' \<le> k \<Longrightarrow> sys_run x ops g envs k s0 s'"
| aside: "sys_run x ops g envs k s0 s \<Longrightarrow> gs_evaluator st = gs_evaluator (sy_guard s) \<Longrightarrow> sy_now s \<le> t \<Longrightarrow>
     sys_run x ops g envs k s0 (s\<lparr>sy_guard := st, sy_now := t\<rparr>)"

section \<open>What a step changes\<close>

lemma call_step_evaluator:
  assumes "call_step x ops g ce req ph st = (ph', hs, st')"
  shows "gs_evaluator st' =
     (case ph of Learning d r \<Rightarrow> PolicyEvaluator_observe req (ce_clock ce 5) (gs_evaluator st) | _ \<Rightarrow> gs_evaluator st)"
  using assms
  by (cases ph) (auto split: prod.splits sum.splits option.splits if_splits dest: audit_record_Some(2))

lemma blocked_decision_verdict [simp]: "d_verdict (blocked_decision c r) = Block"
  by (simp add: blocked_decision_def)

lemma refused_is_blocked: "refuses ev \<Longrightarrow> d_verdict (decision_of pol ev be bc ic) = Block"
  by (auto simp: decision_of_def Let_def refuses_def list_ex_iff aggregate_cases(1))

lemma not_refused_not_blocked:
  "refuses (PolicyEvaluator_evaluate pu st req t) = blocks (PolicyEvaluator_evaluate pu st req t)"
  using evaluate_checks_not_behavioral [of _ pu st req t]
  by (auto simp: refuses_def blocks_def list_ex_iff failed_critical_def)

lemma validated_positive: "validateRequest x req = None \<Longrightarrow> 0 < r_amount req"
  by (simp add: validateRequest_def split: if_splits)

text \<open>A call is admitted by its first step or not at all, and it is no longer in flight once it is observed.\<close>

lemma commits_step:
  assumes "call_step x ops g ce req ph st = (ph', hs, st')" "commits ph'"
  shows "(\<forall>d r. ph \<noteq> Learning d r) \<and>
     (commits ph \<or> ph = Started \<and> 0 < r_amount req \<and>
        \<not> blocks (PolicyEvaluator_evaluate (x_url x) (gs_evaluator st) req (ce_clock ce 1)))"
proof (cases ph)
  case Started
  then show ?thesis using assms
    by (auto simp: not_refused_not_blocked validated_positive split: prod.splits option.splits if_splits)
next
  case (Bound ev be bc)
  then show ?thesis using assms refused_is_blocked by (auto split: prod.splits)
qed (use assms in \<open>auto split: prod.splits sum.splits option.splits if_splits\<close>)

section \<open>The load of the calls in flight\<close>

lemma load_update:
  assumes "i < length cs"
  shows "load w (cs[i := c]) = load w cs
     - (if commits (cl_phase (cs ! i)) then w (cl_req (cs ! i)) else 0)
     + (if commits (cl_phase c) then w (cl_req c) else 0)"
  using assms
proof (induction cs arbitrary: i)
  case (Cons a cs)
  then show ?case by (cases i) (simp_all add: load_def)
qed simp

lemma load_arrive [simp]: "load w (cs @ [\<lparr>cl_req = req, cl_phase = Started, cl_handed = h\<rparr>]) = load w cs"
  by (simp add: load_def)

lemma in_flight_load: "int (in_flight s) = load (\<lambda>_. 1) (sy_calls s)"
proof -
  have "int (length (filter (\<lambda>c. commits (cl_phase c)) cs)) = load (\<lambda>_. 1) cs" for cs
    by (induction cs) (simp_all add: load_def)
  then show ?thesis by (simp add: in_flight_def)
qed

lemma load_le:
  assumes "\<And>c. c \<in> set cs \<Longrightarrow> commits (cl_phase c) \<Longrightarrow> w (cl_req c) \<le> b"
  shows "load w cs \<le> load (\<lambda>_. 1) cs * b"
  using assms by (induction cs) (auto simp: load_def algebra_simps add_mono)

section \<open>A window that admission keeps below a limit\<close>

text \<open>
  What the bound needs of a window of the policy evaluator: it only shrinks with time, an observed
  payment adds its weight, and a payment that is not blocked fits under the limit at its evaluation.
\<close>

locale admission_meter =
  fixes meter :: "evaluator \<Rightarrow> int \<Rightarrow> int"
    and weight :: "payment_request \<Rightarrow> int"
    and lim wmax :: int
    and governed :: "evaluator \<Rightarrow> bool"
    and pu :: "string \<Rightarrow> url option"
  assumes later: "governed ev \<Longrightarrow> t \<le> t' \<Longrightarrow> meter ev t' \<le> meter ev t"
    and observe: "governed ev \<Longrightarrow> 0 < r_amount req \<Longrightarrow>
      meter (PolicyEvaluator_observe req ts ev) t \<le> meter ev t + weight req"
    and observe_governed: "governed ev \<Longrightarrow> 0 < r_amount req \<Longrightarrow> governed (PolicyEvaluator_observe req ts ev)"
    and admit: "governed ev \<Longrightarrow> 0 < r_amount req \<Longrightarrow> \<not> blocks (PolicyEvaluator_evaluate pu ev req t) \<Longrightarrow>
      weight req \<noteq> 0 \<Longrightarrow> meter ev t + weight req \<le> lim \<and> weight req \<le> wmax"
    and weight_nonneg: "0 < r_amount req \<Longrightarrow> 0 \<le> weight req"
begin

definition small :: "call \<Rightarrow> bool" where
  "small c \<longleftrightarrow> (commits (cl_phase c) \<longrightarrow> 0 < r_amount (cl_req c) \<and> (weight (cl_req c) = 0 \<or> weight (cl_req c) \<le> wmax))"

definition bounded_by :: "int \<Rightarrow> 's system \<Rightarrow> bool" where
  "bounded_by b s \<longleftrightarrow> governed (gs_evaluator (sy_guard s)) \<and> list_all small (sy_calls s) \<and>
     meter (gs_evaluator (sy_guard s)) (sy_now s) + load weight (sy_calls s) \<le> b"

lemma small_update: "list_all small cs \<Longrightarrow> small c \<Longrightarrow> list_all small (cs[i := c])"
  by (auto simp: list_all_iff dest!: set_update_subset_insert [THEN subsetD])

text \<open>The step that observes a payment: what it adds to the window leaves the load.\<close>

lemma observed_bounded:
  assumes "bounded_by b s" "i < length (sy_calls s)" "commits (cl_phase (sy_calls s ! i))" "\<not> commits ph" "sy_now s \<le> t"
    and "gs_evaluator st = PolicyEvaluator_observe (cl_req (sy_calls s ! i)) ts (gs_evaluator (sy_guard s))"
  shows "bounded_by b \<lparr>sy_guard = st, sy_calls = (sy_calls s)[i := (sy_calls s ! i)\<lparr>cl_phase := ph, cl_handed := h\<rparr>], sy_now = t\<rparr>"
proof -
  let ?ev = "gs_evaluator (sy_guard s)" and ?r = "cl_req (sy_calls s ! i)"
  have inv: "governed ?ev" "list_all small (sy_calls s)" "meter ?ev (sy_now s) + load weight (sy_calls s) \<le> b"
    using assms(1) by (simp_all add: bounded_by_def)
  have "small (sy_calls s ! i)" using inv(2) assms(2) by (simp add: list_all_length)
  then have pos: "0 < r_amount ?r" using assms(3) by (simp add: small_def)
  have "meter (PolicyEvaluator_observe ?r ts ?ev) t \<le> meter ?ev (sy_now s) + weight ?r"
    using observe [OF inv(1) pos, of ts t] later [OF inv(1) assms(5)] by linarith
  then show ?thesis
    using observe_governed [OF inv(1) pos] inv(2,3) assms(2-4,6)
    by (simp add: bounded_by_def load_update small_update small_def)
qed

text \<open>A step that admits nothing.\<close>

lemma kept_bounded:
  assumes "bounded_by b s" "i < length (sy_calls s)" "commits ph \<Longrightarrow> commits (cl_phase (sy_calls s ! i))" "sy_now s \<le> t"
    and "gs_evaluator st = gs_evaluator (sy_guard s)"
  shows "bounded_by b \<lparr>sy_guard = st, sy_calls = (sy_calls s)[i := (sy_calls s ! i)\<lparr>cl_phase := ph, cl_handed := h\<rparr>], sy_now = t\<rparr>"
proof -
  let ?ev = "gs_evaluator (sy_guard s)" and ?c = "sy_calls s ! i"
  have inv: "governed ?ev" "list_all small (sy_calls s)" "meter ?ev (sy_now s) + load weight (sy_calls s) \<le> b"
    using assms(1) by (simp_all add: bounded_by_def)
  have c: "small ?c" using inv(2) assms(2) by (simp add: list_all_length)
  then have "small (?c\<lparr>cl_phase := ph, cl_handed := h\<rparr>)" using assms(3) by (simp add: small_def)
  moreover have "0 \<le> weight (cl_req ?c)" if "commits (cl_phase ?c)"
    using c that weight_nonneg by (simp add: small_def)
  ultimately show ?thesis
    using inv later [OF inv(1) assms(4)] assms(2,3,5) by (auto simp: bounded_by_def load_update small_update)
qed

text \<open>The admission: the payment fits beside what the window holds, and the others in flight are \<open>k - 1\<close>.\<close>

lemma admitted_bounded:
  assumes "bounded_by b s" "i < length (sy_calls s)" "\<not> commits (cl_phase (sy_calls s ! i))" "commits ph"
    and "sy_now s \<le> t1" "t1 \<le> t" "0 < r_amount (cl_req (sy_calls s ! i))"
    and "\<not> blocks (PolicyEvaluator_evaluate pu (gs_evaluator (sy_guard s)) (cl_req (sy_calls s ! i)) t1)"
    and "gs_evaluator st = gs_evaluator (sy_guard s)" "lim + (int k - 1) * wmax \<le> b"
    and "in_flight \<lparr>sy_guard = st, sy_calls = (sy_calls s)[i := (sy_calls s ! i)\<lparr>cl_phase := ph, cl_handed := h\<rparr>], sy_now = t\<rparr> \<le> k"
  shows "bounded_by b \<lparr>sy_guard = st, sy_calls = (sy_calls s)[i := (sy_calls s ! i)\<lparr>cl_phase := ph, cl_handed := h\<rparr>], sy_now = t\<rparr>"
proof -
  let ?ev = "gs_evaluator (sy_guard s)" and ?c = "sy_calls s ! i"
  let ?w = "weight (cl_req ?c)"
  have inv: "governed ?ev" "list_all small (sy_calls s)" "meter ?ev (sy_now s) + load weight (sy_calls s) \<le> b"
    using assms(1) by (simp_all add: bounded_by_def)
  have now: "meter ?ev t \<le> meter ?ev (sy_now s)" using later [OF inv(1)] assms(5,6) by simp
  have fits: "?w = 0 \<or> meter ?ev t + ?w \<le> lim \<and> ?w \<le> wmax \<and> 0 < wmax"
    using admit [OF inv(1) assms(7,8)] later [OF inv(1) assms(6)] weight_nonneg [OF assms(7)] by fastforce
  have others: "load weight (sy_calls s) \<le> (int k - 1) * wmax" if "0 < wmax"
  proof -
    have "load weight (sy_calls s) \<le> load (\<lambda>_. 1) (sy_calls s) * wmax"
      using inv(2) that by (intro load_le) (force simp: list_all_iff small_def)
    also have "\<dots> \<le> (int k - 1) * wmax"
      using assms(2-4,11) that
      by (intro mult_right_mono) (simp_all add: in_flight_load load_update flip: of_nat_le_iff [where 'a = int])
    finally show ?thesis .
  qed
  have "meter ?ev t + (load weight (sy_calls s) + ?w) \<le> b"
    using fits others inv(3) now assms(10) by (cases "?w = 0") auto
  moreover have "small (?c\<lparr>cl_phase := ph, cl_handed := h\<rparr>)" using fits assms(7) by (auto simp: small_def)
  ultimately show ?thesis
    using inv(1,2) assms(2-4,9) by (simp add: bounded_by_def load_update small_update)
qed

lemma run_bounded:
  assumes "sys_run x ops g envs k s0 s" "x_url x = pu" "sy_calls s0 = []" "governed (gs_evaluator (sy_guard s0))"
  shows "bounded_by (max (lim + (int k - 1) * wmax) (meter (gs_evaluator (sy_guard s0)) (sy_now s0))) s"
    (is "bounded_by ?b s")
  using assms
proof (induction rule: sys_run.induct)
  case start
  then show ?case by (simp add: bounded_by_def load_def)
next
  case (arrive s req)
  then show ?case by (auto simp: bounded_by_def small_def)
next
  case (aside s st t)
  then show ?case using later [of "gs_evaluator (sy_guard s)" "sy_now s" t] by (force simp: bounded_by_def)
next
  case (advance s i c ph hs st t s')
  note c = advance.hyps(3) and s' = advance.hyps(7) and com = commits_step [OF advance.hyps(4)]
  have b: "bounded_by ?b s" by (rule advance.IH [OF advance.prems])
  note ev = call_step_evaluator [OF advance.hyps(4)]
  consider (observed) d r where "cl_phase c = Learning d r"
    | (kept) "\<nexists>d r. cl_phase c = Learning d r" "commits ph \<Longrightarrow> commits (cl_phase c)"
    | (admitted) "\<nexists>d r. cl_phase c = Learning d r" "commits ph" "\<not> commits (cl_phase c)" by blast
  then show ?case
  proof cases
    case observed
    moreover from this have "\<not> commits ph" using com by auto
    ultimately show ?thesis
      using observed_bounded [OF b advance.hyps(2), of ph t st] advance.hyps(6) ev unfolding s' c by simp
  next
    case kept
    then have "gs_evaluator st = gs_evaluator (sy_guard s)" using ev by (auto split: phase.splits)
    with kept show ?thesis
      using kept_bounded [OF b advance.hyps(2), of ph t st] advance.hyps(6) unfolding s' c by simp
  next
    case admitted
    then have "gs_evaluator st = gs_evaluator (sy_guard s)" using ev by (auto split: phase.splits)
    with admitted com show ?thesis
      using admitted_bounded [OF b advance.hyps(2), of ph "ce_clock (envs i) 1" t st k "cl_handed c @ hs"]
        advance.hyps(5,8) advance.prems(1) unfolding s' c by auto
  qed
qed

lemma load_nonneg: "list_all small cs \<Longrightarrow> 0 \<le> load weight cs"
  using weight_nonneg by (induction cs) (auto simp: load_def small_def)

lemma window_bounded:
  assumes "sys_run x ops g envs k s0 s" "x_url x = pu" "sy_calls s0 = []" "governed (gs_evaluator (sy_guard s0))"
  shows "meter (gs_evaluator (sy_guard s)) (sy_now s)
     \<le> max (lim + (int k - 1) * wmax) (meter (gs_evaluator (sy_guard s0)) (sy_now s0))"
  using run_bounded [OF assms] load_nonneg [of "sy_calls s"] unfolding bounded_by_def by linarith

end

section \<open>The windows of the policy evaluator\<close>

text \<open>A rolling spend cap: the weight of a payment in the capped token is its amount.\<close>

definition cap_weight :: "spend_cap_rule \<Rightarrow> payment_request \<Rightarrow> int" where
  "cap_weight r req = (if lower (r_token req) = lower (sc_token r) then r_amount req else 0)"

definition cap_governs :: "spend_cap_rule \<Rightarrow> evaluator \<Rightarrow> bool" where
  "cap_governs r ev \<longleftrightarrow> nonneg_payments ev \<and> SpendCap r \<in> set (p_rules (ev_policy ev)) \<and> sc_window r \<noteq> Transaction"

lemma observe_frame [simp]: "ev_policy (PolicyEvaluator_observe req t ev) = ev_policy ev"
  by (simp add: PolicyEvaluator_observe_def)

lemma observe_nonneg: "nonneg_payments ev \<Longrightarrow> 0 < r_amount req \<Longrightarrow> nonneg_payments (PolicyEvaluator_observe req t ev)"
  by (simp add: nonneg_payments_def PolicyEvaluator_observe_def)

interpretation spend: admission_meter "\<lambda>ev. windowedSpend ev (sc_window r) (sc_token r)" "cap_weight r"
  "sc_maxAmount r" "sc_maxAmount r" "cap_governs r" pu for r pu
proof unfold_locales
  fix ev req t
  assume gov: "cap_governs r ev" and pos: "0 < r_amount req" "cap_weight r req \<noteq> 0"
    and ok: "\<not> blocks (PolicyEvaluator_evaluate pu ev req t)"
  then have w: "lower (sc_token r) = lower (r_token req)" "cap_weight r req = r_amount req"
    by (simp_all add: cap_weight_def split: if_splits)
  have "windowedSpend ev (sc_window r) (sc_token r) t + cap_weight r req \<le> sc_maxAmount r"
    using not_blocked_within_cap [OF ok, of r] gov w by (simp add: cap_governs_def)
  then show "windowedSpend ev (sc_window r) (sc_token r) t + cap_weight r req \<le> sc_maxAmount r \<and>
      cap_weight r req \<le> sc_maxAmount r"
    using windowedSpend_nonneg [of ev "sc_window r" "sc_token r" t] gov by (simp add: cap_governs_def)
qed (auto simp: cap_governs_def cap_weight_def windowedSpend_observe observe_nonneg intro: windowedSpend_later)

text \<open>A rate limit: every payment weighs one.\<close>

interpretation rate: admission_meter "\<lambda>ev t. recentPaymentCount ev t (rl_windowSeconds r)" "\<lambda>req. 1"
  "rl_maxPayments r" 1 "\<lambda>ev. RateLimit r \<in> set (p_rules (ev_policy ev))" pu for r pu
  by unfold_locales (auto simp: recentPaymentCount_observe intro: recentPaymentCount_later dest: not_blocked_within_rate)

section \<open>Properties\<close>

text \<open>
  C4. The spend cap under concurrency: whatever calls of \<open>execute\<close> arrive and however they interleave,
  when at most \<open>k\<close> payments that the policy has admitted are in flight at a time, the amount of the capped
  token in the rule's window never exceeds \<open>k\<close> times the cap (or what the window held at the start).
\<close>

theorem concurrent_spend_bounded:
  assumes "sys_run x ops g envs k s0 s" "sy_calls s0 = []" "nonneg_payments (gs_evaluator (sy_guard s0))"
    and "SpendCap r \<in> set (p_rules (ev_policy (gs_evaluator (sy_guard s0))))" "sc_window r \<noteq> Transaction"
  shows "windowedSpend (gs_evaluator (sy_guard s)) (sc_window r) (sc_token r) (sy_now s)
     \<le> max (int k * sc_maxAmount r) (windowedSpend (gs_evaluator (sy_guard s0)) (sc_window r) (sc_token r) (sy_now s0))"
proof -
  have "cap_governs r (gs_evaluator (sy_guard s0))" using assms(3-5) by (simp add: cap_governs_def)
  from spend.window_bounded [OF assms(1) refl assms(2) this] show ?thesis
    by (simp add: algebra_simps)
qed

text \<open>
  C5. The rate limit under concurrency: with at most \<open>k\<close> admitted payments in flight at a time, a rate limit
  is exceeded by at most \<open>k - 1\<close> payments.
\<close>

theorem concurrent_rate_bounded:
  assumes "sys_run x ops g envs k s0 s" "sy_calls s0 = []"
    and "RateLimit r \<in> set (p_rules (ev_policy (gs_evaluator (sy_guard s0))))"
  shows "recentPaymentCount (gs_evaluator (sy_guard s)) (sy_now s) (rl_windowSeconds r)
     \<le> max (rl_maxPayments r + (int k - 1))
           (recentPaymentCount (gs_evaluator (sy_guard s0)) (sy_now s0) (rl_windowSeconds r))"
  using rate.window_bounded [OF assms(1) refl assms(2), of r] assms(3) by simp

section \<open>Examples\<close>

text \<open>A call of a system takes several steps while the others wait.\<close>

lemma sys_run_call_run:
  assumes "sys_run x ops g envs k s0 s" "i < length (sy_calls s)" "length (sy_calls s) \<le> k"
    and "\<And>j. ce_clock (envs i) j = sy_now s"
    and "call_run x ops g (envs i) (cl_req (sy_calls s ! i)) n
           (cl_phase (sy_calls s ! i), cl_handed (sy_calls s ! i), sy_guard s) = (ph, h, st)"
  shows "sys_run x ops g envs k s0
    \<lparr>sy_guard = st, sy_calls = (sy_calls s)[i := (sy_calls s ! i)\<lparr>cl_phase := ph, cl_handed := h\<rparr>], sy_now = sy_now s\<rparr>"
  using assms
proof (induction n arbitrary: s)
  case 0
  then have "(sy_calls s ! i)\<lparr>cl_phase := ph, cl_handed := h\<rparr> = sy_calls s ! i" "\<lparr>sy_guard = st, sy_calls = sy_calls s, sy_now = sy_now s\<rparr> = s" by auto
  then show ?case using 0(1) by simp
next
  case (Suc n)
  let ?c = "sy_calls s ! i"
  obtain ph1 hs st1 where one: "call_step x ops g (envs i) (cl_req ?c) (cl_phase ?c) (sy_guard s) = (ph1, hs, st1)"
    by (metis prod_cases3)
  let ?s = "\<lparr>sy_guard = st1, sy_calls = (sy_calls s)[i := ?c\<lparr>cl_phase := ph1, cl_handed := cl_handed ?c @ hs\<rparr>], sy_now = sy_now s\<rparr>"
  have "in_flight ?s \<le> length (sy_calls ?s)" unfolding in_flight_def by (rule length_filter_le)
  then have "in_flight ?s \<le> k" using Suc.prems(3) by simp
  then have "sys_run x ops g envs k s0 ?s"
    by (intro sys_run.advance [OF Suc.prems(1,2) refl one _ order_refl refl]) (simp_all add: Suc.prems(4) list_all_iff)
  from Suc.IH [OF this] show ?case using Suc.prems(2-5) one by simp
qed

definition ex_day_cap :: spend_cap_rule where
  "ex_day_cap = \<lparr>sc_window = Day, sc_maxAmount = 5, sc_token = ''0xt'', sc_escalateAbove = None\<rparr>"

definition ex_minute_limit :: rate_limit_rule where
  "ex_minute_limit = \<lparr>rl_maxPayments = 1, rl_windowSeconds = 60\<rparr>"

definition ex_busy_state :: "sqlite guard_state" where
  "ex_busy_state = ex_state\<lparr>gs_evaluator :=
     new_evaluator (fst ex_policy_config\<lparr>p_rules := [SpendCap ex_day_cap, RateLimit ex_minute_limit]\<rparr>)\<rparr>"

lemma ex_busy_allowed:
  "\<exists>d. AgentGuard_evaluate ex_externals ex_agent (\<lambda>i. 1000) ex_order ex_busy_state = (d, ex_busy_state) \<and> d_verdict d = Allow"
proof (rule ex_allows)
  show "\<not> blocks (PolicyEvaluator_evaluate (x_url ex_externals) (gs_evaluator ex_busy_state) ex_order 1000)"
    by (simp add: blocks_iff ex_busy_state_def new_evaluator_def rule_context_of_def rule_defs ex_day_cap_def
        ex_minute_limit_def ex_order_def windowedSpend_eq recentPaymentCount_def Let_def)
  show "\<not> er_escalate (PolicyEvaluator_evaluate (x_url ex_externals) (gs_evaluator ex_busy_state) ex_order 1000)"
    by (simp add: PolicyEvaluator_evaluate_def ex_busy_state_def new_evaluator_def rule_context_of_def rule_defs ex_day_cap_def
        ex_minute_limit_def ex_order_def windowedSpend_eq recentPaymentCount_def Let_def)
qed (simp_all add: ex_busy_state_def new_evaluator_def ex_policy_config_def ex_agent_def ex_guard_def AgentGuard_new_def)

lemma ex_settles:
  assumes "d_verdict d = Allow"
  shows "\<exists>h. call_run ex_externals ops ex_agent (ex_call ex_failover) ex_order 4 (Decided d, hs, st) =
     (Recording d ex_paid_response, h, observe_settled ex_externals (\<lambda>i. 1000) ex_order st)"
proof -
  obtain rq where rq: "prepare_payment ex_externals (ex_call ex_failover) ex_order = Inr (ex_payload, rq)"
    using ex_prepared by blast
  have "facilitator_settle ex_agent (ex_call ex_failover) ex_payload rq = (Inr ex_paid_response, [''f'', ''g''])"
    by (simp add: facilitator_settle_def ex_agent_def ex_call_def ex_failover_def FailoverFacilitatorClient_settle_def
        FailoverFacilitatorClient_tryAll_def)
  moreover have "record_on_breaker ex_agent d t st = st" for t
    by (simp add: record_on_breaker_def ex_agent_def ex_guard_def AgentGuard_new_def ex_policy_config_def)
  moreover have "ce_clock (ex_call ex_failover) = (\<lambda>i. 1000)" "st_success ex_paid_response"
    by (simp_all add: ex_call_def ex_paid_response_def)
  ultimately show ?thesis using assms rq by (simp add: eval_nat_numeral observe_settled_def)
qed

text \<open>Two calls evaluated before either settles: both settle, and the window holds twice the cap.\<close>

lemma ex_two_in_flight:
  "\<exists>s. sys_run ex_externals (sqlite_ops (\<lambda>n. ''?'')) ex_agent (\<lambda>i. ex_call ex_failover) 2
     \<lparr>sy_guard = ex_busy_state, sy_calls = [], sy_now = 1000\<rparr> s \<and> sy_now s = 1000 \<and>
     gs_evaluator (sy_guard s) = PolicyEvaluator_observe ex_order 1000
       (PolicyEvaluator_observe ex_order 1000 (gs_evaluator ex_busy_state))"
proof -
  let ?run = "sys_run ex_externals (sqlite_ops (\<lambda>n. ''?'')) ex_agent (\<lambda>i. ex_call ex_failover) 2
     \<lparr>sy_guard = ex_busy_state, sy_calls = [], sy_now = 1000\<rparr>"
  let ?sys = "\<lambda>st cs. \<lparr>sy_guard = st, sy_calls = cs, sy_now = 1000\<rparr>"
  let ?c = "\<lambda>ph h. \<lparr>cl_req = ex_order, cl_phase = ph, cl_handed = h\<rparr>"
  let ?learn = "observe_settled ex_externals (\<lambda>i. 1000) ex_order"
  have clock: "ce_clock (ex_call ex_failover) = (\<lambda>j. 1000)" by (simp add: ex_call_def)
  obtain d where d: "AgentGuard_evaluate ex_externals ex_agent (\<lambda>i. 1000) ex_order ex_busy_state = (d, ex_busy_state)"
    "d_verdict d = Allow" using ex_busy_allowed by blast
  note step = sys_run_call_run [where k = 2 and envs = "\<lambda>i. ex_call ex_failover", simplified clock]
  obtain n where n: "call_run ex_externals (sqlite_ops (\<lambda>n. ''?'')) ex_agent (ex_call ex_failover) ex_order n
      (Started, [], ex_busy_state) = (Decided d, [], ex_busy_state)"
    using call_run_evaluates [of ex_externals ex_agent "ex_call ex_failover"] d(1) unfolding clock by metis
  obtain h0 where h0: "call_run ex_externals (sqlite_ops (\<lambda>n. ''?'')) ex_agent (ex_call ex_failover) ex_order 4
      (Decided d, [], ex_busy_state) = (Recording d ex_paid_response, h0, ?learn ex_busy_state)"
    using ex_settles [OF d(2)] by blast
  obtain h1 where h1: "call_run ex_externals (sqlite_ops (\<lambda>n. ''?'')) ex_agent (ex_call ex_failover) ex_order 4
      (Decided d, [], ?learn ex_busy_state) = (Recording d ex_paid_response, h1, ?learn (?learn ex_busy_state))"
    using ex_settles [OF d(2)] by blast
  have "?run (?sys ex_busy_state [?c Started [], ?c Started []])"
    using sys_run.arrive [OF sys_run.arrive [OF sys_run.start], of ex_externals "sqlite_ops (\<lambda>n. ''?'')" ex_agent
        "\<lambda>i. ex_call ex_failover" 2 "?sys ex_busy_state []" ex_order ex_order] by simp
  from step [OF this, of 0 n] have "?run (?sys ex_busy_state [?c (Decided d) [], ?c Started []])"
    using n by simp
  from step [OF this, of 1 n] have "?run (?sys ex_busy_state [?c (Decided d) [], ?c (Decided d) []])"
    using n by simp
  from step [OF this, of 0 4] have "?run (?sys (?learn ex_busy_state) [?c (Recording d ex_paid_response) h0, ?c (Decided d) []])"
    using h0 by simp
  from step [OF this, of 1 4]
  have "?run (?sys (?learn (?learn ex_busy_state)) [?c (Recording d ex_paid_response) h0, ?c (Recording d ex_paid_response) h1])"
    using h1 by simp
  then show ?thesis by (force simp: observe_settled_def)
qed

theorem concurrent_spend_bounded_witness:
  "\<exists>s. sys_run ex_externals (sqlite_ops (\<lambda>n. ''?'')) ex_agent (\<lambda>i. ex_call ex_failover) 2
     \<lparr>sy_guard = ex_busy_state, sy_calls = [], sy_now = 1000\<rparr> s \<and>
     windowedSpend (gs_evaluator (sy_guard s)) Day ''0xt'' 1000 = 10 \<and>
     windowedSpend (gs_evaluator (sy_guard s)) Day ''0xt'' 1000 \<le> 10"
proof -
  obtain s where s: "sys_run ex_externals (sqlite_ops (\<lambda>n. ''?'')) ex_agent (\<lambda>i. ex_call ex_failover) 2
     \<lparr>sy_guard = ex_busy_state, sy_calls = [], sy_now = 1000\<rparr> s" "sy_now s = 1000"
     "gs_evaluator (sy_guard s) = PolicyEvaluator_observe ex_order 1000
       (PolicyEvaluator_observe ex_order 1000 (gs_evaluator ex_busy_state))" using ex_two_in_flight by blast
  have start: "gs_evaluator ex_busy_state =
      new_evaluator (fst ex_policy_config\<lparr>p_rules := [SpendCap ex_day_cap, RateLimit ex_minute_limit]\<rparr>)"
    by (simp add: ex_busy_state_def)
  have "windowedSpend (gs_evaluator (sy_guard s)) Day ''0xt'' 1000 = 10"
    by (simp add: s(3) start windowedSpend_observe window_start_def DAY_MS_def)
      (simp add: windowedSpend_eq new_evaluator_def ex_order_def)
  moreover have "windowedSpend (gs_evaluator (sy_guard s)) Day ''0xt'' 1000 \<le> 10"
    using concurrent_spend_bounded [OF s(1), of ex_day_cap] s(2)
    by (simp add: start new_evaluator_def nonneg_payments_def ex_day_cap_def windowedSpend_eq)
  ultimately show ?thesis using s(1) by blast
qed

theorem concurrent_rate_bounded_witness:
  "\<exists>s. sys_run ex_externals (sqlite_ops (\<lambda>n. ''?'')) ex_agent (\<lambda>i. ex_call ex_failover) 2
     \<lparr>sy_guard = ex_busy_state, sy_calls = [], sy_now = 1000\<rparr> s \<and>
     recentPaymentCount (gs_evaluator (sy_guard s)) 1000 60 = 2 \<and>
     recentPaymentCount (gs_evaluator (sy_guard s)) 1000 60 \<le> 2"
proof -
  obtain s where s: "sys_run ex_externals (sqlite_ops (\<lambda>n. ''?'')) ex_agent (\<lambda>i. ex_call ex_failover) 2
     \<lparr>sy_guard = ex_busy_state, sy_calls = [], sy_now = 1000\<rparr> s" "sy_now s = 1000"
     "gs_evaluator (sy_guard s) = PolicyEvaluator_observe ex_order 1000
       (PolicyEvaluator_observe ex_order 1000 (gs_evaluator ex_busy_state))" using ex_two_in_flight by blast
  have start: "gs_evaluator ex_busy_state =
      new_evaluator (fst ex_policy_config\<lparr>p_rules := [SpendCap ex_day_cap, RateLimit ex_minute_limit]\<rparr>)"
    by (simp add: ex_busy_state_def)
  have "recentPaymentCount (gs_evaluator (sy_guard s)) 1000 60 = 2"
    by (simp add: s(3) start recentPaymentCount_observe) (simp add: recentPaymentCount_def new_evaluator_def)
  moreover have "recentPaymentCount (gs_evaluator (sy_guard s)) 1000 60 \<le> 2"
    using concurrent_rate_bounded [OF s(1), of ex_minute_limit] s(2)
    by (simp add: start new_evaluator_def ex_minute_limit_def recentPaymentCount_def)
  ultimately show ?thesis using s(1) by blast
qed

theorem execute_alone_is_a_run_witness:
  "\<exists>r handed st'. call_run ex_externals (sqlite_ops (\<lambda>n. ''?'')) ex_agent (ex_call ex_failover) ex_order 10
     (Started, [], ex_state) = (Finished (Inr r), handed, st') \<and> handed \<noteq> [] \<and> ex_executed r"
  using ex_settled_by_fallback
    execute_alone_is_a_run [OF ex_quiet, of ex_externals "sqlite_ops (\<lambda>n. ''?'')" ex_agent ex_failover ex_order ex_state]
  by fastforce

end
