(* ===== verification/Deployment.thy ===== *)
theory Deployment
  imports Interleaving Compiler
begin

text \<open>
  A guard in service (\<open>AgentGuard\<close> of \<open>packages/core/src/index.ts\<close>): its factory with a policy in either
  form, the warnings of \<open>hydrate\<close>, the operations that hand on to the audit logger, and \<open>ensureSpine\<close>, which
  builds the two x402 clients and the facilitator once. The deployment is the guard, its logger and the
  state they share, with the anchor contract it commits to.
\<close>

section \<open>The factory\<close>

text \<open>\<open>"naturalLanguage" in config.policy\<close> tells a policy to be compiled from a finished one.\<close>

datatype policy_source =
    Structured policy
  | Natural_language (pn_text: string) (pn_agentId: string) (pn_chain: "string option")

definition policy_from ::
  "(json \<Rightarrow> real option) \<Rightarrow> environment \<Rightarrow> http \<Rightarrow> guard_config \<Rightarrow> policy_source \<Rightarrow> compile_error + policy" where
  "policy_from coerce env http config source =
     (case source of
        Structured p \<Rightarrow> Inr p
      | Natural_language t agentId chain \<Rightarrow>
          compilePolicy coerce env http t agentId (Llm_config (resolveGuardLLMConfig config))
            (Some (case chain of Some c \<Rightarrow> c | None \<Rightarrow> gc_walletChain config)))"

record 's deployment =
  dp_guard :: agent_guard
  dp_logger :: logger
  dp_state :: "'s guard_state"
  dp_chain :: anchor
  dp_anchoring :: bool
  dp_timer :: bool

text \<open>The world of the logger, and the deployment after the logger has changed it.\<close>

definition world_of :: "'s deployment \<Rightarrow> 's world" where
  "world_of d = \<lparr>w_store = gs_store (dp_state d), w_chain = dp_chain d, w_anchoring = dp_anchoring d, w_timer = dp_timer d\<rparr>"

definition with_world :: "'s deployment \<Rightarrow> 's world \<Rightarrow> 's deployment" where
  "with_world d w = d\<lparr>dp_state := (dp_state d)\<lparr>gs_store := w_store w\<rparr>, dp_chain := w_chain w,
     dp_anchoring := w_anchoring w, dp_timer := w_timer w\<rparr>"

text \<open>\<open>create\<close> on a finished policy, in a process that has just started.\<close>

definition start_guard ::
  "externals \<Rightarrow> 's store_ops \<Rightarrow> thrown option \<Rightarrow> clock \<Rightarrow> policy \<Rightarrow> guard_config \<Rightarrow> 's \<Rightarrow> anchor \<Rightarrow> 's deployment" where
  "start_guard x ops failure clock policy config store ch =
     (case AgentGuard_create x ops failure clock policy config store of
        (g, lg, st, anchoring) \<Rightarrow>
          (let d = \<lparr>dp_guard = g, dp_logger = lg, dp_state = st, dp_chain = ch, dp_anchoring = False, dp_timer = False\<rparr>
           in if anchoring then with_world d (AuditLogger_startAnchorScheduler lg (world_of d)) else d))"

definition createGuard ::
  "(json \<Rightarrow> real option) \<Rightarrow> externals \<Rightarrow> 's store_ops \<Rightarrow> thrown option \<Rightarrow> clock \<Rightarrow> policy_source \<Rightarrow> guard_config \<Rightarrow>
     's \<Rightarrow> anchor \<Rightarrow> compile_error + 's deployment" where
  "createGuard coerce x ops failure clock source config store ch =
     (case policy_from coerce (x_env x) (x_http x) config source of
        Inl e \<Rightarrow> Inl e
      | Inr policy \<Rightarrow> Inr (start_guard x ops failure clock policy config store ch))"

section \<open>The warnings of hydration\<close>

text \<open>The dash of both texts is written \<open>-\<close> here.\<close>

definition tamper_warning :: "string \<Rightarrow> string list \<Rightarrow> string" where
  "tamper_warning agentId ids =
     ''agentctl: '' @ nat_to_string (length ids) @ '' audit '' @
     (if length ids = 1 then ''entry does not match its'' else ''entries do not match their'') @
     '' recorded hash for '' @ agentId @ '' - the log has been edited. '' @
     ''Counting them against spend caps and excluding them from baselines. '' @
     ''Ids: '' @ list_text '', '' (take 5 ids) @
     (if length ids > 5 then '', +'' @ nat_to_string (length ids - 5) @ '' more'' else [])"

definition cold_start_warning :: "string \<Rightarrow> string \<Rightarrow> string" where
  "cold_start_warning agentId message =
     ''agentctl: could not rehydrate state for '' @ agentId @ '', starting cold - '' @ message"

text \<open>\<open>String(err)\<close> of a thrown value that is no error is the argument \<open>shown\<close>.\<close>

definition hydrate_warnings ::
  "externals \<Rightarrow> 's store_ops \<Rightarrow> thrown option \<Rightarrow> string \<Rightarrow> agent_guard \<Rightarrow> clock \<Rightarrow> int \<Rightarrow> 's guard_state \<Rightarrow> string list" where
  "hydrate_warnings x ops failure shown g clock lookbackMs st =
     (case failure of
        Some (ErrorInstance m) \<Rightarrow> [cold_start_warning (ag_agentId g) m]
      | Some OtherThrown \<Rightarrow> [cold_start_warning (ag_agentId g) shown]
      | None \<Rightarrow>
          (let ids = map e_id (filter (\<lambda>e. \<not> entry_intact x e)
                 (AuditLogger_listSince ops (ag_agentId g) (clock 0 - lookbackMs) (gs_store st)))
           in if length ids > 0 then [tamper_warning (ag_agentId g) ids] else []))"

section \<open>Operations on the log\<close>

definition AgentGuard_anchorAudit ::
  "merkle_lib \<Rightarrow> externals \<Rightarrow> 's store_ops \<Rightarrow> 's flush_env \<Rightarrow> 's deployment \<Rightarrow>
     (client_error + flush_result option) option \<times> 's deployment" where
  "AgentGuard_anchorAudit lib x ops env d =
     (case AuditLogger_flush lib (x_kec x) (x_num x) ops (dp_logger d) env (world_of d) of (r, w) \<Rightarrow> (r, with_world d w))"

definition AgentGuard_reconcileAudit ::
  "'s store_ops \<Rightarrow> 's deployment \<Rightarrow> (client_error + reconcile_result option) \<times> 's deployment" where
  "AgentGuard_reconcileAudit ops d =
     (case AuditLogger_reconcile ops (dp_logger d) (world_of d) of (r, w) \<Rightarrow> (r, with_world d w))"

definition AgentGuard_stopAnchoring :: "'s deployment \<Rightarrow> 's deployment" where
  "AgentGuard_stopAnchoring d = with_world d (AuditLogger_stopAnchorScheduler (world_of d))"

definition AgentGuard_anchorNow ::
  "merkle_lib \<Rightarrow> externals \<Rightarrow> 's store_ops \<Rightarrow> 's flush_env \<Rightarrow> 's deployment \<Rightarrow> flush_result option option \<times> 's deployment" where
  "AgentGuard_anchorNow lib x ops env d =
     (case AuditLogger_anchorTick lib (x_kec x) (x_num x) ops (dp_logger d) env (world_of d) of (r, w) \<Rightarrow> (r, with_world d w))"

text \<open>The getters.\<close>

definition AgentGuard_hydrationReport :: "'s deployment \<Rightarrow> hydration_report option" where
  "AgentGuard_hydrationReport d = gs_lastHydration (dp_state d)"

definition AgentGuard_auditLog :: "'s deployment \<Rightarrow> logger" where
  "AgentGuard_auditLog d = dp_logger d"

definition AgentGuard_circuitBreaker :: "'s deployment \<Rightarrow> (breaker_config \<times> breaker) option" where
  "AgentGuard_circuitBreaker d = map_option (\<lambda>cfg. (cfg, gs_breaker (dp_state d))) (ag_breaker (dp_guard d))"

section \<open>The clients of x402\<close>

text \<open>
  The client, the schemes and the facilitators are classes of the x402 packages: a client is kept as the calls
  made on it since \<open>new x402Client()\<close>, a scheme and a facilitator as their constructor's arguments.
\<close>

datatype ('a, 'v) scheme = Exact_evm 'a public_client | Exact_svm 'v

datatype ('a, 'v) client_call =
    Register string "('a, 'v) scheme"
  | On_before_payment_creation
  | On_after_payment_creation
  | On_payment_response

type_synonym ('a, 'v) x402_client = "('a, 'v) client_call list"

datatype facilitator_client = Http_facilitator string | Failover_facilitator "string list"

record ('a, 'v) spine =
  spi_guardedClient :: "('a, 'v) x402_client"
  spi_plainClient :: "('a, 'v) x402_client"
  spi_facilitator :: facilitator_client

record 'v solana_config =
  sol_signer :: 'v
  sol_network :: "string option"

definition registerSvmScheme :: "('a, 'v) x402_client \<Rightarrow> 'v \<Rightarrow> string \<Rightarrow> ('a, 'v) x402_client" where
  "registerSvmScheme client signer network = client @ [Register network (Exact_svm signer)]"

definition fromUrls :: "string list \<Rightarrow> thrown + facilitator_client" where
  "fromUrls urls = map_sum id Failover_facilitator (FailoverFacilitatorClient_new urls)"

definition spine_facilitator :: "agent_guard \<Rightarrow> thrown + facilitator_client" where
  "spine_facilitator g =
     (case ag_facilitatorFallbackUrls g of
        Some us \<Rightarrow> if length us > 0 then fromUrls (ag_facilitatorUrl g # us) else Inr (Http_facilitator (ag_facilitatorUrl g))
      | None \<Rightarrow> Inr (Http_facilitator (ag_facilitatorUrl g)))"

text \<open>The result, the field \<open>spine\<close> after the call; \<open>account\<close> is what \<open>getSigner\<close> gives or throws.\<close>

definition AgentGuard_ensureSpine ::
  "svm_lib \<Rightarrow> 'v solana_config option \<Rightarrow> string option \<Rightarrow> agent_guard \<Rightarrow> thrown + 'a \<Rightarrow> ('a, 'v) spine option \<Rightarrow>
     (guard_error + ('a, 'v) spine) \<times> ('a, 'v) spine option" where
  "AgentGuard_ensureSpine svm solana rpcUrl g account cached =
     (case cached of
        Some s \<Rightarrow> (Inr s, cached)
      | None \<Rightarrow>
          (case account of
             Inl e \<Rightarrow> (Inl (Ge_thrown e), None)
           | Inr signer \<Rightarrow>
               (case makePublicClient (ag_chain g) rpcUrl of
                  Inl e \<Rightarrow> (Inl (Ge_chain e), None)
                | Inr publicClient \<Rightarrow>
                    (case spine_facilitator g of
                       Inl e \<Rightarrow> (Inl (Ge_thrown e), None)
                     | Inr facilitator \<Rightarrow>
                         (let network = ag_chain g;
                              guardedClient = [Register network (Exact_evm signer publicClient), On_before_payment_creation,
                                On_after_payment_creation, On_payment_response];
                              plainClient = [Register network (Exact_evm signer publicClient)];
                              withSolana = (\<lambda>c. case solana of None \<Rightarrow> c
                                | Some s \<Rightarrow> registerSvmScheme c (sol_signer s)
                                    (case sol_network s of Some n \<Rightarrow> n | None \<Rightarrow> sv_mainnet svm));
                              s = \<lparr>spi_guardedClient = withSolana guardedClient, spi_plainClient = withSolana plainClient,
                                   spi_facilitator = facilitator\<rparr>
                          in (Inr s, Some s))))))"

section \<open>What an execution does to the guard\<close>

lemma not_blocked_passes_policy:
  assumes "d_verdict (fst (AgentGuard_evaluate x g clock req st)) \<noteq> Block"
  shows "0 < r_amount req" "\<not> blocks (PolicyEvaluator_evaluate (x_url x) (gs_evaluator st) req (clock 1))"
  using assms
  by (auto simp: AgentGuard_evaluate_def Let_def decision_of_layers not_refused_not_blocked [symmetric]
      dest: validated_positive refused_is_blocked split: prod.splits if_splits option.splits)

lemma approved_not_blocked: "approved g ce req d \<Longrightarrow> d_verdict d \<noteq> Block"
  by (auto simp: approved_def)

lemma execute_effect:
  assumes "AgentGuard_execute x ops g ce req st = (res, handed, st')" "quiet ce" "res \<noteq> Inl Ge_store"
  obtains (threw) e where "res = Inl e" "gs_store st' = gs_store st" "gs_evaluator st' = gs_evaluator st"
  | (returned) r where "res = Inr r"
      "so_insert ops (new_entry (x_kec x) (x_num x) (ce_uuid ce) (ce_clock ce 6) req (ex_decision r) (ex_settlement r))
         (gs_store st) = Some (gs_store st')"
      "ex_executed r = (case ex_settlement r of None \<Rightarrow> False | Some s \<Rightarrow> s_success s)"
      "gs_evaluator st' = (if ex_executed r then PolicyEvaluator_observe req (ce_clock ce 5) (gs_evaluator st) else gs_evaluator st)"
      "ex_executed r \<Longrightarrow> 0 < r_amount req"
      "ex_executed r \<Longrightarrow> \<not> blocks (PolicyEvaluator_evaluate (x_url x) (gs_evaluator st) req (ce_clock ce 1))"
  using assms(1)
proof (cases rule: execute_cases)
  case (run_error e)
  then show thesis using runGuard_state [OF run_error(3) assms(2)] by (intro threw) (simp_all add: evaluate_frame)
next
  case (refused dec st1)
  then obtain r where r: "res = Inr r" "audit_record x ops ce req dec None st1 = Some st'" "ex_settlement r = None"
    "ex_decision r = dec" "\<not> ex_executed r" using assms(3) by auto
  show thesis
    using audit_record_Some [OF r(2)] r runGuard_state [OF refused(1) assms(2)]
    by (intro returned [of r]) (simp_all add: evaluate_frame)
next
  case (unprepared dec e)
  then show thesis using runGuard_state [OF unprepared(1) assms(2)] by (intro threw) (simp_all add: evaluate_frame)
next
  case (thrown dec st1 pl rq called e)
  then show thesis
    using runGuard_state [OF thrown(1) assms(2)] assms(2) by (intro threw) (simp_all add: evaluate_frame quiet_def)
next
  case (answered dec st1 pl rq called q st3)
  then obtain r where r: "res = Inr r" "audit_record x ops ce req dec (Some (settlement_of g q)) st3 = Some st'"
    "ex_settlement r = Some (settlement_of g q)" "ex_decision r = dec" "ex_executed r = st_success q"
    using assms(3) by auto
  have st3: "st3 = (if st_success q then observe_settled x (ce_clock ce) req st1 else st1)"
    using answered(5) assms(2) by (simp add: quiet_def)
  have "d_verdict (fst (AgentGuard_evaluate x g (ce_clock ce) req st)) \<noteq> Block"
    using runGuard_Inr [OF answered(1)] approved_not_blocked by auto
  note passed = not_blocked_passes_policy [OF this]
  show thesis
    using audit_record_Some [OF r(2)] r st3 passed runGuard_state [OF answered(1) assms(2)]
    by (intro returned [of r]) (auto simp: evaluate_frame observe_settled_def)
qed

section \<open>Facts about a deployment\<close>

lemma with_world_simps [simp]:
  "dp_guard (with_world d w) = dp_guard d" "dp_logger (with_world d w) = dp_logger d"
  "gs_store (dp_state (with_world d w)) = w_store w" "dp_chain (with_world d w) = w_chain w"
  "gs_evaluator (dp_state (with_world d w)) = gs_evaluator (dp_state d)"
  by (simp_all add: with_world_def)

lemma world_of_simps [simp]:
  "w_store (world_of d) = gs_store (dp_state d)" "w_chain (world_of d) = dp_chain d"
  by (simp_all add: world_of_def)

lemma startAnchorScheduler_frame [simp]:
  "w_store (AuditLogger_startAnchorScheduler lg w) = w_store w" "w_chain (AuditLogger_startAnchorScheduler lg w) = w_chain w"
  by (simp_all add: AuditLogger_startAnchorScheduler_def)

text \<open>Both clients pay with the same schemes, and a Solana network is among them exactly if it is configured.\<close>

fun schemes_of :: "('a, 'v) x402_client \<Rightarrow> (string \<times> ('a, 'v) scheme) list" where
  "schemes_of [] = []"
| "schemes_of (Register n s # cs) = (n, s) # schemes_of cs"
| "schemes_of (c # cs) = schemes_of cs"

lemma spine_schemes:
  assumes "AgentGuard_ensureSpine svm solana rpcUrl g account None = (Inr s, cached)"
  shows "cached = Some s" "schemes_of (spi_guardedClient s) = schemes_of (spi_plainClient s)"
    "(\<exists>n v. (n, Exact_svm v) \<in> set (schemes_of (spi_plainClient s))) \<longleftrightarrow> solana \<noteq> None"
    "AgentGuard_ensureSpine svm solana' rpcUrl' g account' cached = (Inr s, cached)"
  using assms
  by (auto simp: AgentGuard_ensureSpine_def Let_def registerSvmScheme_def split: sum.splits option.splits)

text \<open>The facilitators of the spine are those that \<open>execute\<close> calls, in the same order.\<close>

fun facilitator_client_urls :: "facilitator_client \<Rightarrow> string list" where
  "facilitator_client_urls (Http_facilitator u) = [u]"
| "facilitator_client_urls (Failover_facilitator us) = us"

lemma spine_facilitator_urls:
  "\<exists>f. spine_facilitator g = Inr f \<and> facilitator_client_urls f = facilitator_urls g"
  by (auto simp: spine_facilitator_def fromUrls_def FailoverFacilitatorClient_new_def facilitator_urls_def split: option.splits)

end
