(* ===== verification/Ledger.thy ===== *)
theory Ledger
  imports Deployment
begin

text \<open>
  What the operations of the logger do to a store that keeps entries as they are: the entries stay, in order; a
  batch recorded locally has the root of its entries' leaves; and after a cycle that reconciles and anchors every
  entry has a proof that the contract accepts. Proved for any such store, and both stores of the code are one.
\<close>

section \<open>The surroundings of a flush\<close>

text \<open>The roots that the contract returns are \<open>bytes32\<close>, written in lower case.\<close>

definition chain_ok :: "anchor \<Rightarrow> address \<Rightarrow> bool" where
  "chain_ok ch operator \<longleftrightarrow> list_all (\<lambda>b. lower (b_merkleRoot b) = b_merkleRoot b) (an_batches ch operator)"

text \<open>What surrounds a flush: nothing is recorded meanwhile, and the operator's batches on the chain only grow.\<close>

definition flush_alone :: "anchor_client \<Rightarrow> address \<Rightarrow> 's flush_env \<Rightarrow> anchor \<Rightarrow> bool" where
  "flush_alone c operator env ch \<longleftrightarrow>
     fe_arrivals env = id \<and>
     (\<exists>bs. an_batches (fe_before env ch) operator = an_batches ch operator @ bs) \<and> chain_ok (fe_before env ch) operator \<and>
     list_all (\<lambda>(a, ev). lower a \<noteq> lower (ac_contractAddress c)) (tx_logs (fe_tx env))"

text \<open>The batches recorded locally are on the chain.\<close>

definition tags_reached :: "'s store_ops \<Rightarrow> 's \<Rightarrow> anchor \<Rightarrow> address \<Rightarrow> bool" where
  "tags_reached ops store ch operator \<longleftrightarrow>
     list_all (\<lambda>(i, mr). i < int (getBatchCount ch operator)) (so_anchoredBatches ops store)"

section \<open>A store that keeps its entries\<close>

lemma new_entry_intact: "entry_intact x (as_stored fu (new_entry (x_kec x) (x_num x) i t req d s))"
  unfolding entry_intact_def recompute_as_stored as_stored_simps by (simp add: new_entry_def recomputeEntryHash_def)

text \<open>Both stores keep an entry with its texts rendered and change nothing else of it.\<close>

locale faithful_store = audit_store ops rows inv stored
  for ops :: "'s store_ops" and rows inv stored +
  fixes fu :: "int \<Rightarrow> string"
  assumes stored_entry: "sr_entry (stored e) = as_stored fu e"
begin

abbreviation entries :: "'s \<Rightarrow> audit_entry list" where
  "entries s \<equiv> map sr_entry (rows s)"

lemma insert_entries:
  "inv s \<Longrightarrow> so_insert ops e s = Some s' \<Longrightarrow> inv s' \<and> entries s' = entries s @ [as_stored fu e]"
  using insert_rows by (auto simp: stored_entry)

lemma tag_keeps_entries: "map sr_entry (map (\<lambda>r. if P r then tag_row i mr r else r) rs) = map sr_entry rs"
  by (induction rs) (simp_all add: tag_row_def)

lemma mark_entries: "inv s \<Longrightarrow> inv (so_markBatched ops ids i mr s) \<and> entries (so_markBatched ops ids i mr s) = entries s"
  by (simp add: markBatched_rows tag_keeps_entries del: map_map)

lemma flush_entries:
  assumes "AuditLogger_flush lib kec num ops lg env w = (r, w')" "inv (w_store w)" "fe_arrivals env (w_store w) = w_store w"
  shows "inv (w_store w') \<and> entries (w_store w') = entries (w_store w)"
  using assms mark_entries
  by (auto simp: AuditLogger_flush_def Let_def split: option.splits sum.splits prod.splits if_splits)

lemma reconcile_entries:
  assumes "AuditLogger_reconcile ops lg w = (r, w')" "inv (w_store w)"
  shows "inv (w_store w') \<and> entries (w_store w') = entries (w_store w)"
proof -
  have "inv s' \<and> entries s' = entries (w_store w)"
    if "fold (reconcile_step ops (w_chain w) operator) ps ([], 0, w_store w) = (stale, n, s')" for operator ps stale n s'
    using reconcile_fold [OF assms(2) that] by (auto simp: comp_def intro!: map_cong)
  then show ?thesis using assms
    by (auto simp: AuditLogger_reconcile_def split: option.splits sum.splits prod.splits)
qed

lemma tick_entries:
  assumes "AuditLogger_anchorTick lib kec num ops lg env w = (r, w')" "inv (w_store w)"
    and "fe_arrivals env = id"
  shows "inv (w_store w') \<and> entries (w_store w') = entries (w_store w)"
proof -
  let ?w = "w\<lparr>w_anchoring := True\<rparr>"
  obtain r1 w1 where one: "AuditLogger_reconcile ops lg ?w = (r1, w1)" by fastforce
  obtain r2 w2 where two: "AuditLogger_flush lib kec num ops lg env w1 = (r2, w2)" by fastforce
  have "inv (w_store w1) \<and> entries (w_store w1) = entries (w_store w)"
    using reconcile_entries [OF one] assms(2) by simp
  moreover from this have "inv (w_store w2) \<and> entries (w_store w2) = entries (w_store w1)"
    using flush_entries [OF two] assms(3) by simp
  moreover have "w_store w' \<in> {w_store w, w_store w1, w_store w2}"
    using assms(1) one two
    by (auto simp: AuditLogger_anchorTick_def split: if_splits sum.splits option.splits)
  ultimately show ?thesis using assms(2) by auto
qed

end

section \<open>What is anchored can be proved\<close>

context faithful_store
begin

text \<open>Each batch recorded locally has the root of the leaves of its entries.\<close>

definition batches_sound ::
  "merkle_lib \<Rightarrow> (string \<Rightarrow> hex) \<Rightarrow> (real \<Rightarrow> string) \<Rightarrow> leaf_context \<Rightarrow> 's \<Rightarrow> bool" where
  "batches_sound lib kec num ctx s \<longleftrightarrow>
     (\<forall>r \<in> set (rows s). \<forall>i. sr_batchIndex r = Some i \<longrightarrow>
        0 \<le> i \<and> sr_batchRoot r = Some (ml_root lib (leaves_of kec num ctx (so_entriesInBatch ops i s))))"

lemma batches_soundI:
  assumes "\<And>r i. r \<in> set (rows s) \<Longrightarrow> sr_batchIndex r = Some i \<Longrightarrow>
     0 \<le> i \<and> sr_batchRoot r = Some (ml_root lib (leaves_of kec num ctx (so_entriesInBatch ops i s)))"
  shows "batches_sound lib kec num ctx s"
  using assms by (simp add: batches_sound_def)

text \<open>A batch whose rows are untouched stays sound.\<close>

lemma batch_kept:
  assumes "batches_sound lib kec num ctx s" "r \<in> set (rows s)" "sr_batchIndex r = Some i" "inv s" "inv s'"
    and "filter (\<lambda>r. sr_batchIndex r = Some i) (rows s') = filter (\<lambda>r. sr_batchIndex r = Some i) (rows s)"
  shows "0 \<le> i \<and> sr_batchRoot r = Some (ml_root lib (leaves_of kec num ctx (so_entriesInBatch ops i s')))"
  using assms by (simp add: batches_sound_def entriesInBatch_rows)

lemma filter_map_id:
  assumes "\<And>r. r \<in> set rs \<Longrightarrow> P (f r) \<longleftrightarrow> P r" "\<And>r. r \<in> set rs \<Longrightarrow> P r \<Longrightarrow> f r = r"
  shows "filter P (map f rs) = filter P rs"
  using assms by (induction rs) auto

lemma insert_sound:
  assumes "batches_sound lib kec num ctx s" "inv s" "so_insert ops e s = Some s'"
  shows "batches_sound lib kec num ctx s'"
proof (rule batches_soundI)
  fix r i assume r: "r \<in> set (rows s')" "sr_batchIndex r = Some i"
  have s': "inv s'" "rows s' = rows s @ [stored e]" using insert_rows [OF assms(2,3)] by simp_all
  then have "r \<in> set (rows s)" using r stored_unbatched by auto
  then show "0 \<le> i \<and> sr_batchRoot r = Some (ml_root lib (leaves_of kec num ctx (so_entriesInBatch ops i s')))"
    using batch_kept [OF assms(1) _ r(2) assms(2) s'(1)] s'(2) stored_unbatched by simp
qed

lemma mark_sound:
  assumes "batches_sound lib kec num ctx s" "inv s" "\<And>r. r \<in> set (rows s) \<Longrightarrow> sr_batchIndex r \<noteq> Some i" "0 \<le> i"
  shows "batches_sound lib kec num ctx
     (so_markBatched ops (map e_id (so_unbatched ops s)) i (ml_root lib (leaves_of kec num ctx (so_unbatched ops s))) s)"
    (is "batches_sound lib kec num ctx ?s")
proof (rule batches_soundI)
  let ?mr = "ml_root lib (leaves_of kec num ctx (so_unbatched ops s))"
  let ?f = "\<lambda>r. if row_key r \<in> set (map e_id (so_unbatched ops s)) then tag_row i ?mr r else r"
  have arr: "arrived s s []" using assms(2) by (simp add: arrived_def)
  have s': "inv ?s" "rows ?s = map ?f (rows s)" using markBatched_rows [OF assms(2)] by simp_all
  have f: "?f r = (if sr_batchIndex r = None then tag_row i ?mr r else r)" if "r \<in> set (rows s)" for r
    using unbatched_ids [OF assms(2) arr that] that by simp
  fix q j assume q: "q \<in> set (rows ?s)" "sr_batchIndex q = Some j"
  then have "\<exists>r \<in> set (rows s). q = ?f r" unfolding s'(2) set_map by blast
  then obtain r where r: "r \<in> set (rows s)" "q = (if sr_batchIndex r = None then tag_row i ?mr r else r)"
    using f by metis
  show "0 \<le> j \<and> sr_batchRoot q = Some (ml_root lib (leaves_of kec num ctx (so_entriesInBatch ops j ?s)))"
  proof (cases "sr_batchIndex r = None")
    case True
    then show ?thesis using r q(2) assms(4) mark_batch [OF assms(2) arr assms(3), of ?mr] by (simp add: tag_row_def)
  next
    case False
    then have same: "q = r" "sr_batchIndex r = Some j" "j \<noteq> i" using r q(2) assms(3) by auto
    have "filter (\<lambda>r. sr_batchIndex r = Some j) (rows ?s) = filter (\<lambda>r. sr_batchIndex r = Some j) (rows s)"
      unfolding s'(2) by (rule filter_map_id) (use f same(3) in \<open>auto simp: tag_row_def\<close>)
    then show ?thesis using batch_kept [OF assms(1) r(1) same(2) assms(2) s'(1)] same(1) by simp
  qed
qed

text \<open>After a reconciliation the batches are sound, and each has its root on the chain.\<close>

lemma reconcile_effect:
  assumes "AuditLogger_reconcile ops lg w = (Inr out, w')" "inv (w_store w)" "lg_client lg = Some c" "ac_committer c = Some operator"
    and "batches_sound lib kec num ctx (w_store w)"
  shows "w_chain w' = w_chain w \<and> inv (w_store w') \<and> batches_sound lib kec num ctx (w_store w') \<and>
     (\<forall>r \<in> set (rows (w_store w')). \<forall>p. batch_pair r = Some p \<longrightarrow> batch_matches (w_chain w) operator p)"
proof -
  let ?s = "w_store w" and ?s' = "w_store w'" and ?ch = "w_chain w"
  let ?ps = "so_anchoredBatches ops ?s"
  obtain stale n s where fo: "fold (reconcile_step ops ?ch operator) ?ps ([], 0, ?s) = (stale, n, s)" by (metis prod_cases3)
  have w': "?s' = s" "w_chain w' = ?ch"
    using assms(1,3,4) fo by (auto simp: AuditLogger_reconcile_def AuditAnchorClient_operatorAddress_def)
  define gone where "gone r \<longleftrightarrow> (\<exists>p \<in> set ?ps. \<not> batch_matches ?ch operator p \<and> sr_batchIndex r = Some (fst p))" for r :: stored_row
  have s: "inv s" "rows s = map (\<lambda>r. if gone r then r\<lparr>sr_batchIndex := None, sr_batchRoot := None\<rparr> else r) (rows ?s)"
    using reconcile_fold [OF assms(2) fo] by (simp_all add: gone_def)
  have kept: "r \<in> set (rows ?s) \<and> \<not> gone r" if "r \<in> set (rows s)" "sr_batchIndex r \<noteq> None" for r
    using that s(2) by (auto split: if_splits)
  have "batches_sound lib kec num ctx s"
  proof (rule batches_soundI)
    fix r i assume r: "r \<in> set (rows s)" "sr_batchIndex r = Some i"
    have "filter (\<lambda>r. sr_batchIndex r = Some i) (rows s) = filter (\<lambda>r. sr_batchIndex r = Some i) (rows ?s)"
      unfolding s(2) by (rule filter_map_id) (use kept [OF r(1)] r(2) in \<open>auto simp: gone_def\<close>)
    then show "0 \<le> i \<and> sr_batchRoot r = Some (ml_root lib (leaves_of kec num ctx (so_entriesInBatch ops i s)))"
      using batch_kept [OF assms(5) _ r(2) assms(2) s(1)] kept [OF r(1)] r(2) by simp
  qed
  moreover have "batch_matches ?ch operator p" if "r \<in> set (rows s)" "batch_pair r = Some p" for r p
  proof -
    have tag: "sr_batchIndex r = Some (fst p)" using that(2) by (auto simp: batch_pair_def split: option.splits)
    then have "r \<in> set (rows ?s)" "\<not> gone r" using kept [OF that(1)] by simp_all
    moreover from this(1) have "p \<in> set ?ps" using anchoredBatches_rows [OF assms(2)] that(2) by blast
    ultimately show ?thesis using tag by (auto simp: gone_def)
  qed
  ultimately show ?thesis using s(1) w' by simp
qed

lemma flush_alone_logs:
  "flush_alone c operator env ch \<Longrightarrow> (a, ev) \<in> set (tx_logs (fe_tx env)) \<Longrightarrow> lower a \<noteq> lower (ac_contractAddress c)"
  by (auto simp: flush_alone_def list_all_iff)

lemma flush_sound:
  assumes "AuditLogger_flush lib kec num ops lg env w = (out, w')" "flush_alone c (lower operator) env (w_chain w)"
    and "lg_client lg = Some c" "ac_committer c = Some operator" "AuditAnchorClient_leafContext c operator = Inr ctx"
    and "inv (w_store w)" "batches_sound lib kec num ctx (w_store w)"
    and "\<And>r i. r \<in> set (rows (w_store w)) \<Longrightarrow> sr_batchIndex r = Some i \<Longrightarrow>
      i < int (getBatchCount (fe_before env (w_chain w)) (lower operator))"
  shows "batches_sound lib kec num ctx (w_store w')"
proof (cases "\<exists>res. out = Some (Inr (Some res))")
  case False
  then show ?thesis using flush_uncommitted [OF assms(1)] assms(2,7) by (simp add: flush_alone_def)
next
  case True
  then obtain res where res: "out = Some (Inr (Some res))" by blast
  have "lower a \<noteq> lower (ac_contractAddress c')" if "lg_client lg = Some c'" "(a, ev) \<in> set (tx_logs (fe_tx env))" for c' a ev
    using flush_alone_logs [OF assms(2) that(2)] that(1) assms(3) by simp
  then obtain ev where co: "commitBatch (lower operator) (tx_time (fe_tx env)) (AuditAnchorClient_head (w_chain w) operator)
       (ml_root lib (leaves_of kec num ctx (so_unbatched ops (w_store w)))) (length (so_unbatched ops (w_store w)))
       (fe_before env (w_chain w)) = Inr (fr_batchIndex res, ev, w_chain w')"
    and w': "w_store w' = so_markBatched ops (map e_id (so_unbatched ops (w_store w))) (int (fr_batchIndex res))
       (ml_root lib (leaves_of kec num ctx (so_unbatched ops (w_store w)))) (fe_arrivals env (w_store w))"
    by (rule flush_committed [OF assms(1) [unfolded res]]) (use assms(3-5) in auto)
  have "sr_batchIndex r \<noteq> Some (int (fr_batchIndex res))" if "r \<in> set (rows (w_store w))" for r
    using assms(8) [OF that, of "int (fr_batchIndex res)"] co by (auto simp: commitBatch_ok getBatchCount_def)
  then show ?thesis
    unfolding w' using mark_sound [OF assms(7,6), of "int (fr_batchIndex res)"] assms(2) by (simp add: flush_alone_def)
qed

text \<open>Each row that is tagged carries the root of its batch on the chain.\<close>

definition on_chain :: "batch list \<Rightarrow> 's \<Rightarrow> bool" where
  "on_chain bs s \<longleftrightarrow>
     (\<forall>r \<in> set (rows s). \<forall>i. sr_batchIndex r = Some i \<longrightarrow>
        0 \<le> i \<and> nat i < length bs \<and> sr_batchRoot r = Some (b_merkleRoot (bs ! nat i)))"

lemma matched_on_chain:
  assumes "batches_sound lib kec num ctx s" "chain_ok ch (lower operator)" "\<And>vs. lower (ml_root lib vs) = ml_root lib vs"
    and "\<forall>r \<in> set (rows s). \<forall>p. batch_pair r = Some p \<longrightarrow> batch_matches ch operator p"
  shows "on_chain (an_batches ch (lower operator)) s"
  unfolding on_chain_def
proof (intro ballI allI impI)
  fix r i assume r: "r \<in> set (rows s)" "sr_batchIndex r = Some i"
  let ?b = "an_batches ch (lower operator) ! nat i"
  obtain mr where sound: "0 \<le> i" "sr_batchRoot r = Some mr" "lower mr = mr"
    using assms(1,3) r by (simp add: batches_sound_def)
  then have "batch_matches ch operator (i, mr)" using assms(4) r by (simp add: batch_pair_def)
  then have "nat i < length (an_batches ch (lower operator))" "lower (b_merkleRoot ?b) = lower mr"
    by (auto simp: batch_matches_def AuditAnchorClient_getBatch_def getBatch_def Let_def split: if_splits)
  moreover from this(1) have "lower (b_merkleRoot ?b) = b_merkleRoot ?b"
    using assms(2) by (simp add: chain_ok_def list_all_length)
  ultimately show "0 \<le> i \<and> nat i < length (an_batches ch (lower operator)) \<and> sr_batchRoot r = Some (b_merkleRoot ?b)"
    using sound by simp
qed

lemma on_chain_extends: "on_chain bs s \<Longrightarrow> on_chain (bs @ bs') s"
  unfolding on_chain_def by (auto simp: nth_append)

lemma mark_on_chain:
  assumes "on_chain bs s" "inv s" "b_merkleRoot b = mr"
  shows "on_chain (bs @ [b]) (so_markBatched ops ids (int (length bs)) mr s)"
  using on_chain_extends [OF assms(1), of "[b]"] markBatched_rows [OF assms(2), of ids "int (length bs)" mr] assms(3)
  by (auto simp: on_chain_def tag_row_def)

text \<open>One tick, from a log whose batches are sound: it keeps the log sound; and if it anchored, all of it is on the chain.\<close>

lemma tick_sound:
  assumes "AuditLogger_anchorTick lib kec num ops lg env w = (out, w')" "flush_alone c (lower operator) env (w_chain w)"
    and "lg_client lg = Some c" "ac_committer c = Some operator" "AuditAnchorClient_leafContext c operator = Inr ctx"
    and "inv (w_store w)" "batches_sound lib kec num ctx (w_store w)" "\<And>vs. lower (ml_root lib vs) = ml_root lib vs"
  shows "batches_sound lib kec num ctx (w_store w') \<and>
     (\<forall>res. out = Some (Some res) \<longrightarrow> on_chain (an_batches (w_chain w') (lower operator)) (w_store w') \<and>
        so_unbatched ops (w_store w') = [])"
proof -
  let ?w = "w\<lparr>w_anchoring := True\<rparr>" and ?op = "lower operator"
  obtain r1 w1 where one: "AuditLogger_reconcile ops lg ?w = (r1, w1)" by fastforce
  obtain r2 w2 where two: "AuditLogger_flush lib kec num ops lg env w1 = (r2, w2)" by fastforce
  show ?thesis
  proof (cases "w_anchoring w \<or> (\<exists>e. r1 = Inl e)")
    case True
    then show ?thesis using assms(1,3,4,7) one
      by (auto simp: AuditLogger_anchorTick_def AuditLogger_reconcile_def AuditAnchorClient_operatorAddress_def split: prod.splits)
  next
    case False
    then obtain o1 where o1: "r1 = Inr o1" by (cases r1) auto
    have "w_chain w1 = w_chain w \<and> inv (w_store w1) \<and> batches_sound lib kec num ctx (w_store w1) \<and>
       (\<forall>r \<in> set (rows (w_store w1)). \<forall>p. batch_pair r = Some p \<longrightarrow> batch_matches (w_chain w) operator p)"
      using reconcile_effect [OF one [unfolded o1] _ assms(3,4)] assms(6,7) by simp
    then have w1: "w_chain w1 = w_chain w" "inv (w_store w1)" "batches_sound lib kec num ctx (w_store w1)"
      "\<forall>r \<in> set (rows (w_store w1)). \<forall>p. batch_pair r = Some p \<longrightarrow> batch_matches (w_chain w) operator p" by blast+
    obtain bs where before: "an_batches (fe_before env (w_chain w)) ?op = an_batches (w_chain w) ?op @ bs"
      "chain_ok (fe_before env (w_chain w)) ?op" using assms(2) by (auto simp: flush_alone_def)
    then have "chain_ok (w_chain w) ?op" by (simp add: chain_ok_def)
    from matched_on_chain [OF w1(3) this assms(8) w1(4)]
    have on: "on_chain (an_batches (w_chain w) ?op) (w_store w1)" .
    have sound: "batches_sound lib kec num ctx (w_store w2)"
    proof (rule flush_sound [OF two _ assms(3-5) w1(2,3)])
      show "i < int (getBatchCount (fe_before env (w_chain w1)) ?op)"
        if "r \<in> set (rows (w_store w1))" "sr_batchIndex r = Some i" for r i
      proof -
        have "0 \<le> i" "nat i < length (an_batches (w_chain w) ?op)" using on that by (simp_all add: on_chain_def)
        then show ?thesis using before(1) w1(1) by (simp add: getBatchCount_def)
      qed
    qed (use assms(2) w1(1) in simp)
    moreover have "on_chain (an_batches (w_chain w2) ?op) (w_store w2) \<and> so_unbatched ops (w_store w2) = []"
      if r2: "r2 = Some (Inr (Some res))" for res
    proof -
      have "lower a \<noteq> lower (ac_contractAddress c')" if "lg_client lg = Some c'" "(a, ev) \<in> set (tx_logs (fe_tx env))" for c' a ev
        using flush_alone_logs [OF assms(2) that(2)] that(1) assms(3) by simp
      then obtain ev mr where co: "commitBatch ?op (tx_time (fe_tx env)) (AuditAnchorClient_head (w_chain w1) operator)
           mr (length (so_unbatched ops (w_store w1))) (fe_before env (w_chain w1)) = Inr (fr_batchIndex res, ev, w_chain w2)"
        and w2: "w_store w2 = so_markBatched ops (map e_id (so_unbatched ops (w_store w1))) (int (fr_batchIndex res)) mr (w_store w1)"
        by (rule flush_committed [OF two [unfolded r2]]) (use assms(2-5) in \<open>auto simp: flush_alone_def\<close>)
      let ?bs = "an_batches (fe_before env (w_chain w1)) ?op"
      have on1: "on_chain ?bs (w_store w1)" using on_chain_extends [OF on] before(1) w1(1) by simp
      have "fr_batchIndex res = length ?bs" "\<exists>b. an_batches (w_chain w2) ?op = ?bs @ [b] \<and> b_merkleRoot b = mr"
        using co by (auto simp: commitBatch_ok)
      then show ?thesis
        using mark_on_chain [OF on1 w1(2)] mark_all_unbatched [OF w1(2)] unfolding w2 by auto
    qed
    moreover have "w_store w' = w_store w2 \<and> w_chain w' = w_chain w2 \<and>
        (\<forall>res. out = Some (Some res) \<longrightarrow> r2 = Some (Inr (Some res)))"
      using assms(1) one two o1 False
      by (auto simp: AuditLogger_anchorTick_def split: option.splits sum.splits)
    ultimately show ?thesis by auto
  qed
qed

text \<open>Then the contract accepts the proof of every entry.\<close>

lemma on_chain_provable:
  assumes "on_chain (an_batches ch (lower (lc_operator ctx))) s" "batches_sound lib kec num ctx s" "inv s" "so_unbatched ops s = []"
    and "\<And>vs. length vs \<le> length (entries s) \<Longrightarrow> proofs_lead_to_root lib vs"
    and "e \<in> set (entries s)" "recomputeEntryHash kec num e = e_entryHash e"
  shows "\<exists>p. AuditLogger_proofFor lib kec num ops (e_id e) ctx s = Some p \<and> proof_verifies lib ctx ch p \<and>
     ep_entryHash p = e_entryHash e \<and> ep_storedHashMatches p"
proof -
  obtain r where r: "r \<in> set (rows s)" "sr_entry r = e" using assms(6) by auto
  have "filter (\<lambda>r. sr_batchIndex r = None) (rows s) = []" using unbatched_rows [OF assms(3)] assms(4) by simp
  then obtain i where i: "sr_batchIndex r = Some i" using r(1) by (auto simp: filter_empty_conv)
  let ?bs = "an_batches ch (lower (lc_operator ctx))" and ?rows = "so_entriesInBatch ops i s"
  let ?proofs = "AuditLogger_proofsForBatch lib kec num ops i ctx s"
  have on: "0 \<le> i" "nat i < length ?bs" "b_merkleRoot (?bs ! nat i) = ml_root lib (leaves_of kec num ctx ?rows)"
    using assms(1,2) r(1) i by (auto simp: on_chain_def batches_sound_def)
  have in_batch: "?rows = map sr_entry (filter (\<lambda>r. sr_batchIndex r = Some i) (rows s))"
    by (rule entriesInBatch_rows [OF assms(3)])
  have keys: "map fst ?proofs = map e_id ?rows"
    by (auto simp: AuditLogger_proofsForBatch_def Let_def proof_entry_def split: prod.splits intro!: nth_equalityI)
  have "find (\<lambda>q. row_key q = e_id e) (rows s) = Some r"
    by (rule find_unique [OF distinct_keys [OF assms(3)] r(1)]) (simp add: row_key_def r(2))
  then have found: "AuditLogger_getById ops (e_id e) s = Some (e, Some i)"
    using getById_rows [OF assms(3)] r(2) i by (simp add: AuditLogger_getById_def)
  have "e_id e \<in> set (map fst ?proofs)" using keys in_batch r i by auto
  then obtain p where p: "map_of ?proofs (e_id e) = Some p" by (metis list.set_map map_of_eq_None_iff not_Some_eq)
  then have mem: "(e_id e, p) \<in> set ?proofs" by (rule map_of_SomeD)
  have "length ?rows \<le> length (entries s)" unfolding in_batch by simp
  then have "proofs_lead_to_root lib (leaves_of kec num ctx ?rows)" using assms(5) by (simp add: leaves_of_def)
  from proofs_verify_iff_root [OF mem this on(1,2)] have ok: "proof_verifies lib ctx ch p" using on(3) by simp
  obtain j where j: "j < length ?rows" "e_id (?rows ! j) = e_id e"
    "ep_entryHash p = recomputeEntryHash kec num (?rows ! j)"
    "ep_storedHashMatches p = (recomputeEntryHash kec num (?rows ! j) = e_entryHash (?rows ! j))"
    using mem by (auto simp: AuditLogger_proofsForBatch_def Let_def proof_entry_def canonicalize_def split: prod.splits)
  have "?rows ! j \<in> set (entries s)" using nth_mem [OF j(1)] in_batch by auto
  then have "?rows ! j = e"
    using j(2) assms(6) distinct_keys [OF assms(3)] inj_on_eq_iff [of e_id "set (entries s)" "?rows ! j" e]
    by (simp add: distinct_map inj_on_def row_key_def) blast
  then show ?thesis using found p i ok j(3,4) assms(7) by (simp add: AuditLogger_proofFor_def)
qed

end

section \<open>The two stores\<close>

interpretation sqlite_log: faithful_store "sqlite_ops fu" "\<lambda>t. t" sqlite_inv "fresh_row fu" fu for fu
  by unfold_locales (simp add: fresh_row_def)

interpretation postgres_log: faithful_store "postgres_ops fu" pg_rows pg_inv "fresh_row fu" fu for fu
  by unfold_locales (simp add: fresh_row_def)

end
