(* ===== verification/Lifetime.thy ===== *)
theory Lifetime
  imports Ledger
begin

text \<open>
  The life of a guard from its first start: it executes and evaluates payments one after the other, anchors and
  reconciles its log, is reset by its operator, and the process restarts from the log at any time between two
  calls, while the chain may be reorganised. Over such a life the policy's caps hold across the restarts, the log
  only grows, and what it anchors can be proved. Last, two ways in which a restart loses a payment.
\<close>

section \<open>A life\<close>

text \<open>A life keeps, beside the deployment, the payments that were settled and when, and the time.\<close>

record 's life =
  lf_dep :: "'s deployment"
  lf_paid :: "(int \<times> payment_request) list"
  lf_now :: int

text \<open>The readings of the clock in a call: they do not go backwards and lie between two times.\<close>

definition clock_within :: "int \<Rightarrow> int \<Rightarrow> clock \<Rightarrow> bool" where
  "clock_within a b c \<longleftrightarrow> sorted (map c [0..<7]) \<and> a \<le> c 0 \<and> c 6 \<le> b"

definition executed_result :: "guard_error + execute_result \<Rightarrow> bool" where
  "executed_result res = (case res of Inl e \<Rightarrow> False | Inr r \<Rightarrow> ex_executed r)"

text \<open>
  The life of the guard of an agent, over the client \<open>c\<close> and its operator. An execution ends with its entry
  inserted or throws before anything is settled or recorded: it is not cut off, and the store takes the entry.
\<close>

inductive lifetime ::
  "externals \<Rightarrow> 's store_ops \<Rightarrow> merkle_lib \<Rightarrow> policy \<Rightarrow> guard_config \<Rightarrow> anchor_client \<Rightarrow> address \<Rightarrow> 's \<Rightarrow> 's life \<Rightarrow> bool"
  for x ops lib policy config c operator store0 where
  start: "clock_within now t clock \<Longrightarrow>
     lifetime x ops lib policy config c operator store0
       \<lparr>lf_dep = start_guard x ops None clock policy config store0 ch, lf_paid = [], lf_now = t\<rparr>"
| execute: "lifetime x ops lib policy config c operator store0 L \<Longrightarrow> d = lf_dep L \<Longrightarrow>
     clock_within (lf_now L) t (ce_clock ce) \<Longrightarrow> quiet ce \<Longrightarrow> r_agentId req = p_agentId policy \<Longrightarrow>
     AgentGuard_execute x ops (dp_guard d) ce req (dp_state d) = (res, handed, st) \<Longrightarrow> res \<noteq> Inl Ge_store \<Longrightarrow>
     lifetime x ops lib policy config c operator store0
       \<lparr>lf_dep = d\<lparr>dp_state := st\<rparr>,
         lf_paid = lf_paid L @ (if executed_result res then [(ce_clock ce 5, req)] else []), lf_now = t\<rparr>"
| evaluate: "lifetime x ops lib policy config c operator store0 L \<Longrightarrow> d = lf_dep L \<Longrightarrow> lf_now L \<le> t \<Longrightarrow>
     lifetime x ops lib policy config c operator store0
       (L\<lparr>lf_dep := d\<lparr>dp_state := snd (AgentGuard_evaluate x (dp_guard d) clock req (dp_state d))\<rparr>, lf_now := t\<rparr>)"
| reset: "lifetime x ops lib policy config c operator store0 L \<Longrightarrow> d = lf_dep L \<Longrightarrow>
     lifetime x ops lib policy config c operator store0
       (L\<lparr>lf_dep := d\<lparr>dp_state := AgentGuard_resetCircuitBreaker (dp_guard d) (dp_state d)\<rparr>\<rparr>)"
| anchor_now: "lifetime x ops lib policy config c operator store0 L \<Longrightarrow>
     flush_alone c (lower operator) env (dp_chain (lf_dep L)) \<Longrightarrow> lf_now L \<le> t \<Longrightarrow>
     lifetime x ops lib policy config c operator store0
       (L\<lparr>lf_dep := snd (AgentGuard_anchorNow lib x ops env (lf_dep L)), lf_now := t\<rparr>)"
| anchor_audit: "lifetime x ops lib policy config c operator store0 L \<Longrightarrow>
     flush_alone c (lower operator) env (dp_chain (lf_dep L)) \<Longrightarrow>
     tags_reached ops (gs_store (dp_state (lf_dep L))) (fe_before env (dp_chain (lf_dep L))) (lower operator) \<Longrightarrow>
     lf_now L \<le> t \<Longrightarrow>
     lifetime x ops lib policy config c operator store0
       (L\<lparr>lf_dep := snd (AgentGuard_anchorAudit lib x ops env (lf_dep L)), lf_now := t\<rparr>)"
| reconcile: "lifetime x ops lib policy config c operator store0 L \<Longrightarrow>
     lifetime x ops lib policy config c operator store0 (L\<lparr>lf_dep := snd (AgentGuard_reconcileAudit ops (lf_dep L))\<rparr>)"
| restart: "lifetime x ops lib policy config c operator store0 L \<Longrightarrow> d = lf_dep L \<Longrightarrow>
     clock_within (lf_now L) t clock \<Longrightarrow>
     lifetime x ops lib policy config c operator store0
       (L\<lparr>lf_dep := start_guard x ops None clock policy config (gs_store (dp_state d)) (dp_chain d), lf_now := t\<rparr>)"
| chain: "lifetime x ops lib policy config c operator store0 L \<Longrightarrow>
     lifetime x ops lib policy config c operator store0 (L\<lparr>lf_dep := (lf_dep L)\<lparr>dp_chain := ch\<rparr>\<rparr>)"

lemma clock_within_bounds:
  assumes "clock_within a b c"
  shows "a \<le> b" "c 1 \<le> c 5" "c 5 \<le> c 6" "c 6 \<le> b" "a \<le> c 1" "c 0 \<le> c 1" "c 1 \<le> b" "a \<le> c 0"
proof -
  have m: "c i \<le> c j" if "i \<le> j" "j < 7" for i j
    using assms that sorted_nth_mono [of "map c [0..<7]" i j] by (simp add: clock_within_def)
  have "a \<le> c 0" "c 6 \<le> b" using assms by (simp_all add: clock_within_def)
  then show "a \<le> b" "c 1 \<le> c 5" "c 5 \<le> c 6" "c 6 \<le> b" "a \<le> c 1" "c 0 \<le> c 1" "c 1 \<le> b" "a \<le> c 0"
    using m [of 0 6] m [of 1 5] m [of 5 6] m [of 0 1] m [of 1 6] by simp_all
qed

lemma start_guard_simps [simp]:
  "gs_store (dp_state (start_guard x ops failure clock policy config store ch)) = store"
  "dp_chain (start_guard x ops failure clock policy config store ch) = ch"
  "dp_logger (start_guard x ops failure clock policy config store ch) = AuditLogger_new (gc_anchor config)"
  by (auto simp: start_guard_def AgentGuard_create_def AgentGuard_new_def AgentGuard_hydrate_def hydrate_state_def Let_def
      split: option.splits)

section \<open>The log of a life\<close>

text \<open>An entry that records a settled payment.\<close>

definition entry_pays :: "int \<Rightarrow> audit_entry \<Rightarrow> int \<times> payment_request \<Rightarrow> bool" where
  "entry_pays now e p \<longleftrightarrow> e_request e = snd p \<and> 0 < r_amount (snd p) \<and> fst p \<le> e_timestamp e \<and> e_timestamp e \<le> now"

context faithful_store
begin

text \<open>
  The log of a life: what was there at its start, then entries of the agent whose hash matches, the settled ones
  among them being the settled payments in order, each dated no earlier than its settlement.
\<close>

definition logged :: "externals \<Rightarrow> string \<Rightarrow> audit_entry list \<Rightarrow> 's life \<Rightarrow> bool" where
  "logged x agent es0 L \<longleftrightarrow> inv (gs_store (dp_state (lf_dep L))) \<and>
     (\<exists>new. entries (gs_store (dp_state (lf_dep L))) = es0 @ new \<and>
        list_all (\<lambda>e. entry_intact x e \<and> e_agentId e = agent) new \<and>
        list_all2 (entry_pays (lf_now L)) (filter settled new) (lf_paid L))"

lemma logged_later:
  assumes "logged x agent es0 L" "lf_now L \<le> lf_now L'" "lf_paid L' = lf_paid L"
    and "inv (gs_store (dp_state (lf_dep L')))"
    and "entries (gs_store (dp_state (lf_dep L'))) = entries (gs_store (dp_state (lf_dep L)))"
  shows "logged x agent es0 L'"
proof -
  have "list_all2 (entry_pays (lf_now L')) es ps" if "list_all2 (entry_pays (lf_now L)) es ps" for es ps
    by (rule list_all2_mono [OF that]) (use assms(2) in \<open>auto simp: entry_pays_def\<close>)
  then show ?thesis using assms unfolding logged_def by auto
qed


lemma execute_logged:
  assumes "logged x agent es0 L" "clock_within (lf_now L) t (ce_clock ce)" "quiet ce" "r_agentId req = agent"
    and "AgentGuard_execute x ops g ce req (dp_state (lf_dep L)) = (res, handed, st)" "res \<noteq> Inl Ge_store"
  shows "logged x agent es0 \<lparr>lf_dep = (lf_dep L)\<lparr>dp_state := st\<rparr>,
     lf_paid = lf_paid L @ (if executed_result res then [(ce_clock ce 5, req)] else []), lf_now = t\<rparr>"
    (is "logged x agent es0 ?L")
  using assms(5,3,6)
proof (cases rule: execute_effect)
  case (threw e)
  then show ?thesis
    using logged_later [OF assms(1), of ?L] assms(1) clock_within_bounds(1) [OF assms(2)]
    by (simp add: executed_result_def logged_def)
next
  case (returned r)
  let ?e = "as_stored fu (new_entry (x_kec x) (x_num x) (ce_uuid ce) (ce_clock ce 6) req (ex_decision r) (ex_settlement r))"
  let ?later = "L\<lparr>lf_now := t\<rparr>"
  have now: "lf_now L \<le> t" "ce_clock ce 5 \<le> ce_clock ce 6" "ce_clock ce 6 \<le> t"
    using clock_within_bounds [OF assms(2)] by simp_all
  have "logged x agent es0 ?later"
    by (rule logged_later [OF assms(1)]) (use now assms(1) in \<open>simp_all add: logged_def\<close>)
  then obtain new where new: "entries (gs_store (dp_state (lf_dep L))) = es0 @ new"
    "list_all (\<lambda>e. entry_intact x e \<and> e_agentId e = agent) new"
    "list_all2 (entry_pays t) (filter settled new) (lf_paid L)" by (auto simp: logged_def)
  have e: "entry_intact x ?e" "e_agentId ?e = agent" "settled ?e = ex_executed r"
    "ex_executed r \<Longrightarrow> entry_pays t ?e (ce_clock ce 5, req)"
    using assms(4) returned(3,5) now
    by (simp_all add: new_entry_intact) (simp_all add: new_entry_def settled_def entry_pays_def)
  have paid: "lf_paid ?L = lf_paid L @ (if ex_executed r then [(ce_clock ce 5, req)] else [])"
    using returned(1) by (simp add: executed_result_def)
  have "list_all2 (entry_pays t) (filter settled (new @ [?e])) (lf_paid ?L)"
    using new(3) e(3,4) paid by (cases "ex_executed r") (simp_all add: list_all2_appendI)
  moreover have "inv (gs_store st) \<and> entries (gs_store st) = es0 @ (new @ [?e])"
    using insert_entries [OF _ returned(2)] assms(1) new(1) by (simp add: logged_def)
  moreover have "list_all (\<lambda>e. entry_intact x e \<and> e_agentId e = agent) (new @ [?e])"
    using new(2) e(1,2) by (auto simp: list_all_iff simp del: as_stored_simps)
  ultimately show ?thesis unfolding logged_def by (intro conjI exI [of _ "new @ [?e]"]) simp_all
qed

lemma lifetime_logged:
  assumes "lifetime x ops lib policy config c operator store0 L" "inv store0"
  shows "logged x (p_agentId policy) (entries store0) L"
  using assms(1)
proof (induction rule: lifetime.induct)
  case (start now t clock ch)
  then show ?case using assms(2) by (simp add: logged_def)
next
  case (execute L d t ce req res handed st)
  then show ?case using execute_logged [OF execute.IH execute.hyps(3-5) execute.hyps(6,7) [unfolded execute.hyps(2)]] by simp
next
  case (evaluate L d t clock req)
  from this(4) show ?case
    by (rule logged_later) (use evaluate in \<open>simp_all add: evaluate_frame logged_def\<close>)
next
  case (reset L d)
  from this(3) show ?case
    by (rule logged_later) (use reset in \<open>simp_all add: AgentGuard_resetCircuitBreaker_def logged_def split: option.splits\<close>)
next
  case (anchor_now L env t)
  obtain r w where w: "AuditLogger_anchorTick lib (x_kec x) (x_num x) ops (dp_logger (lf_dep L)) env (world_of (lf_dep L)) = (r, w)"
    by fastforce
  then have "inv (w_store w) \<and> entries (w_store w) = entries (gs_store (dp_state (lf_dep L)))"
    using tick_entries [OF w] anchor_now by (simp add: logged_def flush_alone_def)
  with anchor_now.IH show ?case
    by (rule_tac logged_later) (use anchor_now w in \<open>simp_all add: AgentGuard_anchorNow_def\<close>)
next
  case (anchor_audit L env t)
  obtain r w where w: "AuditLogger_flush lib (x_kec x) (x_num x) ops (dp_logger (lf_dep L)) env (world_of (lf_dep L)) = (r, w)"
    by fastforce
  then have "inv (w_store w) \<and> entries (w_store w) = entries (gs_store (dp_state (lf_dep L)))"
    using flush_entries [OF w] anchor_audit by (simp add: logged_def flush_alone_def)
  with anchor_audit.IH show ?case
    by (rule_tac logged_later) (use anchor_audit w in \<open>simp_all add: AgentGuard_anchorAudit_def\<close>)
next
  case (reconcile L)
  obtain r w where w: "AuditLogger_reconcile ops (dp_logger (lf_dep L)) (world_of (lf_dep L)) = (r, w)"
    by fastforce
  then have "inv (w_store w) \<and> entries (w_store w) = entries (gs_store (dp_state (lf_dep L)))"
    using reconcile_entries [OF w] reconcile by (simp add: logged_def)
  with reconcile.IH show ?case
    by (rule_tac logged_later) (use reconcile w in \<open>simp_all add: AgentGuard_reconcileAudit_def\<close>)
next
  case (restart L d t clock)
  from this(4) show ?case
    by (rule logged_later) (use restart clock_within_bounds(1) in \<open>auto simp: logged_def\<close>)
next
  case (chain L ch)
  from this(2) show ?case by (rule logged_later) (use chain in \<open>simp_all add: logged_def\<close>)
qed

end

section \<open>Windows that outlive a restart\<close>

definition lookback_of :: "guard_config \<Rightarrow> int" where
  "lookback_of config = (case gc_hydrateLookbackMs config of Some l \<Rightarrow> l | None \<Rightarrow> DEFAULT_HYDRATE_LOOKBACK_MS)"

text \<open>A guard that hydrates, and over a day at least.\<close>

definition remembers :: "guard_config \<Rightarrow> bool" where
  "remembers config \<longleftrightarrow> gc_hydrate config \<noteq> Some False \<and> DAY_MS \<le> lookback_of config"

definition replayed :: "externals \<Rightarrow> audit_entry list \<Rightarrow> audit_entry list" where
  "replayed x es = filter settled (filter (entry_intact x) es) @ filter (\<lambda>e. \<not> entry_intact x e) es"

lemma start_guard_evaluator:
  assumes "remembers config"
  shows "gs_evaluator (dp_state (start_guard x ops None clock policy config store ch)) =
     PolicyEvaluator_hydrate (replayed x (so_listSince ops (p_agentId policy) (clock 0 - lookback_of config) store)) (clock 1)
       (new_evaluator policy)"
proof -
  have empty: "PolicyEvaluator_hydrate [] now (new_evaluator p) = new_evaluator p" for now p
    by (simp add: PolicyEvaluator_hydrate_def new_evaluator_def)
  show ?thesis
    using assms empty
    by (auto simp: start_guard_def AgentGuard_create_def AgentGuard_new_def AgentGuard_hydrate_def hydrate_state_def Let_def
        remembers_def lookback_of_def replayed_def AuditLogger_listSince_def)
qed

text \<open>What was paid after a time, each payment with its weight.\<close>

definition paid_since :: "(payment_request \<Rightarrow> int) \<Rightarrow> int \<Rightarrow> (int \<times> payment_request) list \<Rightarrow> int" where
  "paid_since weight s ps = sum_list (map (\<lambda>p. weight (snd p)) (filter (\<lambda>p. fst p > s) ps))"

lemma paid_since_append [simp]:
  "paid_since weight s (ps @ qs) = paid_since weight s ps + paid_since weight s qs"
  "paid_since weight s [] = 0" "paid_since weight s [(t, req)] = (if s < t then weight req else 0)"
  by (simp_all add: paid_since_def)

text \<open>
  A window of the policy evaluator that ends now and reaches back a day at most: a payment adds its weight, and
  the log replayed gives the sum of its rows.
\<close>

locale durable_meter =
  fixes meter :: "evaluator \<Rightarrow> int \<Rightarrow> int"
    and weight :: "payment_request \<Rightarrow> int"
    and since :: "int \<Rightarrow> int"
    and lim :: int
    and governed :: "policy \<Rightarrow> bool"
    and pu :: "string \<Rightarrow> url option"
  assumes since_mono: "t \<le> t' \<Longrightarrow> since t \<le> since t'"
    and horizon: "governed p \<Longrightarrow> t - DAY_MS \<le> since t"
    and observe: "governed (ev_policy ev) \<Longrightarrow>
      meter (PolicyEvaluator_observe req ts ev) t = meter ev t + (if ts > since t then weight req else 0)"
    and hydrate: "governed p \<Longrightarrow> t0 \<le> t \<Longrightarrow> meter (PolicyEvaluator_hydrate es t0 (new_evaluator p)) t =
      sum_list (map (\<lambda>e. weight (e_request e)) (filter (\<lambda>e. e_timestamp e > since t) es))"
    and admit: "governed (ev_policy ev) \<Longrightarrow> 0 < r_amount req \<Longrightarrow> \<not> blocks (PolicyEvaluator_evaluate pu ev req t) \<Longrightarrow>
      weight req \<noteq> 0 \<Longrightarrow> meter ev t + weight req \<le> lim"
    and weight_nonneg: "0 < r_amount req \<Longrightarrow> 0 \<le> weight req"
begin

lemma paid_since_mono:
  assumes "list_all (\<lambda>p. 0 < r_amount (snd p)) ps" "s \<le> s'"
  shows "paid_since weight s' ps \<le> paid_since weight s ps"
  unfolding paid_since_def using assms weight_nonneg
  by (intro sum_filter_mono) (auto simp: list_all_iff)

text \<open>Rows that date payments no earlier than they were settled hold as much of any window.\<close>

lemma paid_since_rows:
  assumes "list_all2 (entry_pays now) es ps"
  shows "paid_since weight s ps \<le> sum_list (map (\<lambda>e. weight (e_request e)) (filter (\<lambda>e. e_timestamp e > s) es))"
  using assms
proof (induction rule: list_all2_induct)
  case (Cons e es p ps)
  then have "0 \<le> weight (snd p)" using weight_nonneg by (simp add: entry_pays_def)
  with Cons show ?case by (auto simp: entry_pays_def paid_since_def)
qed simp

end

locale durable_guard = faithful_store ops rows inv stored fu + durable_meter meter weight since lim governed pu
  for ops :: "'s store_ops" and rows inv stored fu meter weight since lim governed pu
begin

text \<open>The rows that a guard of the agent counts in its windows when it starts on the log.\<close>

definition counted_row :: "externals \<Rightarrow> string \<Rightarrow> int \<Rightarrow> audit_entry \<Rightarrow> bool" where
  "counted_row x agent s e \<longleftrightarrow> e_agentId e = agent \<and> e_timestamp e > s \<and> (entry_intact x e \<longrightarrow> settled e)"

lemma restart_meter:
  assumes "inv s" "remembers config" "governed policy" "clock 0 \<le> clock 1" "clock 1 \<le> t"
  shows "meter (gs_evaluator (dp_state (start_guard x ops None clock policy config s ch))) t =
     sum_list (map (\<lambda>e. weight (e_request e)) (filter (counted_row x (p_agentId policy) (since t)) (entries s)))"
proof -
  let ?from = "clock 0 - lookback_of config"
  let ?w = "\<lambda>e. weight (e_request e)"
  let ?sel = "\<lambda>e. e_agentId e = p_agentId policy \<and> e_timestamp e \<ge> ?from"
  let ?es = "so_listSince ops (p_agentId policy) ?from s"
  have "map sr_entry (filter (\<lambda>r. ?sel (sr_entry r)) (rows s)) = filter ?sel (entries s)"
    by (simp add: filter_map comp_def)
  then have es: "mset ?es = mset (filter ?sel (entries s))"
    using listSince_rows [OF assms(1)] by simp
  have far: "?from \<le> since t"
    using horizon [OF assms(3), of t] assms(2,4,5) by (simp add: remembers_def)
  have "meter (gs_evaluator (dp_state (start_guard x ops None clock policy config s ch))) t =
      sum_list (map ?w (filter (\<lambda>e. e_timestamp e > since t) (replayed x ?es)))"
    unfolding start_guard_evaluator [OF assms(2)] by (rule hydrate [OF assms(3,5)])
  also have "\<dots> = sum_list (map ?w (filter (\<lambda>e. e_timestamp e > since t) (filter (\<lambda>e. entry_intact x e \<longrightarrow> settled e) ?es)))"
    unfolding replayed_def by (rule sum_filter_cong_mset) (rule mset_settled_or_tampered)
  also have "\<dots> = sum_list (map ?w (filter (\<lambda>e. e_timestamp e > since t \<and> (entry_intact x e \<longrightarrow> settled e)) ?es))"
    by (simp add: conj_commute)
  also have "\<dots> = sum_list (map ?w (filter (\<lambda>e. e_timestamp e > since t \<and> (entry_intact x e \<longrightarrow> settled e))
      (filter ?sel (entries s))))"
    by (rule sum_filter_cong_mset [OF es])
  also have "filter (\<lambda>e. e_timestamp e > since t \<and> (entry_intact x e \<longrightarrow> settled e)) (filter ?sel (entries s)) =
      filter (counted_row x (p_agentId policy) (since t)) (entries s)"
    using far unfolding filter_filter counted_row_def by (intro filter_cong) auto
  finally show ?thesis .
qed

lemma restart_counts:
  assumes "logged x (p_agentId policy) es0 L" "list_all (\<lambda>e. 0 < r_amount (e_request e)) es0"
    and "remembers config" "governed policy" "clock 0 \<le> clock 1" "clock 1 \<le> t"
  shows "paid_since weight (since t) (lf_paid L) \<le>
     meter (gs_evaluator (dp_state (start_guard x ops None clock policy config (gs_store (dp_state (lf_dep L))) ch))) t"
proof -
  let ?w = "\<lambda>e. weight (e_request e)" and ?counted = "counted_row x (p_agentId policy) (since t)"
  obtain new where new: "inv (gs_store (dp_state (lf_dep L)))" "entries (gs_store (dp_state (lf_dep L))) = es0 @ new"
    "list_all (\<lambda>e. entry_intact x e \<and> e_agentId e = p_agentId policy) new"
    "list_all2 (entry_pays (lf_now L)) (filter settled new) (lf_paid L)"
    using assms(1) by (auto simp: logged_def)
  have "0 \<le> sum_list (map ?w (filter ?counted es0))"
    using assms(2) weight_nonneg by (intro sum_list_nonneg) (auto simp: list_all_iff)
  moreover have "filter ?counted new = filter (\<lambda>e. e_timestamp e > since t) (filter settled new)"
    using new(3) unfolding filter_filter counted_row_def by (intro filter_cong) (auto simp: list_all_iff)
  ultimately show ?thesis
    using restart_meter [OF new(1) assms(3-6), of x ch] new(2) paid_since_rows [OF new(4), of "since t"] by simp
qed

text \<open>The evaluator never counts less than what was paid, and what was paid stays below the limit.\<close>

definition capped :: "policy \<Rightarrow> 's life \<Rightarrow> bool" where
  "capped policy L \<longleftrightarrow> ev_policy (gs_evaluator (dp_state (lf_dep L))) = policy \<and>
     list_all (\<lambda>p. 0 < r_amount (snd p)) (lf_paid L) \<and>
     (\<forall>t \<ge> lf_now L. paid_since weight (since t) (lf_paid L) \<le> meter (gs_evaluator (dp_state (lf_dep L))) t) \<and>
     paid_since weight (since (lf_now L)) (lf_paid L) \<le> max 0 lim"

lemma capped_later:
  assumes "capped policy L" "lf_now L \<le> lf_now L'" "lf_paid L' = lf_paid L"
    and "gs_evaluator (dp_state (lf_dep L')) = gs_evaluator (dp_state (lf_dep L))"
  shows "capped policy L'"
  using assms paid_since_mono [OF _ since_mono [OF assms(2)], of "lf_paid L"] by (auto simp: capped_def)

lemma execute_capped:
  assumes "capped policy L" "governed policy" "clock_within (lf_now L) t (ce_clock ce)" "quiet ce" "x_url x = pu"
    and "AgentGuard_execute x ops g ce req (dp_state (lf_dep L)) = (res, handed, st)" "res \<noteq> Inl Ge_store"
  shows "capped policy \<lparr>lf_dep = (lf_dep L)\<lparr>dp_state := st\<rparr>,
     lf_paid = lf_paid L @ (if executed_result res then [(ce_clock ce 5, req)] else []), lf_now = t\<rparr>"
    (is "capped policy ?L")
proof -
  note clock = clock_within_bounds [OF assms(3)]
  show ?thesis using assms(6,4,7)
  proof (cases rule: execute_effect)
    case (threw e)
    then show ?thesis using capped_later [OF assms(1), of ?L] clock(1) by (simp add: executed_result_def)
  next
    case (returned r)
    show ?thesis
    proof (cases "ex_executed r")
      case False
      then show ?thesis
        using capped_later [OF assms(1), of ?L] clock(1) returned(1,4) by (simp add: executed_result_def)
    next
      case True
      let ?ev = "gs_evaluator (dp_state (lf_dep L))" and ?w = "weight req"
      have ev: "ev_policy ?ev = policy" and pos: "0 < r_amount req" "0 \<le> ?w"
        using assms(1) returned(5) [OF True] weight_nonneg by (simp_all add: capped_def)
      have paid: "list_all (\<lambda>p. 0 < r_amount (snd p)) (lf_paid L)"
        "\<And>u. lf_now L \<le> u \<Longrightarrow> paid_since weight (since u) (lf_paid L) \<le> meter ?ev u"
        using assms(1) by (simp_all add: capped_def)
      have "paid_since weight (since u) (lf_paid L) + ?w \<le> max 0 lim" if "ce_clock ce 1 \<le> u"
        and "?w \<noteq> 0" for u
      proof -
        have "meter ?ev (ce_clock ce 1) + ?w \<le> lim"
          using admit [OF _ pos(1), of ?ev "ce_clock ce 1"] returned(6) [OF True] assms(2,5) ev that(2) by simp
        moreover have "paid_since weight (since u) (lf_paid L) \<le> paid_since weight (since (ce_clock ce 1)) (lf_paid L)"
          using paid_since_mono [OF paid(1) since_mono [OF that(1)]] by simp
        ultimately show ?thesis using paid(2) [OF clock(5)] by linarith
      qed
      moreover have "paid_since weight (since t) (lf_paid L) \<le> max 0 lim"
        using paid_since_mono [OF paid(1) since_mono [OF clock(1)]] assms(1) by (simp add: capped_def)
      ultimately have lim: "paid_since weight (since t) (lf_paid L) + (if ce_clock ce 5 > since t then ?w else 0) \<le> max 0 lim"
        using clock(7) by (cases "?w = 0") auto
      have "paid_since weight (since u) (lf_paid ?L) \<le> meter (PolicyEvaluator_observe req (ce_clock ce 5) ?ev) u"
        if "t \<le> u" for u
        using paid(2) [of u] that clock(1) observe [of ?ev] ev assms(2) True returned(1)
        by (auto simp: executed_result_def)
      then show ?thesis
        using lim paid(1) clock(1) ev pos(1) True returned(1,4)
        by (auto simp: capped_def executed_result_def)
    qed
  qed
qed

lemma lifetime_capped:
  assumes "lifetime x ops lib policy config c operator store0 L" "inv store0"
    and "list_all (\<lambda>e. 0 < r_amount (e_request e)) (entries store0)" "remembers config" "governed policy" "x_url x = pu"
  shows "capped policy L"
  using assms(1)
proof (induction rule: lifetime.induct)
  case (start now t clock ch)
  have "logged x (p_agentId policy) (entries store0)
      \<lparr>lf_dep = start_guard x ops None clock policy config store0 ch, lf_paid = [], lf_now = t\<rparr>"
    using assms(2) by (simp add: logged_def)
  from restart_counts [OF this assms(3-5)] clock_within_bounds [OF start(1)] assms(4) show ?case
    by (simp add: capped_def) (simp add: start_guard_evaluator new_evaluator_def)
next
  case (execute L d t ce req res handed st)
  then show ?case using execute_capped [OF execute.IH assms(5) execute.hyps(3,4) assms(6)] by simp
next
  case (evaluate L d t clock req)
  from this(4) show ?case by (rule capped_later) (use evaluate in \<open>simp_all add: evaluate_frame\<close>)
next
  case (reset L d)
  from this(3) show ?case
    by (rule capped_later) (use reset in \<open>simp_all add: AgentGuard_resetCircuitBreaker_def split: option.splits\<close>)
next
  case (anchor_now L env t)
  from this(4) show ?case
    by (rule capped_later) (use anchor_now in \<open>simp_all add: AgentGuard_anchorNow_def split: prod.splits\<close>)
next
  case (anchor_audit L env t)
  from this(5) show ?case
    by (rule capped_later) (use anchor_audit in \<open>simp_all add: AgentGuard_anchorAudit_def split: prod.splits\<close>)
next
  case (reconcile L)
  from this(2) show ?case
    by (rule capped_later) (use reconcile in \<open>simp_all add: AgentGuard_reconcileAudit_def split: prod.splits\<close>)
next
  case (restart L d t clock)
  note bounds = clock_within_bounds [OF restart(3)]
  let ?L = "L\<lparr>lf_dep := start_guard x ops None clock policy config (gs_store (dp_state d)) (dp_chain d), lf_now := t\<rparr>"
  have "paid_since weight (since u) (lf_paid L) \<le> meter (gs_evaluator (dp_state (lf_dep ?L))) u" if "t \<le> u" for u
    using restart_counts [OF lifetime_logged [OF restart(1) assms(2)] assms(3-5) bounds(6)] bounds(7) that restart(2) by simp
  moreover have "paid_since weight (since t) (lf_paid L) \<le> max 0 lim"
    using restart(4) paid_since_mono [OF _ since_mono [OF bounds(1)], of "lf_paid L"] by (auto simp: capped_def)
  ultimately show ?case
    using restart(4) assms(4) by (simp add: capped_def) (simp add: start_guard_evaluator new_evaluator_def)
next
  case (chain L ch)
  from this(2) show ?case by (rule capped_later) simp_all
qed

end

context faithful_store
begin

lemma lifetime_sound:
  assumes "lifetime x ops lib policy config c operator store0 L" "inv store0" "batches_sound lib (x_kec x) (x_num x) ctx store0"
    and "gc_anchor config = Some c" "ac_committer c = Some operator" "AuditAnchorClient_leafContext c operator = Inr ctx"
    and "\<And>vs. lower (ml_root lib vs) = ml_root lib vs"
  shows "batches_sound lib (x_kec x) (x_num x) ctx (gs_store (dp_state (lf_dep L))) \<and> dp_logger (lf_dep L) = \<lparr>lg_client = Some c\<rparr>"
  using assms(1)
proof (induction rule: lifetime.induct)
  case (start now t clock ch)
  then show ?case using assms(3-5) by (simp add: AuditLogger_new_def)
next
  case (execute L d t ce req res handed st)
  have "inv (gs_store (dp_state d))" using lifetime_logged [OF execute(1) assms(2)] execute(2) by (simp add: logged_def)
  with execute(8) show ?case
    by (cases rule: execute_effect [OF execute(6,4,7)]) (use execute(2) in \<open>auto intro: insert_sound\<close>)
next
  case (evaluate L d t clock req)
  then show ?case by (simp add: evaluate_frame)
next
  case (reset L d)
  then show ?case by (simp add: AgentGuard_resetCircuitBreaker_def split: option.splits)
next
  case (anchor_now L env t)
  have "inv (gs_store (dp_state (lf_dep L)))" using lifetime_logged [OF anchor_now(1) assms(2)] by (simp add: logged_def)
  then show ?case
    using tick_sound [OF _ _ _ assms(5,6) _ _ assms(7), where w = "world_of (lf_dep L)" and lg = "dp_logger (lf_dep L)"]
      anchor_now(2,4)
    by (auto simp: AgentGuard_anchorNow_def split: prod.splits)
next
  case (anchor_audit L env t)
  let ?s = "gs_store (dp_state (lf_dep L))"
  have inv: "inv ?s" using lifetime_logged [OF anchor_audit(1) assms(2)] by (simp add: logged_def)
  have "i < int (getBatchCount (fe_before env (dp_chain (lf_dep L))) (lower operator))"
    if r: "r \<in> set (rows ?s)" "sr_batchIndex r = Some i" for r i
  proof -
    obtain mr where "batch_pair r = Some (i, mr)" using anchor_audit(5) r by (auto simp: batches_sound_def batch_pair_def)
    then have "(i, mr) \<in> set (so_anchoredBatches ops ?s)" using anchoredBatches_rows [OF inv] r(1) by blast
    then show ?thesis using anchor_audit(3) by (auto simp: tags_reached_def list_all_iff)
  qed
  then show ?case
    using flush_sound [OF _ _ _ assms(5,6), where w = "world_of (lf_dep L)" and lg = "dp_logger (lf_dep L)"]
      anchor_audit(2,5) inv
    by (auto simp: AgentGuard_anchorAudit_def split: prod.splits)
next
  case (reconcile L)
  have "inv (gs_store (dp_state (lf_dep L)))" using lifetime_logged [OF reconcile(1) assms(2)] by (simp add: logged_def)
  then have "batches_sound lib (x_kec x) (x_num x) ctx (w_store w')"
    if "AuditLogger_reconcile ops (dp_logger (lf_dep L)) (world_of (lf_dep L)) = (out, w')" for out w'
    using that reconcile_effect [OF _ _ _ assms(5), where w = "world_of (lf_dep L)" and lg = "dp_logger (lf_dep L)"] reconcile(2)
    by (cases out) (auto simp: AuditLogger_reconcile_def AuditAnchorClient_operatorAddress_def assms(5) split: prod.splits)
  then show ?case using reconcile(2) by (simp add: AgentGuard_reconcileAudit_def split: prod.splits)
next
  case (restart L d t clock)
  then show ?case using assms(4,5) by (simp add: AuditLogger_new_def)
next
  case (chain L ch)
  then show ?case by simp
qed

end

section \<open>The two stores, the two kinds of window\<close>

definition cap_durable :: "spend_cap_rule \<Rightarrow> policy \<Rightarrow> bool" where
  "cap_durable r p \<longleftrightarrow> SpendCap r \<in> set (p_rules p) \<and> (sc_window r = Hour \<or> sc_window r = Day)"

definition limit_durable :: "rate_limit_rule \<Rightarrow> policy \<Rightarrow> bool" where
  "limit_durable r p \<longleftrightarrow> RateLimit r \<in> set (p_rules p) \<and> rl_windowSeconds r \<le> 86400"

interpretation spend_window: durable_meter "\<lambda>ev. windowedSpend ev (sc_window r) (sc_token r)" "cap_weight r"
  "window_start (sc_window r)" "sc_maxAmount r" "cap_durable r" pu for r pu
proof unfold_locales
  show "windowedSpend (PolicyEvaluator_hydrate es t0 (new_evaluator p)) (sc_window r) (sc_token r) t =
      sum_list (map (\<lambda>e. cap_weight r (e_request e)) (filter (\<lambda>e. window_start (sc_window r) t < e_timestamp e) es))"
    if "cap_durable r p" "t0 \<le> t" for p t0 t es
  proof -
    have "sum_list (map (\<lambda>e. r_amount (e_request e)) (filter (\<lambda>e. lower (r_token (e_request e)) = lower (sc_token r) \<and> P e) es)) =
        sum_list (map (\<lambda>e. cap_weight r (e_request e)) (filter P es))" for P
      by (induction es) (simp_all add: cap_weight_def)
    then show ?thesis using that windowedSpend_hydrate [of "sc_window r" t0 t es p "sc_token r"] by (simp add: cap_durable_def)
  qed
  show "windowedSpend ev (sc_window r) (sc_token r) t + cap_weight r req \<le> sc_maxAmount r"
    if "cap_durable r (ev_policy ev)" "\<not> blocks (PolicyEvaluator_evaluate pu ev req t)" "cap_weight r req \<noteq> 0" for ev req t
    using not_blocked_within_cap [OF that(2), of r] that(1,3) by (auto simp: cap_durable_def cap_weight_def split: if_splits)
qed (auto simp: cap_durable_def window_start_def HOUR_MS_def DAY_MS_def windowedSpend_observe cap_weight_def)

interpretation rate_window: durable_meter "\<lambda>ev t. recentPaymentCount ev t (rl_windowSeconds r)" "\<lambda>req. 1"
  "\<lambda>t. t - rl_windowSeconds r * 1000" "rl_maxPayments r" "limit_durable r" pu for r pu
proof unfold_locales
  show "recentPaymentCount (PolicyEvaluator_hydrate es t0 (new_evaluator p)) t (rl_windowSeconds r) =
      sum_list (map (\<lambda>e. 1) (filter (\<lambda>e. t - rl_windowSeconds r * 1000 < e_timestamp e) es))"
    if "limit_durable r p" "t0 \<le> t" for p t0 t es
    using that recentPaymentCount_hydrate [of "rl_windowSeconds r" t0 t es p]
    by (simp add: limit_durable_def map_replicate_const sum_list_replicate)
qed (auto simp: limit_durable_def DAY_MS_def recentPaymentCount_observe dest: not_blocked_within_rate)

interpretation sqlite_spend: durable_guard "sqlite_ops fu" "\<lambda>t. t" sqlite_inv "fresh_row fu" fu
  "\<lambda>ev. windowedSpend ev (sc_window r) (sc_token r)" "cap_weight r" "window_start (sc_window r)" "sc_maxAmount r" "cap_durable r" pu
  for fu r pu
  by unfold_locales

interpretation sqlite_rate: durable_guard "sqlite_ops fu" "\<lambda>t. t" sqlite_inv "fresh_row fu" fu
  "\<lambda>ev t. recentPaymentCount ev t (rl_windowSeconds r)" "\<lambda>req. 1" "\<lambda>t. t - rl_windowSeconds r * 1000" "rl_maxPayments r"
  "limit_durable r" pu for fu r pu
  by unfold_locales

section \<open>Properties\<close>

text \<open>
  C3. The policy's caps outlive the process: in every life of a guard that hydrates over a day at least, through
  any executions, evaluations, resets, restarts, anchoring and reorganisations of the chain, at any time the sum of
  the settled payments in the window of an hour or day cap is below the cap, and the number of those in the window
  of a rate limit of a day at most is below the limit. The log is empty at the start of the life.
\<close>

theorem caps_outlive_restarts:
  assumes "lifetime x (sqlite_ops fu) lib policy config c operator [] L" "remembers config"
  shows "list_all (\<lambda>rule. case rule of
       SpendCap r \<Rightarrow> if sc_window r = Hour \<or> sc_window r = Day
         then paid_since (cap_weight r) (window_start (sc_window r) (lf_now L)) (lf_paid L) \<le> max 0 (sc_maxAmount r)
         else True
     | RateLimit r \<Rightarrow> if rl_windowSeconds r \<le> 86400
         then paid_since (\<lambda>req. 1) (lf_now L - rl_windowSeconds r * 1000) (lf_paid L) \<le> max 0 (rl_maxPayments r)
         else True
     | _ \<Rightarrow> True) (p_rules policy)" (is "list_all ?P _")
proof -
  have spend: "paid_since (cap_weight r) (window_start (sc_window r) (lf_now L)) (lf_paid L) \<le> max 0 (sc_maxAmount r)"
    if "SpendCap r \<in> set (p_rules policy)" "sc_window r = Hour \<or> sc_window r = Day" for r
    using sqlite_spend.lifetime_capped [OF assms(1) _ _ assms(2) _ refl, of r] that
    by (simp add: sqlite_spend.capped_def cap_durable_def sqlite_inv_def)
  have rate: "paid_since (\<lambda>req. 1) (lf_now L - rl_windowSeconds r * 1000) (lf_paid L) \<le> max 0 (rl_maxPayments r)"
    if "RateLimit r \<in> set (p_rules policy)" "rl_windowSeconds r \<le> 86400" for r
    using sqlite_rate.lifetime_capped [OF assms(1) _ _ assms(2) _ refl, of r] that
    by (simp add: sqlite_rate.capped_def limit_durable_def sqlite_inv_def)
  have "?P rule" if "rule \<in> set (p_rules policy)" for rule
    by (cases rule) (use that spend rate in \<open>simp_all only: policy_rule.case split: if_split, blast+\<close>)
  then show ?thesis by (simp add: list_all_iff)
qed

text \<open>
  C17. The log is append-only and complete: whatever a guard does after its start on a store, the entries that were
  there are unchanged and come first; behind them are entries of its agent whose hash matches, and the settled ones
  among these are the settled payments, one each and in order, dated no earlier than their settlement.
\<close>

theorem log_is_complete:
  assumes "lifetime x (sqlite_ops fu) lib policy config c operator store0 L" "sqlite_inv store0"
  shows "let log = map sr_entry (gs_store (dp_state (lf_dep L))); new = drop (length store0) log
     in take (length store0) log = map sr_entry store0 \<and>
        list_all (\<lambda>e. entry_intact x e \<and> e_agentId e = p_agentId policy) new \<and>
        list_all2 (entry_pays (lf_now L)) (filter settled new) (lf_paid L)"
  using sqlite_log.lifetime_logged [OF assms] by (auto simp: sqlite_log.logged_def)

text \<open>
  C10. What is anchored can be proved: in a life that began with an empty log, after a cycle of \<open>anchorNow\<close> that
  anchored a batch, every entry of the log has a proof that the contract accepts, with the hash that is stored, and
  the settled entries are all the payments that were ever settled, whatever reorganisations and restarts came
  before. Roots are written in lower case, and the tree of at most as many leaves as the log has entries proves them.
\<close>

theorem anchored_log_is_provable:
  assumes "lifetime x (sqlite_ops fu) lib policy config c operator [] L"
    and "gc_anchor config = Some c" "ac_committer c = Some operator" "AuditAnchorClient_leafContext c operator = Inr ctx"
    and "AgentGuard_anchorNow lib x (sqlite_ops fu) env (lf_dep L) = (Some (Some res), d)"
    and "flush_alone c (lower operator) env (dp_chain (lf_dep L))"
    and "\<And>vs. lower (ml_root lib vs) = ml_root lib vs"
    and "\<And>vs. length vs \<le> length (gs_store (dp_state d)) \<Longrightarrow> proofs_lead_to_root lib vs"
  shows "let log = AuditLogger_list (sqlite_ops fu) None (gs_store (dp_state d))
     in list_all (\<lambda>e. case AuditLogger_proofFor lib (x_kec x) (x_num x) (sqlite_ops fu) (e_id e) ctx (gs_store (dp_state d)) of
            None \<Rightarrow> False
          | Some p \<Rightarrow> proof_verifies lib ctx (dp_chain d) p \<and> ep_entryHash p = e_entryHash e \<and> ep_storedHashMatches p) log \<and>
        list_all2 (entry_pays (lf_now L)) (filter settled log) (lf_paid L)"
proof -
  let ?s = "gs_store (dp_state (lf_dep L))" and ?s' = "gs_store (dp_state d)"
  obtain w where w: "AuditLogger_anchorTick lib (x_kec x) (x_num x) (sqlite_ops fu) (dp_logger (lf_dep L)) env
      (world_of (lf_dep L)) = (Some (Some res), w)" "?s' = w_store w" "dp_chain d = w_chain w"
    using assms(5) by (auto simp: AgentGuard_anchorNow_def split: prod.splits)
  have log: "sqlite_inv ?s" "list_all (\<lambda>e. entry_intact x e \<and> e_agentId e = p_agentId policy) (map sr_entry ?s)"
    "list_all2 (entry_pays (lf_now L)) (filter settled (map sr_entry ?s)) (lf_paid L)"
    using sqlite_log.lifetime_logged [OF assms(1)] by (auto simp: sqlite_log.logged_def sqlite_inv_def)
  have same: "sqlite_inv ?s'" "map sr_entry ?s' = map sr_entry ?s"
    using sqlite_log.tick_entries [OF w(1)] log(1) assms(6) w(2) by (simp_all add: flush_alone_def)
  have "sqlite_log.batches_sound fu lib (x_kec x) (x_num x) ctx ?s \<and> dp_logger (lf_dep L) = \<lparr>lg_client = Some c\<rparr>"
    using sqlite_log.lifetime_sound [OF assms(1) _ _ assms(2-4,7)]
    by (simp add: sqlite_log.batches_sound_def sqlite_inv_def)
  then have tick: "sqlite_log.batches_sound fu lib (x_kec x) (x_num x) ctx ?s'"
    "sqlite_log.on_chain (an_batches (dp_chain d) (lower operator)) ?s'" "so_unbatched (sqlite_ops fu) ?s' = []"
    using sqlite_log.tick_sound [OF w(1) _ _ assms(3,4) _ _ assms(7)] log(1) assms(6) w(2,3) by auto
  have op: "lc_operator ctx = operator" using assms(4) by (auto simp: AuditAnchorClient_leafContext_def split: sum.splits)
  have all: "AuditLogger_list (sqlite_ops fu) None ?s' = map sr_entry ?s'"
    by (simp add: AuditLogger_list_def sqlite.list_rows [OF same(1)] agent_selected_def)
  have "\<exists>p. AuditLogger_proofFor lib (x_kec x) (x_num x) (sqlite_ops fu) (e_id e) ctx ?s' = Some p \<and>
      proof_verifies lib ctx (dp_chain d) p \<and> ep_entryHash p = e_entryHash e \<and> ep_storedHashMatches p"
    if e: "e \<in> set (map sr_entry ?s')" for e
  proof (rule sqlite_log.on_chain_provable [OF _ tick(1) same(1) tick(3) _ e])
    show "recomputeEntryHash (x_kec x) (x_num x) e = e_entryHash e"
      using e same(2) log(2) by (auto simp: list_all_iff entry_intact_def)
  qed (use tick(2) op assms(8) in simp_all)
  then show ?thesis using log(3) same(2) by (fastforce simp: Let_def all list_all_iff)
qed

section \<open>Payments that a restart forgets\<close>

text \<open>A call writes to the log in its last step only, and it has handed its payload over before it learns.\<close>

fun handed_over_by :: "phase \<Rightarrow> bool" where
  "handed_over_by (Learning d r) = True"
| "handed_over_by (Recording d r) = True"
| "handed_over_by _ = False"

fun is_finished :: "phase \<Rightarrow> bool" where
  "is_finished (Finished res) = True"
| "is_finished _ = False"

lemma unfinished_step:
  assumes "call_step x ops g ce req ph st = (ph', hs, st')" "\<not> is_finished ph'"
  shows "gs_store st' = gs_store st" "\<not> is_finished ph" "handed_over_by ph' \<Longrightarrow> handed_over_by ph \<or> hs \<noteq> []"
  using assms
  by (cases ph; auto simp: record_on_breaker_def dest: facilitator_urls_called
      split: prod.splits sum.splits option.splits if_splits)+

lemma unfinished_run:
  assumes "call_run x ops g ce req n (ph, hs, st) = (ph', hs', st')" "\<not> is_finished ph'" "handed_over_by ph \<Longrightarrow> hs \<noteq> []"
  shows "gs_store st' = gs_store st \<and> (handed_over_by ph' \<longrightarrow> hs' \<noteq> [])"
  using assms
proof (induction n arbitrary: ph hs st)
  case (Suc n)
  obtain ph1 hs1 st1 where one: "call_step x ops g ce req ph st = (ph1, hs1, st1)" by (metis prod_cases3)
  have rest: "call_run x ops g ce req n (ph1, hs @ hs1, st1) = (ph', hs', st')" using Suc.prems(1) one by simp
  have "\<not> is_finished ph1"
    using rest Suc.prems(2) by (cases ph1) (auto simp: call_run_finished)
  from unfinished_step [OF one this] show ?case using Suc.IH [OF rest Suc.prems(2)] Suc.prems(3) by auto
qed auto

text \<open>
  The entry is written after the settlement: when the process ends between the two, the payload has been handed over
  and the facilitator has answered, but a guard started on the log that is left is the one started on the log of before.
\<close>

theorem crash_forgets_settlement:
  assumes "call_run x ops g ce req n (Started, [], st) = (Recording d r, handed, st')"
  shows "handed \<noteq> [] \<and>
     start_guard x ops failure clock policy config (gs_store st') ch = start_guard x ops failure clock policy config (gs_store st) ch"
  using unfinished_run [OF assms] by simp

text \<open>No step of a call looks at the guard's own agent.\<close>

lemma own_agent_unused:
  "breaker_open (g\<lparr>ag_agentId := a\<rparr>) = breaker_open g" "layered_decision x (g\<lparr>ag_agentId := a\<rparr>) = layered_decision x g"
  "record_on_breaker (g\<lparr>ag_agentId := a\<rparr>) = record_on_breaker g" "facilitator_settle (g\<lparr>ag_agentId := a\<rparr>) = facilitator_settle g"
  "settlement_of (g\<lparr>ag_agentId := a\<rparr>) = settlement_of g" "ag_onEscalation (g\<lparr>ag_agentId := a\<rparr>) = ag_onEscalation g"
  by (simp_all add: fun_eq_iff breaker_open_def layered_decision_def record_on_breaker_def facilitator_settle_def
      settlement_of_def split: option.split list.split)

lemma evaluate_ignores_own_agent: "AgentGuard_evaluate x (g\<lparr>ag_agentId := a\<rparr>) = AgentGuard_evaluate x g"
  unfolding AgentGuard_evaluate_def own_agent_unused ..

lemma runGuard_ignores_own_agent: "AgentGuard_runGuard x (g\<lparr>ag_agentId := a\<rparr>) = AgentGuard_runGuard x g"
  unfolding AgentGuard_runGuard_def own_agent_unused evaluate_ignores_own_agent ..

lemma execute_ignores_own_agent: "AgentGuard_execute x ops (g\<lparr>ag_agentId := a\<rparr>) = AgentGuard_execute x ops g"
  unfolding AgentGuard_execute_def own_agent_unused runGuard_ignores_own_agent ..

text \<open>
  An entry is filed under the agent that the request names, which no check compares with the guard's: when they
  differ, the guard that settled the payment counts it until it is restarted, and the restarted guard's windows and
  counterparties are those of the log without it.
\<close>

theorem restart_forgets_foreign_requests:
  assumes "AgentGuard_execute x (sqlite_ops fu) g ce req st = (Inr r, handed, st')" "quiet ce" "ex_executed r"
    and "r_agentId req \<noteq> p_agentId policy" "remembers config"
  shows "gs_evaluator st' = PolicyEvaluator_observe req (ce_clock ce 5) (gs_evaluator st) \<and>
     gs_evaluator (dp_state (start_guard x (sqlite_ops fu) None clock policy config (gs_store st') ch)) =
     gs_evaluator (dp_state (start_guard x (sqlite_ops fu) None clock policy config (gs_store st) ch))"
  using assms(1,2) sum.distinct(2) [of r Ge_store]
proof (cases rule: execute_effect)
  case (returned q)
  then have q: "q = r" by simp
  let ?e = "new_entry (x_kec x) (x_num x) (ce_uuid ce) (ce_clock ce 6) req (ex_decision r) (ex_settlement r)"
  have "gs_store st' = gs_store st @ [fresh_row fu ?e]"
    using returned(2) unfolding q by (simp add: sqlite_ops_def Sqlite_insert_def split: if_splits)
  then have "so_listSince (sqlite_ops fu) (p_agentId policy) t (gs_store st') =
      so_listSince (sqlite_ops fu) (p_agentId policy) t (gs_store st)" for t
    using assms(4) by (simp add: sqlite_ops_def Sqlite_listSince_def fresh_row_def new_entry_def)
  then show ?thesis using returned(4) assms(3) by (simp add: start_guard_evaluator [OF assms(5)] q)
qed simp_all

section \<open>Examples\<close>

text \<open>A guard with a day cap and a rate limit that anchors at \<open>0xop\<close>; it settles one payment, which both then forbid again.\<close>

definition ex_life_policy :: policy where
  "ex_life_policy = (fst ex_policy_config)\<lparr>p_rules := [SpendCap ex_day_cap, RateLimit ex_minute_limit]\<rparr>"

definition ex_life_config :: guard_config where
  "ex_life_config = (snd ex_policy_config)\<lparr>gc_facilitatorUrl := Some ''f'', gc_facilitatorFallbackUrls := Some [''g''],
     gc_anchor := Some ex_client\<rparr>"

definition ex_start :: "sqlite deployment" where
  "ex_start = start_guard ex_externals (sqlite_ops (\<lambda>n. ''?'')) None (\<lambda>i. 1000) ex_life_policy ex_life_config [] new_anchor"

abbreviation ex_life :: "sqlite life \<Rightarrow> bool" where
  "ex_life \<equiv> lifetime ex_externals (sqlite_ops (\<lambda>n. ''?'')) ex_lib ex_life_policy ex_life_config ex_client ''0xop'' []"

lemma ex_start_simps:
  "dp_guard ex_start = ex_agent" "dp_state ex_start = ex_busy_state" "dp_chain ex_start = new_anchor"
  "dp_logger ex_start = \<lparr>lg_client = Some ex_client\<rparr>" "dp_anchoring ex_start = False"
  by (simp_all add: ex_start_def start_guard_def AgentGuard_create_def AgentGuard_new_def AgentGuard_hydrate_def Let_def
      ex_life_policy_def ex_life_config_def ex_policy_config_def AuditLogger_listSince_def sqlite_ops_def Sqlite_listSince_def
      ex_agent_def ex_guard_def ex_busy_state_def ex_state_def fresh_guard_def AuditLogger_new_def ex_client_def
      escalation_of_def resolveGuardLLMConfig_def)

lemma ex_life_remembers: "remembers ex_life_config"
  by (simp add: remembers_def lookback_of_def ex_life_config_def ex_policy_config_def DEFAULT_HYDRATE_LOOKBACK_MS_def DAY_MS_def)

lemma ex_clock: "clock_within a b (\<lambda>i. 1000) \<longleftrightarrow> a \<le> 1000 \<and> 1000 \<le> b"
  by (simp add: clock_within_def map_replicate_const)

lemma ex_busy_executes:
  "\<exists>r handed e st'. AgentGuard_execute ex_externals (sqlite_ops (\<lambda>n. ''?'')) ex_agent (ex_call ex_failover) ex_order ex_busy_state =
     (Inr r, handed, st') \<and> ex_executed r \<and> gs_store st' = [fresh_row (\<lambda>n. ''?'') e] \<and>
     gs_evaluator st' = PolicyEvaluator_observe ex_order 1000 (gs_evaluator ex_busy_state)"
proof -
  obtain d where d: "AgentGuard_evaluate ex_externals ex_agent (\<lambda>i. 1000) ex_order ex_busy_state = (d, ex_busy_state)"
    "d_verdict d = Allow" using ex_busy_allowed by blast
  obtain rq where rq: "prepare_payment ex_externals (ex_call ex_failover) ex_order = Inr (ex_payload, rq)"
    using ex_prepared by blast
  have "facilitator_settle ex_agent (ex_call ex_failover) ex_payload rq = (Inr ex_paid_response, [''f'', ''g''])"
    by (simp add: facilitator_settle_def ex_agent_def ex_call_def ex_failover_def FailoverFacilitatorClient_settle_def
        FailoverFacilitatorClient_tryAll_def)
  moreover have "record_on_breaker ex_agent d t st = st" for t and st :: "sqlite guard_state"
    by (simp add: record_on_breaker_def ex_agent_def ex_guard_def AgentGuard_new_def ex_policy_config_def)
  moreover have "ce_clock (ex_call ex_failover) = (\<lambda>i. 1000)" "ce_during_llm (ex_call ex_failover) = id"
    "ce_during_settlement (ex_call ex_failover) = id" "st_success ex_paid_response"
    by (simp_all add: ex_call_def ex_paid_response_def)
  moreover have "gs_store ex_busy_state = []" by (simp add: ex_busy_state_def ex_state_def fresh_guard_def AgentGuard_new_def)
  ultimately show ?thesis
    using d rq
    by (auto simp: AgentGuard_execute_def AgentGuard_runGuard_def Let_def audit_record_def AuditLogger_record_def sqlite_ops_def
        Sqlite_insert_def observe_settled_def)
qed

lemma ex_paid_life:
  "\<exists>d e. ex_life \<lparr>lf_dep = d, lf_paid = [(1000, ex_order)], lf_now = 1000\<rparr> \<and> gs_store (dp_state d) = [fresh_row (\<lambda>n. ''?'') e] \<and>
     dp_chain d = new_anchor \<and> dp_logger d = \<lparr>lg_client = Some ex_client\<rparr> \<and> dp_anchoring d = False \<and>
     gs_evaluator (dp_state d) = PolicyEvaluator_observe ex_order 1000 (gs_evaluator ex_busy_state)"
proof -
  obtain r handed e st' where x: "AgentGuard_execute ex_externals (sqlite_ops (\<lambda>n. ''?'')) ex_agent (ex_call ex_failover) ex_order
      ex_busy_state = (Inr r, handed, st')" "ex_executed r" "gs_store st' = [fresh_row (\<lambda>n. ''?'') e]"
    "gs_evaluator st' = PolicyEvaluator_observe ex_order 1000 (gs_evaluator ex_busy_state)"
    using ex_busy_executes by blast
  have "ex_life \<lparr>lf_dep = ex_start, lf_paid = [], lf_now = 1000\<rparr>"
    unfolding ex_start_def by (rule lifetime.start [of 1000]) (simp add: ex_clock)
  from lifetime.execute [OF this refl, of 1000 "ex_call ex_failover" ex_order "Inr r" handed st'] x
  have "ex_life \<lparr>lf_dep = ex_start\<lparr>dp_state := st'\<rparr>, lf_paid = [(1000, ex_order)], lf_now = 1000\<rparr>"
    using ex_quiet [of ex_failover]
    by (simp add: ex_start_simps executed_result_def ex_clock ex_call_def ex_order_def ex_life_policy_def ex_policy_config_def)
  then show ?thesis using x(3,4) by (intro exI conjI) (auto simp: ex_start_simps)
qed

theorem caps_outlive_restarts_witness:
  "\<exists>d. ex_life \<lparr>lf_dep = d, lf_paid = [(1000, ex_order)], lf_now = 1000\<rparr> \<and>
     paid_since (cap_weight ex_day_cap) (1000 - DAY_MS) [(1000, ex_order)] = 5 \<and>
     paid_since (cap_weight ex_day_cap) (1000 - DAY_MS) [(1000, ex_order)] \<le> max 0 (sc_maxAmount ex_day_cap)"
proof -
  obtain d where d: "ex_life \<lparr>lf_dep = d, lf_paid = [(1000, ex_order)], lf_now = 1000\<rparr>" using ex_paid_life by blast
  have "ex_life (\<lparr>lf_dep = d, lf_paid = [(1000, ex_order)], lf_now = 1000\<rparr>\<lparr>lf_dep :=
      start_guard ex_externals (sqlite_ops (\<lambda>n. ''?'')) None (\<lambda>i. 1000) ex_life_policy ex_life_config (gs_store (dp_state d))
        (dp_chain d), lf_now := 1000\<rparr>)"
    using lifetime.restart [OF d refl, of 1000 "\<lambda>i. 1000"] by (simp add: ex_clock)
  then obtain d' where d': "ex_life \<lparr>lf_dep = d', lf_paid = [(1000, ex_order)], lf_now = 1000\<rparr>" by auto
  from caps_outlive_restarts [OF d' ex_life_remembers]
  have "paid_since (cap_weight ex_day_cap) (1000 - DAY_MS) [(1000, ex_order)] \<le> max 0 (sc_maxAmount ex_day_cap)"
    by (auto simp: ex_life_policy_def ex_day_cap_def window_start_def DAY_MS_def)
  moreover have "paid_since (cap_weight ex_day_cap) (1000 - DAY_MS) [(1000, ex_order)] = 5"
    by (simp add: cap_weight_def ex_day_cap_def ex_order_def DAY_MS_def)
  ultimately show ?thesis using d' by blast
qed

lemma paid_once: "list_all2 (entry_pays t) es [(u, req)] \<Longrightarrow> map e_request es = [req]"
  by (cases es) (simp_all add: entry_pays_def)

theorem log_is_complete_witness:
  "\<exists>d. ex_life \<lparr>lf_dep = d, lf_paid = [(1000, ex_order)], lf_now = 1000\<rparr> \<and>
     map e_request (filter settled (map sr_entry (gs_store (dp_state d)))) = [ex_order]"
proof -
  obtain d where d: "ex_life \<lparr>lf_dep = d, lf_paid = [(1000, ex_order)], lf_now = 1000\<rparr>" using ex_paid_life by blast
  have "list_all2 (entry_pays 1000) (filter settled (map sr_entry (gs_store (dp_state d)))) [(1000, ex_order)]"
    using log_is_complete [OF d] by (simp add: sqlite_inv_def Let_def)
  then have "map e_request (filter settled (map sr_entry (gs_store (dp_state d)))) = [ex_order]" by (rule paid_once)
  with d show ?thesis by (intro exI conjI)
qed

lemma ex_tick:
  "\<exists>res w'. AuditLogger_anchorTick ex_lib kec num (sqlite_ops fu) \<lparr>lg_client = Some ex_client\<rparr> ex_env
     \<lparr>w_store = [fresh_row fu e], w_chain = new_anchor, w_anchoring = False, w_timer = t\<rparr> = (Some (Some res), w')"
proof -
  have op: "AuditAnchorClient_operatorAddress ex_client = Inr ''0xop''"
    by (simp add: AuditAnchorClient_operatorAddress_def ex_client_def)
  have rows: "so_unbatched (sqlite_ops fu) [fresh_row fu e] = [as_stored fu e]" "so_anchoredBatches (sqlite_ops fu) [fresh_row fu e] = []"
    by (simp_all add: sqlite_ops_def Sqlite_unbatched_def Sqlite_anchoredBatches_def fresh_row_def batch_pair_def List.map_filter_simps)
  have commit: "AuditAnchorClient_commit ex_client ZERO_ROOT (ex_root (CHR ''a'')) 1 (fe_tx ex_env) new_anchor =
      (Some (Inr \<lparr>cr_txHash = ''0xt'', cr_batchIndex = 0, cr_root = ex_root (CHR ''a'')\<rparr>),
       snd (snd (projr (commitBatch ''0xop'' 7 ZERO_ROOT (ex_root (CHR ''a'')) 1 new_anchor))))"
    using ex_root_nonzero
    by (simp add: AuditAnchorClient_commit_def ex_client_def getChain_def CHAINS_def ex_lower commitBatch_def new_anchor_def Let_def
        AuditAnchorClient_awaitDurable_def ex_env_def ex_tx_def)
  have mr: "fst (MerkleAuditBatch_root ex_lib (batch_of kec num ctx [as_stored fu e])) = ex_root (CHR ''a'')" for ctx
    by (simp add: root_batch_of ex_lib_def)
  have heads: "AuditAnchorClient_head new_anchor ''0xop'' = ZERO_ROOT" "fe_before ex_env = (\<lambda>s. s)"
    by (simp_all add: AuditAnchorClient_head_def new_anchor_def ex_env_def)
  show ?thesis
    using commit
    by (simp add: AuditLogger_anchorTick_def AuditLogger_reconcile_def AuditLogger_flush_def op rows Let_def ex_leafContext mr heads)
qed

theorem anchored_log_is_provable_witness:
  "\<exists>L res d. ex_life L \<and> AgentGuard_anchorNow ex_lib ex_externals (sqlite_ops (\<lambda>n. ''?'')) ex_env (lf_dep L) = (Some (Some res), d) \<and>
     list_all (\<lambda>e. case AuditLogger_proofFor ex_lib (x_kec ex_externals) (x_num ex_externals) (sqlite_ops (\<lambda>n. ''?'')) (e_id e) ex_ctx
         (gs_store (dp_state d)) of None \<Rightarrow> False | Some p \<Rightarrow> proof_verifies ex_lib ex_ctx (dp_chain d) p)
       (AuditLogger_list (sqlite_ops (\<lambda>n. ''?'')) None (gs_store (dp_state d))) \<and>
     map e_request (filter settled (AuditLogger_list (sqlite_ops (\<lambda>n. ''?'')) None (gs_store (dp_state d)))) = [ex_order]"
proof -
  obtain d0 e where d0: "ex_life \<lparr>lf_dep = d0, lf_paid = [(1000, ex_order)], lf_now = 1000\<rparr>"
    "gs_store (dp_state d0) = [fresh_row (\<lambda>n. ''?'') e]" "dp_chain d0 = new_anchor" "dp_logger d0 = \<lparr>lg_client = Some ex_client\<rparr>"
    "dp_anchoring d0 = False" using ex_paid_life by blast
  obtain res w' where "AuditLogger_anchorTick ex_lib (x_kec ex_externals) (x_num ex_externals) (sqlite_ops (\<lambda>n. ''?''))
      \<lparr>lg_client = Some ex_client\<rparr> ex_env (world_of d0) = (Some (Some res), w')"
    using ex_tick [of "x_kec ex_externals" "x_num ex_externals" "\<lambda>n. ''?''" e "dp_timer d0"] d0 by (auto simp: world_of_def)
  then obtain d where d: "AgentGuard_anchorNow ex_lib ex_externals (sqlite_ops (\<lambda>n. ''?'')) ex_env d0 = (Some (Some res), d)"
    using d0(4) by (simp add: AgentGuard_anchorNow_def)
  have "lower (ex_root (CHR ''a'')) = ex_root (CHR ''a'')" by code_simp
  then have lib: "lower (ml_root ex_lib vs) = ml_root ex_lib vs" "proofs_lead_to_root ex_lib vs" for vs
    by (simp_all add: ex_lib_def proofs_lead_to_root_def)
  have alone: "flush_alone ex_client (lower ''0xop'') ex_env new_anchor"
    by (simp add: flush_alone_def ex_env_def ex_tx_def chain_ok_def new_anchor_def fun_eq_iff)
  let ?log = "AuditLogger_list (sqlite_ops (\<lambda>n. ''?'')) None (gs_store (dp_state d))"
  have all: "list_all (\<lambda>e. case AuditLogger_proofFor ex_lib (x_kec ex_externals) (x_num ex_externals) (sqlite_ops (\<lambda>n. ''?'')) (e_id e) ex_ctx
         (gs_store (dp_state d)) of None \<Rightarrow> False
       | Some p \<Rightarrow> proof_verifies ex_lib ex_ctx (dp_chain d) p \<and> ep_entryHash p = e_entryHash e \<and> ep_storedHashMatches p) ?log \<and>
     list_all2 (entry_pays 1000) (filter settled ?log) [(1000, ex_order)]"
    using anchored_log_is_provable [OF d0(1), of ex_ctx ex_env res d] d d0(3) alone lib
    by (simp add: ex_life_config_def ex_client_def [THEN arg_cong [of _ _ ac_committer]] ex_leafContext ex_ctx_def Let_def)
  then have "map e_request (filter settled ?log) = [ex_order]" using paid_once by blast
  moreover have "list_all (\<lambda>e. case AuditLogger_proofFor ex_lib (x_kec ex_externals) (x_num ex_externals) (sqlite_ops (\<lambda>n. ''?'')) (e_id e)
      ex_ctx (gs_store (dp_state d)) of None \<Rightarrow> False | Some p \<Rightarrow> proof_verifies ex_lib ex_ctx (dp_chain d) p) ?log"
    using all by (auto simp: list_all_iff split: option.splits)
  moreover have "AgentGuard_anchorNow ex_lib ex_externals (sqlite_ops (\<lambda>n. ''?'')) ex_env
      (lf_dep \<lparr>lf_dep = d0, lf_paid = [(1000, ex_order)], lf_now = 1000\<rparr>) = (Some (Some res), d)" using d by simp
  ultimately show ?thesis using d0(1) by (intro exI conjI)
qed

theorem crash_forgets_settlement_witness:
  "\<exists>n d handed st'. call_run ex_externals (sqlite_ops (\<lambda>n. ''?'')) ex_agent (ex_call ex_failover) ex_order n
     (Started, [], ex_busy_state) = (Recording d ex_paid_response, handed, st') \<and> st_success ex_paid_response \<and> handed \<noteq> []"
proof -
  obtain d where d: "AgentGuard_evaluate ex_externals ex_agent (\<lambda>i. 1000) ex_order ex_busy_state = (d, ex_busy_state)"
    "d_verdict d = Allow" using ex_busy_allowed by blast
  have "ce_clock (ex_call ex_failover) = (\<lambda>i. 1000)" by (simp add: ex_call_def)
  then obtain n where "call_run ex_externals (sqlite_ops (\<lambda>n. ''?'')) ex_agent (ex_call ex_failover) ex_order n
      (Started, [], ex_busy_state) = (Decided d, [], ex_busy_state)"
    using call_run_evaluates [of ex_externals ex_agent "ex_call ex_failover"] d(1) by metis
  then obtain h where run: "call_run ex_externals (sqlite_ops (\<lambda>n. ''?'')) ex_agent (ex_call ex_failover) ex_order (n + 4)
      (Started, [], ex_busy_state) = (Recording d ex_paid_response, h, observe_settled ex_externals (\<lambda>i. 1000) ex_order ex_busy_state)"
    using ex_settles [OF d(2)] unfolding call_run_add by metis
  then have "h \<noteq> []" using crash_forgets_settlement by blast
  then show ?thesis using run by (auto simp: ex_paid_response_def)
qed

theorem restart_forgets_foreign_requests_witness:
  "\<exists>r handed st'. AgentGuard_execute ex_externals (sqlite_ops (\<lambda>n. ''?'')) (ex_agent\<lparr>ag_agentId := ''b''\<rparr>) (ex_call ex_failover)
     ex_order ex_busy_state = (Inr r, handed, st') \<and> ex_executed r \<and>
     gs_evaluator (dp_state (start_guard ex_externals (sqlite_ops (\<lambda>n. ''?'')) None (\<lambda>i. 1000) (ex_life_policy\<lparr>p_agentId := ''b''\<rparr>)
       ex_life_config (gs_store st') new_anchor)) =
     gs_evaluator (dp_state (start_guard ex_externals (sqlite_ops (\<lambda>n. ''?'')) None (\<lambda>i. 1000) (ex_life_policy\<lparr>p_agentId := ''b''\<rparr>)
       ex_life_config [] new_anchor))"
proof -
  obtain r handed st' where x: "AgentGuard_execute ex_externals (sqlite_ops (\<lambda>n. ''?'')) (ex_agent\<lparr>ag_agentId := ''b''\<rparr>)
      (ex_call ex_failover) ex_order ex_busy_state = (Inr r, handed, st')" "ex_executed r"
    using ex_busy_executes by (auto simp: execute_ignores_own_agent)
  have "r_agentId ex_order \<noteq> p_agentId (ex_life_policy\<lparr>p_agentId := ''b''\<rparr>)" by (simp add: ex_order_def)
  moreover have "gs_store ex_busy_state = []" by (simp add: ex_busy_state_def ex_state_def fresh_guard_def AgentGuard_new_def)
  ultimately show ?thesis
    using restart_forgets_foreign_requests [OF x(1) ex_quiet x(2) _ ex_life_remembers, of "ex_life_policy\<lparr>p_agentId := ''b''\<rparr>"] x by auto
qed

end
