(* ===== verification/Restart.thy ===== *)
theory Restart
  imports Lifetime
begin

text \<open>
  What a restart does to the decisions of the policy, in the lives of \<open>Lifetime\<close>. The running guard dates a payment
  when it observes it, the log dates it when its entry is written, a little later: so a guard that is rebuilt from
  the log counts every payment of the running one, some of them for longer, and has met no other counterparty. Whatever
  the running guard refuses the restarted one refuses, and what it escalates is escalated or refused.
\<close>

section \<open>Invariants of the evaluator and the log\<close>

context faithful_store
begin

text \<open>
  A relation between the evaluator, the log and the time holds along a life if a guard that starts on a log
  establishes it, if time passing keeps it, and if it survives an unsettled entry and a payment learnt and then logged.
\<close>

lemma lifetime_evaluator_invariant:
  assumes "lifetime x ops lib policy config c operator store0 L" "inv store0"
    and start: "\<And>s n t clock ch. inv s \<Longrightarrow> clock_within n t clock \<Longrightarrow>
      Q (gs_evaluator (dp_state (start_guard x ops None clock policy config s ch))) (entries s) t"
    and later: "\<And>ev es n n'. Q ev es n \<Longrightarrow> n \<le> n' \<Longrightarrow> Q ev es n'"
    and unpaid: "\<And>ev es n e. Q ev es n \<Longrightarrow> entry_intact x e \<Longrightarrow> \<not> settled e \<Longrightarrow> Q ev (es @ [e]) n"
    and paid: "\<And>ev es n e t. Q ev es n \<Longrightarrow> entry_intact x e \<Longrightarrow> settled e \<Longrightarrow> e_agentId e = p_agentId policy \<Longrightarrow>
      0 < r_amount (e_request e) \<Longrightarrow> n \<le> t \<Longrightarrow> t \<le> e_timestamp e \<Longrightarrow>
      Q (PolicyEvaluator_observe (e_request e) t ev) (es @ [e]) (e_timestamp e)"
  shows "inv (gs_store (dp_state (lf_dep L))) \<and>
     Q (gs_evaluator (dp_state (lf_dep L))) (entries (gs_store (dp_state (lf_dep L)))) (lf_now L)"
  using assms(1)
proof (induction rule: lifetime.induct)
  case (start now t clock ch)
  then show ?case using assms(2) assms(3) by simp
next
  case (execute L d t ce req res handed st)
  note clock = clock_within_bounds [OF execute.hyps(3)]
  have IH: "inv (gs_store (dp_state d))" "Q (gs_evaluator (dp_state d)) (entries (gs_store (dp_state d))) (lf_now L)"
    using execute.IH execute.hyps(2) by simp_all
  from execute.hyps(6,4,7) show ?case
  proof (cases rule: execute_effect)
    case (threw e)
    then show ?thesis using IH later [OF IH(2) clock(1)] by simp
  next
    case (returned r)
    let ?e = "as_stored fu (new_entry (x_kec x) (x_num x) (ce_uuid ce) (ce_clock ce 6) req (ex_decision r) (ex_settlement r))"
    have s: "inv (gs_store st)" "entries (gs_store st) = entries (gs_store (dp_state d)) @ [?e]"
      using insert_entries [OF IH(1) returned(2)] by simp_all
    have e: "entry_intact x ?e" "e_agentId ?e = p_agentId policy" "settled ?e = ex_executed r" "e_request ?e = req"
      "e_timestamp ?e = ce_clock ce 6"
      using execute.hyps(5) returned(3) by (simp_all add: new_entry_intact) (simp_all add: new_entry_def settled_def)
    show ?thesis
    proof (cases "ex_executed r")
      case True
      have "lf_now L \<le> ce_clock ce 5" using clock(2,5) by simp
      then have "Q (PolicyEvaluator_observe (e_request ?e) (ce_clock ce 5) (gs_evaluator (dp_state d)))
          (entries (gs_store (dp_state d)) @ [?e]) (e_timestamp ?e)"
        using paid [OF IH(2) e(1) _ e(2), of "ce_clock ce 5"] e(3-5) True returned(5) clock(3) by simp
      then have "Q (PolicyEvaluator_observe req (ce_clock ce 5) (gs_evaluator (dp_state d)))
          (entries (gs_store (dp_state d)) @ [?e]) t"
        using later clock(4) e(4,5) by simp
      then show ?thesis using s returned(4) True by simp
    next
      case False
      then have "Q (gs_evaluator (dp_state d)) (entries (gs_store (dp_state d)) @ [?e]) t"
        using unpaid [OF later [OF IH(2) clock(1)] e(1)] e(3) by simp
      then show ?thesis using s returned(4) False by simp
    qed
  qed
next
  case (evaluate L d t clock req)
  then show ?case using later [OF conjunct2 [OF evaluate(4)] evaluate(3)] by (simp add: evaluate_frame)
next
  case (reset L d)
  then show ?case by (simp add: AgentGuard_resetCircuitBreaker_def split: option.splits)
next
  case (anchor_now L env t)
  obtain r w where w: "AuditLogger_anchorTick lib (x_kec x) (x_num x) ops (dp_logger (lf_dep L)) env (world_of (lf_dep L)) = (r, w)"
    by fastforce
  then have "inv (w_store w) \<and> entries (w_store w) = entries (gs_store (dp_state (lf_dep L)))"
    using tick_entries [OF w] anchor_now by (simp add: flush_alone_def)
  with w later [OF conjunct2 [OF anchor_now(4)] anchor_now(3)] show ?case by (simp add: AgentGuard_anchorNow_def)
next
  case (anchor_audit L env t)
  obtain r w where w: "AuditLogger_flush lib (x_kec x) (x_num x) ops (dp_logger (lf_dep L)) env (world_of (lf_dep L)) = (r, w)"
    by fastforce
  then have "inv (w_store w) \<and> entries (w_store w) = entries (gs_store (dp_state (lf_dep L)))"
    using flush_entries [OF w] anchor_audit by (simp add: flush_alone_def)
  with w later [OF conjunct2 [OF anchor_audit(5)] anchor_audit(4)] show ?case by (simp add: AgentGuard_anchorAudit_def)
next
  case (reconcile L)
  obtain r w where w: "AuditLogger_reconcile ops (dp_logger (lf_dep L)) (world_of (lf_dep L)) = (r, w)"
    by fastforce
  then have "inv (w_store w) \<and> entries (w_store w) = entries (gs_store (dp_state (lf_dep L)))"
    using reconcile_entries [OF w] reconcile by simp
  with reconcile w show ?case by (simp add: AgentGuard_reconcileAudit_def)
next
  case (restart L d t clock)
  then show ?case using assms(3) by simp
next
  case (chain L ch)
  then show ?case by simp
qed

text \<open>The counterparties that a restart would remember are known to the running guard.\<close>

definition acquainted :: "externals \<Rightarrow> policy \<Rightarrow> guard_config \<Rightarrow> evaluator \<Rightarrow> audit_entry list \<Rightarrow> int \<Rightarrow> bool" where
  "acquainted x policy config ev es now \<longleftrightarrow> ev_policy ev = policy \<and>
     (\<forall>e \<in> set es. e_agentId e = p_agentId policy \<longrightarrow> (entry_intact x e \<longrightarrow> settled e) \<longrightarrow>
        now - lookback_of config \<le> e_timestamp e \<longrightarrow> lower (r_recipient (e_request e)) \<in> ev_seen ev)"

lemma listSince_entries:
  "inv s \<Longrightarrow> set (so_listSince ops agent t s) = {e \<in> set (entries s). e_agentId e = agent \<and> t \<le> e_timestamp e}"
  by (auto simp: listSince_rows)

lemma start_seen:
  assumes "inv s" "remembers config"
  shows "ev_seen (gs_evaluator (dp_state (start_guard x ops None clock policy config s ch))) =
     {lower (r_recipient (e_request e)) | e. e \<in> set (entries s) \<and> e_agentId e = p_agentId policy \<and>
        clock 0 - lookback_of config \<le> e_timestamp e \<and> (entry_intact x e \<longrightarrow> settled e)}"
  unfolding start_guard_evaluator [OF assms(2)] hydrate_seen replayed_def
  by (auto simp: new_evaluator_def listSince_entries [OF assms(1)] image_iff)

lemma lifetime_acquainted:
  assumes "lifetime x ops lib policy config c operator store0 L" "inv store0" "remembers config"
  shows "inv (gs_store (dp_state (lf_dep L))) \<and> acquainted x policy config (gs_evaluator (dp_state (lf_dep L)))
     (entries (gs_store (dp_state (lf_dep L)))) (lf_now L)"
proof (rule lifetime_evaluator_invariant [OF assms(1,2)])
  fix s n t clock ch
  assume s: "inv s" "clock_within n t clock"
  have "clock 0 \<le> t" using clock_within_bounds [OF s(2)] by simp
  then show "acquainted x policy config (gs_evaluator (dp_state (start_guard x ops None clock policy config s ch))) (entries s) t"
    unfolding acquainted_def start_seen [OF s(1) assms(3)]
    by (auto simp: start_guard_evaluator [OF assms(3)]) (simp add: new_evaluator_def)
qed (auto simp: acquainted_def PolicyEvaluator_observe_def)

end

context durable_guard
begin

text \<open>The windows of the running guard hold no more than the log that a restart would replay.\<close>

definition backed :: "externals \<Rightarrow> policy \<Rightarrow> evaluator \<Rightarrow> audit_entry list \<Rightarrow> int \<Rightarrow> bool" where
  "backed x policy ev es now \<longleftrightarrow> ev_policy ev = policy \<and>
     (\<forall>t \<ge> now. meter ev t \<le>
        sum_list (map (\<lambda>e. weight (e_request e)) (filter (counted_row x (p_agentId policy) (since t)) es)))"

lemma lifetime_backed:
  assumes "lifetime x ops lib policy config c operator store0 L" "inv store0" "remembers config" "governed policy"
  shows "inv (gs_store (dp_state (lf_dep L))) \<and> backed x policy (gs_evaluator (dp_state (lf_dep L)))
     (entries (gs_store (dp_state (lf_dep L)))) (lf_now L)"
proof (rule lifetime_evaluator_invariant [OF assms(1,2)])
  fix s n t clock ch
  assume s: "inv s" "clock_within n t clock"
  show "backed x policy (gs_evaluator (dp_state (start_guard x ops None clock policy config s ch))) (entries s) t"
    using restart_meter [OF s(1) assms(3,4), of clock _ x ch] clock_within_bounds [OF s(2)]
    by (simp add: backed_def) (simp add: start_guard_evaluator [OF assms(3)] new_evaluator_def)
next
  fix ev es n e t
  assume q: "backed x policy ev es n" and e: "entry_intact x e" "settled e" "e_agentId e = p_agentId policy"
    "0 < r_amount (e_request e)" "n \<le> t" "t \<le> e_timestamp e"
  have ev: "governed (ev_policy ev)" "ev_policy ev = policy" using q assms(4) by (simp_all add: backed_def)
  have "meter (PolicyEvaluator_observe (e_request e) t ev) u \<le>
      sum_list (map (\<lambda>e. weight (e_request e)) (filter (counted_row x (p_agentId policy) (since u)) (es @ [e])))"
    if "e_timestamp e \<le> u" for u
  proof -
    have "meter ev u \<le> sum_list (map (\<lambda>e. weight (e_request e)) (filter (counted_row x (p_agentId policy) (since u)) es))"
      using q e(5,6) that by (simp add: backed_def)
    then show ?thesis
      using observe [OF ev(1), of "e_request e" t u] weight_nonneg [OF e(4)] e(1-3,6) by (auto simp: counted_row_def)
  qed
  then show "backed x policy (PolicyEvaluator_observe (e_request e) t ev) (es @ [e]) (e_timestamp e)"
    using ev(2) by (simp add: backed_def)
qed (auto simp: backed_def counted_row_def)

lemma restart_counts_more:
  assumes "lifetime x ops lib policy config c operator store0 L" "inv store0" "remembers config" "governed policy"
    and "clock_within (lf_now L) t clock" "t \<le> now"
  shows "meter (gs_evaluator (dp_state (lf_dep L))) now \<le>
     meter (gs_evaluator (dp_state (start_guard x ops None clock policy config (gs_store (dp_state (lf_dep L))) ch))) now"
  using lifetime_backed [OF assms(1-4)] clock_within_bounds [OF assms(5)] assms(6)
    restart_meter [OF _ assms(3,4), of "gs_store (dp_state (lf_dep L))" clock now x ch]
  by (simp add: backed_def)

end

section \<open>The decision after a restart\<close>

definition rule_refuses :: "rule_result \<Rightarrow> bool" where
  "rule_refuses res \<longleftrightarrow> (\<exists>c. rr_check res = Some c \<and> \<not> c_passed c \<and> c_severity c = Critical)"

text \<open>A rule is monotone in the windows it reads and in the counterparties it does not know.\<close>

lemma stricter_context:
  assumes "ctx_req ctx' = ctx_req ctx" "ctx_now ctx' = ctx_now ctx" "restart_safe rule"
    and "\<And>r. rule = SpendCap r \<Longrightarrow> sc_window r = Hour \<or> sc_window r = Day \<Longrightarrow>
      ctx_windowedSpend ctx (sc_window r) (sc_token r) \<le> ctx_windowedSpend ctx' (sc_window r) (sc_token r)"
    and "\<And>r. rule = RateLimit r \<Longrightarrow>
      ctx_recentPaymentCount ctx (rl_windowSeconds r) \<le> ctx_recentPaymentCount ctx' (rl_windowSeconds r)"
    and "\<And>a. ctx_isNewCounterparty ctx a \<Longrightarrow> ctx_isNewCounterparty ctx' a"
  shows "rule_refuses (dispatch pu rule ctx) \<Longrightarrow> rule_refuses (dispatch pu rule ctx')"
    and "rr_escalate (dispatch pu rule ctx) \<Longrightarrow> rr_escalate (dispatch pu rule ctx') \<or> rule_refuses (dispatch pu rule ctx')"
proof -
  have "(rule_refuses (dispatch pu rule ctx) \<longrightarrow> rule_refuses (dispatch pu rule ctx')) \<and>
      (rr_escalate (dispatch pu rule ctx) \<longrightarrow> rr_escalate (dispatch pu rule ctx') \<or> rule_refuses (dispatch pu rule ctx'))"
  proof (cases rule)
    case (SpendCap r)
    show ?thesis
    proof (cases "sc_window r = Transaction")
      case True
      then show ?thesis by (simp add: SpendCap checkSpendCap_def assms(1))
    next
      case False
      then have "ctx_windowedSpend ctx (sc_window r) (sc_token r) \<le> ctx_windowedSpend ctx' (sc_window r) (sc_token r)"
        using assms(3,4) SpendCap by (cases "sc_window r") simp_all
      then show ?thesis using False
        by (auto simp: SpendCap checkSpendCap_def assms(1) rule_refuses_def Let_def rule_defs split: option.splits)
    qed
  next
    case (RateLimit r)
    then show ?thesis using assms(5) [of r] by (auto simp: checkRateLimit_def rule_refuses_def Let_def rule_defs)
  next
    case (Counterparty r)
    then show ?thesis
      using assms(6) [of "r_recipient (ctx_req ctx)"]
      by (auto simp: checkCounterparty_def rule_refuses_def Let_def rule_defs assms(1))
  qed (simp_all add: checkAllowlist_def checkTimeWindow_def assms(1,2) Let_def)
  then show "rule_refuses (dispatch pu rule ctx) \<Longrightarrow> rule_refuses (dispatch pu rule ctx')"
    and "rr_escalate (dispatch pu rule ctx) \<Longrightarrow> rr_escalate (dispatch pu rule ctx') \<or> rule_refuses (dispatch pu rule ctx')"
    by blast+
qed

lemma blocks_rule_refuses:
  "blocks (PolicyEvaluator_evaluate pu ev req now) \<longleftrightarrow>
     (\<exists>r \<in> set (p_rules (ev_policy ev)). rule_refuses (dispatch pu r (rule_context_of ev req now)))"
  unfolding blocks_iff rule_refuses_def ..

section \<open>Properties\<close>

text \<open>
  C22. A restart never loosens the policy: at any point of the life of a guard that hydrates over a day at least, on
  whatever log it began, when the process is restarted, then from that moment on every payment that the policy of
  the running guard would have refused is refused by the rebuilt one, and every payment it would have escalated is
  escalated or refused. The policy has no session cap (a session is one process run) and no rate limit over more
  than a day. The decisions can differ, to the strict side only: the log dates a payment when its entry is written,
  after the window was told of it, and counterparties older than the lookback are new again.
\<close>

theorem restart_never_loosens:
  assumes "lifetime x (sqlite_ops fu) lib policy config c operator store0 L" "sqlite_inv store0" "remembers config"
    and "list_all restart_safe (p_rules policy)" "clock_within (lf_now L) t clock" "t \<le> now"
  shows "let running = gs_evaluator (dp_state (lf_dep L));
       rebuilt = gs_evaluator (dp_state (start_guard x (sqlite_ops fu) None clock policy config (gs_store (dp_state (lf_dep L))) ch));
       before = PolicyEvaluator_evaluate (x_url x) running req now; after = PolicyEvaluator_evaluate (x_url x) rebuilt req now
     in (blocks before \<longrightarrow> blocks after) \<and> (er_escalate before \<longrightarrow> er_escalate after \<or> blocks after)"
proof -
  let ?s = "gs_store (dp_state (lf_dep L))"
  let ?ev = "gs_evaluator (dp_state (lf_dep L))"
  let ?ev' = "gs_evaluator (dp_state (start_guard x (sqlite_ops fu) None clock policy config ?s ch))"
  let ?ctx = "rule_context_of ?ev req now" and ?ctx' = "rule_context_of ?ev' req now"
  have acq: "sqlite_inv ?s" "sqlite_log.acquainted x policy config ?ev (map sr_entry ?s) (lf_now L)"
    using sqlite_log.lifetime_acquainted [OF assms(1-3)] by simp_all
  have policy: "ev_policy ?ev = policy" "ev_policy ?ev' = policy"
    using acq(2) by (simp_all add: sqlite_log.acquainted_def start_guard_evaluator [OF assms(3)]) (simp add: new_evaluator_def)
  have seen: "ev_seen ?ev' \<subseteq> ev_seen ?ev"
    using acq(2) clock_within_bounds(8) [OF assms(5)]
    by (fastforce simp: sqlite_log.start_seen [OF acq(1) assms(3)] sqlite_log.acquainted_def)
  have spend: "windowedSpend ?ev (sc_window r) (sc_token r) now \<le> windowedSpend ?ev' (sc_window r) (sc_token r) now"
    if "SpendCap r \<in> set (p_rules policy)" "sc_window r = Hour \<or> sc_window r = Day" for r
    using sqlite_spend.restart_counts_more [OF assms(1-3) _ assms(5,6), of r] that by (simp add: cap_durable_def)
  have rate: "recentPaymentCount ?ev now (rl_windowSeconds r) \<le> recentPaymentCount ?ev' now (rl_windowSeconds r)"
    if "RateLimit r \<in> set (p_rules policy)" for r
    using sqlite_rate.restart_counts_more [OF assms(1-3) _ assms(5,6), of r] that assms(4)
    by (force simp: limit_durable_def list_all_iff)
  have mono: "rule_refuses (dispatch (x_url x) rule ?ctx) \<Longrightarrow> rule_refuses (dispatch (x_url x) rule ?ctx')"
    "rr_escalate (dispatch (x_url x) rule ?ctx) \<Longrightarrow>
       rr_escalate (dispatch (x_url x) rule ?ctx') \<or> rule_refuses (dispatch (x_url x) rule ?ctx')"
    if "rule \<in> set (p_rules policy)" for rule
    using that assms(4) spend rate seen stricter_context [of ?ctx' ?ctx rule "x_url x"]
    by (auto simp: rule_context_of_def isNewCounterparty_def list_all_iff)
  show ?thesis
    unfolding Let_def blocks_rule_refuses evaluate_escalate policy using mono by blast
qed

text \<open>A guard that settled its one payment of the minute and is restarted at once: both refuse a second one.\<close>

theorem restart_never_loosens_witness:
  "\<exists>d. ex_life \<lparr>lf_dep = d, lf_paid = [(1000, ex_order)], lf_now = 1000\<rparr> \<and>
     blocks (PolicyEvaluator_evaluate (x_url ex_externals) (gs_evaluator (dp_state d)) ex_order 1000) \<and>
     blocks (PolicyEvaluator_evaluate (x_url ex_externals) (gs_evaluator (dp_state
       (start_guard ex_externals (sqlite_ops (\<lambda>n. ''?'')) None (\<lambda>i. 1000) ex_life_policy ex_life_config
          (gs_store (dp_state d)) new_anchor))) ex_order 1000)"
proof -
  obtain d where d: "ex_life \<lparr>lf_dep = d, lf_paid = [(1000, ex_order)], lf_now = 1000\<rparr>"
    "gs_evaluator (dp_state d) = PolicyEvaluator_observe ex_order 1000 (gs_evaluator ex_busy_state)"
    using ex_paid_life by blast
  have "list_all restart_safe (p_rules ex_life_policy)"
    by (simp add: ex_life_policy_def ex_day_cap_def ex_minute_limit_def)
  moreover have "blocks (PolicyEvaluator_evaluate (x_url ex_externals) (gs_evaluator (dp_state d)) ex_order 1000)"
    by (simp add: d(2) blocks_iff ex_busy_state_def PolicyEvaluator_observe_def new_evaluator_def rule_context_of_def rule_defs
        ex_minute_limit_def recentPaymentCount_def Let_def)
  ultimately show ?thesis
    using d(1) restart_never_loosens [OF d(1) _ ex_life_remembers, of 1000 "\<lambda>i. 1000" 1000 new_anchor ex_order]
    by (auto simp: sqlite_inv_def ex_clock Let_def)
qed

end
