(* ===== verification/Spec2Isabelle.thy ===== *)
theory Spec2Isabelle
  imports Simulate Fetch Webhook Verify Server Serde Compiler Integrations Cli Options Adapters Bridge Sidecar Tracing Reconcile Restart
begin

text \<open>
  A model of agentctl, a payment guard for AI agents, and the theorems that make it correct.

  \<^bold>\<open>The program.\<close> An agent asks its guard (\<open>packages/core/src/index.ts\<close>) to evaluate or execute a
  payment. The guard validates the request, asks the circuit breaker, evaluates the policy's rules
  over the recorded spend, scores the payment against the agent's behaviour, asks a language model
  whether the stated intent fits, checks the payee against the registry of resources, and combines
  the findings into \<open>Allow\<close>, \<open>Escalate\<close> or \<open>Block\<close>. An escalated payment waits for a person (the
  approval queue, the webhook, the control plane of \<open>packages/server\<close>). An allowed one is signed by
  the wallet, checked against the request and settled by a facilitator. Every outcome goes to the
  audit log, whose entries are hashed, batched in Merkle trees and anchored in the contract
  \<open>AuditAnchor.sol\<close>; the command line (\<open>packages/cli\<close>) verifies a log against the anchor.

  \<^bold>\<open>Theories and files\<close> (under \<open>src/packages/core/src\<close> where no other place is named):
    \<^item> \<open>Prelude\<close>, \<open>Json\<close>, \<open>Layout\<close>: shared lemmas on lists, strings and maps; \<open>JSON.parse\<close> and
      \<open>JSON.stringify\<close>; the layouts of JSON the programs print (indented, and that of Python).
    \<^item> \<open>Types\<close>: \<open>types.ts\<close>. Requests, policies, decisions, settlements and entries as records.
    \<^item> \<open>Rules\<close>, \<open>Evaluator\<close>, \<open>Spending\<close>, \<open>Simulate\<close>: \<open>policy/rules.ts\<close>, \<open>policy/evaluator.ts\<close> and
      \<open>policy/simulate.ts\<close>. \<open>Spending\<close> holds the runs of a guard and the theorems on caps and limits.
    \<^item> \<open>Compiler\<close>, \<open>Serde\<close>: \<open>policy/compiler.ts\<close>, \<open>policy/schema.ts\<close>, \<open>policy/serde.ts\<close>.
    \<^item> \<open>Breaker\<close>, \<open>Approvals\<close>, \<open>Webhook\<close>: \<open>circuit-breaker.ts\<close>, \<open>approval-queue.ts\<close>, \<open>escalation/webhook.ts\<close>.
    \<^item> \<open>Registry\<close>, \<open>Intent\<close>, \<open>Reconcile\<close>: \<open>intent/registry.ts\<close>, \<open>intent/reconcile.ts\<close>, \<open>llm/client.ts\<close>.
      \<open>Reconcile\<close> holds what the prompt keeps apart and what the check makes of a response.
    \<^item> \<open>Forest\<close>, \<open>Behavioral\<close>: \<open>behavioral/forest.ts\<close>, \<open>behavioral/isolation.ts\<close>, \<open>baseline.ts\<close>, \<open>features.ts\<close>.
    \<^item> \<open>Hashing\<close>, \<open>Store\<close>, \<open>Logger\<close>, \<open>Anchor\<close>, \<open>Verify\<close>: \<open>audit/logger.ts\<close>, \<open>audit/store.ts\<close>,
      \<open>audit/postgres-store.ts\<close>, \<open>audit/merkle.ts\<close>, \<open>audit/anchor.ts\<close>, the contract
      \<open>src/contracts/src/AuditAnchor.sol\<close>, and \<open>verifyEntries\<close> of \<open>src/packages/cli/src/cli.ts\<close>.
    \<^item> \<open>X402\<close>: \<open>x402/eip3009.ts\<close>, \<open>x402/permit2.ts\<close>, \<open>x402/inspect.ts\<close>, \<open>x402/interceptor.ts\<close>,
      \<open>x402/facilitator.ts\<close>. \<open>Constants\<close>: \<open>constants.ts\<close>. \<open>Messages\<close>: the texts of checks and errors.
    \<^item> \<open>Guard\<close>, \<open>Hydration\<close>, \<open>Execute\<close>, \<open>Fetch\<close>, \<open>Interleaving\<close>: \<open>index.ts\<close>; the decision, the restart
      from the log, \<open>execute\<close>, the hooks of \<open>createGuardedFetch\<close>, and many calls of \<open>execute\<close> that
      interleave at the points where the code awaits. \<open>Deployment\<close>, \<open>Ledger\<close>, \<open>Lifetime\<close>, \<open>Restart\<close>: the factory,
      the operations that a guard hands on to its logger, the clients of x402, and the whole life of a guard across
      restarts. \<open>Analytics\<close>: \<open>analytics.ts\<close>.
      \<open>Integrations\<close>: \<open>integrations.ts\<close>. \<open>Adapters\<close>: the wallets under \<open>adapters/\<close>. \<open>Tracing\<close>: \<open>tracing.ts\<close>.
    \<^item> \<open>Engine\<close>, \<open>Sidecar\<close>: the Rust program under \<open>src/crates/agentctl-engine/src\<close>, its forest, the payload it digests
      and its HTTP interface. \<open>Bridge\<close>: the client under \<open>src/packages/python\<close>, which asks \<open>agentctl eval\<close>.
    \<^item> \<open>Server\<close>: \<open>src/packages/server/src/index.ts\<close>. \<open>Cli\<close>, \<open>Commands\<close>: the commands of
      \<open>src/packages/cli/src/cli.ts\<close>; \<open>Commands\<close> holds those that read or compile a policy of the user, \<open>Terminal\<close> the text
      that they print and \<open>Options\<close> the options they declare, with the commands as they run from their arguments.

  \<^bold>\<open>State.\<close> An object of the code is a record that its operations take and return; the fields
  carry the names of the code after a short prefix. A method that throws returns a sum or an option.
  A promise is the state between two calls, so interleavings are sequences of operations or steps.
  The clock and every random choice are arguments, one per call of the code. Amounts are
  \<open>bigint\<close>s, hence \<open>int\<close>; numbers of JavaScript are \<open>int\<close> where they are whole and \<open>real\<close> in the
  behavioral layer, whose generator works on 32-bit words as the code's does.

  \<^bold>\<open>Lemmas.\<close>
    \<^item> Decision: the exact condition for each verdict and its monotonicity; what an execution that hands a payload over
      implies about the approval and the signed payload; the breaker trips at the first excess of its history;
      the text of an agent stays in its block of the prompt, and the intent check obeys a verdict and otherwise passes.
    \<^item> Policy: over every life of a guard, restarts included, the caps of an hour or a day and the rate limits of a
      day at most hold, when its calls run one after the other; over interleaved runs of
      \<open>k\<close> calls the settled sum stays below \<open>k\<close> times the cap and the number of payments in a window
      exceeds the limit by at most \<open>k - 1\<close>, and both bounds are reached; a restart never loosens
      the policy, except for the windows named in its theorem.
    \<^item> Audit: the hash fixes the payment and its outcome; anchored rows verify, edited rows fail; a
      verification by \<open>agentctl audit\<close> that leaves the exit code unset means an empty or a complete log; over every life the log is append-only and holds exactly the settled
      payments, and after an anchoring cycle all of it can be proved on chain; both stores agree; rows and
      policies survive a round trip.
    \<^item> People: the queue's outcome is the first answer or the timeout; an approval over the webhook is
      signed; the control plane changes an approval only with the token, and that of \<open>agentctl serve\<close> none.
    \<^item> Payment: a payload that carries an EVM authorisation is signed for the approved payee and amount; outstanding authorisations of a wallet never share a
      nonce; what a remote provider signs determines the payment.
    \<^item> Other languages: the Rust forest scores as the scorer of the guard does unless it is asked for more trees
      than the address space holds, where it panics; the Rust digest fixes the
      payment, the Python guard runs a tool only when \<open>agentctl eval\<close> approves.
    \<^item> Command line: the exit code and the printed report agree, a clean verification prints one verified line for
      each anchored entry; the text of an intent can forge lines in the output of \<open>check\<close>, but not in that of \<open>eval\<close>.
    \<^item> Bounds and termination: scores, the limiter's burst, the loop that reserves a nonce.

  \<^bold>\<open>Bounds and fuel.\<close> The parser of \<open>Json\<close> takes twice the length of the text plus one as fuel,
  which is enough because every two nested calls consume a character. The loop that reserves a
  nonce is a \<open>partial_function\<close>; \<open>reserve_returns_fresh_nonce\<close> shows that it returns within two draws more than there are
  nonces in flight, when these draws differ, and that otherwise it fails to return only if every draw is in flight. The anchor
  client's polling recurses over the blocks that it is given. Every other loop is structural.

  \<^bold>\<open>Parameters.\<close> What is not under \<open>src/\<close> is an argument: keccak256, HMAC and signatures, the
  Merkle library, the URL parser, address checksums, fetch and the language model, the x402 client and
  the facilitators, the rendering of numbers, and the wallets. Where a theorem needs a law of them (no
  collision of the hash, a tree whose proofs verify) it is a hypothesis, and the theorem's
  witness instantiates it.

  \<^bold>\<open>Not modelled.\<close> The parsing of the command line into options (a library), the process's signals, sockets, the export of spans, the
  wallet providers' SDKs, re-exports, and the
  start-up of the Rust program.
\<close>

end
